(* ===== verification/Prelude.thy ===== *)
theory Prelude
  imports Complex_Main "HOL-Library.AList" "HOL-Library.Char_ord" "HOL-Library.List_Lexorder"
    "HOL-Library.Word" "HOL-Library.Multiset"
begin

text \<open>
  Vocabulary shared by every component of the FaultLab development.

  \<^item> A Go map is an association list with distinct keys (\<open>gomap\<close>).  The order of the list is
    the order in which a \<open>range\<close> loop over the map visits the entries.  Go leaves that order
    open, so a theorem about a loop over a map holds for every order of the list; where the order
    could matter the component states (and proves) that it does not.
  \<^item> A read of a missing key yields the zero value of the element type: \<open>gm_getd\<close>.
  \<^item> \<open>int64\<close> arithmetic is arithmetic on \<open>int\<close> with the wrap-around written out (\<open>wrap64\<close>);
    \<open>uint64\<close> counters are \<open>64 word\<close>s.
  \<^item> A Go \<open>error\<close> result is a sum: \<open>Inl\<close> is the error, \<open>Inr\<close> the value.
\<close>

named_theorems gm_simps \<open>lookups and key sets of Go maps after an update\<close>
named_theorems inv_intros \<open>operations keep the invariant of their component\<close>

type_synonym ('k, 'v) gomap = "('k \<times> 'v) list"
type_synonym u64 = "64 word"

section \<open>Go maps\<close>

lemma fold_invariant:
  "P s \<Longrightarrow> (\<And>x s. x \<in> set xs \<Longrightarrow> P s \<Longrightarrow> P (f x s)) \<Longrightarrow> P (fold f xs s)"
  by (induction xs arbitrary: s) auto

definition gm_wf :: "('k, 'v) gomap \<Rightarrow> bool" where
  "gm_wf m \<longleftrightarrow> distinct (map fst m)"

definition gm_put :: "'k \<Rightarrow> 'v \<Rightarrow> ('k, 'v) gomap \<Rightarrow> ('k, 'v) gomap" where
  "gm_put k v m = AList.update k v m"

definition gm_del :: "'k \<Rightarrow> ('k, 'v) gomap \<Rightarrow> ('k, 'v) gomap" where
  "gm_del k m = AList.delete k m"

definition gm_getd :: "'v \<Rightarrow> ('k, 'v) gomap \<Rightarrow> 'k \<Rightarrow> 'v" where
  "gm_getd d m k = (case map_of m k of None \<Rightarrow> d | Some v \<Rightarrow> v)"

definition gm_keys :: "('k, 'v) gomap \<Rightarrow> 'k list" where
  "gm_keys m = map fst m"

lemma gm_wf_Nil [simp, inv_intros]: "gm_wf []"
  by (simp add: gm_wf_def)

lemma gm_wf_Cons [simp]: "gm_wf ((k, v) # m) \<longleftrightarrow> k \<notin> fst ` set m \<and> gm_wf m"
  by (simp add: gm_wf_def)

lemma gm_wf_put [simp, inv_intros]: "gm_wf m \<Longrightarrow> gm_wf (gm_put k v m)"
  by (simp add: gm_wf_def gm_put_def distinct_update)

lemma gm_wf_del [simp, inv_intros]: "gm_wf m \<Longrightarrow> gm_wf (gm_del k m)"
  by (simp add: gm_wf_def gm_del_def distinct_delete)

lemma map_of_put [simp, gm_simps]: "map_of (gm_put k v m) = (map_of m)(k \<mapsto> v)"
  by (simp add: gm_put_def update_conv')

lemma dom_put: "dom (map_of (gm_put k v m)) = insert k (dom (map_of m))"
  unfolding map_of_put dom_fun_upd by simp

lemma map_of_del [simp, gm_simps]: "map_of (gm_del k m) = (map_of m)(k := None)"
  by (simp add: gm_del_def delete_conv')

lemma gm_getd_Nil [simp]: "gm_getd d [] k = d"
  by (simp add: gm_getd_def)

lemma gm_getd_put [simp, gm_simps]:
  "gm_getd d (gm_put k v m) k' = (if k' = k then v else gm_getd d m k')"
  by (simp add: gm_getd_def)

lemma gm_getd_del [simp, gm_simps]:
  "gm_getd d (gm_del k m) k' = (if k' = k then d else gm_getd d m k')"
  by (simp add: gm_getd_def)

lemma gm_getd_Some: "map_of m k = Some v \<Longrightarrow> gm_getd d m k = v"
  by (simp add: gm_getd_def)

lemma gm_getd_None: "map_of m k = None \<Longrightarrow> gm_getd d m k = d"
  by (simp add: gm_getd_def)

lemma set_gm_keys: "set (gm_keys m) = dom (map_of m)"
  by (simp add: gm_keys_def dom_map_of_conv_image_fst)

lemma length_gm_del: "k \<in> set (gm_keys m) \<Longrightarrow> length (gm_del k m) + 1 \<le> length m"
  by (induction m) (auto simp: gm_keys_def gm_del_def AList.length_delete_le Suc_le_mono)

lemma gm_wf_map_snd [simp]: "gm_wf (map (\<lambda>(k, v). (k, f k v)) m) \<longleftrightarrow> gm_wf m"
  by (simp add: gm_wf_def case_prod_unfold comp_def)

lemma gm_wf_filter [simp]: "gm_wf m \<Longrightarrow> gm_wf (filter P m)"
  by (induction m) (auto simp: gm_wf_def)

lemma map_of_map_snd: "map_of (map (\<lambda>(k, v). (k, f k v)) m) k = map_option (f k) (map_of m k)"
  by (induction m) auto

lemma map_of_filter_wf:
  "gm_wf m \<Longrightarrow> map_of (filter P m) k =
     (case map_of m k of None \<Rightarrow> None | Some v \<Rightarrow> if P (k, v) then Some v else None)"
proof (induction m)
  case (Cons p m)
  obtain k' v where p: "p = (k', v)" by force
  have "k' \<notin> fst ` set m \<Longrightarrow> map_of m k' = None"
    by (simp add: map_of_eq_None_iff)
  with Cons p show ?case
    by (auto simp: map_of_eq_None_iff split: option.splits)
qed simp

lemma map_of_in_set: "gm_wf m \<Longrightarrow> (k, v) \<in> set m \<longleftrightarrow> map_of m k = Some v"
  by (simp add: gm_wf_def)

lemma gm_values: "gm_wf m \<Longrightarrow> v \<in> set (map snd m) \<longleftrightarrow> (\<exists>k. map_of m k = Some v)"
  unfolding map_of_in_set [symmetric] by force

text \<open>A loop that copies a map entry by entry, and one that builds a map from a list of keys.\<close>

definition gm_copy :: "('k, 'v) gomap \<Rightarrow> ('k, 'v) gomap" where
  "gm_copy m = fold (\<lambda>(k, v) acc. gm_put k v acc) m []"

definition gm_mark :: "'k list \<Rightarrow> ('k, bool) gomap \<Rightarrow> ('k, bool) gomap" where
  "gm_mark ks m = fold (\<lambda>k acc. gm_put k True acc) ks m"

lemma fold_put_fresh:
  "distinct (map fst m) \<Longrightarrow> fst ` set m \<inter> fst ` set acc = {} \<Longrightarrow>
     fold (\<lambda>(k, v) acc. gm_put k v acc) m acc = acc @ m"
proof (induction m arbitrary: acc)
  case (Cons p m)
  obtain k v where p: "p = (k, v)" by force
  have "k \<notin> fst ` set acc" using Cons.prems p by auto
  then have put: "gm_put k v acc = acc @ [(k, v)]"
    unfolding gm_put_def by (induction acc) auto
  have "fold (\<lambda>(k, v) acc. gm_put k v acc) m (acc @ [(k, v)]) = (acc @ [(k, v)]) @ m"
    by (rule Cons.IH) (use Cons.prems p in auto)
  with put p show ?case by simp
qed simp

lemma gm_copy_id [simp]: "gm_wf m \<Longrightarrow> gm_copy m = m"
  using fold_put_fresh [of m "[]"] by (simp add: gm_copy_def gm_wf_def)

text \<open>A loop that selects and converts entries of a map.\<close>

lemma fold_put_select_acc:
  "gm_wf m \<Longrightarrow> fst ` set m \<inter> fst ` set acc = {} \<Longrightarrow>
     fold (\<lambda>(k, v) acc. if P k v then gm_put k (f k v) acc else acc) m acc =
     acc @ map (\<lambda>(k, v). (k, f k v)) (filter (\<lambda>(k, v). P k v) m)"
proof (induction m arbitrary: acc)
  case (Cons p m)
  obtain k v where p: "p = (k, v)" by force
  have "k \<notin> fst ` set acc" using Cons.prems p by auto
  then have put: "gm_put k (f k v) acc = acc @ [(k, f k v)]"
    unfolding gm_put_def by (induction acc) auto
  let ?acc = "if P k v then acc @ [(k, f k v)] else acc"
  have "fold (\<lambda>(k, v) acc. if P k v then gm_put k (f k v) acc else acc) m ?acc =
      ?acc @ map (\<lambda>(k, v). (k, f k v)) (filter (\<lambda>(k, v). P k v) m)"
    by (rule Cons.IH) (use Cons.prems p in auto)
  with put p show ?case by auto
qed simp

lemma fold_put_select:
  "gm_wf m \<Longrightarrow> fold (\<lambda>(k, v) acc. if P k v then gm_put k (f k v) acc else acc) m [] =
     map (\<lambda>(k, v). (k, f k v)) (filter (\<lambda>(k, v). P k v) m)"
  using fold_put_select_acc [of m "[]" P f] by simp

lemma fold_put_map:
  "gm_wf m \<Longrightarrow> fold (\<lambda>(k, v) acc. gm_put k (f k v) acc) m [] = map (\<lambda>(k, v). (k, f k v)) m"
  using fold_put_select [of m "\<lambda>_ _. True" f] by simp

lemma gm_wf_mark [simp]: "gm_wf m \<Longrightarrow> gm_wf (gm_mark ks m)"
  unfolding gm_mark_def by (rule fold_invariant) auto

lemma map_of_mark: "map_of (gm_mark ks m) k = (if k \<in> set ks then Some True else map_of m k)"
  unfolding gm_mark_def by (induction ks arbitrary: m) auto

lemma set_keys_mark: "set (gm_keys (gm_mark ks m)) = set ks \<union> set (gm_keys m)"
  by (auto simp: set_gm_keys dom_def map_of_mark)

text \<open>
  The interface of a keyed store, as the components rely on it: what a lookup returns after an
  update or a removal, and that both keep the keys distinct.
\<close>

locale keyed_store =
  fixes empty_st :: 's
    and lookup_st :: "'s \<Rightarrow> 'k \<Rightarrow> 'v option"
    and insert_st :: "'k \<Rightarrow> 'v \<Rightarrow> 's \<Rightarrow> 's"
    and remove_st :: "'k \<Rightarrow> 's \<Rightarrow> 's"
    and wf_st :: "'s \<Rightarrow> bool"
  assumes lookup_empty: "lookup_st empty_st k = None"
    and lookup_insert: "wf_st s \<Longrightarrow> lookup_st (insert_st k v s) = (lookup_st s)(k \<mapsto> v)"
    and lookup_remove: "wf_st s \<Longrightarrow> lookup_st (remove_st k s) = (lookup_st s)(k := None)"
    and wf_empty: "wf_st empty_st"
    and wf_insert: "wf_st s \<Longrightarrow> wf_st (insert_st k v s)"
    and wf_remove: "wf_st s \<Longrightarrow> wf_st (remove_st k s)"
begin

lemma fold_insert_wf: "wf_st s \<Longrightarrow> wf_st (fold (\<lambda>(k, v). insert_st k v) kvs s)"
  by (induction kvs arbitrary: s) (auto intro: wf_insert)

lemma fold_insert_lookup:
  "wf_st s \<Longrightarrow> lookup_st (fold (\<lambda>(k, v). insert_st k v) kvs s) = lookup_st s ++ map_of (rev kvs)"
  by (induction kvs arbitrary: s) (auto simp: lookup_insert wf_insert)

lemma fold_remove_wf: "wf_st s \<Longrightarrow> wf_st (fold remove_st ks s)"
  by (induction ks arbitrary: s) (auto intro: wf_remove)

lemma fold_remove_lookup:
  "wf_st s \<Longrightarrow> lookup_st (fold remove_st ks s) = (lookup_st s) |` (- set ks)"
  by (induction ks arbitrary: s)
    (auto simp: lookup_remove wf_remove restrict_map_def fun_eq_iff)

end

interpretation gm: keyed_store "[]" map_of gm_put gm_del gm_wf
  by unfold_locales auto

text \<open>A property of every entry survives updates with entries that have it, and removals.\<close>

lemma list_all_put: "list_all P m \<Longrightarrow> P (k, v) \<Longrightarrow> list_all P (gm_put k v m)"
  by (induction m) (auto simp: gm_put_def)

lemma list_all_del: "list_all P m \<Longrightarrow> list_all P (gm_del k m)"
  by (induction m) (auto simp: gm_del_def)

lemma list_all_map_of: "list_all P m \<Longrightarrow> map_of m k = Some v \<Longrightarrow> P (k, v)"
  by (auto simp: list_all_iff dest: map_of_SomeD)

section \<open>Components as machines\<close>

text \<open>
  A component whose operations run one at a time under its lock: a step function over its
  operations and an invariant that each step keeps.  Then every sequence of calls keeps it.
\<close>

locale locked_component =
  fixes step :: "'op \<Rightarrow> 's \<Rightarrow> 's"
    and inv :: "'s \<Rightarrow> bool"
  assumes step_inv: "inv s \<Longrightarrow> inv (step c s)"
begin

lemma run_inv: "inv s \<Longrightarrow> inv (fold step cs s)"
  by (rule fold_invariant) (auto intro: step_inv)

end

section \<open>Machine integers\<close>

definition i64_min :: int where "i64_min = - (2 ^ 63)"
definition i64_max :: int where "i64_max = 2 ^ 63 - 1"

text \<open>Reduction of an integer to the \<open>int64\<close> range, as Go's arithmetic does it.\<close>

definition wrap64 :: "int \<Rightarrow> int" where
  "wrap64 x = (x + 2 ^ 63) mod 2 ^ 64 - 2 ^ 63"

lemma wrap64_id: "i64_min \<le> x \<Longrightarrow> x \<le> i64_max \<Longrightarrow> wrap64 x = x"
  by (simp add: wrap64_def i64_min_def i64_max_def)

lemma wrap64_range: "i64_min \<le> wrap64 x \<and> wrap64 x \<le> i64_max"
proof -
  have "0 \<le> (x + 2 ^ 63) mod 2 ^ 64" "(x + 2 ^ 63) mod 2 ^ 64 < 2 ^ 64"
    by simp_all
  then show ?thesis by (simp add: wrap64_def i64_min_def i64_max_def)
qed

lemma mod_shift: "(a + c) mod m = (b + c) mod m \<longleftrightarrow> a mod m = b mod (m :: int)"
  by (simp add: mod_eq_dvd_iff)

lemma wrap64_eq_iff: "wrap64 a = wrap64 b \<longleftrightarrow> a mod 2 ^ 64 = b mod 2 ^ 64"
  using mod_shift [of a "2 ^ 63" "2 ^ 64" b] unfolding wrap64_def by linarith

lemma wrap64_mod: "wrap64 a mod 2 ^ 64 = a mod 2 ^ 64"
  by (simp add: wrap64_def mod_simps)

lemma wrap64_add: "wrap64 (wrap64 a + b) = wrap64 (a + b)" "wrap64 (a + wrap64 b) = wrap64 (a + b)"
  by (rule wrap64_eq_iff [THEN iffD2], rule mod_add_cong, simp_all only: wrap64_mod)+

lemma wrap64_wrap [simp]: "wrap64 (wrap64 a) = wrap64 a"
  by (rule wrap64_eq_iff [THEN iffD2], rule wrap64_mod)

text \<open>Increments below the maximum do not wrap, at either width.\<close>

lemma wrap64_Suc: "0 \<le> x \<Longrightarrow> x < i64_max \<Longrightarrow> wrap64 (x + 1) = x + 1"
  by (rule wrap64_id) (auto simp: i64_min_def)

lemma u64_Suc: "unat (t :: u64) < 2 ^ 64 - 1 \<Longrightarrow> unat (t + 1) = unat t + 1"
  by (simp add: unat_word_ariths)

lemma u64_diff: "a \<le> b \<Longrightarrow> unat ((b :: u64) - a) = unat b - unat a"
  by (simp add: unat_sub)

text \<open>\<open>time.Time.Sub\<close> and \<open>time.Since\<close> saturate at the bounds of an \<open>int64\<close> duration.\<close>

definition time_sub :: "int \<Rightarrow> int \<Rightarrow> int" where
  "time_sub a b = max i64_min (min i64_max (a - b))"

section \<open>Floating point\<close>

text \<open>
  A \<open>float64\<close> as its comparisons see it: not a number, an infinity, or a number.  The program
  only stores and compares these values, so finite values are kept exact.
\<close>

datatype f64 = NaN | Inf bool | Fin rat

fun f64_lt :: "f64 \<Rightarrow> f64 \<Rightarrow> bool" where
  "f64_lt NaN _ = False"
| "f64_lt _ NaN = False"
| "f64_lt (Fin a) (Fin b) = (a < b)"
| "f64_lt (Fin a) (Inf neg) = (\<not> neg)"
| "f64_lt (Inf neg) (Fin b) = neg"
| "f64_lt (Inf n1) (Inf n2) = (n1 \<and> \<not> n2)"

section \<open>Lists\<close>

lemma sum_list_map_filter_count:
  "(\<Sum>x\<leftarrow>xs. if P x then c else (0 :: int)) = int (length (filter P xs)) * c"
  by (induction xs) (auto simp: algebra_simps)

lemma distinct_snoc: "distinct (xs @ [x]) \<longleftrightarrow> distinct xs \<and> x \<notin> set xs"
  by auto

lemma find_sorted_Min:
  "sorted (map f xs) \<Longrightarrow> map_option f (find P xs) =
     (if \<exists>x \<in> set xs. P x then Some (Min (f ` {x \<in> set xs. P x})) else None)"
  for f :: "'a \<Rightarrow> 'b :: linorder"
proof (induction xs)
  case (Cons x xs)
  show ?case
  proof (cases "P x")
    case True
    have "Min (f ` {y \<in> set (x # xs). P y}) = f x"
      by (rule Min_eqI) (use Cons.prems True in auto)
    with True show ?thesis by auto
  next
    case False
    then have "{y \<in> set (x # xs). P y} = {y \<in> set xs. P y}" by auto
    with False Cons show ?thesis by simp
  qed
qed simp

end
