(* ===== verification/GoStrings.thy ===== *)
theory GoStrings
  imports Prelude
begin

text \<open>
  The parts of Go's \<open>strings\<close> and \<open>strconv\<close> packages the program calls, on byte strings
  (HOL \<open>string\<close>s).  White space and letter case are the ASCII ones; text with multi-byte Unicode
  white space is outside the model.  The conversions return Go's value and error: a failed
  \<open>Atoi\<close> gives 0 on a syntax error and the nearest bound on a range error, which callers that
  drop the error observe.  The lemmas are the round trips the components rely on: \<open>%d\<close> formatting
  and parsing, joining and splitting, and cutting a string at a separator.
\<close>

section \<open>Trimming and fields\<close>

definition is_space :: "char \<Rightarrow> bool" where
  "is_space c \<longleftrightarrow> c = CHR '' '' \<or> c = CHR 0x09 \<or> c = CHR 0x0A \<or> c = CHR 0x0B \<or> c = CHR 0x0C \<or> c = CHR 0x0D"

definition trim_left :: "string \<Rightarrow> string" where
  "trim_left s = dropWhile is_space s"

definition trim_right :: "string \<Rightarrow> string" where
  "trim_right s = rev (dropWhile is_space (rev s))"

definition trim_space :: "string \<Rightarrow> string" where
  "trim_space s = trim_right (trim_left s)"

text \<open>\<open>strings.Trim(s, cutset)\<close> for a one-character cutset.\<close>

definition trim_char :: "char \<Rightarrow> string \<Rightarrow> string" where
  "trim_char c s = rev (dropWhile ((=) c) (rev (dropWhile ((=) c) s)))"

text \<open>\<open>strings.Fields\<close>: the maximal runs of non-space bytes.\<close>

fun fields_acc :: "string \<Rightarrow> string \<Rightarrow> string list" where
  "fields_acc acc [] = (if acc = [] then [] else [rev acc])"
| "fields_acc acc (c # cs) =
     (if is_space c then (if acc = [] then fields_acc [] cs else rev acc # fields_acc [] cs)
      else fields_acc (c # acc) cs)"

definition str_fields :: "string \<Rightarrow> string list" where
  "str_fields s = fields_acc [] s"

text \<open>A word has no white space and is not empty: what \<open>str_fields\<close> returns.\<close>

definition is_word :: "string \<Rightarrow> bool" where
  "is_word w \<longleftrightarrow> w \<noteq> [] \<and> list_all (\<lambda>c. \<not> is_space c) w"

lemma is_wordD: "is_word w \<Longrightarrow> c \<in> set w \<Longrightarrow> \<not> is_space c"
  by (auto simp: is_word_def list_all_iff)

lemma is_word_ne [simp]: "is_word w \<Longrightarrow> w \<noteq> []"
  by (simp add: is_word_def)

lemma fields_acc_append:
  "list_all (\<lambda>c. \<not> is_space c) w \<Longrightarrow> fields_acc acc (w @ s) = fields_acc (rev w @ acc) s"
  by (induction w arbitrary: acc) auto

lemma fields_word: "is_word w \<Longrightarrow> str_fields w = [w]"
  using fields_acc_append [of w "[]" "[]"] by (auto simp: str_fields_def is_word_def)

lemma fields_word_space: "is_word w \<Longrightarrow> is_space c \<Longrightarrow> str_fields (w @ c # s) = w # str_fields s"
  using fields_acc_append [of w "[]" "c # s"] by (auto simp: str_fields_def is_word_def)

lemma fields_space: "is_space c \<Longrightarrow> str_fields (c # s) = str_fields s"
  by (simp add: str_fields_def)

lemma fields_acc_words:
  "list_all (\<lambda>c. \<not> is_space c) acc \<Longrightarrow> w \<in> set (fields_acc acc s) \<Longrightarrow> is_word w"
  by (induction acc s rule: fields_acc.induct) (auto simp: is_word_def split: if_splits)

lemma fields_words: "w \<in> set (str_fields s) \<Longrightarrow> is_word w"
  unfolding str_fields_def by (rule fields_acc_words [of "[]"]) simp

lemma trim_left_word: "is_word w \<Longrightarrow> trim_left (w @ s) = w @ s"
  by (cases w) (auto simp: trim_left_def is_word_def)

lemma trim_space_word [simp]: "is_word w \<Longrightarrow> trim_space w = w"
proof -
  assume w: "is_word w"
  then have "is_word (rev w)" by (simp add: is_word_def list_all_iff)
  then have "dropWhile is_space (rev w) = rev w"
    using trim_left_word [of "rev w" "[]"] by (simp add: trim_left_def)
  then show ?thesis using trim_left_word [OF w, of "[]"]
    by (simp add: trim_space_def trim_right_def)
qed

lemma trim_space_Nil [simp]: "trim_space [] = []"
  by (simp add: trim_space_def trim_left_def trim_right_def)

lemma trim_right_nospace_last: "s \<noteq> [] \<Longrightarrow> \<not> is_space (last s) \<Longrightarrow> trim_right s = s"
  by (cases s rule: rev_cases) (auto simp: trim_right_def)

lemma trim_left_eq_Nil: "trim_left s = [] \<longleftrightarrow> list_all is_space s"
  by (auto simp: trim_left_def list_all_iff)

lemma trim_space_eq_Nil: "trim_space s = [] \<longleftrightarrow> list_all is_space s"
proof -
  have "trim_space s = [] \<longleftrightarrow> (\<forall>x \<in> set (trim_left s). is_space x)"
    by (auto simp: trim_space_def trim_right_def)
  also have "\<dots> \<longleftrightarrow> trim_left s = []"
    unfolding trim_left_def
    by (metis dropWhile_eq_Nil_conv hd_dropWhile list.set_sel(1) empty_iff set_empty)
  finally show ?thesis by (simp add: trim_left_eq_Nil)
qed

lemma trim_space_idem: "trim_space (trim_space s) = trim_space s"
proof (cases "trim_left s = []")
  case False
  define t where "t = trim_left s"
  have h: "\<not> is_space (hd t)" using False hd_dropWhile [of is_space s] by (simp add: t_def trim_left_def)
  obtain r where r: "t = trim_right t @ r" "list_all is_space r"
  proof
    show "t = trim_right t @ rev (takeWhile is_space (rev t))"
      unfolding trim_right_def by (metis rev_append rev_rev_ident takeWhile_dropWhile_id)
    show "list_all is_space (rev (takeWhile is_space (rev t)))" by (auto simp: list_all_iff dest: set_takeWhileD)
  qed
  have ne: "trim_right t \<noteq> []"
  proof
    assume "trim_right t = []"
    then have "list_all is_space t" using r by simp
    then show False using h False by (cases t) (auto simp: t_def)
  qed
  have "hd (trim_right t) = hd t" using r(1) ne by (metis hd_append2)
  then have l: "trim_left (trim_right t) = trim_right t" using h ne by (cases "trim_right t") (auto simp: trim_left_def)
  have "dropWhile is_space (rev t) \<noteq> []" using ne by (simp add: trim_right_def)
  then have "\<not> is_space (last (trim_right t))" using hd_dropWhile [of is_space "rev t"] by (simp add: trim_right_def last_rev)
  then have "trim_right (trim_right t) = trim_right t" by (rule trim_right_nospace_last [OF ne])
  then show ?thesis by (simp add: trim_space_def t_def [symmetric] l)
next
  case True
  then show ?thesis by (simp add: trim_space_def) (simp add: trim_left_def trim_right_def)
qed

section \<open>Substrings and separators\<close>

definition has_prefix :: "string \<Rightarrow> string \<Rightarrow> bool" where
  "has_prefix s p \<longleftrightarrow> take (length p) s = p"

definition has_suffix :: "string \<Rightarrow> string \<Rightarrow> bool" where
  "has_suffix s p \<longleftrightarrow> has_prefix (rev s) (rev p)"

definition trim_prefix :: "string \<Rightarrow> string \<Rightarrow> string" where
  "trim_prefix s p = (if has_prefix s p then drop (length p) s else s)"

definition trim_suffix :: "string \<Rightarrow> string \<Rightarrow> string" where
  "trim_suffix s p = (if has_suffix s p then take (length s - length p) s else s)"

fun contains_str :: "string \<Rightarrow> string \<Rightarrow> bool" where
  "contains_str [] p = (p = [])"
| "contains_str (c # cs) p = (has_prefix (c # cs) p \<or> contains_str cs p)"

text \<open>
  \<open>cut_at c s\<close> is the text before and after the first \<open>c\<close> (\<open>strings.Index\<close>, \<open>SplitN(s, c, 2)\<close>);
  \<open>cut_last c s\<close> cuts at the last one (\<open>strings.LastIndex\<close>).
\<close>

definition cut_at :: "char \<Rightarrow> string \<Rightarrow> (string \<times> string) option" where
  "cut_at c s = (if c \<in> set s
     then Some (takeWhile (\<lambda>x. x \<noteq> c) s, tl (dropWhile (\<lambda>x. x \<noteq> c) s)) else None)"

definition cut_last :: "char \<Rightarrow> string \<Rightarrow> (string \<times> string) option" where
  "cut_last c s = (case cut_at c (rev s) of None \<Rightarrow> None | Some (b, a) \<Rightarrow> Some (rev a, rev b))"

text \<open>\<open>strings.Split\<close> with a one-character separator; the empty string splits to itself.\<close>

fun split_acc :: "char \<Rightarrow> string \<Rightarrow> string \<Rightarrow> string list" where
  "split_acc sep acc [] = [rev acc]"
| "split_acc sep acc (c # cs) =
     (if c = sep then rev acc # split_acc sep [] cs else split_acc sep (c # acc) cs)"

definition split_on :: "char \<Rightarrow> string \<Rightarrow> string list" where
  "split_on sep s = split_acc sep [] s"

text \<open>\<open>strings.SplitN(s, sep, 2)\<close> for a separator of any length.\<close>

fun cut_str_acc :: "string \<Rightarrow> string \<Rightarrow> string \<Rightarrow> (string \<times> string) option" where
  "cut_str_acc sep acc [] = None"
| "cut_str_acc sep acc (c # cs) =
     (if has_prefix (c # cs) sep then Some (rev acc, drop (length sep) (c # cs))
      else cut_str_acc sep (c # acc) cs)"

definition cut_str :: "string \<Rightarrow> string \<Rightarrow> (string \<times> string) option" where
  "cut_str sep s = cut_str_acc sep [] s"

fun join_with :: "string \<Rightarrow> string list \<Rightarrow> string" where
  "join_with sep [] = []"
| "join_with sep [x] = x"
| "join_with sep (x # y # zs) = x @ sep @ join_with sep (y # zs)"

definition to_lower_char :: "char \<Rightarrow> char" where
  "to_lower_char c = (let n = of_char c :: nat in if 65 \<le> n \<and> n \<le> 90 then char_of (n + 32) else c)"

definition to_lower :: "string \<Rightarrow> string" where
  "to_lower s = map to_lower_char s"

lemma has_prefix_append [simp]: "has_prefix (p @ s) p"
  by (simp add: has_prefix_def)

lemma trim_prefix_append [simp]: "trim_prefix (p @ s) p = s"
  by (simp add: trim_prefix_def)

lemma cut_at_append [simp]: "c \<notin> set a \<Longrightarrow> cut_at c (a @ c # b) = Some (a, b)"
  by (induction a) (auto simp: cut_at_def)

lemma cut_at_None [simp]: "c \<notin> set s \<Longrightarrow> cut_at c s = None"
  by (simp add: cut_at_def)

lemma cut_last_append [simp]: "c \<notin> set b \<Longrightarrow> cut_last c (a @ c # b) = Some (a, b)"
  by (simp add: cut_last_def)

lemma split_acc_nosep: "sep \<notin> set s \<Longrightarrow> split_acc sep acc s = [rev acc @ s]"
  by (induction s arbitrary: acc) auto

lemma split_acc_sep:
  "sep \<notin> set a \<Longrightarrow> split_acc sep acc (a @ sep # b) = (rev acc @ a) # split_acc sep [] b"
  by (induction a arbitrary: acc) auto

lemma split_on_nosep [simp]: "sep \<notin> set s \<Longrightarrow> split_on sep s = [s]"
  by (simp add: split_on_def split_acc_nosep)

lemma split_on_sep [simp]: "sep \<notin> set a \<Longrightarrow> split_on sep (a @ sep # b) = a # split_on sep b"
  by (simp add: split_on_def split_acc_sep)

lemma split_on_ne [simp]: "split_on sep s \<noteq> []"
proof -
  have "split_acc sep acc s \<noteq> []" for acc
    by (induction s arbitrary: acc) auto
  then show ?thesis by (simp add: split_on_def)
qed

lemma split_join:
  "xs \<noteq> [] \<Longrightarrow> (\<forall>x \<in> set xs. sep \<notin> set x) \<Longrightarrow> split_on sep (join_with [sep] xs) = xs"
  by (induction "[sep]" xs rule: join_with.induct) auto

section \<open>Numbers and flags\<close>

datatype num_err = ErrSyntax | ErrRange

definition digit_val :: "char \<Rightarrow> nat option" where
  "digit_val c = (let n = of_char c :: nat in if 48 \<le> n \<and> n \<le> 57 then Some (n - 48) else None)"

definition digit_char :: "nat \<Rightarrow> char" where
  "digit_char n = ''0123456789'' ! n"

text \<open>The loop of \<open>ParseUint\<close> in base 10, with its overflow test before each digit.\<close>

fun uint_loop :: "nat \<Rightarrow> string \<Rightarrow> num_err + nat" where
  "uint_loop n [] = Inr n"
| "uint_loop n (c # cs) = (case digit_val c of
     None \<Rightarrow> Inl ErrSyntax
   | Some d \<Rightarrow> if 2 ^ 64 \<le> n * 10 + d then Inl ErrRange else uint_loop (n * 10 + d) cs)"

definition parse_uint :: "string \<Rightarrow> num_err + nat" where
  "parse_uint s = (if s = [] then Inl ErrSyntax else uint_loop 0 s)"

definition split_sign :: "string \<Rightarrow> bool \<times> string" where
  "split_sign s = (case s of
     [] \<Rightarrow> (False, [])
   | c # cs \<Rightarrow> if c = CHR ''-'' then (True, cs) else if c = CHR ''+'' then (False, cs) else (False, s))"

text \<open>\<open>ParseInt(s, 10, 64)\<close>: the value Go returns, and the error.\<close>

definition parse_int :: "string \<Rightarrow> int \<times> num_err option" where
  "parse_int s = (let (neg, ds) = split_sign s in
     case parse_uint ds of
       Inl ErrSyntax \<Rightarrow> (0, Some ErrSyntax)
     | Inl ErrRange \<Rightarrow> (if neg then i64_min else i64_max, Some ErrRange)
     | Inr n \<Rightarrow>
         if \<not> neg \<and> 2 ^ 63 \<le> n then (i64_max, Some ErrRange)
         else if neg \<and> 2 ^ 63 < n then (i64_min, Some ErrRange)
         else (if neg then - int n else int n, None))"

definition atoi :: "string \<Rightarrow> num_err + int" where
  "atoi s = (case parse_int s of (v, None) \<Rightarrow> Inr v | (_, Some e) \<Rightarrow> Inl e)"

definition parse_bool :: "string \<Rightarrow> bool option" where
  "parse_bool s =
     (if s \<in> {''1'', ''t'', ''T'', ''TRUE'', ''true'', ''True''} then Some True
      else if s \<in> {''0'', ''f'', ''F'', ''FALSE'', ''false'', ''False''} then Some False
      else None)"

text \<open>The verbs \<open>%d\<close> and \<open>%t\<close>.\<close>

fun show_nat :: "nat \<Rightarrow> string" where
  "show_nat n = (if n < 10 then [digit_char n] else show_nat (n div 10) @ [digit_char (n mod 10)])"

declare show_nat.simps [simp del]

definition show_int :: "int \<Rightarrow> string" where
  "show_int i = (if i < 0 then CHR ''-'' # show_nat (nat (- i)) else show_nat (nat i))"

definition show_bool :: "bool \<Rightarrow> string" where
  "show_bool b = (if b then ''true'' else ''false'')"

lemma lt10_cases:
  "(n :: nat) < 10 \<Longrightarrow> n = 0 \<or> n = 1 \<or> n = 2 \<or> n = 3 \<or> n = 4 \<or> n = 5 \<or> n = 6 \<or> n = 7 \<or> n = 8 \<or> n = 9"
  by auto

lemma digit_val_char [simp]: "n < 10 \<Longrightarrow> digit_val (digit_char n) = Some n"
  by (drule lt10_cases) (auto simp: digit_val_def digit_char_def)

lemma digit_char_props:
  "n < 10 \<Longrightarrow> digit_char n \<noteq> CHR ''-'' \<and> digit_char n \<noteq> CHR ''+'' \<and> \<not> is_space (digit_char n)
     \<and> digit_char n \<noteq> CHR '':'' \<and> digit_char n \<noteq> CHR ''|'' \<and> digit_char n \<noteq> CHR '','' \<and> digit_char n \<noteq> CHR ''@''
     \<and> digit_char n \<noteq> CHR ''%''"
  by (drule lt10_cases) (auto simp: digit_char_def is_space_def)

lemma show_nat_digits: "c \<in> set (show_nat n) \<Longrightarrow> \<exists>d < 10. c = digit_char d"
proof (induction n rule: show_nat.induct)
  case (1 n)
  show ?case
  proof (cases "n < 10")
    case True
    with 1 show ?thesis by (auto simp: show_nat.simps [of n])
  next
    case False
    have "\<exists>d < 10. digit_char (n mod 10) = digit_char d"
      by (rule exI [of _ "n mod 10"]) simp
    with False 1 show ?thesis by (auto simp: show_nat.simps [of n])
  qed
qed

lemma show_nat_ne [simp]: "show_nat n \<noteq> []"
  by (subst show_nat.simps) simp

lemma uint_loop_append:
  "uint_loop n (s @ t) = (case uint_loop n s of Inl e \<Rightarrow> Inl e | Inr m \<Rightarrow> uint_loop m t)"
  by (induction n s rule: uint_loop.induct) (auto split: option.splits)

lemma uint_loop_show: "n < 2 ^ 64 \<Longrightarrow> uint_loop 0 (show_nat n) = Inr n"
proof (induction n rule: show_nat.induct)
  case (1 n)
  show ?case
  proof (cases "n < 10")
    case True
    with 1 show ?thesis by (simp add: show_nat.simps [of n])
  next
    case False
    then have *: "uint_loop 0 (show_nat (n div 10)) = Inr (n div 10)"
      using 1 by simp
    have "n div 10 * 10 + n mod 10 = n" by simp
    with False 1(2) show ?thesis
      by (simp add: show_nat.simps [of n] uint_loop_append *)
  qed
qed

lemma parse_uint_show: "n < 2 ^ 64 \<Longrightarrow> parse_uint (show_nat n) = Inr n"
  by (simp add: parse_uint_def uint_loop_show)

lemma split_sign_show: "split_sign (show_nat n) = (False, show_nat n)"
proof -
  have "hd (show_nat n) \<in> set (show_nat n)" by simp
  then obtain d where "d < 10" "hd (show_nat n) = digit_char d"
    using show_nat_digits by blast
  then show ?thesis
    using digit_char_props [of d] by (cases "show_nat n") (auto simp: split_sign_def)
qed

lemma parse_int_show:
  assumes "i64_min \<le> i" "i \<le> i64_max"
  shows "parse_int (show_int i) = (i, None)"
proof (cases "i < 0")
  case True
  then have "nat (- i) < 2 ^ 64" "\<not> 2 ^ 63 < nat (- i)"
    using assms by (auto simp: i64_min_def)
  with True show ?thesis
    by (simp add: parse_int_def show_int_def split_sign_def parse_uint_show)
next
  case False
  then have "nat i < 2 ^ 64" "\<not> 2 ^ 63 \<le> nat i"
    using assms by (auto simp: i64_max_def)
  with False show ?thesis
    by (simp add: parse_int_def show_int_def split_sign_show parse_uint_show)
qed

lemma atoi_show: "i64_min \<le> i \<Longrightarrow> i \<le> i64_max \<Longrightarrow> atoi (show_int i) = Inr i"
  by (simp add: atoi_def parse_int_show)

lemma set_show_int: "c \<in> set (show_int i) \<Longrightarrow> c = CHR ''-'' \<or> (\<exists>d < 10. c = digit_char d)"
  by (auto simp: show_int_def dest: show_nat_digits split: if_splits)

lemma show_int_ne [simp]: "show_int i \<noteq> []"
  by (simp add: show_int_def)

lemma show_int_notin:
  "CHR '':'' \<notin> set (show_int i)" "CHR ''|'' \<notin> set (show_int i)" "CHR '','' \<notin> set (show_int i)"
  "CHR ''@'' \<notin> set (show_int i)" "CHR ''%'' \<notin> set (show_int i)"
  by (auto dest!: set_show_int digit_char_props)

lemma show_nat_notin:
  "CHR ''|'' \<notin> set (show_nat n)" "CHR ''%'' \<notin> set (show_nat n)"
  by (auto dest!: show_nat_digits digit_char_props)

lemma is_word_show_int [simp]: "is_word (show_int i)"
proof -
  have "\<not> is_space c" if "c \<in> set (show_int i)" for c
    using set_show_int [OF that] digit_char_props by (auto simp: is_space_def)
  then show ?thesis by (simp add: is_word_def list_all_iff)
qed

lemma parse_bool_show [simp]: "parse_bool (show_bool b) = Some b"
  by (cases b) (simp_all add: parse_bool_def show_bool_def)

lemma is_word_show_bool [simp]: "is_word (show_bool b)"
  by (cases b) (simp_all add: show_bool_def is_word_def is_space_def)

section \<open>Joining and splitting again\<close>

lemma fields_join: "list_all is_word ws \<Longrightarrow> str_fields (join_with '' '' ws) = ws"
proof (induction "'' ''" ws rule: join_with.induct)
  case (3 x y zs)
  then have "str_fields (x @ CHR '' '' # join_with '' '' (y # zs)) = x # str_fields (join_with '' '' (y # zs))"
    by (intro fields_word_space) (simp_all add: is_space_def)
  with 3 show ?case by simp
qed (simp_all add: fields_word, simp add: str_fields_def)

lemma join_split_acc: "join_with [sep] (split_acc sep acc s) = rev acc @ s"
proof (induction s arbitrary: acc)
  case (Cons c s)
  have "split_acc sep [] s \<noteq> []" using split_on_ne by (simp add: split_on_def)
  then obtain y ys where "split_acc sep [] s = y # ys" by (cases "split_acc sep [] s") auto
  with Cons.IH [of "[]"] Cons.IH [of "c # acc"] show ?case by simp
qed simp

lemma join_split [simp]: "join_with [sep] (split_on sep s) = s"
  by (simp add: split_on_def join_split_acc)

lemma atoi_range: "atoi s = Inr i \<Longrightarrow> i64_min \<le> i \<and> i \<le> i64_max"
  by (auto simp: atoi_def parse_int_def i64_min_def i64_max_def Let_def
      split: prod.splits option.splits sum.splits num_err.splits if_splits)

lemma atoi_show_atoi: "atoi s = Inr i \<Longrightarrow> atoi (show_int i) = Inr i"
  using atoi_range atoi_show by blast

text \<open>A text of space separated words is its own trimmed form.\<close>

lemma last_join:
  "ws \<noteq> [] \<Longrightarrow> list_all is_word ws \<Longrightarrow> join_with '' '' ws \<noteq> [] \<and> \<not> is_space (last (join_with '' '' ws))"
proof (induction "'' ''" ws rule: join_with.induct)
  case (2 x)
  then show ?case by (simp add: is_wordD)
qed auto

lemma join_Cons: "\<exists>rest. join_with sep (w # ws) = w @ rest"
  by (cases ws) auto

lemma trim_join: "list_all is_word ws \<Longrightarrow> trim_space (join_with '' '' ws) = join_with '' '' ws"
proof (cases ws)
  case (Cons w ws')
  assume w: "list_all is_word ws"
  obtain rest where "join_with '' '' ws = w @ rest" using join_Cons Cons by blast
  then have "trim_left (join_with '' '' ws) = join_with '' '' ws" using w Cons by (simp add: trim_left_word)
  moreover have "trim_right (join_with '' '' ws) = join_with '' '' ws"
    using last_join [OF _ w] Cons by (intro trim_right_nospace_last) auto
  ultimately show ?thesis by (simp add: trim_space_def)
qed simp

lemma trim_space_front: "is_space c \<Longrightarrow> trim_space (c # s) = trim_space s"
  by (simp add: trim_space_def trim_left_def)

text \<open>Trimming quotes off a quoted text.\<close>

lemma dropWhile_hd: "xs \<noteq> [] \<Longrightarrow> hd xs \<noteq> q \<Longrightarrow> dropWhile ((=) q) (xs @ ys) = xs @ ys"
  by (cases xs) auto

lemma trim_char_quoted:
  assumes "v \<noteq> []" "hd v \<noteq> q" "last v \<noteq> q"
  shows "trim_char q (q # v @ [q]) = v"
  using dropWhile_hd [OF assms(1,2), of "[q]"] dropWhile_hd [of "rev v" q "[]"] assms
  by (simp add: trim_char_def hd_rev)

end
