(* ===== verification/Messages.thy ===== *)
theory Messages
  imports GoStrings
begin

text \<open>
  What nodes exchange: the gossip values and messages (\<open>internal/node/protocol/gossip/types.go\<close>),
  the membership event of the baseline protocol (\<open>baseline.go\<close>), the envelope every protocol wraps
  its messages in (\<open>envelope.go\<close>), and the JSON codec (\<open>codec.go\<close>).

  A payload is the JSON document of a Go value or bytes that are no JSON document.  Decoding a
  document at another struct type succeeds with every field at its zero value, because the two
  message types share no field name and \<open>encoding/json\<close> ignores unknown fields.  A nil and an
  empty map are the same value: the code only ranges over maps, indexes them and takes their length.
\<close>

section \<open>Gossip data\<close>

record gvalue =
  v_Data :: string
  v_Version :: int
  v_Origin :: string
  v_Timestamp :: int
  v_VectorClock :: "(string, int) gomap"

record digest_entry =
  d_Version :: int
  d_Origin :: string
  d_Timestamp :: int
  d_VectorClock :: "(string, int) gomap"

abbreviation MsgDigest :: string where "MsgDigest \<equiv> ''DIGEST''"
abbreviation MsgState :: string where "MsgState \<equiv> ''STATE''"

abbreviation TimelineEventWrite :: string where "TimelineEventWrite \<equiv> ''WRITE''"
abbreviation TimelineEventGossipReceive :: string where "TimelineEventGossipReceive \<equiv> ''GOSSIP_RECEIVE''"
abbreviation TimelineEventResolve :: string where "TimelineEventResolve \<equiv> ''RESOLVE''"

record gossip_message =
  m_Type :: string
  m_Digest :: "(string, digest_entry) gomap"
  m_State :: "(string, gvalue) gomap"

section \<open>Membership data\<close>

text \<open>The Go type is an \<open>int\<close>, so a decoded event may carry a number with no name.\<close>

datatype membership_status = StatusAlive | StatusSuspect | StatusDead | StatusOther int

record membership_event =
  ev_Node :: string
  ev_Status :: membership_status
  ev_Incarnation :: u64

section \<open>Envelopes and the codec\<close>

datatype payload = Raw string | JGossip gossip_message | JMember membership_event

datatype message_kind = KindProtocol | KindControl | KindData

record envelope =
  env_From :: string
  env_To :: string
  env_Protocol :: string
  env_Payload :: payload
  env_Kind :: message_kind
  env_TraceMetadata :: string
  env_Version :: "16 word"
  env_LogicalTick :: u64

definition zero_message :: gossip_message where
  "zero_message = \<lparr>m_Type = [], m_Digest = [], m_State = []\<rparr>"

definition zero_event :: membership_event where
  "zero_event = \<lparr>ev_Node = [], ev_Status = StatusAlive, ev_Incarnation = 0\<rparr>"

definition decode_gossip :: "payload \<Rightarrow> gossip_message option" where
  "decode_gossip p = (case p of Raw _ \<Rightarrow> None | JGossip m \<Rightarrow> Some m | JMember _ \<Rightarrow> Some zero_message)"

definition decode_member :: "payload \<Rightarrow> membership_event option" where
  "decode_member p = (case p of Raw _ \<Rightarrow> None | JGossip _ \<Rightarrow> Some zero_event | JMember e \<Rightarrow> Some e)"

lemma decode_simps [simp]:
  "decode_gossip (JGossip m) = Some m" "decode_gossip (JMember e) = Some zero_message"
  "decode_gossip (Raw s) = None" "decode_member (JMember e) = Some e"
  "decode_member (JGossip m) = Some zero_event" "decode_member (Raw s) = None"
  by (simp_all add: decode_gossip_def decode_member_def)

end
