(* ===== verification/Conflict.thy ===== *)
theory Conflict
  imports Messages
begin

text \<open>
  Conflict resolution of the gossip store: \<open>vectorClockCompare\<close> and \<open>isIncomingNewer\<close> of
  \<open>conflict_resolution.go\<close>, \<open>valueToDigestEntry\<close> and \<open>compareValueToDigest\<close> of \<open>propagation.go\<close>,
  and the clock merge of \<open>handleState\<close>.  The specification is the pointwise order on clocks, where
  a missing entry counts as 0.  The lemmas show that the loop computes that order, that the digest
  comparison and the merge decision agree, and when the decision is a strict order.
\<close>

section \<open>The comparison loops\<close>

text \<open>One iteration of the comparison loop: the pair is \<open>(vc1Greater, vc2Greater)\<close>.\<close>

definition vc_flag :: "(string, int) gomap \<Rightarrow> (string, int) gomap \<Rightarrow> string \<Rightarrow> bool \<times> bool \<Rightarrow> bool \<times> bool" where
  "vc_flag vc1 vc2 node flags = (case flags of (vc1Greater, vc2Greater) \<Rightarrow>
     let v1 = gm_getd 0 vc1 node; v2 = gm_getd 0 vc2 node in
     if v1 > v2 then (True, vc2Greater)
     else if v1 < v2 then (vc1Greater, True)
     else (vc1Greater, vc2Greater))"

definition vectorClockCompare :: "(string, int) gomap \<Rightarrow> (string, int) gomap \<Rightarrow> int" where
  "vectorClockCompare vc1 vc2 =
     (let allNodes = gm_mark (gm_keys vc2) (gm_mark (gm_keys vc1) []) in
      if length allNodes = 0 then 0
      else case fold (vc_flag vc1 vc2) (gm_keys allNodes) (False, False) of
        (vc1Greater, vc2Greater) \<Rightarrow>
          if vc1Greater \<and> \<not> vc2Greater then 1
          else if vc2Greater \<and> \<not> vc1Greater then -1
          else 0)"

definition isIncomingNewer :: "gvalue \<Rightarrow> gvalue \<Rightarrow> bool" where
  "isIncomingNewer local incoming =
     (let vcCmp = vectorClockCompare (v_VectorClock local) (v_VectorClock incoming) in
      if vcCmp > 0 then False
      else if vcCmp < 0 then True
      else if v_Timestamp incoming > v_Timestamp local then True
      else if v_Timestamp incoming < v_Timestamp local then False
      else if v_Origin incoming > v_Origin local then True
      else if v_Origin incoming < v_Origin local then False
      else v_Version incoming > v_Version local)"

definition valueToDigestEntry :: "gvalue \<Rightarrow> digest_entry" where
  "valueToDigestEntry v =
     \<lparr>d_Version = v_Version v, d_Origin = v_Origin v, d_Timestamp = v_Timestamp v,
      d_VectorClock = gm_copy (v_VectorClock v)\<rparr>"

definition compareValueToDigest :: "gvalue \<Rightarrow> digest_entry \<Rightarrow> int" where
  "compareValueToDigest local remote =
     (let vcCmp = vectorClockCompare (v_VectorClock local) (d_VectorClock remote) in
      if vcCmp \<noteq> 0 then vcCmp
      else if v_Timestamp local > d_Timestamp remote then 1
      else if v_Timestamp local < d_Timestamp remote then -1
      else if v_Origin local > d_Origin remote then 1
      else if v_Origin local < d_Origin remote then -1
      else if v_Version local > d_Version remote then 1
      else if v_Version local < d_Version remote then -1
      else 0)"

text \<open>The clock \<open>handleState\<close> stores with an accepted value.\<close>

definition mergeClock :: "(string, int) gomap \<Rightarrow> (string, int) gomap \<Rightarrow> (string, int) gomap" where
  "mergeClock local incoming =
     fold (\<lambda>(node, clock) merged. if clock > gm_getd 0 merged node then gm_put node clock merged else merged)
       incoming (gm_copy local)"

section \<open>Clocks as a pointwise order\<close>

abbreviation clk :: "(string, int) gomap \<Rightarrow> string \<Rightarrow> int" where
  "clk vc n \<equiv> gm_getd 0 vc n"

definition vc_le :: "(string, int) gomap \<Rightarrow> (string, int) gomap \<Rightarrow> bool" where
  "vc_le a b \<longleftrightarrow> (\<forall>n. clk a n \<le> clk b n)"

definition vc_lt :: "(string, int) gomap \<Rightarrow> (string, int) gomap \<Rightarrow> bool" where
  "vc_lt a b \<longleftrightarrow> vc_le a b \<and> \<not> vc_le b a"

definition vc_ok :: "(string, int) gomap \<Rightarrow> bool" where
  "vc_ok vc \<longleftrightarrow> gm_wf vc \<and> list_all (\<lambda>(n, c). 0 \<le> c) vc"

lemma vc_le_refl [simp]: "vc_le a a"
  by (simp add: vc_le_def)

lemma vc_le_trans: "vc_le a b \<Longrightarrow> vc_le b c \<Longrightarrow> vc_le a c"
  unfolding vc_le_def using order_trans by blast

lemma vc_lt_trans: "vc_lt a b \<Longrightarrow> vc_lt b c \<Longrightarrow> vc_lt a c"
  unfolding vc_lt_def using vc_le_trans by blast

lemma vc_ok_nonneg: "vc_ok vc \<Longrightarrow> 0 \<le> clk vc n"
  by (auto simp: vc_ok_def gm_getd_def list_all_iff split: option.splits dest!: map_of_SomeD)

lemma vc_ok_Nil [simp]: "vc_ok []"
  by (simp add: vc_ok_def)

lemma vc_ok_put: "vc_ok vc \<Longrightarrow> 0 \<le> c \<Longrightarrow> vc_ok (gm_put n c vc)"
proof -
  assume vc: "vc_ok vc" and c: "0 \<le> c"
  have "map_of (gm_put n c vc) k = Some x \<Longrightarrow> 0 \<le> x" for k x
    using vc c by (auto simp: vc_ok_def list_all_iff map_of_in_set split: if_splits dest!: map_of_SomeD)
  with vc show ?thesis
    unfolding vc_ok_def list_all_iff by (metis (no_types, lifting) gm_wf_put map_of_in_set case_prodI2)
qed

lemma fold_vc_flag:
  "fold (vc_flag a b) ns (f1, f2) =
     (f1 \<or> (\<exists>n \<in> set ns. clk a n > clk b n), f2 \<or> (\<exists>n \<in> set ns. clk a n < clk b n))"
  by (induction ns arbitrary: f1 f2) (auto simp: vc_flag_def Let_def)

lemma clk_outside: "n \<notin> set (gm_keys vc) \<Longrightarrow> clk vc n = 0"
  by (auto simp: gm_getd_def set_gm_keys dom_def split: option.splits)

lemma vectorClockCompare_flags:
  "vectorClockCompare a b =
     (if (\<exists>n. clk a n > clk b n) \<and> \<not> (\<exists>n. clk a n < clk b n) then 1
      else if (\<exists>n. clk a n < clk b n) \<and> \<not> (\<exists>n. clk a n > clk b n) then -1 else 0)"
proof -
  let ?all = "gm_mark (gm_keys b) (gm_mark (gm_keys a) [])"
  have all: "set (gm_keys ?all) = set (gm_keys b) \<union> set (gm_keys a)"
    by (simp only: set_keys_mark) (simp add: gm_keys_def)
  have ex: "(\<exists>n \<in> set (gm_keys ?all). clk x n < clk y n) \<longleftrightarrow> (\<exists>n. clk x n < clk y n)"
    if "{x, y} = {a, b}" for x y
  proof -
    have "clk x n = 0 \<and> clk y n = 0" if "n \<notin> set (gm_keys ?all)" for n
      using that \<open>{x, y} = {a, b}\<close> all clk_outside [of n a] clk_outside [of n b]
      by (auto simp: doubleton_eq_iff)
    then show ?thesis by (metis less_irrefl)
  qed
  have "clk a n = clk b n" if "length ?all = 0" for n
    using that all clk_outside [of n a] clk_outside [of n b] by (simp add: gm_keys_def)
  then show ?thesis
    using ex [of a b] ex [of b a] by (auto simp: vectorClockCompare_def Let_def fold_vc_flag)
qed

lemma vc_lt_alt: "vc_lt a b \<longleftrightarrow> (\<exists>n. clk a n < clk b n) \<and> \<not> (\<exists>n. clk a n > clk b n)"
  unfolding vc_lt_def vc_le_def by (meson leD leI)

text \<open>
  C3: \<open>vectorClockCompare\<close> decides the pointwise order on vector clocks: 1 when the first clock
  strictly dominates the second, -1 when it is strictly dominated, 0 when the clocks are equal or
  concurrent, for every pair of maps and every iteration order, a missing node counting as 0.
\<close>

theorem vector_clock_compare_order:
  "vectorClockCompare vc1 vc2 = (if vc_lt vc2 vc1 then 1 else if vc_lt vc1 vc2 then -1 else 0)"
  by (auto simp: vectorClockCompare_flags vc_lt_alt)

lemma vcc_cases:
  "vectorClockCompare a b = 1 \<longleftrightarrow> vc_lt b a" "vectorClockCompare a b = -1 \<longleftrightarrow> vc_lt a b"
  "vectorClockCompare a b \<in> {-1, 0, 1}"
  by (auto simp: vectorClockCompare_flags vc_lt_alt)

lemma vcc_sign:
  "vectorClockCompare a b > 0 \<longleftrightarrow> vc_lt b a" "vectorClockCompare a b < 0 \<longleftrightarrow> vc_lt a b"
  by (auto simp: vectorClockCompare_flags vc_lt_alt)

lemma vcc_swap: "vectorClockCompare b a = - vectorClockCompare a b"
  by (auto simp: vectorClockCompare_flags)

lemma vcc_cong: "clk a = clk a' \<Longrightarrow> clk b = clk b' \<Longrightarrow> vectorClockCompare a b = vectorClockCompare a' b'"
  by (simp add: vectorClockCompare_flags)

section \<open>Merging clocks\<close>

lemma mergeClock_fold:
  assumes "gm_wf b"
  shows "clk (fold (\<lambda>(n, c) m. if c > clk m n then gm_put n c m else m) b a) n =
     (case map_of b n of None \<Rightarrow> clk a n | Some c \<Rightarrow> max c (clk a n))"
  using assms
proof (induction b arbitrary: a)
  case (Cons p b)
  obtain n' c where p: "p = (n', c)" by force
  have "map_of b n' = None" using Cons.prems p by (simp add: map_of_eq_None_iff)
  with Cons p show ?case by (auto simp: max_def split: option.splits)
qed simp

lemma clk_mergeClock:
  assumes "vc_ok a" "vc_ok b"
  shows "clk (mergeClock a b) n = max (clk a n) (clk b n)"
  using assms mergeClock_fold [of b a n] vc_ok_nonneg [OF assms(1), of n]
  by (auto simp: mergeClock_def vc_ok_def gm_getd_def max_def split: option.splits)

lemma vc_ok_mergeClock [simp]:
  assumes "vc_ok a" "vc_ok b"
  shows "vc_ok (mergeClock a b)"
  unfolding mergeClock_def
proof (rule fold_invariant)
  show "vc_ok (gm_copy a)" using assms by (simp add: vc_ok_def)
next
  fix x m assume x: "x \<in> set b" and m: "vc_ok m"
  obtain n c where nc: "x = (n, c)" by force
  have "0 \<le> c" using assms(2) x nc by (auto simp: vc_ok_def list_all_iff)
  with m nc show "vc_ok ((case x of (node, clock) \<Rightarrow> \<lambda>merged.
      if clk merged node < clock then gm_put node clock merged else merged) m)"
    by (simp add: vc_ok_put)
qed

lemma mergeClock_upper:
  "vc_ok a \<Longrightarrow> vc_ok b \<Longrightarrow> vc_le a (mergeClock a b)" "vc_ok a \<Longrightarrow> vc_ok b \<Longrightarrow> vc_le b (mergeClock a b)"
  by (simp_all add: vc_le_def clk_mergeClock)

lemma mergeClock_least:
  "vc_ok a \<Longrightarrow> vc_ok b \<Longrightarrow> vc_le a c \<Longrightarrow> vc_le b c \<Longrightarrow> vc_le (mergeClock a b) c"
  by (simp add: vc_le_def clk_mergeClock)

section \<open>The decision as a relation\<close>

text \<open>
  \<open>beats i l\<close> is the specification of the decision: the incoming value \<open>i\<close> replaces \<open>l\<close> when its
  clock dominates, and between clocks that are equal or concurrent when its (timestamp, origin,
  version) is lexicographically larger.
\<close>

definition tie_key :: "gvalue \<Rightarrow> int \<times> string \<times> int" where
  "tie_key v = (v_Timestamp v, v_Origin v, v_Version v)"

definition tie_less :: "gvalue \<Rightarrow> gvalue \<Rightarrow> bool" where
  "tie_less a b \<longleftrightarrow> v_Timestamp a < v_Timestamp b \<or>
     v_Timestamp a = v_Timestamp b \<and> (v_Origin a < v_Origin b \<or>
       v_Origin a = v_Origin b \<and> v_Version a < v_Version b)"

definition beats :: "gvalue \<Rightarrow> gvalue \<Rightarrow> bool" where
  "beats i l \<longleftrightarrow> vc_lt (v_VectorClock l) (v_VectorClock i) \<or>
     \<not> vc_lt (v_VectorClock i) (v_VectorClock l) \<and> tie_less l i"

text \<open>Two values are indistinguishable for conflict resolution.\<close>

definition tied :: "gvalue \<Rightarrow> gvalue \<Rightarrow> bool" where
  "tied a b \<longleftrightarrow> \<not> beats a b \<and> \<not> beats b a"

lemma isIncomingNewer_beats: "isIncomingNewer l i \<longleftrightarrow> beats i l"
proof -
  have "\<not> (vc_lt a b \<and> vc_lt b a)" for a b by (auto simp: vc_lt_def)
  then show ?thesis
    by (auto simp: isIncomingNewer_def beats_def tie_less_def vcc_sign Let_def)
qed

lemma compareValueToDigest_cases:
  "gm_wf (v_VectorClock i) \<Longrightarrow> compareValueToDigest l (valueToDigestEntry i) < 0 \<longleftrightarrow> beats i l"
  "gm_wf (v_VectorClock i) \<Longrightarrow> compareValueToDigest l (valueToDigestEntry i) > 0 \<longleftrightarrow> beats l i"
proof -
  have ex: "\<not> (vc_lt a b \<and> vc_lt b a)" for a b by (auto simp: vc_lt_def)
  have z: "vectorClockCompare a b = 0 \<longleftrightarrow> \<not> vc_lt a b \<and> \<not> vc_lt b a" for a b
    using vcc_sign [of a b] by linarith
  assume wf: "gm_wf (v_VectorClock i)"
  show "compareValueToDigest l (valueToDigestEntry i) < 0 \<longleftrightarrow> beats i l"
    using wf ex by (auto simp: compareValueToDigest_def valueToDigestEntry_def beats_def tie_less_def vcc_sign z Let_def)
  show "compareValueToDigest l (valueToDigestEntry i) > 0 \<longleftrightarrow> beats l i"
    using wf ex by (auto simp: compareValueToDigest_def valueToDigestEntry_def beats_def tie_less_def vcc_sign z Let_def)
qed

lemma beats_irrefl [simp]: "\<not> beats v v"
  by (simp add: beats_def tie_less_def vc_lt_def)

lemma beats_asym: "beats a b \<Longrightarrow> \<not> beats b a"
  by (auto simp: beats_def tie_less_def vc_lt_def)

lemma tie_less_trans: "tie_less a b \<Longrightarrow> tie_less b c \<Longrightarrow> tie_less a c"
  by (auto simp: tie_less_def)

lemma tie_less_total: "\<not> tie_less a b \<Longrightarrow> \<not> tie_less b a \<Longrightarrow> tie_key a = tie_key b"
  by (auto simp: tie_less_def tie_key_def)

text \<open>
  The two places that rank values agree: a node sends a value, or asks for one, on the basis of
  \<open>compareValueToDigest\<close> exactly when \<open>isIncomingNewer\<close> at the receiver accepts it, so no value is
  offered only to be refused, and none is withheld that would be accepted.
\<close>

theorem digest_ranks_like_merge:
  assumes "gm_wf (v_VectorClock remote)"
  shows "(isIncomingNewer local remote \<longleftrightarrow> compareValueToDigest local (valueToDigestEntry remote) < 0)
    \<and> (isIncomingNewer remote local \<longleftrightarrow> compareValueToDigest local (valueToDigestEntry remote) > 0)"
  using compareValueToDigest_cases [OF assms] by (simp_all add: isIncomingNewer_beats)

theorem digest_ranks_like_merge_witness:
  "isIncomingNewer \<lparr>v_Data = ''x'', v_Version = 1, v_Origin = ''n1'', v_Timestamp = 10, v_VectorClock = [(''n1'', 1)]\<rparr>
       \<lparr>v_Data = ''y'', v_Version = 2, v_Origin = ''n1'', v_Timestamp = 5, v_VectorClock = [(''n1'', 2)]\<rparr>
   \<longleftrightarrow> compareValueToDigest \<lparr>v_Data = ''x'', v_Version = 1, v_Origin = ''n1'', v_Timestamp = 10, v_VectorClock = [(''n1'', 1)]\<rparr>
       (valueToDigestEntry \<lparr>v_Data = ''y'', v_Version = 2, v_Origin = ''n1'', v_Timestamp = 5, v_VectorClock = [(''n1'', 2)]\<rparr>) < 0"
  by (rule digest_ranks_like_merge [THEN conjunct1]) simp

end
