(* ===== verification/Gossip.thy ===== *)
theory Gossip
  imports Conflict
begin

text \<open>
  The gossip protocol (\<open>internal/node/protocol/gossip\<close>): its state (\<open>gossip.go\<close>), the local
  key-value operations (\<open>crud.go\<close>), digest propagation and message handling (\<open>propagation.go\<close>),
  and the merge of incoming state (\<open>conflict_resolution.go\<close>).

  \<^item> \<open>time.Now().UnixMilli()\<close> is the argument \<open>clock\<close>: \<open>clock i\<close> is the \<open>i\<close>-th reading taken by a call.
  \<^item> \<open>rand.Intn\<close> and the entry a map loop visits first are the argument \<open>choice\<close>.
  \<^item> An operation returns, beside the new state and the envelopes, the lines it passes to
    the logger's \<open>Printf\<close> as timeline events: the control plane's metrics are computed from them.
  \<^item> The discovery callback is an argument that acts on the protocol's state and on a world \<open>'w\<close>,
    since the runtime's callback re-enters the protocol through \<open>SetPeers\<close>.
\<close>

type_synonym clock = "nat \<Rightarrow> int"
type_synonym ('s, 'w) discovery_cb = "string \<Rightarrow> string \<Rightarrow> int \<Rightarrow> 's \<times> 'w \<Rightarrow> 's \<times> 'w"

section \<open>State\<close>

record gossip =
  g_nodeID :: string
  g_tick :: u64
  g_peers :: "string list"
  g_store :: "(string, gvalue) gomap"
  g_gossipInterval :: u64
  g_peerDiscoveryCb :: bool
  g_forceSyncPeers :: "(string, bool) gomap"
  g_logger :: bool

definition NewGossipProtocol :: gossip where
  "NewGossipProtocol =
     \<lparr>g_nodeID = [], g_tick = 0, g_peers = [], g_store = [], g_gossipInterval = 3,
      g_peerDiscoveryCb = False, g_forceSyncPeers = [], g_logger = False\<rparr>"

definition gossip_Start :: "string \<Rightarrow> gossip \<Rightarrow> gossip" where
  "gossip_Start nodeID g = g\<lparr>g_nodeID := nodeID, g_tick := 0\<rparr>"

definition gossip_SetPeers :: "string list \<Rightarrow> gossip \<Rightarrow> gossip" where
  "gossip_SetPeers peers g =
     (let filtered = filter (\<lambda>p. p \<noteq> [] \<and> p \<noteq> g_nodeID g) peers;
          newPeers = gm_mark filtered [];
          oldPeersMap = gm_mark (g_peers g) [];
          fresh = filter (\<lambda>peer. \<not> gm_getd False oldPeersMap peer) (gm_keys newPeers)
      in g\<lparr>g_forceSyncPeers := gm_mark fresh (g_forceSyncPeers g), g_peers := filtered\<rparr>)"

definition gossip_SetPeerDiscoveryCallback :: "gossip \<Rightarrow> gossip" where
  "gossip_SetPeerDiscoveryCallback g = g\<lparr>g_peerDiscoveryCb := True\<rparr>"

definition gossip_SetLogger :: "gossip \<Rightarrow> gossip" where
  "gossip_SetLogger g = g\<lparr>g_logger := True\<rparr>"

definition gossip_State :: "gossip \<Rightarrow> (string, gvalue) gomap" where
  "gossip_State g = g_store g"

text \<open>
  The text handed to the logger's \<open>Printf\<close>, as its format; nothing is handed over when no logger is set.  What the logger makes
  of it is \<open>Logger_Printf\<close> (theory \<open>Logger\<close>).
\<close>

definition timeline_text :: "string \<Rightarrow> string \<Rightarrow> string \<Rightarrow> int \<Rightarrow> string \<Rightarrow> string \<Rightarrow> int \<Rightarrow> int \<Rightarrow> string" where
  "timeline_text eventType key value version origin source rnd ts =
     ''TL_EVENT:'' @ eventType @ ''|'' @ key @ ''|'' @ value @ ''|'' @ show_int version @ ''|''
       @ origin @ ''|'' @ source @ ''|'' @ show_int rnd @ ''|'' @ show_int ts"

definition emitTimelineEvent ::
  "gossip \<Rightarrow> int \<Rightarrow> string \<Rightarrow> string \<Rightarrow> string \<Rightarrow> int \<Rightarrow> string \<Rightarrow> string \<Rightarrow> int \<Rightarrow> string list" where
  "emitTimelineEvent g now eventType key value version origin source ts =
     (if g_logger g then [timeline_text eventType key value version origin source now ts] else [])"

section \<open>Local reads and writes\<close>

definition gossip_Put :: "clock \<Rightarrow> string \<Rightarrow> string \<Rightarrow> gossip \<Rightarrow> gossip \<times> string list" where
  "gossip_Put clock key data g =
     (let logicalTS = clock 0;
          current = map_of (g_store g) key;
          vc0 = (case current of None \<Rightarrow> [] | Some c \<Rightarrow> gm_copy (v_VectorClock c));
          vc = gm_put (g_nodeID g) (wrap64 (gm_getd 0 vc0 (g_nodeID g) + 1)) vc0;
          version = (case current of None \<Rightarrow> 1 | Some c \<Rightarrow> wrap64 (v_Version c + 1));
          v = \<lparr>v_Data = data, v_Version = version, v_Origin = g_nodeID g,
               v_Timestamp = logicalTS, v_VectorClock = vc\<rparr>
      in (g\<lparr>g_store := gm_put key v (g_store g)\<rparr>,
          emitTimelineEvent g (clock 1) TimelineEventWrite key (v_Data v) (v_Version v) (v_Origin v)
            (g_nodeID g) (v_Timestamp v)))"

definition gossip_Get :: "string \<Rightarrow> gossip \<Rightarrow> string \<times> bool" where
  "gossip_Get key g = (case map_of (g_store g) key of
     None \<Rightarrow> ([], False) | Some val \<Rightarrow> (v_Data val, True))"

definition gossip_GetWithMetadata :: "string \<Rightarrow> gossip \<Rightarrow> string \<times> int \<times> string \<times> bool" where
  "gossip_GetWithMetadata key g = (case map_of (g_store g) key of
     None \<Rightarrow> ([], 0, [], False) | Some val \<Rightarrow> (v_Data val, v_Version val, v_Origin val, True))"

definition gossip_Delete :: "string \<Rightarrow> gossip \<Rightarrow> gossip" where
  "gossip_Delete key g =
     (if map_of (g_store g) key \<noteq> None then g\<lparr>g_store := gm_del key (g_store g)\<rparr> else g)"

section \<open>Digests\<close>

definition digest_of :: "(string, gvalue) gomap \<Rightarrow> (string, digest_entry) gomap" where
  "digest_of store = fold (\<lambda>(k, v) d. gm_put k (valueToDigestEntry v) d) store []"

text \<open>A trace text longer than 100 bytes is cut to 97 bytes and three dots.\<close>

definition cut_meta :: "string \<Rightarrow> string" where
  "cut_meta s = (if length s > 100 then take 97 s @ ''...'' else s)"

definition gossip_envelope :: "gossip \<Rightarrow> string \<Rightarrow> gossip_message \<Rightarrow> string \<Rightarrow> int \<Rightarrow> envelope" where
  "gossip_envelope g peer msg meta now =
     \<lparr>env_From = g_nodeID g, env_To = peer, env_Protocol = ''gossip'', env_Payload = JGossip msg,
      env_Kind = KindProtocol, env_TraceMetadata = meta, env_Version = 1, env_LogicalTick = word_of_int now\<rparr>"

definition pickRandomPeer :: "nat \<Rightarrow> gossip \<Rightarrow> string option" where
  "pickRandomPeer choice g =
     (if length (g_peers g) = 0 then None else Some (g_peers g ! (choice mod length (g_peers g))))"

definition gossip_Tick :: "clock \<Rightarrow> nat \<Rightarrow> gossip \<Rightarrow> gossip \<times> envelope list" where
  "gossip_Tick clock choice g0 =
     (let g = g0\<lparr>g_tick := g_tick g0 + 1\<rparr> in
      if g_tick g mod g_gossipInterval g \<noteq> 0 then (g, [])
      else
        let gm = \<lparr>m_Type = MsgDigest, m_Digest = digest_of (g_store g), m_State = []\<rparr>;
            (peer, g) =
              (if length (g_forceSyncPeers g) > 0 then
                 let p = gm_keys (g_forceSyncPeers g) ! (choice mod length (g_forceSyncPeers g))
                 in (Some p, g\<lparr>g_forceSyncPeers := gm_del p (g_forceSyncPeers g)\<rparr>)
               else (pickRandomPeer choice g, g))
        in case peer of
             None \<Rightarrow> (g, [])
           | Some peer \<Rightarrow>
               let keys = gm_keys (m_Digest gm);
                   keyPrefix = cut_meta (''keys=['' @ (if length keys > 0 then join_with '','' keys else []) @ '']'')
               in (g, [gossip_envelope g peer gm (''GOSSIP_DIGEST:'' @ keyPrefix) (clock 0)]))"

section \<open>Messages\<close>

definition hasPeer :: "string \<Rightarrow> gossip \<Rightarrow> bool" where
  "hasPeer peerID g = list_ex (\<lambda>p. p = peerID) (g_peers g)"

definition parseSenderAddress :: "string \<Rightarrow> string \<times> string \<times> int" where
  "parseSenderAddress from = (case cut_at CHR ''@'' from of
     None \<Rightarrow> (from, [], 0)
   | Some (peerID, addrStr) \<Rightarrow> (case cut_last CHR '':'' addrStr of
       None \<Rightarrow> (peerID, addrStr, 0)
     | Some (host, portStr) \<Rightarrow> (case atoi portStr of
         Inl _ \<Rightarrow> (peerID, host, 0)
       | Inr parsedPort \<Rightarrow> (peerID, host, parsedPort))))"

definition handleDigest :: "clock \<Rightarrow> string \<Rightarrow> gossip_message \<Rightarrow> gossip \<Rightarrow> envelope list" where
  "handleDigest clock from msg g =
     (let ahead = fold (\<lambda>(key, localVal) st.
              if (case map_of (m_Digest msg) key of None \<Rightarrow> True
                  | Some remoteEntry \<Rightarrow> compareValueToDigest localVal remoteEntry > 0)
              then gm_put key localVal st else st) (g_store g) [];
          stateMsg = \<lparr>m_Type = MsgState, m_Digest = [], m_State = ahead\<rparr>;
          updates = map (\<lambda>(k, v). k @ ''='' @ v_Data v) (m_State stateMsg);
          stateMeta = cut_meta (''updates={'' @ join_with '','' updates @ ''}'');
          out1 = (if length (m_State stateMsg) > 0
                  then [gossip_envelope g from stateMsg (''GOSSIP_STATE:'' @ stateMeta) (clock 0)] else []);
          behind = list_ex (\<lambda>(key, remoteEntry). case map_of (g_store g) key of None \<Rightarrow> True
                  | Some localVal \<Rightarrow> compareValueToDigest localVal remoteEntry < 0) (m_Digest msg);
          digestMsg = \<lparr>m_Type = MsgDigest, m_Digest = digest_of (g_store g), m_State = []\<rparr>;
          out2 = (if behind
                  then [gossip_envelope g from digestMsg
                          (''GOSSIP_SYNC_REQ:'' @ show_nat (length (m_Digest digestMsg)) @ ''_keys'')
                          (clock (length out1))] else [])
      in out1 @ out2)"

text \<open>One iteration of the merge loop; the number counts the keys updated so far.\<close>

definition handleState_step ::
  "clock \<Rightarrow> gossip_message \<Rightarrow> string \<times> gvalue \<Rightarrow> gossip \<times> nat \<times> string list \<Rightarrow> gossip \<times> nat \<times> string list" where
  "handleState_step clock msg kv acc = (case (kv, acc) of ((k, v), (g, updated, evs)) \<Rightarrow>
     let localVal = map_of (g_store g) k in
     if (case localVal of None \<Rightarrow> True | Some l \<Rightarrow> isIncomingNewer l v) then
       let eventType = (if localVal \<noteq> None then TimelineEventResolve else TimelineEventGossipReceive);
           mergedVC = mergeClock (case localVal of None \<Rightarrow> [] | Some l \<Rightarrow> v_VectorClock l) (v_VectorClock v);
           storedValue = v\<lparr>v_VectorClock := mergedVC\<rparr>
       in (g\<lparr>g_store := gm_put k storedValue (g_store g)\<rparr>, updated + 1,
           evs @ emitTimelineEvent g (clock updated) eventType k (v_Data v) (v_Version v) (v_Origin v)
             (case map_of (m_State msg) k of None \<Rightarrow> [] | Some w \<Rightarrow> v_Origin w) (v_Timestamp v))
     else (g, updated, evs))"

definition handleState :: "clock \<Rightarrow> gossip_message \<Rightarrow> gossip \<Rightarrow> gossip \<times> string list" where
  "handleState clock msg g0 =
     (case fold (handleState_step clock msg) (m_State msg) (g0, 0, []) of (g, updated, evs) \<Rightarrow> (g, evs))"

text \<open>Peer discovery, the first part of \<open>OnMessage\<close>.\<close>

definition gossip_discover ::
  "(gossip, 'w) discovery_cb \<Rightarrow> string \<Rightarrow> string \<Rightarrow> int \<Rightarrow> gossip \<times> 'w \<Rightarrow> gossip \<times> 'w" where
  "gossip_discover cb senderID senderHost senderPort s = (case s of (g, w) \<Rightarrow>
     if senderID \<noteq> [] \<and> senderID \<noteq> g_nodeID g \<and> \<not> hasPeer senderID g then
       let g = g\<lparr>g_peers := g_peers g @ [senderID]\<rparr> in
       if g_peerDiscoveryCb g \<and> senderHost \<noteq> [] \<and> senderPort > 0
       then cb senderID senderHost senderPort (g, w) else (g, w)
     else (g, w))"

definition gossip_OnMessage ::
  "clock \<Rightarrow> (gossip, 'w) discovery_cb \<Rightarrow> envelope \<Rightarrow> gossip \<times> 'w
     \<Rightarrow> (gossip \<times> 'w) \<times> envelope list \<times> string list" where
  "gossip_OnMessage clock cb env s =
     (case parseSenderAddress (env_From env) of (senderID0, senderHost, senderPort) \<Rightarrow>
      let senderID = (if senderID0 = [] then env_From env else senderID0) in
      case gossip_discover cb senderID senderHost senderPort s of (g, w) \<Rightarrow>
      case decode_gossip (env_Payload env) of
        None \<Rightarrow> ((g, w), [], [])
      | Some msg \<Rightarrow>
          if m_Type msg = MsgDigest then ((g, w), handleDigest clock senderID msg g, [])
          else if m_Type msg = MsgState then
            (case handleState clock msg g of (g', evs) \<Rightarrow> ((g', w), [], evs))
          else ((g, w), [], []))"

section \<open>The merge of incoming state\<close>

text \<open>The specification of one key: what the store holds after a value for it arrived.\<close>

definition merge_into :: "gvalue option \<Rightarrow> gvalue \<Rightarrow> gvalue" where
  "merge_into cur v = (case cur of
     None \<Rightarrow> v\<lparr>v_VectorClock := mergeClock [] (v_VectorClock v)\<rparr>
   | Some l \<Rightarrow> if beats v l then v\<lparr>v_VectorClock := mergeClock (v_VectorClock l) (v_VectorClock v)\<rparr> else l)"

lemma handleState_step_store:
  "map_of (g_store (fst (handleState_step c msg (k, v) (g, n, l)))) =
     (map_of (g_store g))(k \<mapsto> merge_into (map_of (g_store g) k) v)"
  by (auto simp: handleState_step_def merge_into_def isIncomingNewer_beats Let_def fun_upd_idem
      split: option.splits)

lemma handleState_step_frame:
  "(fst (handleState_step c msg kv (g, n, l)))\<lparr>g_store := []\<rparr> = g\<lparr>g_store := []\<rparr>"
  by (auto simp: handleState_step_def Let_def split: prod.splits)

lemma handleState_fold_store:
  "gm_wf kvs \<Longrightarrow> map_of (g_store (fst (fold (handleState_step c msg) kvs (g, n, l)))) k =
     (case map_of kvs k of None \<Rightarrow> map_of (g_store g) k
      | Some v \<Rightarrow> Some (merge_into (map_of (g_store g) k) v))"
proof (induction kvs arbitrary: g n l)
  case (Cons kv kvs)
  obtain k' v where kv: "kv = (k', v)" by force
  obtain g' n' l' where step: "handleState_step c msg (k', v) (g, n, l) = (g', n', l')"
    by (metis prod_cases3)
  have g': "map_of (g_store g') = (map_of (g_store g))(k' \<mapsto> merge_into (map_of (g_store g) k') v)"
    using handleState_step_store [of c msg k' v g n l] step by simp
  have "map_of kvs k' = None" using Cons.prems kv by (simp add: map_of_eq_None_iff)
  then show ?case
    using Cons.IH [of g' n' l'] Cons.prems kv step g' by (auto split: option.splits)
qed simp

lemma handleState_fold_frame:
  "(fst (fold (handleState_step c msg) kvs (g, n, l)))\<lparr>g_store := []\<rparr> = g\<lparr>g_store := []\<rparr>"
proof (induction kvs arbitrary: g n l)
  case (Cons kv kvs)
  obtain g' n' l' where step: "handleState_step c msg kv (g, n, l) = (g', n', l')"
    by (metis prod_cases3)
  then show ?case using Cons handleState_step_frame [of c msg kv g n l] by simp
qed simp

lemma fst_handleState: "fst (handleState c msg g) = fst (fold (handleState_step c msg) (m_State msg) (g, 0, []))"
  by (simp add: handleState_def case_prod_unfold)

lemma handleState_store:
  "gm_wf (m_State msg) \<Longrightarrow> map_of (g_store (fst (handleState c msg g))) k =
     (case map_of (m_State msg) k of None \<Rightarrow> map_of (g_store g) k
      | Some v \<Rightarrow> Some (merge_into (map_of (g_store g) k) v))"
  by (simp add: fst_handleState handleState_fold_store)

lemma handleState_frame: "(fst (handleState c msg g))\<lparr>g_store := []\<rparr> = g\<lparr>g_store := []\<rparr>"
  by (simp add: fst_handleState handleState_fold_frame)

lemma gossip_frame_fields:
  "(g :: gossip)\<lparr>g_store := []\<rparr> = h\<lparr>g_store := []\<rparr> \<Longrightarrow>
     g_nodeID g = g_nodeID h \<and> g_tick g = g_tick h \<and> g_peers g = g_peers h
     \<and> g_gossipInterval g = g_gossipInterval h \<and> g_forceSyncPeers g = g_forceSyncPeers h
     \<and> g_peerDiscoveryCb g = g_peerDiscoveryCb h \<and> g_logger g = g_logger h"
  by (cases g; cases h) simp

lemma handleState_fields [simp]:
  "g_nodeID (fst (handleState c msg g)) = g_nodeID g" "g_tick (fst (handleState c msg g)) = g_tick g"
  "g_peers (fst (handleState c msg g)) = g_peers g"
  "g_gossipInterval (fst (handleState c msg g)) = g_gossipInterval g"
  "g_forceSyncPeers (fst (handleState c msg g)) = g_forceSyncPeers g"
  "g_peerDiscoveryCb (fst (handleState c msg g)) = g_peerDiscoveryCb g"
  "g_logger (fst (handleState c msg g)) = g_logger g"
  using gossip_frame_fields [OF handleState_frame] by simp_all

section \<open>Invariant\<close>

definition value_ok :: "gvalue \<Rightarrow> bool" where
  "value_ok v \<longleftrightarrow> vc_ok (v_VectorClock v)"

definition store_ok :: "(string, gvalue) gomap \<Rightarrow> bool" where
  "store_ok st \<longleftrightarrow> gm_wf st \<and> list_all (\<lambda>(k, v). value_ok v) st"

definition gossip_inv :: "gossip \<Rightarrow> bool" where
  "gossip_inv g \<longleftrightarrow> store_ok (g_store g) \<and> gm_wf (g_forceSyncPeers g) \<and> g_gossipInterval g = 3"

definition digest_ok :: "(string, digest_entry) gomap \<Rightarrow> bool" where
  "digest_ok d \<longleftrightarrow> gm_wf d \<and> list_all (\<lambda>(k, e). vc_ok (d_VectorClock e)) d"

definition msg_ok :: "gossip_message \<Rightarrow> bool" where
  "msg_ok m \<longleftrightarrow> digest_ok (m_Digest m) \<and> store_ok (m_State m)"

definition env_ok :: "envelope \<Rightarrow> bool" where
  "env_ok e \<longleftrightarrow> (case env_Payload e of JGossip m \<Rightarrow> msg_ok m | _ \<Rightarrow> True)"

lemma store_ok_iff:
  "store_ok st \<longleftrightarrow> gm_wf st \<and> (\<forall>k v. map_of st k = Some v \<longrightarrow> value_ok v)"
  by (auto simp: store_ok_def list_all_iff map_of_in_set)

lemma store_okD: "store_ok st \<Longrightarrow> map_of st k = Some v \<Longrightarrow> value_ok v"
  by (simp add: store_ok_iff)

lemma store_ok_wf [simp]: "store_ok st \<Longrightarrow> gm_wf st"
  by (simp add: store_ok_def)

lemma store_ok_put [inv_intros]: "store_ok st \<Longrightarrow> value_ok v \<Longrightarrow> store_ok (gm_put k v st)"
  by (auto simp: store_ok_iff split: if_splits)

lemma store_ok_del [inv_intros]: "store_ok st \<Longrightarrow> store_ok (gm_del k st)"
  by (auto simp: store_ok_iff split: if_splits)

lemma merge_into_ok:
  "value_ok v \<Longrightarrow> (\<And>l. cur = Some l \<Longrightarrow> value_ok l) \<Longrightarrow> value_ok (merge_into cur v)"
  by (auto simp: merge_into_def value_ok_def split: option.splits)

lemma handleState_step_wf:
  "gm_wf (g_store g) \<Longrightarrow> gm_wf (g_store (fst (handleState_step c msg kv (g, n, l))))"
  by (auto simp: handleState_step_def Let_def split: prod.splits)

lemma handleState_fold_wf:
  "gm_wf (g_store g) \<Longrightarrow> gm_wf (g_store (fst (fold (handleState_step c msg) kvs (g, n, l))))"
proof (induction kvs arbitrary: g n l)
  case (Cons kv kvs)
  obtain g' n' l' where "handleState_step c msg kv (g, n, l) = (g', n', l')"
    by (metis prod_cases3)
  then show ?case using Cons handleState_step_wf [of g c msg kv n l] by simp
qed simp

lemma handleState_store_ok:
  assumes "store_ok (g_store g)" "store_ok (m_State msg)"
  shows "store_ok (g_store (fst (handleState c msg g)))"
  unfolding store_ok_iff
proof (intro conjI allI impI)
  show "gm_wf (g_store (fst (handleState c msg g)))"
    using assms by (simp add: fst_handleState handleState_fold_wf)
next
  fix k v assume "map_of (g_store (fst (handleState c msg g))) k = Some v"
  then show "value_ok v"
    using assms by (auto simp: handleState_store dest: store_okD intro!: merge_into_ok split: option.splits)
qed

lemma gossip_inv_new [inv_intros]: "gossip_inv NewGossipProtocol"
  by (simp add: gossip_inv_def NewGossipProtocol_def store_ok_def)

lemma gossip_inv_Start [inv_intros]: "gossip_inv g \<Longrightarrow> gossip_inv (gossip_Start nodeID g)"
  by (simp add: gossip_inv_def gossip_Start_def)

lemma gossip_inv_SetPeers [inv_intros]: "gossip_inv g \<Longrightarrow> gossip_inv (gossip_SetPeers ps g)"
  by (simp add: gossip_inv_def gossip_SetPeers_def Let_def)

lemma gossip_inv_Delete [inv_intros]: "gossip_inv g \<Longrightarrow> gossip_inv (gossip_Delete k g)"
  by (simp add: gossip_inv_def gossip_Delete_def store_ok_del)

lemma gossip_inv_handleState [inv_intros]:
  "gossip_inv g \<Longrightarrow> msg_ok msg \<Longrightarrow> gossip_inv (fst (handleState c msg g))"
  by (simp add: gossip_inv_def msg_ok_def handleState_store_ok)

lemma gossip_inv_Tick [inv_intros]: "gossip_inv g \<Longrightarrow> gossip_inv (fst (gossip_Tick c ch g))"
  by (auto simp: gossip_inv_def gossip_Tick_def Let_def split: option.splits)

text \<open>A write has room when neither the version nor this node's clock is at the \<open>int64\<close> maximum.\<close>

definition put_room :: "string \<Rightarrow> gossip \<Rightarrow> bool" where
  "put_room key g \<longleftrightarrow> (case map_of (g_store g) key of None \<Rightarrow> True
     | Some v \<Rightarrow> clk (v_VectorClock v) (g_nodeID g) < i64_max \<and> 0 \<le> v_Version v \<and> v_Version v < i64_max)"

lemma gossip_inv_Put [inv_intros]:
  assumes "gossip_inv g" "put_room key g"
  shows "gossip_inv (fst (gossip_Put c key data g))"
proof -
  have "vc_ok (case map_of (g_store g) key of None \<Rightarrow> [] | Some c \<Rightarrow> gm_copy (v_VectorClock c))" (is "vc_ok ?vc")
    using assms by (auto simp: gossip_inv_def vc_ok_def value_ok_def dest: store_okD split: option.splits)
  moreover have "clk ?vc (g_nodeID g) < i64_max"
    using assms by (auto simp: gossip_inv_def put_room_def value_ok_def vc_ok_def i64_max_def
        dest: store_okD split: option.splits)
  ultimately have "vc_ok (gm_put (g_nodeID g) (wrap64 (clk ?vc (g_nodeID g) + 1)) ?vc)"
    using vc_ok_nonneg [of ?vc] by (intro vc_ok_put) (simp_all add: wrap64_Suc)
  then show ?thesis
    using assms by (simp add: gossip_inv_def gossip_Put_def Let_def value_ok_def store_ok_put)
qed

section \<open>Stored values only advance\<close>

text \<open>
  \<open>advances a b\<close>: the clock grows, or stays the same while the tie key grows.  Unlike \<open>beats\<close>, it
  is transitive, and every update of a store is a step of it.
\<close>

definition advances :: "gvalue \<Rightarrow> gvalue \<Rightarrow> bool" where
  "advances a b \<longleftrightarrow> vc_lt (v_VectorClock a) (v_VectorClock b) \<or>
     vc_le (v_VectorClock a) (v_VectorClock b) \<and> vc_le (v_VectorClock b) (v_VectorClock a) \<and> tie_less a b"

lemma advances_irrefl [simp]: "\<not> advances a a"
  by (simp add: advances_def vc_lt_def tie_less_def)

lemma advances_trans: "advances a b \<Longrightarrow> advances b c \<Longrightarrow> advances a c"
proof -
  assume ab: "advances a b" and bc: "advances b c"
  have le1: "vc_le (v_VectorClock a) (v_VectorClock b)" and le2: "vc_le (v_VectorClock b) (v_VectorClock c)"
    using ab bc by (auto simp: advances_def vc_lt_def)
  note le = vc_le_trans [OF le1 le2]
  have "vc_le (v_VectorClock b) (v_VectorClock a) \<and> vc_le (v_VectorClock c) (v_VectorClock b)"
    if "vc_le (v_VectorClock c) (v_VectorClock a)"
    using vc_le_trans [OF le2 that] vc_le_trans [OF that le1] by simp
  with le show ?thesis
    using ab bc tie_less_trans [of a b c] by (auto simp: advances_def vc_lt_def)
qed

lemma advances_beats: "advances a b \<Longrightarrow> beats b a"
  unfolding advances_def beats_def vc_lt_def by blast

lemma merge_into_advances:
  assumes "value_ok v" "value_ok l"
  shows "merge_into (Some l) v = l \<or> advances l (merge_into (Some l) v)"
proof (cases "beats v l")
  case True
  let ?l = "v_VectorClock l" and ?v = "v_VectorClock v"
  have up: "vc_le ?l (mergeClock ?l ?v)" "vc_le ?v (mergeClock ?l ?v)"
    using assms mergeClock_upper [of ?l ?v] by (auto simp: value_ok_def)
  have "tie_less l v" if "vc_le (mergeClock ?l ?v) ?l"
    using that True up vc_le_trans [of ?v "mergeClock ?l ?v" ?l] by (auto simp: beats_def vc_lt_def)
  then show ?thesis
    using True up by (auto simp: merge_into_def advances_def vc_lt_def tie_less_def)
qed (simp add: merge_into_def)

text \<open>A store is at least as advanced as another: it has every key, with the same or a later value.\<close>

definition store_adv :: "(string, gvalue) gomap \<Rightarrow> (string, gvalue) gomap \<Rightarrow> bool" where
  "store_adv s t \<longleftrightarrow> (\<forall>k v. map_of s k = Some v \<longrightarrow> (\<exists>v'. map_of t k = Some v' \<and> (v' = v \<or> advances v v')))"

lemma store_adv_refl [simp]: "store_adv s s"
  by (simp add: store_adv_def)

lemma store_advE:
  assumes "store_adv s t" "map_of s k = Some v"
  obtains v' where "map_of t k = Some v'" "v' = v \<or> advances v v'"
  using assms unfolding store_adv_def by blast

lemma store_adv_trans:
  assumes "store_adv s t" "store_adv t u"
  shows "store_adv s u"
  unfolding store_adv_def
proof (intro allI impI)
  fix k v assume "map_of s k = Some v"
  with assms(1) obtain v1 where v1: "map_of t k = Some v1" "v1 = v \<or> advances v v1"
    by (rule store_advE)
  from assms(2) v1(1) obtain v2 where "map_of u k = Some v2" "v2 = v1 \<or> advances v1 v2"
    by (rule store_advE)
  with v1 show "\<exists>v'. map_of u k = Some v' \<and> (v' = v \<or> advances v v')"
    using advances_trans [of v v1 v2] by auto
qed

lemma handleState_advances:
  assumes "gossip_inv g" "msg_ok msg"
  shows "store_adv (g_store g) (g_store (fst (handleState c msg g)))"
  unfolding store_adv_def
proof (intro allI impI)
  fix k l assume l: "map_of (g_store g) k = Some l"
  have wf: "gm_wf (m_State msg)" using assms by (simp add: msg_ok_def)
  have ok: "value_ok l" using l assms by (auto simp: gossip_inv_def dest: store_okD)
  show "\<exists>v'. map_of (g_store (fst (handleState c msg g))) k = Some v' \<and> (v' = l \<or> advances l v')"
  proof (cases "map_of (m_State msg) k")
    case (Some v)
    then have "value_ok v" using assms by (auto simp: msg_ok_def dest: store_okD)
    with Some show ?thesis using merge_into_advances [OF _ ok] l by (simp add: handleState_store [OF wf])
  qed (simp add: handleState_store [OF wf] l)
qed

text \<open>The value a write stores.\<close>

definition put_value :: "int \<Rightarrow> string \<Rightarrow> string \<Rightarrow> gossip \<Rightarrow> gvalue" where
  "put_value now key data g = the (map_of (g_store (fst (gossip_Put (\<lambda>_. now) key data g))) key)"

lemma Put_store:
  "map_of (g_store (fst (gossip_Put c key data g))) = (map_of (g_store g))(key \<mapsto> put_value (c 0) key data g)"
  by (simp add: put_value_def gossip_Put_def Let_def)

lemma put_value_fields:
  "v_Data (put_value t key data g) = data" "v_Origin (put_value t key data g) = g_nodeID g"
  "v_Timestamp (put_value t key data g) = t"
  "v_Version (put_value t key data g) = (case map_of (g_store g) key of None \<Rightarrow> 1 | Some v \<Rightarrow> wrap64 (v_Version v + 1))"
  by (simp_all add: put_value_def gossip_Put_def Let_def)

lemma put_value_clock:
  assumes "gossip_inv g" "put_room key g"
  shows "clk (v_VectorClock (put_value t key data g)) n =
     (let old = (case map_of (g_store g) key of None \<Rightarrow> 0 | Some v \<Rightarrow> clk (v_VectorClock v) n)
      in if n = g_nodeID g then old + 1 else old)"
proof (cases "map_of (g_store g) key")
  case (Some v)
  then have v: "vc_ok (v_VectorClock v)" using assms by (auto simp: gossip_inv_def value_ok_def dest: store_okD)
  have "wrap64 (clk (v_VectorClock v) (g_nodeID g) + 1) = clk (v_VectorClock v) (g_nodeID g) + 1"
    using vc_ok_nonneg [OF v] assms Some by (intro wrap64_Suc) (auto simp: put_room_def)
  then show ?thesis using Some v by (simp add: put_value_def gossip_Put_def Let_def vc_ok_def)
qed (simp add: put_value_def gossip_Put_def Let_def wrap64_def)

lemma put_value_advances:
  assumes "gossip_inv g" "put_room key g" "map_of (g_store g) key = Some v"
  shows "advances v (put_value t key data g)"
proof -
  have c: "clk (v_VectorClock (put_value t key data g)) n =
      clk (v_VectorClock v) n + (if n = g_nodeID g then 1 else 0)" for n
    using put_value_clock [OF assms(1,2), of t data n] assms(3) by (simp add: Let_def)
  have "vc_lt (v_VectorClock v) (v_VectorClock (put_value t key data g))"
    unfolding vc_lt_alt c by (auto intro: exI [of _ "g_nodeID g"])
  then show ?thesis by (simp add: advances_def)
qed

lemma Put_advances:
  "gossip_inv g \<Longrightarrow> put_room key g \<Longrightarrow> store_adv (g_store g) (g_store (fst (gossip_Put c key data g)))"
  using put_value_advances [of g key] by (auto simp: store_adv_def Put_store)

section \<open>What a digest exchange sends\<close>

lemma digest_clock: "vc_ok (v_VectorClock v) \<Longrightarrow> d_VectorClock (valueToDigestEntry v) = v_VectorClock v"
  by (simp add: valueToDigestEntry_def vc_ok_def)

lemma digest_of_map: "gm_wf st \<Longrightarrow> digest_of st = map (\<lambda>(k, v). (k, valueToDigestEntry v)) st"
  unfolding digest_of_def by (rule fold_put_map)

lemma map_of_digest_of: "gm_wf st \<Longrightarrow> map_of (digest_of st) k = map_option valueToDigestEntry (map_of st k)"
  by (simp add: digest_of_map map_of_map_snd)

lemma digest_of_ok: "store_ok st \<Longrightarrow> digest_ok (digest_of st)"
  by (auto simp: digest_ok_def digest_of_map list_all_iff store_ok_def value_ok_def digest_clock)

text \<open>The local entries a peer lacks or holds an older value of, by the digest it sent.\<close>

definition ahead_of :: "gossip \<Rightarrow> (string, digest_entry) gomap \<Rightarrow> (string, gvalue) gomap" where
  "ahead_of g d = filter (\<lambda>(k, v). case map_of d k of None \<Rightarrow> True | Some e \<Rightarrow> compareValueToDigest v e > 0) (g_store g)"

definition is_behind :: "gossip \<Rightarrow> (string, digest_entry) gomap \<Rightarrow> bool" where
  "is_behind g d \<longleftrightarrow> (\<exists>(k, e) \<in> set d. case map_of (g_store g) k of None \<Rightarrow> True | Some v \<Rightarrow> compareValueToDigest v e < 0)"

lemma handleDigest_out:
  assumes "gm_wf (g_store g)"
  obtains meta1 meta2 t1 t2 where
    "handleDigest c from msg g =
       (if ahead_of g (m_Digest msg) \<noteq> [] then
          [gossip_envelope g from \<lparr>m_Type = MsgState, m_Digest = [], m_State = ahead_of g (m_Digest msg)\<rparr> meta1 t1]
        else []) @
       (if is_behind g (m_Digest msg) then
          [gossip_envelope g from \<lparr>m_Type = MsgDigest, m_Digest = digest_of (g_store g), m_State = []\<rparr> meta2 t2]
        else [])"
proof -
  have "fold (\<lambda>(key, localVal) st.
        if (case map_of (m_Digest msg) key of None \<Rightarrow> True
            | Some remoteEntry \<Rightarrow> compareValueToDigest localVal remoteEntry > 0)
        then gm_put key localVal st else st) (g_store g) [] = ahead_of g (m_Digest msg)"
    unfolding ahead_of_def
    using fold_put_select [OF assms, of "\<lambda>k v. case map_of (m_Digest msg) k of None \<Rightarrow> True
        | Some e \<Rightarrow> compareValueToDigest v e > 0" "\<lambda>k v. v"] by (simp add: case_prod_unfold)
  then show ?thesis
    using that unfolding handleDigest_def Let_def is_behind_def list_ex_iff
    by (simp only: length_greater_0_conv gossip_message.select_convs)
qed

lemma map_of_ahead:
  "gm_wf (g_store g) \<Longrightarrow> map_of (ahead_of g d) k = (case map_of (g_store g) k of None \<Rightarrow> None
     | Some v \<Rightarrow> if (case map_of d k of None \<Rightarrow> True | Some e \<Rightarrow> compareValueToDigest v e > 0) then Some v else None)"
  by (simp add: ahead_of_def map_of_filter_wf split: option.split)

lemma is_behind_iff:
  "gm_wf d \<Longrightarrow> is_behind g d \<longleftrightarrow>
     (\<exists>k e. map_of d k = Some e \<and> (case map_of (g_store g) k of None \<Rightarrow> True | Some v \<Rightarrow> compareValueToDigest v e < 0))"
  by (simp add: is_behind_def Bex_def map_of_in_set)

section \<open>Writes and reads\<close>

text \<open>
  C7: A local write is visible at once and wins.  After \<open>Put\<close> the key reads back the data, under the
  next version and this node's name; no other key changes; and every replica that still holds
  the value the write replaced will accept it.
\<close>

theorem put_visible_and_newer:
  assumes "gossip_inv g" "put_room key g" "g' = fst (gossip_Put c key data g)"
  shows "gossip_Get key g' = (data, True)
    \<and> gossip_GetWithMetadata key g' =
        (data, (case map_of (g_store g) key of None \<Rightarrow> 1 | Some v \<Rightarrow> v_Version v + 1), g_nodeID g, True)
    \<and> (\<forall>k. k \<noteq> key \<longrightarrow> map_of (g_store g') k = map_of (g_store g) k)
    \<and> (\<forall>v. map_of (g_store g) key = Some v \<longrightarrow> isIncomingNewer v (put_value (c 0) key data g))
    \<and> map_of (g_store g') key = Some (put_value (c 0) key data g)"
proof -
  have st: "map_of (g_store g') = (map_of (g_store g))(key \<mapsto> put_value (c 0) key data g)"
    using assms(3) Put_store by simp
  have "v_Version (put_value (c 0) key data g) = (case map_of (g_store g) key of None \<Rightarrow> 1 | Some v \<Rightarrow> v_Version v + 1)"
    using assms(2) by (auto simp: put_value_fields put_room_def wrap64_Suc split: option.splits)
  moreover have "isIncomingNewer v (put_value (c 0) key data g)" if "map_of (g_store g) key = Some v" for v
    using advances_beats [OF put_value_advances [OF assms(1,2) that]] by (simp add: isIncomingNewer_beats)
  ultimately show ?thesis
    by (simp add: st gossip_Get_def gossip_GetWithMetadata_def put_value_fields)
qed

lemma fresh_put_room: "put_room k (gossip_Start i NewGossipProtocol)"
  by (simp add: put_room_def gossip_Start_def NewGossipProtocol_def)

theorem put_visible_and_newer_witness:
  "gossip_Get ''k'' (fst (gossip_Put (\<lambda>_. 5) ''k'' ''hello'' (gossip_Start ''n1'' NewGossipProtocol))) = (''hello'', True)"
  using put_visible_and_newer [OF gossip_inv_Start [OF gossip_inv_new] fresh_put_room refl] by blast

section \<open>The digest schedule\<close>

lemma Tick_quiet:
  "gossip_inv g \<Longrightarrow> (g_tick g + 1) mod 3 \<noteq> 0 \<Longrightarrow> gossip_Tick c ch g = (g\<lparr>g_tick := g_tick g + 1\<rparr>, [])"
  by (simp add: gossip_Tick_def gossip_inv_def Let_def)

text \<open>An envelope that carries a node's digest to a peer.\<close>

definition digest_for :: "string \<Rightarrow> gossip \<Rightarrow> envelope \<Rightarrow> bool" where
  "digest_for p g e \<longleftrightarrow> env_To e = p \<and> env_From e = g_nodeID g \<and> env_Protocol e = ''gossip''
     \<and> env_Kind e = KindProtocol
     \<and> (\<exists>m. env_Payload e = JGossip m \<and> m_Type m = MsgDigest \<and> m_State m = []
          \<and> (\<forall>k. map_of (m_Digest m) k = map_option valueToDigestEntry (map_of (g_store g) k)))"

lemma digest_for_cong: "g_nodeID g' = g_nodeID g \<Longrightarrow> g_store g' = g_store g \<Longrightarrow> digest_for p g' e = digest_for p g e"
  by (simp add: digest_for_def)

lemma Tick_forced:
  assumes "gossip_inv g" "(g_tick g + 1) mod 3 = 0" "g_forceSyncPeers g \<noteq> []"
  obtains p e where "p \<in> set (gm_keys (g_forceSyncPeers g))" "digest_for p g e"
    "gossip_Tick c ch g = (g\<lparr>g_tick := g_tick g + 1, g_forceSyncPeers := gm_del p (g_forceSyncPeers g)\<rparr>, [e])"
proof -
  let ?p = "gm_keys (g_forceSyncPeers g) ! (ch mod length (g_forceSyncPeers g))"
  have wf: "gm_wf (g_store g)" using assms(1) by (simp add: gossip_inv_def)
  have "?p \<in> set (gm_keys (g_forceSyncPeers g))"
    using assms(3) by (intro nth_mem) (simp add: gm_keys_def)
  moreover have "\<exists>e. digest_for ?p g e \<and> gossip_Tick c ch g =
      (g\<lparr>g_tick := g_tick g + 1, g_forceSyncPeers := gm_del ?p (g_forceSyncPeers g)\<rparr>, [e])"
    using assms by (simp add: gossip_Tick_def gossip_inv_def Let_def gossip_envelope_def digest_for_def map_of_digest_of [OF wf])
  ultimately show ?thesis using that by blast
qed

text \<open>
  A node gossips every third tick, and only then: the tick emits nothing otherwise or when there
  is nobody to talk to, and when it emits, it emits one envelope from this node, to a peer marked
  for active sync if there is one and to a known peer if not, whose digest lists exactly
  the keys of the store with their current metadata.
\<close>

theorem digest_schedule:
  assumes "gossip_inv g"
  shows "(snd (gossip_Tick c ch g) = [] \<longleftrightarrow>
           (g_tick g + 1) mod 3 \<noteq> 0 \<or> (g_forceSyncPeers g = [] \<and> g_peers g = []))
    \<and> (\<forall>e \<in> set (snd (gossip_Tick c ch g)). env_From e = g_nodeID g
         \<and> env_To e \<in> (if g_forceSyncPeers g \<noteq> [] then set (gm_keys (g_forceSyncPeers g)) else set (g_peers g))
         \<and> (\<exists>m. env_Payload e = JGossip m \<and> m_Type m = MsgDigest
              \<and> (\<forall>k. map_of (m_Digest m) k = map_option valueToDigestEntry (map_of (g_store g) k))))"
proof -
  have iv: "g_gossipInterval g = 3" and wf: "gm_wf (g_store g)" using assms by (auto simp: gossip_inv_def)
  have "gm_keys (g_forceSyncPeers g) ! (ch mod length (g_forceSyncPeers g)) \<in> set (gm_keys (g_forceSyncPeers g))"
    if "g_forceSyncPeers g \<noteq> []" using that by (intro nth_mem) (simp add: gm_keys_def)
  moreover have "g_peers g ! (ch mod length (g_peers g)) \<in> set (g_peers g)" if "g_peers g \<noteq> []"
    using that by (intro nth_mem) simp
  ultimately show ?thesis
    by (auto simp: gossip_Tick_def iv Let_def pickRandomPeer_def gossip_envelope_def map_of_digest_of [OF wf])
qed

theorem digest_schedule_witness:
  "snd (gossip_Tick (\<lambda>_. 1) 0 NewGossipProtocol) = []
     \<longleftrightarrow> (g_tick NewGossipProtocol + 1) mod 3 \<noteq> 0 \<or> (g_forceSyncPeers NewGossipProtocol = [] \<and> g_peers NewGossipProtocol = [])"
  by (rule digest_schedule [OF gossip_inv_new, THEN conjunct1])

fun gossip_ticks :: "(nat \<Rightarrow> clock) \<Rightarrow> (nat \<Rightarrow> nat) \<Rightarrow> nat \<Rightarrow> gossip \<Rightarrow> gossip \<times> envelope list" where
  "gossip_ticks cs chs 0 g = (g, [])"
| "gossip_ticks cs chs (Suc n) g = (case gossip_Tick (cs n) (chs n) g of (g1, out1) \<Rightarrow>
     case gossip_ticks cs chs n g1 of (g2, out2) \<Rightarrow> (g2, out1 @ out2))"

lemma u64_mod3: "(t :: u64) mod 3 = 0 \<longleftrightarrow> unat t mod 3 = 0"
proof -
  have "t mod 3 = 0 \<longleftrightarrow> unat (t mod 3) = 0" by (simp add: unat_eq_zero)
  then show ?thesis by (simp add: unat_mod_distrib)
qed

text \<open>The number of gossip rounds among the next \<open>n\<close> ticks suffices for the marked peers.\<close>

lemma forced_served:
  assumes "gossip_inv g" "unat (g_tick g) + n < 2 ^ 64"
    and "length (g_forceSyncPeers g) \<le> (unat (g_tick g) + n) div 3 - unat (g_tick g) div 3"
    and "p \<in> set (gm_keys (g_forceSyncPeers g))"
  shows "\<exists>e \<in> set (snd (gossip_ticks cs chs n g)). digest_for p g e"
  using assms
proof (induction n arbitrary: g)
  case (Suc n)
  let ?t = "unat (g_tick g)" and ?f = "g_forceSyncPeers g"
  have t1: "unat (g_tick g + 1) = ?t + 1" using Suc.prems(2) by (intro u64_Suc) simp
  show ?case
  proof (cases "(g_tick g + 1) mod 3 = 0")
    case False
    then have "(?t + 1) div 3 = ?t div 3" using t1 u64_mod3 [of "g_tick g + 1"] by presburger
    then have "\<exists>e \<in> set (snd (gossip_ticks cs chs n (g\<lparr>g_tick := g_tick g + 1\<rparr>))). digest_for p (g\<lparr>g_tick := g_tick g + 1\<rparr>) e"
      using Suc.prems t1 by (intro Suc.IH) (auto simp: gossip_inv_def)
    then show ?thesis using Tick_quiet [OF Suc.prems(1) False]
      by (auto simp: digest_for_def split: prod.splits)
  next
    case True
    then have d: "(?t + 1) div 3 = ?t div 3 + 1" using t1 u64_mod3 [of "g_tick g + 1"] by presburger
    have ne: "?f \<noteq> []" using Suc.prems(4) by (auto simp: gm_keys_def)
    obtain q e where q: "q \<in> set (gm_keys ?f)" "digest_for q g e"
      "gossip_Tick (cs n) (chs n) g = (g\<lparr>g_tick := g_tick g + 1, g_forceSyncPeers := gm_del q ?f\<rparr>, [e])"
      by (rule Tick_forced [OF Suc.prems(1) True ne])
    show ?thesis
    proof (cases "p = q")
      case True
      then show ?thesis using q by (auto split: prod.splits)
    next
      case False
      let ?g = "g\<lparr>g_tick := g_tick g + 1, g_forceSyncPeers := gm_del q ?f\<rparr>"
      have "length (gm_del q ?f) + 1 \<le> length ?f" using q(1) by (rule length_gm_del)
      then have "\<exists>e \<in> set (snd (gossip_ticks cs chs n ?g)). digest_for p ?g e"
        using Suc.prems t1 d False by (intro Suc.IH) (auto simp: gossip_inv_def set_gm_keys)
      then show ?thesis using q(3) by (auto simp: digest_for_def split: prod.splits)
    qed
  qed
qed (simp add: gm_keys_def)

text \<open>
  C14: A peer marked for active sync is served soon: with \<open>m\<close> peers marked, every one of them has been
  sent a digest after at most \<open>3 m\<close> ticks, whatever order the map loop and the random choice take:
  an envelope of this node addressed to that peer, of the gossip protocol, whose payload is a
  \<open>DIGEST\<close> message that lists exactly the keys of the store with their current metadata.  The tick
  counter has room for these ticks.
\<close>

theorem forced_peers_served:
  assumes "gossip_inv g" "length (g_forceSyncPeers g) \<le> m" "unat (g_tick g) + 3 * m < 2 ^ 64"
    and "p \<in> set (gm_keys (g_forceSyncPeers g))"
  shows "\<exists>e \<in> set (snd (gossip_ticks cs chs (3 * m) g)). env_To e = p \<and> env_From e = g_nodeID g
    \<and> env_Protocol e = ''gossip'' \<and> env_Kind e = KindProtocol
    \<and> (\<exists>msg. env_Payload e = JGossip msg \<and> m_Type msg = MsgDigest \<and> m_State msg = []
         \<and> (\<forall>k. map_of (m_Digest msg) k = map_option valueToDigestEntry (map_of (g_store g) k)))"
  using forced_served [OF assms(1,3) _ assms(4), of cs chs] assms(2) by (simp add: digest_for_def)

theorem forced_peers_served_witness:
  "\<exists>e \<in> set (snd (gossip_ticks (\<lambda>_ _. 4) (\<lambda>_. 1) (3 * 2) (gossip_SetPeers [''n2'', ''n3''] (gossip_Start ''n1'' NewGossipProtocol)))).
     env_To e = ''n3'' \<and> (\<exists>msg. env_Payload e = JGossip msg \<and> m_Type msg = MsgDigest)"
proof -
  let ?g = "gossip_SetPeers [''n2'', ''n3''] (gossip_Start ''n1'' NewGossipProtocol)"
  have "gossip_inv ?g" by (intro gossip_inv_SetPeers gossip_inv_Start gossip_inv_new)
  moreover have "length (g_forceSyncPeers ?g) \<le> 2" "unat (g_tick ?g) + 3 * 2 < 2 ^ 64"
    "''n3'' \<in> set (gm_keys (g_forceSyncPeers ?g))"
    by (simp_all add: gossip_SetPeers_def gossip_Start_def NewGossipProtocol_def Let_def gm_mark_def gm_put_def gm_keys_def gm_getd_def)
  ultimately show ?thesis
    using forced_peers_served [of ?g 2 "''n3''" "\<lambda>_ _. 4" "\<lambda>_. 1"] by blast
qed

end
