(* ===== verification/ClusterProtocol.thy ===== *)
theory ClusterProtocol
  imports Messages
begin

text \<open>
  The contract of \<open>protocol.ClusterProtocol\<close> (\<open>internal/node/protocol/protocol.go\<close>) as the runtime
  relies on it: a protocol is started once with the node's name, and whatever it emits afterwards
  from ticks and messages carries that name as the sender and the protocol's own name.  The input
  \<open>'i\<close> of a call stands for what the call reads from outside: clocks and random choices.
\<close>

datatype ('i) proto_call = CTick 'i | CMessage 'i envelope | CSetPeers "string list"

locale cluster_protocol =
  fixes node_of :: "'s \<Rightarrow> string"
    and proto_name :: string
    and p_start :: "string \<Rightarrow> 's \<Rightarrow> 's"
    and p_tick :: "'i \<Rightarrow> 's \<Rightarrow> 's \<times> envelope list"
    and p_message :: "'i \<Rightarrow> envelope \<Rightarrow> 's \<Rightarrow> 's \<times> envelope list"
    and p_set_peers :: "string list \<Rightarrow> 's \<Rightarrow> 's"
  assumes start_node: "node_of (p_start n s) = n"
    and tick_node: "node_of (fst (p_tick i s)) = node_of s"
    and message_node: "node_of (fst (p_message i e s)) = node_of s"
    and peers_node: "node_of (p_set_peers ps s) = node_of s"
    and tick_out: "x \<in> set (snd (p_tick i s)) \<Longrightarrow> env_From x = node_of s \<and> env_Protocol x = proto_name"
    and message_out: "x \<in> set (snd (p_message i e s)) \<Longrightarrow> env_From x = node_of s \<and> env_Protocol x = proto_name"
begin

fun call :: "'i proto_call \<Rightarrow> 's \<Rightarrow> 's \<times> envelope list" where
  "call (CTick i) s = p_tick i s"
| "call (CMessage i e) s = p_message i e s"
| "call (CSetPeers ps) s = (p_set_peers ps s, [])"

fun calls :: "'i proto_call list \<Rightarrow> 's \<Rightarrow> 's \<times> envelope list" where
  "calls [] s = (s, [])"
| "calls (c # cs) s = (case call c s of (s1, out1) \<Rightarrow> case calls cs s1 of (s2, out2) \<Rightarrow> (s2, out1 @ out2))"

lemma call_node: "node_of (fst (call c s)) = node_of s"
  by (cases c) (simp_all add: tick_node message_node peers_node)

lemma call_out: "x \<in> set (snd (call c s)) \<Longrightarrow> env_From x = node_of s \<and> env_Protocol x = proto_name"
  by (cases c) (auto dest: tick_out message_out)

lemma calls_out:
  "x \<in> set (snd (calls cs s)) \<Longrightarrow> env_From x = node_of s \<and> env_Protocol x = proto_name"
proof (induction cs arbitrary: s)
  case (Cons c cs)
  obtain s1 out1 where c: "call c s = (s1, out1)" by force
  have "node_of s1 = node_of s" using call_node [of c s] c by simp
  then show ?case using Cons.prems Cons.IH [of s1] call_out [of x c s] c by (auto split: prod.splits)
qed simp

lemma started_out:
  "x \<in> set (snd (calls cs (p_start n s))) \<Longrightarrow> env_From x = n \<and> env_Protocol x = proto_name"
  using calls_out start_node by metis

end

end
