(* ===== verification/GossipSync.thy ===== *)
theory GossipSync
  imports Gossip ClusterProtocol
begin

text \<open>
  Pairwise anti-entropy: what the answer to a digest says about two stores, and what a full
  exchange (digest, state and reverse digest, state) does to them.  The exchange is the composition
  of the protocol's own \<open>Tick\<close> and \<open>OnMessage\<close>, delivered in order between two nodes.
\<close>

section \<open>Receiving without a runtime\<close>

definition no_cb :: "(gossip, unit) discovery_cb" where
  "no_cb = (\<lambda>_ _ _ s. s)"

definition recv :: "clock \<Rightarrow> envelope \<Rightarrow> gossip \<Rightarrow> gossip \<times> envelope list" where
  "recv c e g = (case gossip_OnMessage c no_cb e (g, ()) of ((g', _), out, _) \<Rightarrow> (g', out))"

fun recv_all :: "clock \<Rightarrow> envelope list \<Rightarrow> gossip \<Rightarrow> gossip \<times> envelope list" where
  "recv_all c [] g = (g, [])"
| "recv_all c (e # es) g = (case recv c e g of (g1, out1) \<Rightarrow>
     case recv_all c es g1 of (g2, out2) \<Rightarrow> (g2, out1 @ out2))"

text \<open>A digest of \<open>a\<close> reaches \<open>b\<close>, the answers reach \<open>a\<close>, and the answers to those reach \<open>b\<close>.\<close>

definition sync_round :: "clock \<Rightarrow> envelope \<Rightarrow> gossip \<Rightarrow> gossip \<Rightarrow> gossip \<times> gossip \<times> envelope list" where
  "sync_round c e a b = (case recv c e b of (b1, out1) \<Rightarrow>
     case recv_all c out1 a of (a1, out2) \<Rightarrow>
     case recv_all c out2 b1 of (b2, out3) \<Rightarrow> (a1, b2, out3))"

definition digest_msg :: "gossip \<Rightarrow> gossip_message" where
  "digest_msg g = \<lparr>m_Type = MsgDigest, m_Digest = digest_of (g_store g), m_State = []\<rparr>"

lemma discover_no_cb: "\<exists>ps. gossip_discover no_cb i h p (g, ()) = (g\<lparr>g_peers := ps\<rparr>, ())"
proof (cases "i \<noteq> [] \<and> i \<noteq> g_nodeID g \<and> \<not> hasPeer i g")
  case True
  then show ?thesis by (auto simp: gossip_discover_def no_cb_def)
next
  case False
  then have "gossip_discover no_cb i h p (g, ()) = (g\<lparr>g_peers := g_peers g\<rparr>, ())"
    by (auto simp: gossip_discover_def)
  then show ?thesis by blast
qed

lemma recv_state:
  assumes "env_Payload e = JGossip m" "m_Type m = MsgState"
  shows "\<exists>ps. recv c e g = (fst (handleState c m (g\<lparr>g_peers := ps\<rparr>)), [])"
proof -
  obtain i h p where addr: "parseSenderAddress (env_From e) = (i, h, p)" by (metis prod_cases3)
  obtain ps where "gossip_discover no_cb (if i = [] then env_From e else i) h p (g, ()) = (g\<lparr>g_peers := ps\<rparr>, ())"
    using discover_no_cb by blast
  then show ?thesis
    using assms addr by (auto simp: recv_def gossip_OnMessage_def Let_def case_prod_unfold)
qed

lemma recv_digest:
  assumes "env_Payload e = JGossip m" "m_Type m = MsgDigest"
  shows "\<exists>ps from. recv c e g = (g\<lparr>g_peers := ps\<rparr>, handleDigest c from m (g\<lparr>g_peers := ps\<rparr>))"
proof -
  obtain i h p where "parseSenderAddress (env_From e) = (i, h, p)" by (metis prod_cases3)
  then show ?thesis
    using assms discover_no_cb [of "if i = [] then env_From e else i" h p g]
    by (fastforce simp: recv_def gossip_OnMessage_def Let_def)
qed

section \<open>The protocol contract\<close>

lemma recv_node:
  "g_nodeID (fst (recv c e g)) = g_nodeID g"
  "x \<in> set (snd (recv c e g)) \<Longrightarrow> env_From x = g_nodeID g \<and> env_Protocol x = ''gossip''"
proof -
  obtain i h p where addr: "parseSenderAddress (env_From e) = (i, h, p)" by (metis prod_cases3)
  obtain ps where d: "gossip_discover no_cb (if i = [] then env_From e else i) h p (g, ()) = (g\<lparr>g_peers := ps\<rparr>, ())"
    using discover_no_cb by blast
  show "g_nodeID (fst (recv c e g)) = g_nodeID g"
    using addr d by (auto simp: recv_def gossip_OnMessage_def Let_def case_prod_unfold split: option.splits)
  show "env_From x = g_nodeID g \<and> env_Protocol x = ''gossip''" if "x \<in> set (snd (recv c e g))"
    using that addr d by (auto simp: recv_def gossip_OnMessage_def Let_def case_prod_unfold handleDigest_def
        gossip_envelope_def split: option.splits if_splits)
qed

interpretation gp: cluster_protocol g_nodeID "''gossip''" gossip_Start "\<lambda>(c, ch). gossip_Tick c ch"
  "\<lambda>(c, ch :: nat). recv c" gossip_SetPeers
proof unfold_locales
  fix n s ps e x and i :: "clock \<times> nat"
  obtain c ch where i: "i = (c, ch)" by force
  show "g_nodeID (gossip_Start n s) = n" by (simp add: gossip_Start_def)
  show "g_nodeID (gossip_SetPeers ps s) = g_nodeID s" by (simp add: gossip_SetPeers_def Let_def)
  show "g_nodeID (fst ((case i of (c, ch) \<Rightarrow> gossip_Tick c ch) s)) = g_nodeID s"
    by (auto simp: i gossip_Tick_def Let_def split: option.splits)
  show "g_nodeID (fst ((case i of (c, ch) \<Rightarrow> recv c) e s)) = g_nodeID s" by (simp add: i recv_node)
  show "env_From x = g_nodeID s \<and> env_Protocol x = ''gossip''" if "x \<in> set (snd ((case i of (c, ch) \<Rightarrow> gossip_Tick c ch) s))"
    using that by (auto simp: i gossip_Tick_def Let_def gossip_envelope_def split: option.splits if_splits)
  show "env_From x = g_nodeID s \<and> env_Protocol x = ''gossip''" if "x \<in> set (snd ((case i of (c, ch) \<Rightarrow> recv c) e s))"
    using that recv_node(2) [of x c e s] by (simp add: i)
qed

section \<open>Agreement of two stores\<close>

text \<open>
  Two entries that conflict resolution cannot tell apart, and the parts of an entry a reader sees.
\<close>

definition agree :: "gvalue option \<Rightarrow> gvalue option \<Rightarrow> bool" where
  "agree x y \<longleftrightarrow> (case (x, y) of (None, None) \<Rightarrow> True | (Some a, Some b) \<Rightarrow> tied a b | _ \<Rightarrow> False)"

definition visible :: "gvalue \<Rightarrow> string \<times> int \<times> string \<times> int" where
  "visible v = (v_Data v, v_Version v, v_Origin v, v_Timestamp v)"

lemma tied_tie_key: "tied a b \<Longrightarrow> tie_key a = tie_key b"
  using tie_less_total [of a b] by (auto simp: tied_def beats_def)

lemma wf_clock: "gossip_inv g \<Longrightarrow> map_of (g_store g) k = Some v \<Longrightarrow> gm_wf (v_VectorClock v)"
  by (auto simp: gossip_inv_def value_ok_def vc_ok_def dest: store_okD)

lemma inv_wf: "gossip_inv g \<Longrightarrow> gm_wf (g_store g)" "gossip_inv g \<Longrightarrow> store_ok (g_store g)"
  by (auto simp: gossip_inv_def)

text \<open>What a node is ahead of, and whether it is behind, when the digest is that of a store.\<close>

lemma ahead_digest:
  assumes "gossip_inv a" "gossip_inv b"
  shows "map_of (ahead_of b (digest_of (g_store a))) k =
    (case map_of (g_store b) k of None \<Rightarrow> None
     | Some v \<Rightarrow> (case map_of (g_store a) k of None \<Rightarrow> Some v | Some u \<Rightarrow> if beats v u then Some v else None))"
  using assms compareValueToDigest_cases(2) wf_clock
  by (auto simp: map_of_ahead inv_wf map_of_digest_of split: option.splits)

lemma behind_digest:
  assumes "gossip_inv a" "gossip_inv b"
  shows "is_behind b (digest_of (g_store a)) \<longleftrightarrow>
    (\<exists>k u. map_of (g_store a) k = Some u \<and> (case map_of (g_store b) k of None \<Rightarrow> True | Some v \<Rightarrow> beats u v))"
proof -
  have "gm_wf (digest_of (g_store a))" using assms by (simp add: digest_of_map inv_wf)
  then show ?thesis
    using assms compareValueToDigest_cases(1) wf_clock
    by (fastforce simp: is_behind_iff map_of_digest_of inv_wf split: option.splits)
qed

lemma ahead_Nil:
  "gossip_inv b \<Longrightarrow> ahead_of b d = [] \<longleftrightarrow> (\<forall>k. map_of (ahead_of b d) k = None)"
  by (metis map_of.simps(1) map_of_eq_empty_iff ext)

lemma handleDigest_Nil:
  assumes "gm_wf (g_store g)"
  shows "handleDigest c from msg g = [] \<longleftrightarrow> ahead_of g (m_Digest msg) = [] \<and> \<not> is_behind g (m_Digest msg)"
  by (rule handleDigest_out [OF assms, of c "from" msg]) auto

lemma agree_keys:
  assumes "gossip_inv a" "gossip_inv b"
  shows "agree (map_of (g_store a) k) (map_of (g_store b) k) \<longleftrightarrow>
    map_of (ahead_of b (digest_of (g_store a))) k = None \<and>
    \<not> (\<exists>u. map_of (g_store a) k = Some u \<and> (case map_of (g_store b) k of None \<Rightarrow> True | Some v \<Rightarrow> beats u v))"
  unfolding ahead_digest [OF assms] agree_def tied_def
  by (cases "map_of (g_store a) k"; cases "map_of (g_store b) k") auto

text \<open>
  A node stays silent on a peer's digest exactly when the two stores agree: they have the same
  keys, and no value on either side is newer than its counterpart.
\<close>

theorem digest_silent_iff_agree:
  assumes "gossip_inv a" "gossip_inv b"
  shows "handleDigest c from (digest_msg a) b = [] \<longleftrightarrow>
    (\<forall>k. agree (map_of (g_store a) k) (map_of (g_store b) k))"
proof -
  have "handleDigest c from (digest_msg a) b = [] \<longleftrightarrow>
      ahead_of b (digest_of (g_store a)) = [] \<and> \<not> is_behind b (digest_of (g_store a))"
    using assms by (simp add: digest_msg_def inv_wf handleDigest_Nil)
  also have "\<dots> \<longleftrightarrow> (\<forall>k. agree (map_of (g_store a) k) (map_of (g_store b) k))"
    unfolding ahead_Nil [OF assms(2)] behind_digest [OF assms] agree_keys [OF assms] by blast
  finally show ?thesis .
qed

section \<open>One exchange\<close>

lemma inv_peers [simp]: "gossip_inv (g\<lparr>g_peers := ps\<rparr>) \<longleftrightarrow> gossip_inv g"
  by (simp add: gossip_inv_def)

lemma ahead_peers [simp]: "ahead_of (g\<lparr>g_peers := ps\<rparr>) d = ahead_of g d"
  by (simp add: ahead_of_def)

lemma behind_peers [simp]: "is_behind (g\<lparr>g_peers := ps\<rparr>) d = is_behind g d"
  by (simp add: is_behind_def)

lemma ahead_ok: "store_ok (g_store g) \<Longrightarrow> store_ok (ahead_of g d)"
  by (auto simp: store_ok_def ahead_of_def list_all_iff)

text \<open>Receiving the answers \<open>b\<close> gives to a digest: the state is merged, the digest is answered.\<close>

lemma recv_answers:
  assumes "gossip_inv a" "gossip_inv b"
  shows "\<exists>a1 a2 from2. recv_all c (handleDigest c' from msg b) a =
      (a1, if is_behind b (m_Digest msg) then handleDigest c from2 (digest_msg b) a2 else [])
    \<and> gossip_inv a1 \<and> gossip_inv a2 \<and> g_store a2 = g_store a1
    \<and> (\<forall>k. map_of (g_store a1) k = (case map_of (ahead_of b (m_Digest msg)) k of None \<Rightarrow> map_of (g_store a) k
         | Some v \<Rightarrow> Some (merge_into (map_of (g_store a) k) v)))"
proof -
  let ?ah = "ahead_of b (m_Digest msg)"
  let ?S = "\<lparr>m_Type = MsgState, m_Digest = [], m_State = ?ah\<rparr>"
  have ok: "msg_ok ?S" using assms by (simp add: msg_ok_def ahead_ok inv_wf digest_ok_def)
  then have wf: "gm_wf ?ah" by (simp add: msg_ok_def)
  obtain m1 m2 t1 t2 where out: "handleDigest c' from msg b =
      (if ?ah \<noteq> [] then [gossip_envelope b from ?S m1 t1] else []) @
      (if is_behind b (m_Digest msg) then [gossip_envelope b from (digest_msg b) m2 t2] else [])"
    by (rule handleDigest_out [OF inv_wf(1) [OF assms(2)], of c' "from" msg, folded digest_msg_def])
  obtain ps where r1: "recv c (gossip_envelope b from ?S m1 t1) a = (fst (handleState c ?S (a\<lparr>g_peers := ps\<rparr>)), [])"
    using recv_state [of "gossip_envelope b from ?S m1 t1" ?S c a] by (auto simp: gossip_envelope_def)
  define aS where "aS = (if ?ah \<noteq> [] then fst (handleState c ?S (a\<lparr>g_peers := ps\<rparr>)) else a)"
  obtain ps2 from2 where r2: "recv c (gossip_envelope b from (digest_msg b) m2 t2) aS =
      (aS\<lparr>g_peers := ps2\<rparr>, handleDigest c from2 (digest_msg b) (aS\<lparr>g_peers := ps2\<rparr>))"
    using recv_digest [of "gossip_envelope b from (digest_msg b) m2 t2" "digest_msg b" c aS]
    by (auto simp: gossip_envelope_def digest_msg_def)
  have inv: "gossip_inv aS"
    using assms ok by (simp add: aS_def gossip_inv_handleState)
  have st: "map_of (g_store aS) k = (case map_of ?ah k of None \<Rightarrow> map_of (g_store a) k
        | Some v \<Rightarrow> Some (merge_into (map_of (g_store a) k) v))" for k
    using wf handleState_store [of ?S c "a\<lparr>g_peers := ps\<rparr>" k]
    by (auto simp: aS_def split: option.splits)
  have first: "recv_all c ((if ?ah \<noteq> [] then [gossip_envelope b from ?S m1 t1] else []) @ es) a = recv_all c es aS" for es
    using r1 by (auto simp: aS_def split: prod.splits)
  have res: "recv_all c (handleDigest c' from msg b) a = (if is_behind b (m_Digest msg)
      then (aS\<lparr>g_peers := ps2\<rparr>, handleDigest c from2 (digest_msg b) (aS\<lparr>g_peers := ps2\<rparr>)) else (aS, []))"
    unfolding out first using r2 by simp
  show ?thesis
    by (intro exI [of _ "fst (recv_all c (handleDigest c' from msg b) a)"] exI [of _ "aS\<lparr>g_peers := ps2\<rparr>"]
        exI [of _ from2]) (simp add: res inv st)
qed

lemma beats_merged:
  assumes "value_ok u" "value_ok v"
  shows "\<not> beats v (merge_into (Some u) v)"
proof (cases "beats v u")
  case True
  let ?m = "mergeClock (v_VectorClock u) (v_VectorClock v)"
  have "vc_le (v_VectorClock v) ?m"
    using assms mergeClock_upper(2) by (simp add: value_ok_def)
  then show ?thesis using True by (auto simp: merge_into_def beats_def vc_lt_def tie_less_def)
qed (simp add: merge_into_def)

lemma beats_merged_None:
  assumes "value_ok v"
  shows "\<not> beats v (merge_into None v)" "\<not> beats (merge_into None v) v"
proof -
  have "clk (mergeClock [] (v_VectorClock v)) n = clk (v_VectorClock v) n" for n
    using assms vc_ok_nonneg [of "v_VectorClock v" n] by (simp add: value_ok_def clk_mergeClock)
  then show "\<not> beats v (merge_into None v)" "\<not> beats (merge_into None v) v"
    by (auto simp: merge_into_def beats_def vc_lt_def vc_le_def tie_less_def)
qed

lemma visible_merge: "visible (merge_into None v) = visible v"
  "visible (merge_into (Some l) v) = (if beats v l then visible v else visible l)"
  by (simp_all add: merge_into_def visible_def)

lemma map_of_mset: "gm_wf m \<Longrightarrow> mset m' = mset m \<Longrightarrow> map_of m' = map_of m"
proof -
  assume m: "gm_wf m" and ms: "mset m' = mset m"
  have "mset (map fst m') = mset (map fst m)" using ms by simp
  then have "distinct (map fst m')" using m mset_eq_imp_distinct_iff [of "map fst m'" "map fst m"] by (simp add: gm_wf_def)
  then show ?thesis using m mset_eq_setD [OF ms] by (intro map_of_eqI) (auto simp: gm_wf_def)
qed

text \<open>
  C6: The merge of a STATE message is determined key by key: the result for a key is the incoming
  value with the joined clock if the message has one that wins, and the old value otherwise.  It
  does not depend on the order in which the loop visits the map, and receiving the same message
  again changes nothing.
\<close>

theorem state_merge_per_key:
  assumes "gossip_inv g" "msg_ok msg" "mset (m_State msg') = mset (m_State msg)"
  shows "map_of (g_store (fst (handleState c msg g))) k =
      (case map_of (m_State msg) k of None \<Rightarrow> map_of (g_store g) k
       | Some v \<Rightarrow> Some (merge_into (map_of (g_store g) k) v))
    \<and> map_of (g_store (fst (handleState c' msg' g))) k = map_of (g_store (fst (handleState c msg g))) k
    \<and> map_of (g_store (fst (handleState c' msg (fst (handleState c msg g))))) k =
        map_of (g_store (fst (handleState c msg g))) k"
proof -
  have wf: "gm_wf (m_State msg)" and ok: "store_ok (m_State msg)" using assms(2) by (auto simp: msg_ok_def)
  have same: "map_of (m_State msg') = map_of (m_State msg)" by (rule map_of_mset [OF wf assms(3)])
  have wf': "gm_wf (m_State msg')" using wf assms(3) mset_eq_imp_distinct_iff [of "map fst (m_State msg')" "map fst (m_State msg)"]
    by (simp add: gm_wf_def)
  have idem: "merge_into (Some (merge_into cur v)) v = merge_into cur v"
    if "cur = map_of (g_store g) k" "map_of (m_State msg) k = Some v" for cur v
  proof -
    have v: "value_ok v" using that ok store_okD by blast
    have "\<not> beats v (merge_into cur v)"
    proof (cases cur)
      case (Some u)
      then have "value_ok u" using that assms(1) by (auto simp: gossip_inv_def dest: store_okD)
      with Some v show ?thesis by (simp add: beats_merged)
    qed (simp add: beats_merged_None [OF v])
    then show ?thesis by (simp add: merge_into_def [of "Some _"])
  qed
  show ?thesis
    using idem by (cases "map_of (m_State msg) k") (auto simp: handleState_store [OF wf] handleState_store [OF wf'] same)
qed

text \<open>
  The entries of one key after an exchange: \<open>x\<close> and \<open>y\<close> are the entries before, \<open>x1\<close> is the first
  node's entry after the answer, and \<open>y1\<close> the second node's after the reverse answer, which is sent
  (\<open>beh\<close>) at least when the second node lacks \<open>x\<close> or \<open>x\<close> is newer.
\<close>

lemma exchange_key:
  assumes x1: "x1 = (case y of None \<Rightarrow> x | Some v \<Rightarrow> (case x of None \<Rightarrow> Some (merge_into None v)
        | Some u \<Rightarrow> if beats v u then Some (merge_into (Some u) v) else Some u))"
    and y1: "y1 = (if beh then (case x1 of None \<Rightarrow> y | Some u \<Rightarrow> (case y of None \<Rightarrow> Some (merge_into None u)
        | Some v \<Rightarrow> if beats u v then Some (merge_into (Some v) u) else Some v)) else y)"
    and beh: "\<And>u. x = Some u \<Longrightarrow> (case y of None \<Rightarrow> True | Some v \<Rightarrow> beats u v) \<Longrightarrow> beh"
    and ids: "\<And>u v. x = Some u \<Longrightarrow> y = Some v \<Longrightarrow> tie_key u = tie_key v \<Longrightarrow> v_Data u = v_Data v"
  shows "map_option visible x1 = map_option visible y1"
proof (cases x)
  case None
  then show ?thesis using x1 y1 by (auto simp: visible_merge split: option.splits)
next
  case (Some u)
  show ?thesis
  proof (cases y)
    case None
    then show ?thesis using x1 y1 beh [OF Some] Some by (simp add: visible_merge)
  next
    case y: (Some v)
    consider "beats v u" | "beats u v" "\<not> beats v u" | "tied u v" by (auto simp: tied_def)
    then show ?thesis
    proof cases
      case 3
      then have "tie_key u = tie_key v" by (rule tied_tie_key)
      then have "visible u = visible v"
        using ids [OF Some y] by (auto simp: visible_def tie_key_def)
      then show ?thesis using x1 y1 Some y 3 by (auto simp: tied_def)
    qed (use x1 y1 beh [OF Some] Some y in \<open>auto simp: visible_merge\<close>)
  qed
qed

text \<open>
  C4: A complete digest exchange makes two replicas agree: if the digest \<open>a\<close>'s \<open>Tick\<close> emitted is
  delivered to \<open>b\<close>, \<open>b\<close>'s answers to \<open>a\<close> and \<open>a\<close>'s answers back to \<open>b\<close>, then both stores have the same
  keys with the same data, version, origin and timestamp, whatever they held before (provided that
  equal timestamp, origin and version identify the data).
\<close>

theorem exchange_converges:
  assumes "gossip_inv a" "gossip_inv b" "gossip_Tick c0 choice a = (a', [e])"
    and "\<And>k u v. map_of (g_store a) k = Some u \<Longrightarrow> map_of (g_store b) k = Some v \<Longrightarrow>
           tie_key u = tie_key v \<Longrightarrow> v_Data u = v_Data v"
    and "sync_round c e a' b = (a1, b1, out)"
  shows "map_option visible (map_of (g_store a1) k) = map_option visible (map_of (g_store b1) k)"
proof -
  have a': "gossip_inv a'" "g_store a' = g_store a"
    using gossip_inv_Tick [OF assms(1), of c0 choice] assms(3)
    by (auto simp: gossip_Tick_def Let_def split: if_splits option.splits)
  have e: "env_Payload e = JGossip (digest_msg a)"
    using assms(3) by (auto simp: gossip_Tick_def Let_def gossip_envelope_def digest_msg_def
        split: if_splits option.splits)
  obtain ps fr where b0: "recv c e b = (b\<lparr>g_peers := ps\<rparr>, handleDigest c fr (digest_msg a) (b\<lparr>g_peers := ps\<rparr>))"
    using recv_digest [OF e, of c b] by (auto simp: digest_msg_def)
  let ?b = "b\<lparr>g_peers := ps\<rparr>"
  have invb: "gossip_inv ?b" using assms(2) by simp
  have bs: "g_store ?b = g_store b" by simp
  have dm: "m_Digest (digest_msg g) = digest_of (g_store g)" for g by (simp add: digest_msg_def)
  let ?beh = "is_behind b (digest_of (g_store a))"
  obtain out2 where out2: "recv_all c (handleDigest c fr (digest_msg a) ?b) a' = (a1, out2)"
      "recv_all c out2 ?b = (b1, out)"
    using assms(5) b0 by (auto simp: sync_round_def split: prod.splits)
  obtain a2 f2 where o2: "out2 = (if ?beh then handleDigest c f2 (digest_msg ?b) a2 else [])"
    and inv: "gossip_inv a1" "gossip_inv a2" and st2: "g_store a2 = g_store a1"
    and sta: "\<And>k. map_of (g_store a1) k = (case map_of (ahead_of b (digest_of (g_store a))) k of
        None \<Rightarrow> map_of (g_store a) k | Some v \<Rightarrow> Some (merge_into (map_of (g_store a) k) v))"
    using recv_answers [OF a'(1) invb, of c c fr "digest_msg a"] unfolding out2(1) dm a'(2) by auto
  have "ahead_of a2 d = ahead_of a1 d" for d by (simp add: ahead_of_def st2)
  then have stb: "map_of (g_store b1) k = (if ?beh then (case map_of (ahead_of a1 (digest_of (g_store b))) k of
        None \<Rightarrow> map_of (g_store b) k | Some v \<Rightarrow> Some (merge_into (map_of (g_store b) k) v))
      else map_of (g_store b) k)" for k
    using recv_answers [OF invb inv(2), of c c f2 "digest_msg ?b", unfolded dm bs] out2(2) by (auto simp: o2)
  show ?thesis
  proof (rule exchange_key)
    show "map_of (g_store a1) k = (case map_of (g_store b) k of None \<Rightarrow> map_of (g_store a) k
        | Some v \<Rightarrow> (case map_of (g_store a) k of None \<Rightarrow> Some (merge_into None v)
          | Some u \<Rightarrow> if beats v u then Some (merge_into (Some u) v) else Some u))"
      unfolding sta ahead_digest [OF assms(1,2)]
      by (cases "map_of (g_store a) k"; cases "map_of (g_store b) k") auto
    show "map_of (g_store b1) k = (if ?beh then (case map_of (g_store a1) k of None \<Rightarrow> map_of (g_store b) k
        | Some u \<Rightarrow> (case map_of (g_store b) k of None \<Rightarrow> Some (merge_into None u)
          | Some v \<Rightarrow> if beats u v then Some (merge_into (Some v) u) else Some v)) else map_of (g_store b) k)"
      unfolding stb ahead_digest [OF assms(2) inv(1)]
      by (cases "map_of (g_store a1) k"; cases "map_of (g_store b) k") auto
    show ?beh if "map_of (g_store a) k = Some u" "case map_of (g_store b) k of None \<Rightarrow> True | Some v \<Rightarrow> beats u v" for u
      unfolding behind_digest [OF assms(1,2)] using that by blast
  qed (fact assms(4))
qed

text \<open>Two replicas that wrote the same key concurrently, for the witnesses.\<close>

definition replica :: "string \<Rightarrow> gossip" where
  "replica i = fst (gossip_Put (\<lambda>_. 7) ''k'' (''from '' @ i)
     (gossip_SetPeers [''n1'', ''n2''] (gossip_Start i NewGossipProtocol)))"

lemmas replica_simps = replica_def gossip_Put_def gossip_SetPeers_def gossip_Start_def NewGossipProtocol_def
  Let_def gm_mark_def gm_put_def gm_keys_def gm_getd_def wrap64_def

lemma replica_inv: "gossip_inv (replica i)"
  unfolding replica_def
  by (intro gossip_inv_Put gossip_inv_SetPeers gossip_inv_Start gossip_inv_new)
     (simp add: put_room_def gossip_SetPeers_def gossip_Start_def NewGossipProtocol_def Let_def)

definition replica_state :: "string \<Rightarrow> gossip_message" where
  "replica_state i = \<lparr>m_Type = MsgState, m_Digest = [], m_State = g_store (replica i)\<rparr>"

lemma replica_state_ok: "msg_ok (replica_state i)"
  using replica_inv [of i] by (simp add: replica_state_def msg_ok_def digest_ok_def gossip_inv_def)

theorem state_merge_per_key_witness:
  "map_of (g_store (fst (handleState (\<lambda>_. 1) (replica_state ''n2'') (fst (handleState (\<lambda>_. 1) (replica_state ''n2'') (replica ''n1'')))))) ''k''
     = map_of (g_store (fst (handleState (\<lambda>_. 1) (replica_state ''n2'') (replica ''n1'')))) ''k''"
  using state_merge_per_key [OF replica_inv replica_state_ok refl] by blast

theorem digest_silent_iff_agree_witness:
  "(handleDigest (\<lambda>_. 8) ''n1'' (digest_msg (replica ''n1'')) (replica ''n1'') = [])
     = (\<forall>k. agree (map_of (g_store (replica ''n1'')) k) (map_of (g_store (replica ''n1'')) k))"
  by (rule digest_silent_iff_agree [OF replica_inv replica_inv])

theorem exchange_converges_witness:
  "\<exists>a' e a1 b1 out. gossip_Tick (\<lambda>_. 8) 0 ((replica ''n1'')\<lparr>g_tick := 2\<rparr>) = (a', [e])
     \<and> sync_round (\<lambda>_. 9) e a' (replica ''n2'') = (a1, b1, out)
     \<and> map_option visible (map_of (g_store a1) ''k'') = map_option visible (map_of (g_store b1) ''k'')"
proof -
  let ?a = "(replica ''n1'')\<lparr>g_tick := 2\<rparr>" and ?b = "replica ''n2''"
  have inv: "gossip_inv ?a" "gossip_inv ?b"
    using replica_inv [of "''n1''"] replica_inv [of "''n2''"] by (simp_all add: gossip_inv_def)
  have "\<exists>a' e. gossip_Tick (\<lambda>_. 8) 0 ?a = (a', [e])"
    by (simp add: gossip_Tick_def replica_simps)
  then obtain a' e where t: "gossip_Tick (\<lambda>_. 8) 0 ?a = (a', [e])" by blast
  obtain a1 b1 out where r: "sync_round (\<lambda>_. 9) e a' ?b = (a1, b1, out)" by (metis prod_cases3)
  have ids: "v_Data u = v_Data v" if "map_of (g_store ?a) k = Some u" "map_of (g_store ?b) k = Some v"
    "tie_key u = tie_key v" for k u v
    using that by (auto simp: replica_simps tie_key_def split: if_splits)
  have "map_option visible (map_of (g_store a1) ''k'') = map_option visible (map_of (g_store b1) ''k'')"
    by (rule exchange_converges [OF inv t _ r]) (rule ids)
  then show ?thesis using t r by blast
qed

end
