(* ===== verification/Convergence.thy ===== *)
theory Convergence
  imports GossipSync
begin

text \<open>
  Replicas that receive the same values.  Because the decision is not an order in general, agreement
  needs a hypothesis on the writes: when a value has seen another (its clock has reached the
  other's own counter), it also ranks above it by timestamp, origin and version.  Synchronised
  node clocks give this.  Under it, the order and repetition of deliveries do not matter.  Without it they do: a
  clock that goes back between two writes of a node lets the overwritten value return, even to its writer.
\<close>

section \<open>A sequence of deliveries for one key\<close>

definition absorb :: "gvalue option \<Rightarrow> gvalue list \<Rightarrow> gvalue option" where
  "absorb cur vs = fold (\<lambda>v cur. Some (merge_into cur v)) vs cur"

definition deliver_states :: "clock \<Rightarrow> gossip_message list \<Rightarrow> gossip \<Rightarrow> gossip" where
  "deliver_states c ms g = fold (\<lambda>m g. fst (handleState c m g)) ms g"

definition values_for :: "string \<Rightarrow> gossip_message list \<Rightarrow> gvalue list" where
  "values_for k ms = List.map_filter (\<lambda>m. map_of (m_State m) k) ms"

lemma deliver_states_key:
  assumes "list_all (\<lambda>m. gm_wf (m_State m)) ms"
  shows "map_of (g_store (deliver_states c ms g)) k = absorb (map_of (g_store g) k) (values_for k ms)"
  using assms
proof (induction ms arbitrary: g)
  case (Cons m ms)
  have "map_of (g_store (deliver_states c (m # ms) g)) k =
      absorb (map_of (g_store (fst (handleState c m g))) k) (values_for k ms)"
    using Cons by (simp add: deliver_states_def)
  then show ?case
    using Cons.prems handleState_store [of m c g k]
    by (cases "map_of (m_State m) k") (simp_all add: values_for_def absorb_def)
qed (simp add: deliver_states_def values_for_def absorb_def)

definition tie_le :: "gvalue \<Rightarrow> gvalue \<Rightarrow> bool" where
  "tie_le a b \<longleftrightarrow> \<not> tie_less b a"

lemma tie_le_key: "tie_le a b \<Longrightarrow> tie_le b a \<Longrightarrow> tie_key a = tie_key b"
  using tie_less_total [of a b] by (simp add: tie_le_def)

lemma tie_le_trans: "tie_le a b \<Longrightarrow> tie_le b c \<Longrightarrow> tie_le a c"
  by (auto simp: tie_le_def tie_less_def)

lemma tie_le_refl [simp]: "tie_le a a"
  by (simp add: tie_le_def tie_less_def)

lemma tie_less_imp_le: "tie_less a b \<Longrightarrow> tie_le a b"
  by (auto simp: tie_le_def tie_less_def)

lemma tie_le_clock [simp]: "tie_le (a\<lparr>v_VectorClock := x\<rparr>) b = tie_le a b" "tie_le a (b\<lparr>v_VectorClock := x\<rparr>) = tie_le a b"
  by (simp_all add: tie_le_def tie_less_def)

text \<open>\<open>x\<close> has seen \<open>v\<close>: its clock has reached the count \<open>v\<close> has of its own origin.\<close>

definition has_seen :: "gvalue \<Rightarrow> gvalue \<Rightarrow> bool" where
  "has_seen x v \<longleftrightarrow> clk (v_VectorClock v) (v_Origin v) \<le> clk (v_VectorClock x) (v_Origin v)"

definition time_follows :: "gvalue set \<Rightarrow> bool" where
  "time_follows V \<longleftrightarrow> (\<forall>x \<in> V. \<forall>v \<in> V. has_seen x v \<longrightarrow> tie_le v x)"

text \<open>What a replica that absorbed values of \<open>V\<close> may hold.\<close>

definition fits :: "gvalue set \<Rightarrow> gvalue \<Rightarrow> bool" where
  "fits V l \<longleftrightarrow> value_ok l \<and> (\<forall>v \<in> V. (has_seen l v \<longrightarrow> tie_le v l) \<and> (has_seen v l \<longrightarrow> tie_le l v))"

lemma vc_lt_seen: "vc_lt (v_VectorClock a) (v_VectorClock b) \<Longrightarrow> has_seen b a"
  by (simp add: has_seen_def vc_lt_def vc_le_def)

lemma fits_accept:
  assumes "time_follows V" "v \<in> V" "value_ok v" "\<And>l. cur = Some l \<Longrightarrow> fits V l"
  shows "fits V (merge_into cur v)"
    and "tie_le v (merge_into cur v)" and "cur = Some l \<Longrightarrow> tie_le l (merge_into cur v)"
    and "tie_key (merge_into cur v) \<in> insert (tie_key v) (tie_key ` set_option cur)"
proof -
  have V: "has_seen x y \<Longrightarrow> tie_le y x" if "x \<in> V" "y \<in> V" for x y
    using assms(1) that by (simp add: time_follows_def)
  have nn: "0 \<le> clk (v_VectorClock v) n" for n using assms(3) vc_ok_nonneg by (simp add: value_ok_def)
  show "tie_key (merge_into cur v) \<in> insert (tie_key v) (tie_key ` set_option cur)"
    by (auto simp: merge_into_def tie_key_def split: option.splits)
  consider "cur = None" | l where "cur = Some l" "beats v l" | l where "cur = Some l" "\<not> beats v l"
    by (cases cur) auto
  then have "fits V (merge_into cur v) \<and> tie_le v (merge_into cur v) \<and> (\<forall>l. cur = Some l \<longrightarrow> tie_le l (merge_into cur v))"
  proof cases
    case 1
    then show ?thesis
      using V assms(2,3) nn
      by (auto simp: merge_into_def fits_def has_seen_def value_ok_def clk_mergeClock)
  next
    case (2 l)
    then have l: "fits V l" using assms(4) by blast
    have ok: "vc_ok (v_VectorClock l)" "vc_ok (v_VectorClock v)" using l assms(3) by (auto simp: fits_def value_ok_def)
    have lv: "tie_le l v"
      using 2(2) l assms(2) vc_lt_seen [of l v] tie_less_imp_le by (auto simp: beats_def fits_def)
    have "tie_le x v" if "x \<in> V" "clk (v_VectorClock x) (v_Origin x) \<le> max (clk (v_VectorClock l) (v_Origin x)) (clk (v_VectorClock v) (v_Origin x))" for x
    proof (cases "has_seen l x")
      case True
      then show ?thesis using l that(1) lv tie_le_trans by (auto simp: fits_def)
    next
      case False
      then have "has_seen v x" using that(2) by (auto simp: has_seen_def)
      then show ?thesis using V [OF assms(2) that(1)] by simp
    qed
    moreover have "tie_le v x" if "x \<in> V" "max (clk (v_VectorClock l) (v_Origin v)) (clk (v_VectorClock v) (v_Origin v)) \<le> clk (v_VectorClock x) (v_Origin v)" for x
      using V [OF that(1) assms(2)] that(2) by (simp add: has_seen_def)
    ultimately show ?thesis
      using 2 lv ok by (auto simp: merge_into_def fits_def value_ok_def has_seen_def clk_mergeClock)
  next
    case (3 l)
    then have l: "fits V l" using assms(4) by blast
    have "tie_le v l"
      using 3(2) l assms(2) vc_lt_seen [of v l] by (auto simp: beats_def fits_def tie_le_def)
    then show ?thesis using 3 l by (simp add: merge_into_def)
  qed
  then show "fits V (merge_into cur v)" "tie_le v (merge_into cur v)"
    "cur = Some l \<Longrightarrow> tie_le l (merge_into cur v)" by auto
qed

lemma absorb_max:
  assumes "time_follows V" "\<forall>v \<in> V. value_ok v"
  shows "set vs \<subseteq> V \<Longrightarrow> (case absorb None vs of None \<Rightarrow> vs = []
     | Some l \<Rightarrow> fits V l \<and> tie_key l \<in> tie_key ` set vs \<and> (\<forall>v \<in> set vs. tie_le v l))"
proof (induction vs rule: rev_induct)
  case (snoc v vs)
  have ab: "absorb None (vs @ [v]) = Some (merge_into (absorb None vs) v)" by (simp add: absorb_def)
  have v: "v \<in> V" and vs: "set vs \<subseteq> V" using snoc.prems by auto
  have IH: "fits V l \<and> tie_key l \<in> tie_key ` set vs \<and> (\<forall>v \<in> set vs. tie_le v l)" if "absorb None vs = Some l" for l
    using snoc.IH [OF vs] that by simp
  have IH0: "vs = []" if "absorb None vs = None" using snoc.IH [OF vs] that by simp
  note acc = fits_accept [OF assms(1) v assms(2) [rule_format, OF v], of "absorb None vs"]
  have "tie_le u (merge_into (absorb None vs) v)" if "u \<in> set vs" for u
  proof (cases "absorb None vs")
    case None
    with IH0 that show ?thesis by simp
  next
    case (Some l)
    have "tie_le u l" using IH [OF Some] that by simp
    moreover have "tie_le l (merge_into (absorb None vs) v)" using acc(3) IH Some by blast
    ultimately show ?thesis by (rule tie_le_trans)
  qed
  moreover have "tie_key (merge_into (absorb None vs) v) \<in> tie_key ` set (vs @ [v])"
    using acc(4) IH by (cases "absorb None vs") auto
  ultimately show ?case using acc(1,2) IH by (simp add: ab)
qed (simp add: absorb_def)

text \<open>
  C5: Strong eventual consistency under synchronised clocks.  Two replicas that received the same
  set of values for a key, in any order and with any repetition, hold the same write of it
  (timestamp, origin and version), the greatest of those received, provided a value that has
  seen another never carries_value a smaller timestamp key.
\<close>

theorem same_values_converge:
  assumes "list_all msg_ok ms1" "list_all msg_ok ms2"
    and "map_of (g_store g1) k = None" "map_of (g_store g2) k = None"
    and "set (values_for k ms1) = set (values_for k ms2)" "time_follows (set (values_for k ms1))"
  shows "map_option tie_key (map_of (g_store (deliver_states c1 ms1 g1)) k) =
         map_option tie_key (map_of (g_store (deliver_states c2 ms2 g2)) k)"
proof -
  let ?V = "set (values_for k ms1)"
  have ok: "\<forall>v \<in> ?V. value_ok v"
    using assms(1) by (force simp: values_for_def map_filter_def list_all_iff msg_ok_def dest: store_okD)
  have st: "map_of (g_store (deliver_states c1 ms1 g1)) k = absorb None (values_for k ms1)"
    "map_of (g_store (deliver_states c2 ms2 g2)) k = absorb None (values_for k ms2)"
    using assms(1-4) by (subst deliver_states_key; auto simp: list_all_iff msg_ok_def)+
  note m1 = absorb_max [OF assms(6) ok subset_refl]
  note m2 = absorb_max [OF assms(6) ok equalityD2 [OF assms(5)]]
  show ?thesis
  proof (cases "values_for k ms1 = []")
    case True
    then have "values_for k ms2 = []" using assms(5) by simp
    with True st show ?thesis by simp
  next
    case False
    then have ne2: "values_for k ms2 \<noteq> []" using assms(5) by auto
    obtain l1 where la: "absorb None (values_for k ms1) = Some l1"
      using m1 False by (cases "absorb None (values_for k ms1)") simp_all
    obtain l2 where lb: "absorb None (values_for k ms2) = Some l2"
      using m2 ne2 by (cases "absorb None (values_for k ms2)") simp_all
    note l = la lb
    have l1: "tie_key l1 \<in> tie_key ` ?V" "\<forall>v \<in> ?V. tie_le v l1" and l2: "tie_key l2 \<in> tie_key ` ?V" "\<forall>v \<in> ?V. tie_le v l2"
      using m1 m2 by (simp_all add: l assms(5))
    then obtain v1 v2 where v: "v1 \<in> ?V" "tie_key l1 = tie_key v1" "v2 \<in> ?V" "tie_key l2 = tie_key v2" by blast
    have "tie_le v2 l1" "tie_le v1 l2" using l1 l2 v by simp_all
    then have "tie_le l2 l1" "tie_le l1 l2" using v by (auto simp: tie_le_def tie_less_def tie_key_def)
    then have "tie_key l1 = tie_key l2" by (intro tie_le_key)
    then show ?thesis using st l by simp
  qed
qed

definition state_msg :: "string \<Rightarrow> gvalue \<Rightarrow> gossip_message" where
  "state_msg k v = \<lparr>m_Type = MsgState, m_Digest = [], m_State = [(k, v)]\<rparr>"

definition write1 :: gvalue where
  "write1 = \<lparr>v_Data = ''x'', v_Version = 1, v_Origin = ''n1'', v_Timestamp = 5, v_VectorClock = [(''n1'', 1)]\<rparr>"

definition write2 :: gvalue where
  "write2 = \<lparr>v_Data = ''y'', v_Version = 1, v_Origin = ''n2'', v_Timestamp = 7, v_VectorClock = [(''n2'', 1)]\<rparr>"

theorem same_values_converge_witness:
  "map_option tie_key (map_of (g_store (deliver_states (\<lambda>_. 0) [state_msg ''k'' write1, state_msg ''k'' write2] NewGossipProtocol)) ''k'') =
   map_option tie_key (map_of (g_store (deliver_states (\<lambda>_. 0) [state_msg ''k'' write2, state_msg ''k'' write1, state_msg ''k'' write1]
     NewGossipProtocol)) ''k'')"
  by (rule same_values_converge)
     (auto simp: state_msg_def msg_ok_def digest_ok_def store_ok_def value_ok_def vc_ok_def write1_def write2_def
        values_for_def map_filter_def NewGossipProtocol_def time_follows_def has_seen_def gm_getd_def tie_le_def tie_less_def)

section \<open>Without synchronised clocks\<close>

lemma beats_clk:
  "(\<And>n. clk (v_VectorClock l) n \<le> clk (v_VectorClock i) n) \<Longrightarrow> clk (v_VectorClock l) m < clk (v_VectorClock i) m \<Longrightarrow> beats i l"
  unfolding beats_def vc_lt_alt by (meson not_le)

lemma concurrent_beats:
  assumes "clk (v_VectorClock a) m < clk (v_VectorClock b) m" "clk (v_VectorClock b) n < clk (v_VectorClock a) n"
  shows "beats a b \<longleftrightarrow> tie_less b a"
  using assms unfolding beats_def vc_lt_alt by (meson not_le)

text \<open>
  Three writes of one key: \<open>a\<close> and then \<open>b\<close> at one node, whose clock went back between them, and
  \<open>c\<close> at another node with a timestamp between theirs.
\<close>

definition skewed :: "string \<Rightarrow> string \<Rightarrow> gvalue \<Rightarrow> gvalue \<Rightarrow> gvalue \<Rightarrow> bool" where
  "skewed x y a b c \<longleftrightarrow> x \<noteq> y \<and> value_ok a \<and> value_ok b \<and> value_ok c
     \<and> (\<forall>n. clk (v_VectorClock a) n = (if n = x then 1 else 0))
     \<and> (\<forall>n. clk (v_VectorClock b) n = (if n = x then 2 else 0))
     \<and> (\<forall>n. clk (v_VectorClock c) n = (if n = y then 1 else 0))
     \<and> v_Timestamp b < v_Timestamp c \<and> v_Timestamp c < v_Timestamp a"

lemma merge_None_clk:
  "value_ok v \<Longrightarrow> clk (v_VectorClock (merge_into None v)) n = clk (v_VectorClock v) n"
  using vc_ok_nonneg [of "v_VectorClock v" n] by (simp add: merge_into_def value_ok_def clk_mergeClock)

lemma merge_None_ok [simp]: "value_ok v \<Longrightarrow> value_ok (merge_into None v)"
  by (rule merge_into_ok) auto

lemma merge_accept:
  assumes "value_ok v" "value_ok l" "beats v l"
  shows "value_ok (merge_into (Some l) v)" "v_Data (merge_into (Some l) v) = v_Data v"
    "v_Timestamp (merge_into (Some l) v) = v_Timestamp v"
    "clk (v_VectorClock (merge_into (Some l) v)) n = max (clk (v_VectorClock l) n) (clk (v_VectorClock v) n)"
  using assms merge_into_ok [of v "Some l"] by (simp_all add: merge_into_def value_ok_def clk_mergeClock)

lemma merge_None_fields [simp]:
  "v_Data (merge_into None v) = v_Data v" "v_Timestamp (merge_into None v) = v_Timestamp v"
  by (simp_all add: merge_into_def)

lemma skewed_in_order:
  assumes "skewed x y a b c"
  shows "\<exists>l. absorb None [a, b, c] = Some l \<and> v_Data l = v_Data c"
proof -
  note s = assms [unfolded skewed_def]
  let ?a = "merge_into None a"
  let ?b = "merge_into (Some ?a) b"
  have "beats b ?a" using s by (intro beats_clk [of _ _ x]) (auto simp: merge_None_clk)
  note b = merge_accept [OF _ merge_None_ok this]
  have "beats c ?b \<longleftrightarrow> tie_less ?b c"
    using s b by (intro concurrent_beats [of _ x _ y]) (auto simp: merge_None_clk)
  then have "beats c ?b" using s b by (simp add: tie_less_def)
  then show ?thesis using s b merge_accept(2) [of c ?b] by (simp add: absorb_def)
qed

lemma skewed_reordered:
  assumes "skewed x y a b c"
  obtains l where "absorb None [c, a, b] = Some l" "v_Data l = v_Data a" "v_Data (merge_into (Some b) l) = v_Data a"
proof -
  note s = assms [unfolded skewed_def]
  let ?c = "merge_into None c"
  let ?a = "merge_into (Some ?c) a"
  have "beats a ?c \<longleftrightarrow> tie_less ?c a"
    using s by (intro concurrent_beats [of _ y _ x]) (auto simp: merge_None_clk)
  then have "beats a ?c" using s by (simp add: tie_less_def)
  note a = merge_accept [OF _ merge_None_ok this]
  have "beats b ?a \<longleftrightarrow> tie_less ?a b"
    using s a by (intro concurrent_beats [of _ y _ x]) (auto simp: merge_None_clk)
  then have nb: "\<not> beats b ?a" using s a by (simp add: tie_less_def)
  have "beats ?a b \<longleftrightarrow> tie_less b ?a"
    using s a by (intro concurrent_beats [of _ x _ y]) (auto simp: merge_None_clk)
  then have ab: "beats ?a b" using s a by (simp add: tie_less_def)
  have "absorb None [c, a, b] = Some ?a" using nb by (simp add: absorb_def merge_into_def)
  then show ?thesis using that [of ?a] s a merge_accept(2) [OF _ _ ab] by simp
qed

text \<open>A message that carries_value the value a node holds under a key.\<close>

definition carries_value :: "string \<Rightarrow> gossip \<Rightarrow> gossip_message \<Rightarrow> bool" where
  "carries_value k g m \<longleftrightarrow> msg_ok m \<and> map_of (m_State m) k = map_of (g_store g) k"

lemma two_puts_skewed:
  assumes "gossip_inv x" "gossip_inv y" "g_nodeID x \<noteq> g_nodeID y"
    and "map_of (g_store x) k = None" "map_of (g_store y) k = None" "cb 0 < cc 0" "cc 0 < ca 0"
    and "x1 = fst (gossip_Put ca k da x)" "x2 = fst (gossip_Put cb k db x1)" "y1 = fst (gossip_Put cc k dc y)"
  obtains a b c where "map_of (g_store x1) k = Some a" "map_of (g_store x2) k = Some b" "map_of (g_store y1) k = Some c"
    "skewed (g_nodeID x) (g_nodeID y) a b c" "v_Data a = da" "v_Data b = db" "v_Data c = dc"
proof -
  let ?a = "put_value (ca 0) k da x" and ?b = "put_value (cb 0) k db x1" and ?c = "put_value (cc 0) k dc y"
  have room: "put_room k x" "put_room k y" using assms(4,5) by (simp_all add: put_room_def)
  have x1: "map_of (g_store x1) k = Some ?a" using assms(8) by (simp add: Put_store)
  have id1: "g_nodeID x1 = g_nodeID x" using assms(8) by (simp add: gossip_Put_def Let_def)
  have inv1: "gossip_inv x1" using assms(1,8) room(1) by (simp add: gossip_inv_Put)
  have ka: "clk (v_VectorClock ?a) n = (if n = g_nodeID x then 1 else 0)" for n
    using put_value_clock [OF assms(1) room(1)] assms(4) by (simp add: Let_def)
  have kc: "clk (v_VectorClock ?c) n = (if n = g_nodeID y then 1 else 0)" for n
    using put_value_clock [OF assms(2) room(2)] assms(5) by (simp add: Let_def)
  have room1: "put_room k x1"
    using x1 id1 ka assms(4) by (simp add: put_room_def put_value_fields i64_max_def)
  have kb: "clk (v_VectorClock ?b) n = (if n = g_nodeID x then 2 else 0)" for n
    using put_value_clock [OF inv1 room1] x1 id1 ka by (simp add: Let_def)
  have x2: "map_of (g_store x2) k = Some ?b" and y1: "map_of (g_store y1) k = Some ?c"
    using assms(9,10) by (simp_all add: Put_store)
  have "gossip_inv x2" "gossip_inv y1"
    using assms(2,9,10) inv1 room1 room(2) by (simp_all add: gossip_inv_Put)
  then have "value_ok ?a" "value_ok ?b" "value_ok ?c"
    using x1 x2 y1 inv1 by (auto simp: gossip_inv_def dest: store_okD)
  then have "skewed (g_nodeID x) (g_nodeID y) ?a ?b ?c"
    using assms(3,6,7) ka kb kc by (simp add: skewed_def put_value_fields)
  then show ?thesis using that x1 x2 y1 by (simp add: put_value_fields)
qed

text \<open>
  C13: Without synchronised clocks an overwritten value can return.  A node writes a key twice and its
  wall clock goes back between the writes; another node writes the key concurrently, with a
  timestamp between the two.  A replica that receives the three values in the order of writing
  keeps the concurrent one; a replica that receives the concurrent one first keeps the
  overwritten first write, although it has received the second write too; and when this
  replica's state reaches the writer, the writer takes its own overwritten value back.
\<close>

theorem overwritten_value_returns:
  assumes "gossip_inv x" "gossip_inv y" "g_nodeID x \<noteq> g_nodeID y"
    and "map_of (g_store x) k = None" "map_of (g_store y) k = None" "map_of (g_store z) k = None"
    and "cb 0 < cc 0" "cc 0 < ca 0"
    and "x1 = fst (gossip_Put ca k da x)" "x2 = fst (gossip_Put cb k db x1)" "y1 = fst (gossip_Put cc k dc y)"
    and "carries_value k x1 ma" "carries_value k x2 mb" "carries_value k y1 mc"
    and "z' = deliver_states cl [mc, ma, mb] z" "carries_value k z' mz"
  shows "gossip_Get k (deliver_states cl [ma, mb, mc] z) = (dc, True)
    \<and> gossip_Get k z' = (da, True) \<and> gossip_Get k x2 = (db, True)
    \<and> gossip_Get k (fst (handleState cl mz x2)) = (da, True)"
proof -
  obtain a b c where v: "map_of (g_store x1) k = Some a" "map_of (g_store x2) k = Some b" "map_of (g_store y1) k = Some c"
    "skewed (g_nodeID x) (g_nodeID y) a b c" "v_Data a = da" "v_Data b = db" "v_Data c = dc"
    using two_puts_skewed [OF assms(1-5,7-11)] by blast
  have wf: "gm_wf (m_State ma)" "gm_wf (m_State mb)" "gm_wf (m_State mc)" "gm_wf (m_State mz)"
    and st: "map_of (m_State ma) k = Some a" "map_of (m_State mb) k = Some b" "map_of (m_State mc) k = Some c"
      "map_of (m_State mz) k = map_of (g_store z') k"
    using assms(12-14,16) v(1-3) by (auto simp: carries_value_def msg_ok_def)
  have o1: "map_of (g_store (deliver_states cl [ma, mb, mc] z)) k = absorb None [a, b, c]"
    using deliver_states_key [of "[ma, mb, mc]" cl z k] wf st assms(6) by (simp add: values_for_def map_filter_def)
  have o2: "map_of (g_store z') k = absorb None [c, a, b]"
    using deliver_states_key [of "[mc, ma, mb]" cl z k] wf st assms(6,15) by (simp add: values_for_def map_filter_def)
  obtain l where l: "absorb None [c, a, b] = Some l" "v_Data l = v_Data a" "v_Data (merge_into (Some b) l) = v_Data a"
    using skewed_reordered [OF v(4)] by blast
  have x3: "map_of (g_store (fst (handleState cl mz x2))) k = Some (merge_into (Some b) l)"
    using handleState_store [OF wf(4), of cl x2 k] st(4) o2 l(1) v(2) by simp
  show ?thesis
    using skewed_in_order [OF v(4)] o1 o2 l x3 v by (auto simp: gossip_Get_def)
qed

definition full_state :: "gossip \<Rightarrow> gossip_message" where
  "full_state g = \<lparr>m_Type = MsgState, m_Digest = [], m_State = g_store g\<rparr>"

lemma full_state_ok: "gossip_inv g \<Longrightarrow> msg_ok (full_state g)"
  by (simp add: full_state_def msg_ok_def digest_ok_def gossip_inv_def store_ok_def)

lemma carries_full_state: "gossip_inv g \<Longrightarrow> carries_value k g (full_state g)"
  by (simp add: carries_value_def full_state_ok) (simp add: full_state_def)

definition skew_x0 :: gossip where
  "skew_x0 = gossip_Start ''n1'' NewGossipProtocol"

definition skew_x1 :: gossip where
  "skew_x1 = fst (gossip_Put (\<lambda>_. 10) ''k'' ''first'' skew_x0)"

definition skew_x2 :: gossip where
  "skew_x2 = fst (gossip_Put (\<lambda>_. 5) ''k'' ''second'' skew_x1)"

definition skew_y1 :: gossip where
  "skew_y1 = fst (gossip_Put (\<lambda>_. 7) ''k'' ''other'' (gossip_Start ''n2'' NewGossipProtocol))"

definition skew_z :: gossip where
  "skew_z = deliver_states (\<lambda>_. 0) [full_state skew_y1, full_state skew_x1, full_state skew_x2] NewGossipProtocol"

lemma skew_inv: "gossip_inv skew_x1" "gossip_inv skew_x2" "gossip_inv skew_y1" "gossip_inv skew_z"
proof -
  show 1: "gossip_inv skew_x1" "gossip_inv skew_y1"
    by (simp_all add: skew_x1_def skew_x0_def skew_y1_def gossip_inv_Put gossip_inv_Start gossip_inv_new fresh_put_room)
  have "put_room ''k'' skew_x1" by code_simp
  then show 2: "gossip_inv skew_x2" using 1 by (simp add: skew_x2_def gossip_inv_Put)
  show "gossip_inv skew_z"
    using 1 2 by (simp add: skew_z_def deliver_states_def gossip_inv_handleState full_state_ok gossip_inv_new)
qed

theorem overwritten_value_returns_witness:
  "gossip_Get ''k'' skew_x2 = (''second'', True)
   \<and> gossip_Get ''k'' (fst (handleState (\<lambda>_. 0) (full_state skew_z) skew_x2)) = (''first'', True)"
proof -
  let ?x = skew_x0 and ?y = "gossip_Start ''n2'' NewGossipProtocol"
  have "g_nodeID ?x \<noteq> g_nodeID ?y" "map_of (g_store ?x) ''k'' = None" "map_of (g_store ?y) ''k'' = None"
    "map_of (g_store NewGossipProtocol) ''k'' = None"
    by (simp_all add: skew_x0_def gossip_Start_def NewGossipProtocol_def)
  moreover have "gossip_inv ?x" "gossip_inv ?y" by (simp_all add: skew_x0_def gossip_inv_Start gossip_inv_new)
  ultimately show ?thesis
    using overwritten_value_returns [OF _ _ _ _ _ _ _ _ skew_x1_def skew_x2_def skew_y1_def
        carries_full_state [OF skew_inv(1)] carries_full_state [OF skew_inv(2)] carries_full_state [OF skew_inv(3)]
        skew_z_def carries_full_state [OF skew_inv(4)]] by simp
qed

end
