(* ===== verification/GossipNet.thy ===== *)
theory GossipNet
  imports GossipSync
begin

text \<open>
  A cluster of gossip nodes over a network that delays, drops, duplicates and reorders envelopes.
  Each step is one call of the protocol by some node's runtime, or the loss of an envelope; a
  delivered envelope may be delivered again.  The session layer rewrites the sender field on its
  way, so a delivery carries any sender text.  The log records every local write.  The invariant
  shows that no step invents a value: whatever any replica holds was written by a \<open>Put\<close> at its
  origin, under that key, and vector clocks count writes that happened.
\<close>

record world =
  w_nodes :: "string \<Rightarrow> gossip"
  w_net :: "envelope list"
  w_log :: "(string \<times> string \<times> int \<times> string \<times> int) list"

datatype label = LPut string string | LDelete string string | LTick string | LPeers string | LDeliver string | LDrop

inductive net_step :: "label \<Rightarrow> world \<Rightarrow> world \<Rightarrow> bool" where
  put: "length (w_log w) < 2 ^ 63 - 1 \<Longrightarrow> gossip_Put c key data (w_nodes w n) = (g, evs) \<Longrightarrow>
     net_step (LPut n key) w
       (w\<lparr>w_nodes := (w_nodes w)(n := g),
          w_log := w_log w @ [(key, data, v_Version (put_value (c 0) key data (w_nodes w n)), n, c 0)]\<rparr>)"
| delete: "net_step (LDelete n key) w (w\<lparr>w_nodes := (w_nodes w)(n := gossip_Delete key (w_nodes w n))\<rparr>)"
| tick: "gossip_Tick c choice (w_nodes w n) = (g, out) \<Longrightarrow>
     net_step (LTick n) w (w\<lparr>w_nodes := (w_nodes w)(n := g), w_net := w_net w @ out\<rparr>)"
| set_peers: "net_step (LPeers n) w (w\<lparr>w_nodes := (w_nodes w)(n := gossip_SetPeers ps (w_nodes w n))\<rparr>)"
| deliver: "e \<in> set (w_net w) \<Longrightarrow> recv c (e\<lparr>env_From := sender\<rparr>) (w_nodes w n) = (g, out) \<Longrightarrow>
     net_step (LDeliver n) w (w\<lparr>w_nodes := (w_nodes w)(n := g), w_net := w_net w @ out\<rparr>)"
| drop: "net_step LDrop w (w\<lparr>w_net := remove1 e (w_net w)\<rparr>)"

inductive_cases net_stepE: "net_step l w w'"

definition init_world :: world where
  "init_world = \<lparr>w_nodes = (\<lambda>n. gossip_Start n NewGossipProtocol), w_net = [], w_log = []\<rparr>"

inductive run :: "label list \<Rightarrow> world \<Rightarrow> world \<Rightarrow> bool" where
  run_Nil: "run [] w w"
| run_snoc: "run ls w w1 \<Longrightarrow> net_step l w1 w2 \<Longrightarrow> run (ls @ [l]) w w2"

text \<open>The writes of one node to one key.\<close>

definition writes_of :: "string \<Rightarrow> string \<Rightarrow> world \<Rightarrow> nat" where
  "writes_of n key w = length (filter (\<lambda>(k, _, _, origin, _). k = key \<and> origin = n) (w_log w))"

text \<open>A value under a key is justified by the log.\<close>

definition traced :: "world \<Rightarrow> string \<Rightarrow> gvalue \<Rightarrow> bool" where
  "traced w k v \<longleftrightarrow> (k, visible v) \<in> set (w_log w) \<and> 1 \<le> v_Version v \<and> v_Version v \<le> int (length (w_log w))
     \<and> (\<forall>n. clk (v_VectorClock v) n \<le> int (writes_of n k w))"

definition net_inv :: "world \<Rightarrow> bool" where
  "net_inv w \<longleftrightarrow> length (w_log w) \<le> 2 ^ 63 - 1
     \<and> (\<forall>n. gossip_inv (w_nodes w n) \<and> g_nodeID (w_nodes w n) = n)
     \<and> (\<forall>n k v. map_of (g_store (w_nodes w n)) k = Some v \<longrightarrow> traced w k v)
     \<and> (\<forall>e \<in> set (w_net w). \<exists>m. env_Payload e = JGossip m \<and> msg_ok m
          \<and> (\<forall>k v. map_of (m_State m) k = Some v \<longrightarrow> traced w k v))"

lemma writes_of_bound: "writes_of n k w \<le> length (w_log w)"
  by (simp add: writes_of_def)

lemma traced_log_mono:
  assumes "traced w k v" "w_log w' = w_log w @ xs"
  shows "traced w' k v"
proof -
  have "writes_of n k w \<le> writes_of n k w'" for n using assms(2) by (simp add: writes_of_def)
  then show ?thesis
    using assms by (auto simp: traced_def intro: order_trans [OF _ of_nat_mono])
qed

lemma traced_same_log: "w_log w' = w_log w \<Longrightarrow> traced w' k v = traced w k v"
  by (simp add: traced_def writes_of_def)

lemma merge_into_traced:
  assumes "traced w k v" "value_ok v" "\<And>l. cur = Some l \<Longrightarrow> traced w k l \<and> value_ok l"
  shows "traced w k (merge_into cur v)"
proof -
  have "clk (mergeClock [] (v_VectorClock v)) n = clk (v_VectorClock v) n" for n
    using assms(2) vc_ok_nonneg [of "v_VectorClock v" n] by (simp add: value_ok_def clk_mergeClock)
  moreover have "clk (mergeClock (v_VectorClock l) (v_VectorClock v)) n \<le> int (writes_of n k w)" if "cur = Some l" for l n
    using assms that by (simp add: value_ok_def clk_mergeClock traced_def)
  ultimately show ?thesis
    using assms by (auto simp: merge_into_def traced_def visible_def split: option.splits)
qed

text \<open>
  What one protocol call does to a node, as the network sees it: the invariant and the identity are
  kept, and everything it stores or sends comes from its store or from the message received.
\<close>

definition call_ok :: "world \<Rightarrow> gossip \<Rightarrow> gossip \<Rightarrow> envelope list \<Rightarrow> bool" where
  "call_ok w g g' out \<longleftrightarrow> gossip_inv g' \<and> g_nodeID g' = g_nodeID g
     \<and> (\<forall>k v. map_of (g_store g') k = Some v \<longrightarrow> traced w k v)
     \<and> (\<forall>e \<in> set out. \<exists>m. env_Payload e = JGossip m \<and> msg_ok m
          \<and> (\<forall>k v. map_of (m_State m) k = Some v \<longrightarrow> traced w k v))"

lemma net_inv_call:
  assumes "net_inv w" "call_ok w (w_nodes w n) g out" "set es \<subseteq> set (w_net w) \<union> set out"
  shows "net_inv (w\<lparr>w_nodes := (w_nodes w)(n := g), w_net := es\<rparr>)"
proof -
  have same: "traced (w\<lparr>w_nodes := x, w_net := y\<rparr>) k v = traced w k v" for x y k v
    by (rule traced_same_log) simp
  show ?thesis
    using assms unfolding net_inv_def call_ok_def by (auto simp: same dest!: subsetD)
qed

lemma traced_node: "net_inv w \<Longrightarrow> map_of (g_store (w_nodes w n)) k = Some v \<Longrightarrow> traced w k v"
  by (simp add: net_inv_def)

lemma digest_env_ok:
  "store_ok st \<Longrightarrow> msg_ok \<lparr>m_Type = t, m_Digest = digest_of st, m_State = []\<rparr>"
  by (simp add: msg_ok_def digest_of_ok store_ok_def)

lemma call_ok_tick:
  assumes "net_inv w" "gossip_Tick c choice (w_nodes w n) = (g, out)"
  shows "call_ok w (w_nodes w n) g out"
proof -
  have inv: "gossip_inv (w_nodes w n)" using assms by (simp add: net_inv_def)
  have g: "gossip_inv g" using gossip_inv_Tick [OF inv, of c choice] assms(2) by simp
  have "g_nodeID g = g_nodeID (w_nodes w n)" "g_store g = g_store (w_nodes w n)"
    using assms(2) by (auto simp: gossip_Tick_def Let_def split: if_splits option.splits)
  moreover have "\<exists>m. env_Payload e = JGossip m \<and> msg_ok m \<and> m_State m = []" if "e \<in> set out" for e
    using assms(2) that digest_env_ok [OF inv_wf(2) [OF inv]]
    by (auto simp: gossip_Tick_def Let_def gossip_envelope_def split: if_splits option.splits)
  ultimately show ?thesis using g traced_node [OF assms(1)] by (fastforce simp: call_ok_def)
qed

lemma call_ok_digest:
  assumes "net_inv w"
  shows "call_ok w (w_nodes w n) ((w_nodes w n)\<lparr>g_peers := ps\<rparr>)
    (handleDigest c from msg ((w_nodes w n)\<lparr>g_peers := ps\<rparr>))"
proof -
  let ?g = "(w_nodes w n)\<lparr>g_peers := ps\<rparr>"
  have inv: "gossip_inv ?g" using assms by (simp add: net_inv_def)
  note st = inv_wf [OF inv]
  have ah: "map_of (ahead_of ?g d) k = Some v \<Longrightarrow> traced w k v" for d k v
    using traced_node [OF assms, of n k v] st(1)
    by (auto simp del: ahead_peers simp: map_of_ahead split: option.splits if_splits)
  have mok: "msg_ok \<lparr>m_Type = t, m_Digest = [], m_State = ahead_of ?g d\<rparr>" for t d
    using ahead_ok [OF st(2), of d] by (simp add: msg_ok_def digest_ok_def)
  obtain m1 m2 t1 t2 where out: "handleDigest c from msg ?g =
      (if ahead_of ?g (m_Digest msg) \<noteq> []
       then [gossip_envelope ?g from \<lparr>m_Type = MsgState, m_Digest = [], m_State = ahead_of ?g (m_Digest msg)\<rparr> m1 t1] else [])
      @ (if is_behind ?g (m_Digest msg)
         then [gossip_envelope ?g from \<lparr>m_Type = MsgDigest, m_Digest = digest_of (g_store ?g), m_State = []\<rparr> m2 t2] else [])"
    by (rule handleDigest_out [OF st(1), of c "from" msg])
  have "\<exists>m. env_Payload e = JGossip m \<and> msg_ok m \<and> (\<forall>k v. map_of (m_State m) k = Some v \<longrightarrow> traced w k v)"
    if "e \<in> set (handleDigest c from msg ?g)" for e
    using that ah mok digest_env_ok [OF st(2)] unfolding out by (auto simp: gossip_envelope_def split: if_splits)
  then show ?thesis using inv traced_node [OF assms] by (simp add: call_ok_def)
qed

lemma call_ok_state:
  assumes "net_inv w" "msg_ok m" "\<And>k v. map_of (m_State m) k = Some v \<Longrightarrow> traced w k v"
  shows "call_ok w (w_nodes w n) (fst (handleState c m ((w_nodes w n)\<lparr>g_peers := ps\<rparr>))) []"
proof -
  let ?g = "(w_nodes w n)\<lparr>g_peers := ps\<rparr>"
  have inv: "gossip_inv ?g" using assms by (simp add: net_inv_def)
  have wf: "gm_wf (m_State m)" using assms(2) by (simp add: msg_ok_def)
  have "traced w k v" if "map_of (g_store (fst (handleState c m ?g))) k = Some v" for k v
  proof (cases "map_of (m_State m) k")
    case None
    then show ?thesis using that traced_node [OF assms(1)] by (simp add: handleState_store [OF wf])
  next
    case (Some u)
    have "traced w k (merge_into (map_of (g_store ?g) k) u)"
      using Some assms inv traced_node [OF assms(1), of n k]
      by (intro merge_into_traced) (auto simp: msg_ok_def gossip_inv_def dest: store_okD)
    then show ?thesis using that Some by (simp add: handleState_store [OF wf])
  qed
  then show ?thesis
    using gossip_inv_handleState [OF inv assms(2), of c] by (simp add: call_ok_def)
qed

lemma recv_payload:
  assumes "env_Payload e = JGossip m"
  shows "(\<exists>ps. recv c e g = (fst (handleState c m (g\<lparr>g_peers := ps\<rparr>)), []))
    \<or> (\<exists>ps from. recv c e g = (g\<lparr>g_peers := ps\<rparr>, handleDigest c from m (g\<lparr>g_peers := ps\<rparr>)))
    \<or> (\<exists>ps. recv c e g = (g\<lparr>g_peers := ps\<rparr>, []))"
proof (cases "m_Type m = MsgState \<or> m_Type m = MsgDigest")
  case True
  then show ?thesis using recv_state [OF assms] recv_digest [OF assms] by blast
next
  case False
  obtain i h p where addr: "parseSenderAddress (env_From e) = (i, h, p)" by (metis prod_cases3)
  obtain ps where "gossip_discover no_cb (if i = [] then env_From e else i) h p (g, ()) = (g\<lparr>g_peers := ps\<rparr>, ())"
    using discover_no_cb by blast
  then have "recv c e g = (g\<lparr>g_peers := ps\<rparr>, [])"
    using assms addr False by (simp add: recv_def gossip_OnMessage_def Let_def)
  then show ?thesis by blast
qed

lemma call_ok_recv:
  assumes "net_inv w" "e \<in> set (w_net w)" "recv c (e\<lparr>env_From := s\<rparr>) (w_nodes w n) = (g, out)"
  shows "call_ok w (w_nodes w n) g out"
proof -
  obtain m where m: "env_Payload e = JGossip m" "msg_ok m" "\<And>k v. map_of (m_State m) k = Some v \<Longrightarrow> traced w k v"
    using assms(1,2) unfolding net_inv_def by blast
  have "env_Payload (e\<lparr>env_From := s\<rparr>) = JGossip m" using m(1) by simp
  from recv_payload [OF this, of c "w_nodes w n"] assms(3) show ?thesis
    using call_ok_state [OF assms(1) m(2,3), of n c] call_ok_digest [OF assms(1), of n _ c _ m]
      assms(1) by (auto simp: call_ok_def net_inv_def)
qed

lemma net_put_room:
  assumes "net_inv w" "length (w_log w) < 2 ^ 63 - 1"
  shows "put_room key (w_nodes w n)"
proof (cases "map_of (g_store (w_nodes w n)) key")
  case (Some v)
  have "g_nodeID (w_nodes w n) = n" using assms(1) by (simp add: net_inv_def)
  moreover have "int (length (w_log w)) < i64_max" using assms(2) by (simp add: i64_max_def)
  moreover have "clk (v_VectorClock v) n \<le> int (writes_of n key w)" "1 \<le> v_Version v" "v_Version v \<le> int (length (w_log w))"
    using traced_node [OF assms(1) Some] by (auto simp: traced_def)
  ultimately show ?thesis using Some writes_of_bound [of n key w] by (simp add: put_room_def)
qed (simp add: put_room_def)

lemma net_inv_put:
  assumes "net_inv w" "length (w_log w) < 2 ^ 63 - 1" "gossip_Put c key data (w_nodes w n) = (g, evs)"
  shows "net_inv (w\<lparr>w_nodes := (w_nodes w)(n := g),
          w_log := w_log w @ [(key, data, v_Version (put_value (c 0) key data (w_nodes w n)), n, c 0)]\<rparr>)"
    (is "net_inv ?w")
proof -
  let ?g = "w_nodes w n" and ?v = "put_value (c 0) key data (w_nodes w n)"
  have inv: "gossip_inv ?g" "g_nodeID ?g = n" using assms(1) by (auto simp: net_inv_def)
  have len: "int (length (w_log w)) < i64_max" using assms(2) by (simp add: i64_max_def)
  have old: "0 \<le> v_Version v \<and> v_Version v \<le> int (length (w_log w)) \<and> clk (v_VectorClock v) m \<le> int (writes_of m key w)"
    if "map_of (g_store ?g) key = Some v" for v m
    using traced_node [OF assms(1) that] by (auto simp: traced_def)
  note room = net_put_room [OF assms(1,2), of key n]
  have ver: "1 \<le> v_Version ?v \<and> v_Version ?v \<le> int (length (w_log w)) + 1"
    using old len by (force simp: put_value_fields wrap64_Suc split: option.splits)
  have mono: "traced w k v \<Longrightarrow> traced ?w k v" for k v by (erule traced_log_mono) simp
  have cl: "clk (v_VectorClock ?v) m \<le> int (writes_of m key ?w)" for m
    using put_value_clock [OF inv(1) room, of "c 0" data m] old [of _ m] inv(2)
    by (auto simp: Let_def writes_of_def split: option.splits)
  have new: "traced ?w key ?v"
    using ver cl inv(2) by (simp add: traced_def visible_def put_value_fields)
  have st: "map_of (g_store g) = (map_of (g_store ?g))(key \<mapsto> ?v)" and id: "g_nodeID g = n"
    using Put_store [of c key data ?g] assms(3) inv(2) by (auto simp: gossip_Put_def Let_def)
  have "gossip_inv g" using gossip_inv_Put [OF inv(1) room, of c data] assms(3) by simp
  then show ?thesis
    using assms(1,2) new mono id unfolding net_inv_def by (auto simp: st split: if_splits)
qed

lemma net_inv_step: "net_step l w w' \<Longrightarrow> net_inv w \<Longrightarrow> net_inv w'"
proof (induction rule: net_step.induct)
  case (put w c key data n g evs)
  then show ?case by (intro net_inv_put)
next
  case (delete n key w)
  then have "call_ok w (w_nodes w n) (gossip_Delete key (w_nodes w n)) []"
    by (auto simp: call_ok_def net_inv_def gossip_inv_Delete) (auto simp: gossip_Delete_def split: if_splits)
  then show ?case using net_inv_call [OF delete, of n _ "[]" "w_net w"] by simp
next
  case (tick c choice w n g out)
  then show ?case by (intro net_inv_call [where out = out] call_ok_tick) auto
next
  case (set_peers n w ps)
  then have "call_ok w (w_nodes w n) (gossip_SetPeers ps (w_nodes w n)) []"
    by (auto simp: call_ok_def net_inv_def gossip_inv_SetPeers) (auto simp: gossip_SetPeers_def Let_def)
  then show ?case using net_inv_call [OF set_peers, of n _ "[]" "w_net w"] by simp
next
  case (deliver e w c sender n g out)
  then show ?case by (intro net_inv_call [where out = out] call_ok_recv) auto
next
  case (drop w e)
  have ok: "call_ok w (w_nodes w n) (w_nodes w n) []" for n using drop by (auto simp: call_ok_def net_inv_def)
  show ?case
    using net_inv_call [OF drop ok, of "remove1 e (w_net w)"] set_remove1_subset [of e "w_net w"] by simp
qed

lemma net_inv_init: "net_inv init_world"
  by (simp add: net_inv_def init_world_def gossip_inv_Start gossip_inv_new) (simp add: gossip_Start_def NewGossipProtocol_def)

lemma net_inv_run: "run ls w w' \<Longrightarrow> net_inv w \<Longrightarrow> net_inv w'"
  by (induction rule: run.induct) (auto intro: net_inv_step)

section \<open>Nothing is invented, nothing is rolled back\<close>

lemma writes_step: "net_step l w w' \<Longrightarrow> writes_of n k w' = writes_of n k w + (if l = LPut n k then 1 else 0)"
  by (induction rule: net_step.induct) (auto simp: writes_of_def)

lemma run_writes: "run ls w w' \<Longrightarrow> writes_of n k w' = writes_of n k w + count_list ls (LPut n k)"
  by (induction rule: run.induct) (auto simp: writes_step)

text \<open>
  C1: No value is invented.  In every state a gossip cluster reaches, over a network that loses,
  repeats and reorders messages, a value any replica holds under a key was written there by a \<open>Put\<close>
  of that key at the node named as its origin, and its vector clock counts, for every node, at most
  the writes that node made to the key.
\<close>

theorem no_fabricated_values:
  assumes "run ls init_world w" "map_of (g_store (w_nodes w n)) k = Some v"
  shows "(k, v_Data v, v_Version v, v_Origin v, v_Timestamp v) \<in> set (w_log w)
    \<and> LPut (v_Origin v) k \<in> set ls \<and> (\<forall>m. clk (v_VectorClock v) m \<le> int (count_list ls (LPut m k)))"
proof -
  have tr: "traced w k v"
    using traced_node [OF net_inv_run [OF assms(1) net_inv_init] assms(2)] .
  have wr: "writes_of m k w = count_list ls (LPut m k)" for m
    using run_writes [OF assms(1), of m k] by (simp add: init_world_def writes_of_def)
  have "(k, visible v) \<in> set (filter (\<lambda>(k', _, _, origin, _). k' = k \<and> origin = v_Origin v) (w_log w))"
    using tr by (simp add: traced_def visible_def)
  then have "writes_of (v_Origin v) k w \<noteq> 0"
    unfolding writes_of_def by (metis length_0_conv empty_iff list.set(1))
  then have "LPut (v_Origin v) k \<in> set ls"
    using wr count_list_0_iff [of ls "LPut (v_Origin v) k"] by simp
  then show ?thesis using tr wr by (simp add: traced_def visible_def)
qed

text \<open>The key is kept, with its value or one above it.\<close>

definition key_adv :: "string \<Rightarrow> (string, gvalue) gomap \<Rightarrow> (string, gvalue) gomap \<Rightarrow> bool" where
  "key_adv k s t \<longleftrightarrow> (\<forall>v. map_of s k = Some v \<longrightarrow> (\<exists>v'. map_of t k = Some v' \<and> (v' = v \<or> advances v v')))"

lemma key_adv_refl [simp]: "key_adv k s s"
  by (simp add: key_adv_def)

lemma store_adv_key: "store_adv s t \<Longrightarrow> key_adv k s t"
  by (simp add: store_adv_def key_adv_def)

lemma key_adv_trans:
  assumes "key_adv k s t" "key_adv k t u"
  shows "key_adv k s u"
  unfolding key_adv_def
proof (intro allI impI)
  fix v assume "map_of s k = Some v"
  then obtain v1 where v1: "map_of t k = Some v1" "v1 = v \<or> advances v v1"
    using assms(1) by (auto simp: key_adv_def)
  then obtain v2 where "map_of u k = Some v2" "v2 = v1 \<or> advances v1 v2"
    using assms(2) by (auto simp: key_adv_def)
  then show "\<exists>v'. map_of u k = Some v' \<and> (v' = v \<or> advances v v')"
    using v1(2) advances_trans by blast
qed

lemma delete_other_key: "k \<noteq> key \<Longrightarrow> key_adv k (g_store g) (g_store (gossip_Delete key g))"
  by (simp add: key_adv_def gossip_Delete_def)

lemma step_advances:
  assumes "net_inv w" "net_step l w w'" "l \<noteq> LDelete n k"
  shows "key_adv k (g_store (w_nodes w n)) (g_store (w_nodes w' n))"
  using assms(2,1,3)
proof (cases rule: net_step.cases)
  case (delete n' key)
  then show ?thesis using assms(3) by (cases "n' = n") (auto intro: delete_other_key)
next
  case (put c key data n' g evs)
  have inv: "gossip_inv (w_nodes w n')" using assms(1) by (simp add: net_inv_def)
  show ?thesis
    using store_adv_key [OF Put_advances [OF inv net_put_room [OF assms(1) put(3)], of c key data]] put
    by (simp add: fun_upd_def)
next
  case (tick c choice n' g out)
  then have "g_store g = g_store (w_nodes w n')"
    by (auto simp: gossip_Tick_def Let_def split: if_splits option.splits)
  then show ?thesis using tick by simp
next
  case (set_peers n' ps)
  then show ?thesis by (simp add: gossip_SetPeers_def Let_def)
next
  case (deliver e c s n' g out)
  obtain m where m: "env_Payload e = JGossip m" "msg_ok m"
    using assms(1) deliver(3) unfolding net_inv_def by blast
  have inv: "gossip_inv ((w_nodes w n')\<lparr>g_peers := ps\<rparr>)" for ps using assms(1) by (simp add: net_inv_def)
  have "store_adv (g_store (w_nodes w n')) (g_store (fst (handleState c m ((w_nodes w n')\<lparr>g_peers := ps\<rparr>))))" for ps
    using handleState_advances [OF inv m(2), of ps c] by simp
  moreover have "env_Payload (e\<lparr>env_From := s\<rparr>) = JGossip m" using m(1) by simp
  ultimately have "store_adv (g_store (w_nodes w n')) (g_store g)"
    using recv_payload [of "e\<lparr>env_From := s\<rparr>" m c "w_nodes w n'"] deliver(4) by auto
  then show ?thesis using store_adv_key deliver by simp
qed auto

lemma run_advances:
  "run ls w w' \<Longrightarrow> net_inv w \<Longrightarrow> LDelete n k \<notin> set ls \<Longrightarrow>
     key_adv k (g_store (w_nodes w n)) (g_store (w_nodes w' n))"
proof (induction rule: run.induct)
  case (run_snoc ls w w1 l w2)
  have "key_adv k (g_store (w_nodes w1 n)) (g_store (w_nodes w2 n))"
    using run_snoc by (intro step_advances [OF net_inv_run]) auto
  moreover have "key_adv k (g_store (w_nodes w n)) (g_store (w_nodes w1 n))"
    using run_snoc by simp
  ultimately show ?case using key_adv_trans by blast
qed simp

text \<open>
  C2: A replica never rolls back.  Along any run of the cluster in which a node does not itself
  delete this key (it may delete others, and other nodes may delete this one), the key stays in the node's store, and the node's value either is unchanged or has
  been replaced by one that conflict resolution ranks strictly above it; message loss,
  duplication and reordering cannot bring an older value back.
\<close>

theorem no_rollback:
  assumes "run ls init_world w" "run ls' w w'" "LDelete n k \<notin> set ls'"
    and "map_of (g_store (w_nodes w n)) k = Some v"
  shows "\<exists>v'. map_of (g_store (w_nodes w' n)) k = Some v' \<and> (v' = v \<or> isIncomingNewer v v' \<and> \<not> isIncomingNewer v' v)"
proof -
  have "key_adv k (g_store (w_nodes w n)) (g_store (w_nodes w' n))"
    using assms(1-3) net_inv_run net_inv_init by (intro run_advances) blast+
  then show ?thesis
    using assms(4) advances_beats beats_asym unfolding key_adv_def isIncomingNewer_beats by blast
qed

text \<open>A run with two writes of one key at one node, for the witnesses.\<close>

lemma two_writes:
  "\<exists>w1 w2. run [LPut ''n1'' ''k''] init_world w1 \<and> run [LPut ''n1'' ''k''] w1 w2
     \<and> map_of (g_store (w_nodes w1 ''n1'')) ''k'' \<noteq> None"
proof -
  obtain g evs where p: "gossip_Put (\<lambda>_. 5) ''k'' ''a'' (w_nodes init_world ''n1'') = (g, evs)" by force
  define w1 where "w1 = init_world\<lparr>w_nodes := (w_nodes init_world)(''n1'' := g),
    w_log := w_log init_world @ [(''k'', ''a'', v_Version (put_value 5 ''k'' ''a'' (w_nodes init_world ''n1'')), ''n1'', 5)]\<rparr>"
  have s1: "net_step (LPut ''n1'' ''k'') init_world w1"
    unfolding w1_def using net_step.put [OF _ p] by (simp add: init_world_def)
  have len: "length (w_log w1) = 1" by (simp add: w1_def init_world_def)
  obtain h evs' where q: "gossip_Put (\<lambda>_. 6) ''k'' ''b'' (w_nodes w1 ''n1'') = (h, evs')" by force
  obtain w2 where s2: "net_step (LPut ''n1'' ''k'') w1 w2"
    using net_step.put [OF _ q] len by fastforce
  have st: "map_of (g_store (w_nodes w1 ''n1'')) ''k'' \<noteq> None"
    using p by (auto simp: w1_def gossip_Put_def Let_def)
  have "run [LPut ''n1'' ''k''] init_world w1" "run [LPut ''n1'' ''k''] w1 w2"
    using run_snoc [OF run_Nil s1] run_snoc [OF run_Nil s2] by simp_all
  with st show ?thesis by blast
qed

theorem no_fabricated_values_witness:
  "\<exists>w v. run [LPut ''n1'' ''k''] init_world w \<and> map_of (g_store (w_nodes w ''n1'')) ''k'' = Some v
     \<and> LPut (v_Origin v) ''k'' \<in> set [LPut ''n1'' ''k'']
     \<and> clk (v_VectorClock v) ''n1'' \<le> int (count_list [LPut ''n1'' ''k''] (LPut ''n1'' ''k''))"
proof -
  obtain w v where "run [LPut ''n1'' ''k''] init_world w" "map_of (g_store (w_nodes w ''n1'')) ''k'' = Some v"
    using two_writes by blast
  then show ?thesis using no_fabricated_values [of "[LPut ''n1'' ''k'']" w "''n1''" "''k''" v] by blast
qed

theorem no_rollback_witness:
  "\<exists>w1 w2 v. run [LPut ''n1'' ''k''] init_world w1 \<and> run [LPut ''n1'' ''k''] w1 w2
     \<and> map_of (g_store (w_nodes w1 ''n1'')) ''k'' = Some v
     \<and> (\<exists>v'. map_of (g_store (w_nodes w2 ''n1'')) ''k'' = Some v' \<and> (v' = v \<or> isIncomingNewer v v' \<and> \<not> isIncomingNewer v' v))"
proof -
  obtain w1 w2 v where r: "run [LPut ''n1'' ''k''] init_world w1" "run [LPut ''n1'' ''k''] w1 w2"
    "map_of (g_store (w_nodes w1 ''n1'')) ''k'' = Some v"
    using two_writes by blast
  then show ?thesis using no_rollback [OF r(1,2) _ r(3)] by auto
qed

end
