(* ===== verification/Fault.thy ===== *)
theory Fault
  imports Prelude
begin

text \<open>
  The fault engine of a node: \<open>internal/fault/engine.go\<close> (its state and setters),
  \<open>internal/fault/decision.go\<close> (the four decisions) and \<open>internal/node/exec/decision.go\<close> (the
  decision records and the \<open>FaultDecider\<close> interface, here the locale \<open>fault_decider\<close>).
  A possibly nil \<open>*Engine\<close> is an \<open>option\<close>.  The number \<open>rand.Float64()\<close> returns is an
  argument of the decision that draws it.
\<close>

section \<open>Engine state and setters\<close>

record engine =
  e_crashed :: bool
  e_dropRate :: f64
  e_delayMs :: int
  e_partitions :: "(string, bool) gomap"

definition NewEngine :: engine where
  "NewEngine = \<lparr>e_crashed = False, e_dropRate = Fin 0, e_delayMs = 0, e_partitions = []\<rparr>"

definition Crash :: "engine \<Rightarrow> engine" where
  "Crash e = e\<lparr>e_crashed := True\<rparr>"

definition Recover :: "engine \<Rightarrow> engine" where
  "Recover e = e\<lparr>e_crashed := False\<rparr>"

definition IsCrashed :: "engine \<Rightarrow> bool" where
  "IsCrashed e = e_crashed e"

definition SetDropRate :: "f64 \<Rightarrow> engine \<Rightarrow> engine" where
  "SetDropRate p e = e\<lparr>e_dropRate := p\<rparr>"

definition ShouldDrop :: "rat \<Rightarrow> engine \<Rightarrow> bool" where
  "ShouldDrop r e = f64_lt (Fin r) (e_dropRate e)"

definition SetDelay :: "int \<Rightarrow> engine \<Rightarrow> engine" where
  "SetDelay ms e = e\<lparr>e_delayMs := ms\<rparr>"

text \<open>\<open>time.Duration\<close> counts nanoseconds in an \<open>int64\<close>.\<close>

definition GetDelay :: "engine \<Rightarrow> int" where
  "GetDelay e = wrap64 (e_delayMs e * 1000000)"

text \<open>The time \<open>ApplyDelay\<close> sleeps.\<close>

definition ApplyDelay :: "engine \<Rightarrow> int" where
  "ApplyDelay e = (if e_delayMs e > 0 then wrap64 (e_delayMs e * 1000000) else 0)"

definition Partition :: "string \<Rightarrow> engine \<Rightarrow> engine" where
  "Partition peer e = e\<lparr>e_partitions := gm_put peer True (e_partitions e)\<rparr>"

definition Heal :: "string \<Rightarrow> engine \<Rightarrow> engine" where
  "Heal peer e = e\<lparr>e_partitions := gm_del peer (e_partitions e)\<rparr>"

definition IsPartitioned :: "string \<Rightarrow> engine \<Rightarrow> bool" where
  "IsPartitioned peer e = gm_getd False (e_partitions e) peer"

lemmas engine_defs = NewEngine_def Crash_def Recover_def IsCrashed_def SetDropRate_def
  ShouldDrop_def SetDelay_def GetDelay_def Partition_def Heal_def IsPartitioned_def

section \<open>Decisions\<close>

record send_decision =
  sd_Allow :: bool
  sd_Delay :: int
  sd_Reason :: string

record probe_decision =
  pd_Allow :: bool
  pd_Delay :: int
  pd_Reason :: string

record receive_decision =
  rd_Allow :: bool
  rd_Reason :: string

record tick_decision =
  td_Allow :: bool
  td_Delay :: int
  td_Reason :: string

definition BeforeSend :: "engine option \<Rightarrow> string \<Rightarrow> rat \<Rightarrow> send_decision" where
  "BeforeSend oe peer r = (case oe of
     None \<Rightarrow> \<lparr>sd_Allow = True, sd_Delay = 0, sd_Reason = ''no-fault-engine''\<rparr>
   | Some e \<Rightarrow>
       if IsCrashed e then \<lparr>sd_Allow = False, sd_Delay = 0, sd_Reason = ''crashed''\<rparr>
       else if IsPartitioned peer e
         then \<lparr>sd_Allow = False, sd_Delay = 0, sd_Reason = ''partitioned''\<rparr>
       else if ShouldDrop r e then \<lparr>sd_Allow = False, sd_Delay = 0, sd_Reason = ''dropped''\<rparr>
       else \<lparr>sd_Allow = True, sd_Delay = GetDelay e, sd_Reason = ''allowed''\<rparr>)"

definition BeforeReceive :: "engine option \<Rightarrow> string \<Rightarrow> receive_decision" where
  "BeforeReceive oe peer = (case oe of
     None \<Rightarrow> \<lparr>rd_Allow = True, rd_Reason = ''no-fault-engine''\<rparr>
   | Some e \<Rightarrow>
       if IsCrashed e then \<lparr>rd_Allow = False, rd_Reason = ''crashed''\<rparr>
       else if IsPartitioned peer e then \<lparr>rd_Allow = False, rd_Reason = ''partitioned''\<rparr>
       else \<lparr>rd_Allow = True, rd_Reason = ''allowed''\<rparr>)"

definition BeforeProbe :: "engine option \<Rightarrow> string \<Rightarrow> probe_decision" where
  "BeforeProbe oe peer = (case oe of
     None \<Rightarrow> \<lparr>pd_Allow = True, pd_Delay = 0, pd_Reason = ''no-fault-engine''\<rparr>
   | Some e \<Rightarrow>
       if IsCrashed e then \<lparr>pd_Allow = False, pd_Delay = 0, pd_Reason = ''crashed''\<rparr>
       else if IsPartitioned peer e
         then \<lparr>pd_Allow = False, pd_Delay = 0, pd_Reason = ''partitioned''\<rparr>
       else \<lparr>pd_Allow = True, pd_Delay = GetDelay e, pd_Reason = ''allowed''\<rparr>)"

definition BeforeTick :: "engine option \<Rightarrow> tick_decision" where
  "BeforeTick oe = (case oe of
     None \<Rightarrow> \<lparr>td_Allow = True, td_Delay = 0, td_Reason = ''no-fault-engine''\<rparr>
   | Some e \<Rightarrow>
       if IsCrashed e then \<lparr>td_Allow = False, td_Delay = 0, td_Reason = ''crashed''\<rparr>
       else \<lparr>td_Allow = True, td_Delay = GetDelay e, td_Reason = ''allowed''\<rparr>)"

lemmas decision_defs = BeforeSend_def BeforeReceive_def BeforeProbe_def BeforeTick_def

section \<open>The decision contract\<close>

text \<open>
  \<open>exec.FaultDecider\<close> as its clients (session, driver, RPC server) rely on it: a crashed node
  neither sends, receives, probes nor ticks; a cut peer is neither sent to, heard nor probed; a
  refused action carries no delay.
\<close>

locale fault_decider =
  fixes down :: "'d \<Rightarrow> bool"
    and cut :: "'d \<Rightarrow> string \<Rightarrow> bool"
    and before_send :: "'d \<Rightarrow> string \<Rightarrow> rat \<Rightarrow> send_decision"
    and before_receive :: "'d \<Rightarrow> string \<Rightarrow> receive_decision"
    and before_probe :: "'d \<Rightarrow> string \<Rightarrow> probe_decision"
    and before_tick :: "'d \<Rightarrow> tick_decision"
  assumes send_gate: "sd_Allow (before_send d p r) \<Longrightarrow> \<not> down d \<and> \<not> cut d p"
    and receive_gate: "rd_Allow (before_receive d p) \<longleftrightarrow> \<not> down d \<and> \<not> cut d p"
    and probe_gate: "pd_Allow (before_probe d p) \<longleftrightarrow> \<not> down d \<and> \<not> cut d p"
    and tick_gate: "td_Allow (before_tick d) \<longleftrightarrow> \<not> down d"
    and send_refused_delay: "\<not> sd_Allow (before_send d p r) \<Longrightarrow> sd_Delay (before_send d p r) = 0"
begin

lemma crashed_is_silent:
  "down d \<Longrightarrow> \<not> sd_Allow (before_send d p r) \<and> \<not> rd_Allow (before_receive d p)
     \<and> \<not> pd_Allow (before_probe d p) \<and> \<not> td_Allow (before_tick d)"
  using send_gate receive_gate probe_gate tick_gate by blast

lemma send_implies_receive_and_tick:
  "sd_Allow (before_send d p r) \<Longrightarrow> rd_Allow (before_receive d p) \<and> td_Allow (before_tick d)"
  using send_gate receive_gate tick_gate by blast

end

definition engine_down :: "engine option \<Rightarrow> bool" where
  "engine_down oe = (case oe of None \<Rightarrow> False | Some e \<Rightarrow> IsCrashed e)"

definition engine_cut :: "engine option \<Rightarrow> string \<Rightarrow> bool" where
  "engine_cut oe p = (case oe of None \<Rightarrow> False | Some e \<Rightarrow> IsPartitioned p e)"

interpretation fe: fault_decider engine_down engine_cut BeforeSend BeforeReceive BeforeProbe BeforeTick
  by unfold_locales
    (auto simp: decision_defs engine_down_def engine_cut_def split: option.splits if_splits)

section \<open>How the setters act\<close>

lemma IsPartitioned_set [simp]:
  "IsPartitioned p (Partition q e) \<longleftrightarrow> p = q \<or> IsPartitioned p e"
  "IsPartitioned p (Heal q e) \<longleftrightarrow> p \<noteq> q \<and> IsPartitioned p e"
  "IsPartitioned p (Crash e) = IsPartitioned p e" "IsPartitioned p (Recover e) = IsPartitioned p e"
  "IsPartitioned p (SetDropRate d e) = IsPartitioned p e"
  "IsPartitioned p (SetDelay ms e) = IsPartitioned p e"
  "IsPartitioned p NewEngine = False"
  by (auto simp: engine_defs)

lemma engine_fields [simp]:
  "e_crashed (Partition q e) = e_crashed e" "e_crashed (Heal q e) = e_crashed e"
  "e_dropRate (Partition q e) = e_dropRate e" "e_dropRate (Heal q e) = e_dropRate e"
  "e_delayMs (Partition q e) = e_delayMs e" "e_delayMs (Heal q e) = e_delayMs e"
  "e_crashed (Crash e) = True" "e_crashed (Recover e) = False"
  "e_crashed (SetDropRate d e) = e_crashed e" "e_crashed (SetDelay ms e) = e_crashed e"
  "e_dropRate (SetDropRate d e) = d" "e_dropRate (SetDelay ms e) = e_dropRate e"
  "e_delayMs (SetDelay ms e) = ms" "e_delayMs (SetDropRate d e) = e_delayMs e"
  by (auto simp: engine_defs)

section \<open>Histories of fault injections\<close>

text \<open>A sequence of setter calls, in the order the control plane makes them.\<close>

datatype fault_op = OpCrash | OpRecover | OpDrop f64 | OpDelay int | OpPartition string | OpHeal string

fun apply_fault :: "fault_op \<Rightarrow> engine \<Rightarrow> engine" where
  "apply_fault OpCrash e = Crash e"
| "apply_fault OpRecover e = Recover e"
| "apply_fault (OpDrop p) e = SetDropRate p e"
| "apply_fault (OpDelay ms) e = SetDelay ms e"
| "apply_fault (OpPartition q) e = Partition q e"
| "apply_fault (OpHeal q) e = Heal q e"

text \<open>The value the last call that matters gave, or the initial one.\<close>

definition last_val :: "'v \<Rightarrow> (fault_op \<Rightarrow> 'v option) \<Rightarrow> fault_op list \<Rightarrow> 'v" where
  "last_val d f ops = fold (\<lambda>op acc. case f op of None \<Rightarrow> acc | Some v \<Rightarrow> v) ops d"

definition sets_crash :: "fault_op \<Rightarrow> bool option" where
  "sets_crash op = (case op of OpCrash \<Rightarrow> Some True | OpRecover \<Rightarrow> Some False | _ \<Rightarrow> None)"

definition sets_cut :: "string \<Rightarrow> fault_op \<Rightarrow> bool option" where
  "sets_cut p op = (case op of
     OpPartition q \<Rightarrow> if q = p then Some True else None
   | OpHeal q \<Rightarrow> if q = p then Some False else None
   | _ \<Rightarrow> None)"

definition sets_drop :: "fault_op \<Rightarrow> f64 option" where
  "sets_drop op = (case op of OpDrop d \<Rightarrow> Some d | _ \<Rightarrow> None)"

definition sets_delay :: "fault_op \<Rightarrow> int option" where
  "sets_delay op = (case op of OpDelay d \<Rightarrow> Some d | _ \<Rightarrow> None)"

definition faulted :: "fault_op list \<Rightarrow> engine option" where
  "faulted ops = Some (fold apply_fault ops NewEngine)"

lemma last_val_snoc [simp]:
  "last_val d f (ops @ [op]) = (case f op of None \<Rightarrow> last_val d f ops | Some v \<Rightarrow> v)"
  "last_val d f [] = d"
  by (simp_all add: last_val_def split: option.split)

lemma history_fields:
  "e_crashed (fold apply_fault ops NewEngine) = last_val False sets_crash ops"
  "e_dropRate (fold apply_fault ops NewEngine) = last_val (Fin 0) sets_drop ops"
  "e_delayMs (fold apply_fault ops NewEngine) = last_val 0 sets_delay ops"
  "IsPartitioned p (fold apply_fault ops NewEngine) = last_val False (sets_cut p) ops"
proof (induction ops rule: rev_induct)
  case Nil
  { case 1 show ?case by (simp add: engine_defs) next
    case 2 show ?case by (simp add: engine_defs) next
    case 3 show ?case by (simp add: engine_defs) next
    case 4 show ?case by simp }
next
  case (snoc op ops)
  { case 1 show ?case using snoc by (cases op) (auto simp: sets_crash_def) next
    case 2 show ?case using snoc by (cases op) (auto simp: sets_drop_def engine_defs) next
    case 3 show ?case using snoc by (cases op) (auto simp: sets_delay_def engine_defs) next
    case 4 show ?case using snoc by (cases op) (auto simp: sets_cut_def) }
qed

section \<open>Properties\<close>

text \<open>
  C8: what a node does after any sequence of fault injections.  A send to a peer goes out
  exactly when the last crash or recovery was not a crash, the last partition or heal of that peer
  was not a partition, and the random draw is not below the drop rate set last.  Receiving
  and probing depend on the crash and the partition alone, ticking on the crash alone.  A send, a
  probe and a tick that are allowed wait the delay set last (milliseconds turned into
  nanoseconds in \<open>int64\<close> arithmetic), refused ones wait nothing; a receive decision carries no delay.
\<close>

theorem fault_history_decides:
  "(sd_Allow (BeforeSend (faulted ops) p r) \<longleftrightarrow>
      \<not> last_val False sets_crash ops \<and> \<not> last_val False (sets_cut p) ops
      \<and> \<not> f64_lt (Fin r) (last_val (Fin 0) sets_drop ops))
   \<and> sd_Delay (BeforeSend (faulted ops) p r) =
      (if sd_Allow (BeforeSend (faulted ops) p r)
       then wrap64 (last_val 0 sets_delay ops * 1000000) else 0)
   \<and> (rd_Allow (BeforeReceive (faulted ops) p) \<longleftrightarrow>
      \<not> last_val False sets_crash ops \<and> \<not> last_val False (sets_cut p) ops)
   \<and> (pd_Allow (BeforeProbe (faulted ops) p) \<longleftrightarrow>
      \<not> last_val False sets_crash ops \<and> \<not> last_val False (sets_cut p) ops)
   \<and> pd_Delay (BeforeProbe (faulted ops) p) =
      (if pd_Allow (BeforeProbe (faulted ops) p)
       then wrap64 (last_val 0 sets_delay ops * 1000000) else 0)
   \<and> (td_Allow (BeforeTick (faulted ops)) \<longleftrightarrow> \<not> last_val False sets_crash ops)
   \<and> td_Delay (BeforeTick (faulted ops)) =
      (if td_Allow (BeforeTick (faulted ops))
       then wrap64 (last_val 0 sets_delay ops * 1000000) else 0)"
  unfolding faulted_def
  by (simp add: decision_defs IsCrashed_def ShouldDrop_def GetDelay_def history_fields)

end
