(* ===== verification/Baseline.thy ===== *)
theory Baseline
  imports ClusterProtocol Gossip
begin

text \<open>
  The baseline membership protocol (\<open>internal/node/protocol/baseline/baseline.go\<close>): heartbeats
  every 5 ticks, suspicion of a peer after more than 20 silent ticks, death after more than 20
  further ones, revival by any message.  The loops over the peer list are folds in list order.
  The state record has every field of the source but the unused logger.
\<close>

section \<open>State\<close>

record baseline =
  b_nodeID :: string
  b_tick :: u64
  b_heartbeatInterval :: u64
  b_timeoutTicks :: u64
  b_lastSeen :: "(string, u64) gomap"
  b_status :: "(string, membership_status) gomap"
  b_incarnation :: "(string, u64) gomap"
  b_suspectSince :: "(string, u64) gomap"
  b_peers :: "string list"
  b_peerDiscoveryCb :: bool

definition NewBaselineProtocol :: "string list \<Rightarrow> baseline" where
  "NewBaselineProtocol peers =
     \<lparr>b_nodeID = [], b_tick = 0, b_heartbeatInterval = 5, b_timeoutTicks = 20, b_lastSeen = [], b_status = [],
      b_incarnation = [], b_suspectSince = [], b_peers = peers, b_peerDiscoveryCb = False\<rparr>"

abbreviation status_of :: "baseline \<Rightarrow> string \<Rightarrow> membership_status" where
  "status_of b p \<equiv> gm_getd StatusAlive (b_status b) p"

abbreviation last_seen :: "baseline \<Rightarrow> string \<Rightarrow> u64" where
  "last_seen b p \<equiv> gm_getd 0 (b_lastSeen b) p"

abbreviation suspect_since :: "baseline \<Rightarrow> string \<Rightarrow> u64" where
  "suspect_since b p \<equiv> gm_getd 0 (b_suspectSince b) p"

definition set_status :: "string \<Rightarrow> membership_status \<Rightarrow> baseline \<Rightarrow> baseline" where
  "set_status p st b = b\<lparr>b_status := gm_put p st (b_status b)\<rparr>"

text \<open>The three assignments that make a peer known at a tick.\<close>

definition init_peer :: "u64 \<Rightarrow> string \<Rightarrow> baseline \<Rightarrow> baseline" where
  "init_peer t p b = b\<lparr>b_lastSeen := gm_put p t (b_lastSeen b), b_status := gm_put p StatusAlive (b_status b),
     b_incarnation := gm_put p 0 (b_incarnation b)\<rparr>"

definition baseline_Start :: "string \<Rightarrow> baseline \<Rightarrow> baseline" where
  "baseline_Start nodeID b0 =
     (let b = set_status nodeID StatusAlive (b0\<lparr>b_nodeID := nodeID, b_tick := 0\<rparr>);
          b = fold (init_peer 0) (b_peers b) b
      in b\<lparr>b_incarnation := gm_put nodeID 0 (b_incarnation b)\<rparr>)"

definition baseline_SetPeers :: "string list \<Rightarrow> baseline \<Rightarrow> baseline" where
  "baseline_SetPeers peers b =
     fold (\<lambda>p b. if map_of (b_lastSeen b) p = None then init_peer 0 p b else b) peers (b\<lparr>b_peers := peers\<rparr>)"

definition baseline_SetPeerDiscoveryCallback :: "baseline \<Rightarrow> baseline" where
  "baseline_SetPeerDiscoveryCallback b = b\<lparr>b_peerDiscoveryCb := True\<rparr>"

section \<open>Envelopes\<close>

definition statusName :: "membership_status \<Rightarrow> string" where
  "statusName s = (case s of StatusAlive \<Rightarrow> ''ALIVE'' | StatusSuspect \<Rightarrow> ''SUSPECT'' | StatusDead \<Rightarrow> ''DEAD''
     | StatusOther _ \<Rightarrow> ''UNKNOWN'')"

definition makeMembershipEnvelope :: "string \<Rightarrow> membership_status \<Rightarrow> baseline \<Rightarrow> envelope" where
  "makeMembershipEnvelope node st b =
     (let ev = \<lparr>ev_Node = node, ev_Status = st, ev_Incarnation = gm_getd 0 (b_incarnation b) node\<rparr>
      in \<lparr>env_From = b_nodeID b, env_To = [], env_Protocol = ''baseline'', env_Payload = JMember ev,
          env_Kind = KindProtocol, env_TraceMetadata = ''BASELINE_MEMBERSHIP:'' @ statusName st,
          env_Version = 0, env_LogicalTick = 0\<rparr>)"

definition heartbeat :: "baseline \<Rightarrow> string \<Rightarrow> envelope" where
  "heartbeat b peer = \<lparr>env_From = b_nodeID b, env_To = peer, env_Protocol = ''baseline'', env_Payload = Raw ''HEARTBEAT'',
     env_Kind = KindProtocol, env_TraceMetadata = ''BASELINE_HEARTBEAT'', env_Version = 0, env_LogicalTick = 0\<rparr>"

section \<open>Tick\<close>

text \<open>One iteration of the membership loop of \<open>Tick\<close>.\<close>

definition check_peer :: "string \<Rightarrow> baseline \<times> envelope list \<Rightarrow> baseline \<times> envelope list" where
  "check_peer peer acc = (case acc of (b, out) \<Rightarrow>
     if status_of b peer = StatusDead then (b, out)
     else let diff = b_tick b - last_seen b peer in
       case status_of b peer of
         StatusAlive \<Rightarrow>
           if diff > b_timeoutTicks b
           then ((set_status peer StatusSuspect b)\<lparr>b_suspectSince := gm_put peer (b_tick b) (b_suspectSince b)\<rparr>, out)
           else (b, out)
       | StatusSuspect \<Rightarrow>
           if b_tick b - suspect_since b peer > b_timeoutTicks b
           then let b = set_status peer StatusDead b in (b, out @ [makeMembershipEnvelope peer StatusDead b])
           else (b, out)
       | _ \<Rightarrow> (b, out))"

definition baseline_Tick :: "baseline \<Rightarrow> baseline \<times> envelope list" where
  "baseline_Tick b0 =
     (let b = b0\<lparr>b_tick := b_tick b0 + 1\<rparr>;
          out = (if b_tick b mod b_heartbeatInterval b = 0
                 then let alivePeers = filter (\<lambda>peer. status_of b peer \<noteq> StatusDead) (b_peers b)
                      in map (heartbeat b) alivePeers
                 else [])
      in fold check_peer (b_peers b) (b, out))"

section \<open>Messages\<close>

text \<open>The sender's address: unlike the gossip parser, no host without a port, and 0 or a bound for a bad port.\<close>

definition baseline_sender :: "string \<Rightarrow> string \<times> string \<times> int" where
  "baseline_sender from = (case cut_at CHR ''@'' from of
     None \<Rightarrow> (from, [], 0)
   | Some (senderID, addrStr) \<Rightarrow> (case cut_last CHR '':'' addrStr of
       None \<Rightarrow> (senderID, [], 0)
     | Some (senderHost, portStr) \<Rightarrow> (senderID, senderHost, fst (parse_int portStr))))"

definition baseline_OnMessage ::
  "(baseline, 'w) discovery_cb \<Rightarrow> envelope \<Rightarrow> baseline \<times> 'w \<Rightarrow> (baseline \<times> 'w) \<times> envelope list" where
  "baseline_OnMessage cb env s = (case s of (b, w) \<Rightarrow>
     case baseline_sender (env_From env) of (from, senderHost, senderPort) \<Rightarrow>
     if from = b_nodeID b then ((b, w), [])
     else
       let (b, w) =
             (if map_of (b_lastSeen b) from = None then
                let b = init_peer (b_tick b) from (b\<lparr>b_peers := b_peers b @ [from]\<rparr>)
                in if b_peerDiscoveryCb b \<and> senderHost \<noteq> [] then cb from senderHost senderPort (b, w) else (b, w)
              else (b, w));
           b = b\<lparr>b_lastSeen := gm_put from (b_tick b) (b_lastSeen b)\<rparr>;
           b = (if status_of b from = StatusSuspect \<or> status_of b from = StatusDead
                then set_status from StatusAlive b else b)
       in case decode_member (env_Payload env) of
            None \<Rightarrow> ((b, w), [])
          | Some ev \<Rightarrow>
              let localInc = gm_getd 0 (b_incarnation b) (ev_Node ev) in
              if ev_Node ev = b_nodeID b \<and> ev_Status ev = StatusDead \<and> ev_Incarnation ev > localInc then
                let b = set_status (b_nodeID b) StatusAlive
                          (b\<lparr>b_incarnation := gm_put (b_nodeID b) (gm_getd 0 (b_incarnation b) (b_nodeID b) + 1) (b_incarnation b)\<rparr>)
                in ((b, w), [makeMembershipEnvelope (b_nodeID b) StatusAlive b])
              else if ev_Incarnation ev > localInc then
                ((set_status (ev_Node ev) (ev_Status ev)
                   (b\<lparr>b_incarnation := gm_put (ev_Node ev) (ev_Incarnation ev) (b_incarnation b)\<rparr>), w), [])
              else ((b, w), []))"

section \<open>The membership state machine\<close>

text \<open>The specification of one peer at a tick: its next status, when it was suspected, whether it dies.\<close>

definition overdue :: "baseline \<Rightarrow> u64 \<Rightarrow> bool" where
  "overdue b since \<longleftrightarrow> b_tick b - since > b_timeoutTicks b"

definition next_status :: "baseline \<Rightarrow> string \<Rightarrow> membership_status" where
  "next_status b p = (case status_of b p of
     StatusAlive \<Rightarrow> if overdue b (last_seen b p) then StatusSuspect else StatusAlive
   | StatusSuspect \<Rightarrow> if overdue b (suspect_since b p) then StatusDead else StatusSuspect
   | st \<Rightarrow> st)"

definition next_since :: "baseline \<Rightarrow> string \<Rightarrow> u64" where
  "next_since b p = (if status_of b p = StatusAlive \<and> overdue b (last_seen b p) then b_tick b else suspect_since b p)"

definition dies :: "baseline \<Rightarrow> string \<Rightarrow> bool" where
  "dies b p \<longleftrightarrow> status_of b p = StatusSuspect \<and> overdue b (suspect_since b p)"

definition is_death :: "string \<Rightarrow> envelope \<Rightarrow> bool" where
  "is_death p e \<longleftrightarrow> (case env_Payload e of JMember ev \<Rightarrow> ev_Node ev = p \<and> ev_Status ev = StatusDead | _ \<Rightarrow> False)"

abbreviation deaths :: "string \<Rightarrow> envelope list \<Rightarrow> nat" where
  "deaths p out \<equiv> length (filter (is_death p) out)"

lemma is_death_membership [simp]: "is_death p (makeMembershipEnvelope q st b) \<longleftrightarrow> p = q \<and> st = StatusDead"
  by (auto simp: is_death_def makeMembershipEnvelope_def Let_def)

lemma is_death_heartbeat [simp]: "\<not> is_death p (heartbeat b q)"
  by (simp add: is_death_def heartbeat_def)

lemma check_peer_frame:
  assumes "check_peer q (b, out) = (b', out')"
  shows "b_tick b' = b_tick b \<and> b_timeoutTicks b' = b_timeoutTicks b \<and> b_lastSeen b' = b_lastSeen b
    \<and> b_nodeID b' = b_nodeID b \<and> b_peers b' = b_peers b \<and> b_incarnation b' = b_incarnation b
    \<and> b_heartbeatInterval b' = b_heartbeatInterval b \<and> b_peerDiscoveryCb b' = b_peerDiscoveryCb b"
  using assms by (auto simp: check_peer_def set_status_def Let_def split: membership_status.splits if_splits)

lemma check_peer_status:
  assumes "check_peer q (b, out) = (b', out')"
  shows "status_of b' p = (if p = q then next_status b p else status_of b p)"
    "suspect_since b' p = (if p = q then next_since b p else suspect_since b p)"
    "deaths p out' = deaths p out + (if p = q \<and> dies b p then 1 else 0)"
  using assms
  by (auto simp: check_peer_def set_status_def Let_def next_status_def next_since_def dies_def overdue_def
      split: membership_status.splits if_splits)

lemma next_idem:
  assumes "check_peer p (b, out) = (b', out')"
  shows "next_status b' p = next_status b p" "next_since b' p = next_since b p" "\<not> dies b' p"
  using check_peer_status [OF assms, of p] check_peer_frame [OF assms]
  by (cases "status_of b p"; simp add: next_status_def next_since_def dies_def overdue_def)+

lemma check_peer_other:
  assumes "check_peer q (b, out) = (b', out')" "p \<noteq> q"
  shows "next_status b' p = next_status b p" "next_since b' p = next_since b p" "dies b' p = dies b p"
  using check_peer_status [OF assms(1), of p] check_peer_frame [OF assms(1)] assms(2)
  by (auto simp: next_status_def next_since_def dies_def overdue_def)

lemma check_fold:
  assumes "fold check_peer ps (b, out) = (b', out')"
  shows "status_of b' p = (if p \<in> set ps then next_status b p else status_of b p)
    \<and> suspect_since b' p = (if p \<in> set ps then next_since b p else suspect_since b p)
    \<and> deaths p out' = deaths p out + (if p \<in> set ps \<and> dies b p then 1 else 0)
    \<and> b_tick b' = b_tick b \<and> b_timeoutTicks b' = b_timeoutTicks b \<and> b_lastSeen b' = b_lastSeen b
    \<and> b_nodeID b' = b_nodeID b \<and> b_peers b' = b_peers b \<and> b_heartbeatInterval b' = b_heartbeatInterval b"
  using assms
proof (induction ps arbitrary: b out)
  case (Cons q ps)
  obtain b1 out1 where c: "check_peer q (b, out) = (b1, out1)" by force
  note IH = Cons.IH [of b1 out1] and st = check_peer_status [OF c, of p] and fr = check_peer_frame [OF c]
  show ?case
  proof (cases "p = q")
    case True
    then have c': "check_peer p (b, out) = (b1, out1)" using c by simp
    show ?thesis using IH st fr next_idem [OF c'] True Cons.prems c by auto
  next
    case False
    then show ?thesis using IH st fr check_peer_other [OF c False] Cons.prems c by auto
  qed
qed simp

lemma Tick_fields:
  assumes "baseline_Tick b = (b', out)"
  defines "b1 \<equiv> b\<lparr>b_tick := b_tick b + 1\<rparr>"
  shows "status_of b' p = (if p \<in> set (b_peers b) then next_status b1 p else status_of b p)
    \<and> suspect_since b' p = (if p \<in> set (b_peers b) then next_since b1 p else suspect_since b p)
    \<and> deaths p out = (if p \<in> set (b_peers b) \<and> dies b1 p then 1 else 0)
    \<and> b_tick b' = b_tick b + 1 \<and> b_timeoutTicks b' = b_timeoutTicks b \<and> b_lastSeen b' = b_lastSeen b
    \<and> b_nodeID b' = b_nodeID b \<and> b_peers b' = b_peers b \<and> b_heartbeatInterval b' = b_heartbeatInterval b"
proof -
  let ?hb = "if b_tick b1 mod b_heartbeatInterval b1 = 0
      then map (heartbeat b1) (filter (\<lambda>peer. status_of b1 peer \<noteq> StatusDead) (b_peers b1)) else []"
  have f: "fold check_peer (b_peers b1) (b1, ?hb) = (b', out)"
    using assms(1) unfolding baseline_Tick_def b1_def Let_def .
  have "deaths p ?hb = 0" by (auto simp: filter_empty_conv)
  then show ?thesis using check_fold [OF f, of p] by (simp add: b1_def)
qed

fun baseline_ticks :: "nat \<Rightarrow> baseline \<Rightarrow> baseline \<times> envelope list" where
  "baseline_ticks 0 b = (b, [])"
| "baseline_ticks (Suc n) b = (case baseline_ticks n b of (b1, out1) \<Rightarrow>
     case baseline_Tick b1 of (b2, out2) \<Rightarrow> (b2, out1 @ out2))"

lemma u64_of_nat_less: "n < 2 ^ 64 \<Longrightarrow> (20 :: u64) < of_nat n \<longleftrightarrow> 20 < n"
  by (simp add: word_less_nat_alt unat_of_nat)

text \<open>The state of a silent peer \<open>n\<close> ticks after it was last heard.\<close>

lemma silent_state:
  assumes "p \<in> set (b_peers b)" "status_of b p = StatusAlive" "last_seen b p = b_tick b" "b_timeoutTicks b = 20"
    and "n < 2 ^ 64" "baseline_ticks n b = (b', out)"
  shows "b_tick b' = b_tick b + of_nat n \<and> last_seen b' p = b_tick b \<and> p \<in> set (b_peers b') \<and> b_timeoutTicks b' = 20
    \<and> status_of b' p = (if n \<le> 20 then StatusAlive else if n \<le> 41 then StatusSuspect else StatusDead)
    \<and> (20 < n \<longrightarrow> suspect_since b' p = b_tick b + 21) \<and> deaths p out = (if 42 \<le> n then 1 else 0)"
  using assms(5,6)
proof (induction n arbitrary: b' out)
  case 0
  then show ?case using assms by simp
next
  case (Suc n)
  obtain b1 out1 where b1: "baseline_ticks n b = (b1, out1)" by force
  obtain out2 where t: "baseline_Tick b1 = (b', out2)" and out: "out = out1 @ out2"
    using Suc.prems(2) b1 by (auto split: prod.splits)
  have IH: "b_tick b1 = b_tick b + of_nat n" "last_seen b1 p = b_tick b" "p \<in> set (b_peers b1)" "b_timeoutTicks b1 = 20"
    "status_of b1 p = (if n \<le> 20 then StatusAlive else if n \<le> 41 then StatusSuspect else StatusDead)"
    "20 < n \<Longrightarrow> suspect_since b1 p = b_tick b + 21" "deaths p out1 = (if 42 \<le> n then 1 else 0)"
    using Suc.IH [OF _ b1] Suc.prems(1) by auto
  note T = Tick_fields [OF t, of p]
  have d1: "overdue (b1\<lparr>b_tick := b_tick b1 + 1\<rparr>) (b_tick b) \<longleftrightarrow> 20 < Suc n"
    using IH(1,4) u64_of_nat_less [OF Suc.prems(1)] by (simp add: overdue_def algebra_simps)
  have d2: "overdue (b1\<lparr>b_tick := b_tick b1 + 1\<rparr>) (b_tick b + 21) \<longleftrightarrow> 41 < Suc n" if "20 < n"
  proof -
    have "b_tick b1 + 1 - (b_tick b + 21) = of_nat (Suc n - 21)"
      using IH(1) that by (simp add: of_nat_diff algebra_simps)
    then show ?thesis using IH(4) u64_of_nat_less [of "Suc n - 21"] Suc.prems(1) by (simp add: overdue_def) arith
  qed
  consider "n < 20" | "n = 20" | "20 < n" "n < 41" | "n = 41" | "41 < n" by linarith
  then show ?case
    by cases (use T IH d1 d2 out in \<open>auto simp: next_status_def next_since_def dies_def\<close>)
qed

text \<open>
  C17: The failure detector's timeline.  A peer heard at some tick and silent from then on is
  alive for 20 more ticks, suspected from the 21st to the 41st, and dead from the 42nd on; its
  death is broadcast once, at the 42nd tick and never before, whatever the tick counter is.
\<close>

theorem silent_peer_timeline:
  assumes "p \<in> set (b_peers b)" "status_of b p = StatusAlive" "last_seen b p = b_tick b" "b_timeoutTicks b = 20"
    and "n < 2 ^ 64" "baseline_ticks n b = (b', out)"
  shows "status_of b' p = (if n \<le> 20 then StatusAlive else if n \<le> 41 then StatusSuspect else StatusDead)
    \<and> length (filter (is_death p) out) = (if 42 \<le> n then 1 else 0)"
  using silent_state [OF assms] by blast

definition watcher :: baseline where
  "watcher = baseline_Start ''n1'' (baseline_SetPeers [''n2''] (NewBaselineProtocol []))"

lemma watcher_fields:
  "b_peers watcher = [''n2'']" "status_of watcher ''n2'' = StatusAlive" "last_seen watcher ''n2'' = b_tick watcher"
  "b_timeoutTicks watcher = 20"
  by (simp_all add: watcher_def baseline_Start_def baseline_SetPeers_def NewBaselineProtocol_def Let_def
      init_peer_def set_status_def)

theorem silent_peer_timeline_witness:
  "status_of (fst (baseline_ticks 42 watcher)) ''n2'' = StatusDead
     \<and> length (filter (is_death ''n2'') (snd (baseline_ticks 42 watcher))) = 1"
proof -
  obtain b' out where "baseline_ticks 42 watcher = (b', out)" by force
  then show ?thesis
    using silent_peer_timeline [of "''n2''" watcher 42 b' out] by (simp add: watcher_fields)
qed

section \<open>What the protocol sends\<close>

definition is_heartbeat :: "envelope \<Rightarrow> bool" where
  "is_heartbeat e \<longleftrightarrow> env_Payload e = Raw ''HEARTBEAT''"

definition death_notice :: "string \<Rightarrow> envelope \<Rightarrow> bool" where
  "death_notice n e \<longleftrightarrow> env_From e = n \<and> env_To e = [] \<and> env_Protocol e = ''baseline'' \<and> \<not> is_heartbeat e
     \<and> (case env_Payload e of JMember ev \<Rightarrow> ev_Status ev = StatusDead | _ \<Rightarrow> False)"

lemma death_notice_make: "death_notice n (makeMembershipEnvelope p StatusDead b) \<longleftrightarrow> n = b_nodeID b"
  by (auto simp: death_notice_def is_heartbeat_def makeMembershipEnvelope_def Let_def)

lemma check_peer_out:
  assumes "check_peer p (b, out) = (b', out')"
  shows "\<exists>ds. out' = out @ ds \<and> (\<forall>e \<in> set ds. death_notice (b_nodeID b) e)"
  using assms by (auto simp: check_peer_def Let_def set_status_def death_notice_make
      split: membership_status.splits if_splits)

lemma check_fold_out:
  assumes "fold check_peer ps (b, out) = (b', out')"
  shows "\<exists>ds. out' = out @ ds \<and> (\<forall>e \<in> set ds. death_notice (b_nodeID b) e)"
  using assms
proof (induction ps arbitrary: b out)
  case (Cons p ps)
  obtain b1 out1 where c: "check_peer p (b, out) = (b1, out1)" by force
  obtain d1 where "out1 = out @ d1" "\<forall>e \<in> set d1. death_notice (b_nodeID b) e"
    using check_peer_out [OF c] by blast
  moreover obtain d2 where "out' = out1 @ d2" "\<forall>e \<in> set d2. death_notice (b_nodeID b1) e"
    using Cons.IH [of b1 out1] Cons.prems c by auto
  ultimately show ?case using check_peer_frame [OF c] by (intro exI [of _ "d1 @ d2"]) auto
qed simp

lemma Tick_out:
  assumes "baseline_Tick b = (b', out)"
  shows "\<exists>ds. out = (if (b_tick b + 1) mod b_heartbeatInterval b = 0
      then map (heartbeat b) (filter (\<lambda>p. status_of b p \<noteq> StatusDead) (b_peers b)) else []) @ ds
    \<and> (\<forall>e \<in> set ds. death_notice (b_nodeID b) e)"
proof -
  let ?b = "b\<lparr>b_tick := b_tick b + 1\<rparr>"
  have hb: "heartbeat ?b = heartbeat b" by (auto simp: heartbeat_def)
  show ?thesis
    using check_fold_out [OF assms [unfolded baseline_Tick_def Let_def hb]]
    by (cases "(b_tick b + 1) mod b_heartbeatInterval b = 0") simp_all
qed

text \<open>
  Heartbeats go out on every tick divisible by 5, one to each entry of the peer list that is not
  dead at that moment, in list order, and on no other tick.
\<close>

theorem heartbeats_exact:
  assumes "b_heartbeatInterval b = 5" "baseline_Tick b = (b', out)"
  shows "map env_To (filter is_heartbeat out) =
    (if (b_tick b + 1) mod 5 = 0 then filter (\<lambda>p. status_of b p \<noteq> StatusDead) (b_peers b) else [])"
proof -
  have hb: "filter is_heartbeat (map (heartbeat b) ps) = map (heartbeat b) ps" for ps
    by (induction ps) (simp_all add: heartbeat_def is_heartbeat_def)
  have to: "map (env_To \<circ> heartbeat b) ps = ps" for ps
    by (induction ps) (simp_all add: heartbeat_def)
  obtain ds where out: "out = (if (b_tick b + 1) mod b_heartbeatInterval b = 0
      then map (heartbeat b) (filter (\<lambda>p. status_of b p \<noteq> StatusDead) (b_peers b)) else []) @ ds"
    and ds: "\<forall>e \<in> set ds. death_notice (b_nodeID b) e"
    using Tick_out [OF assms(2)] by blast
  have "filter is_heartbeat ds = []" using ds by (auto simp: filter_empty_conv death_notice_def)
  then show ?thesis using out assms(1) by (simp add: hb to)
qed

theorem heartbeats_exact_witness:
  "map env_To (filter is_heartbeat (snd (baseline_Tick (watcher\<lparr>b_tick := 4\<rparr>)))) = [''n2'']"
proof -
  let ?b = "watcher\<lparr>b_tick := 4\<rparr>"
  obtain b' out where t: "baseline_Tick ?b = (b', out)" by force
  have "b_heartbeatInterval ?b = 5"
    by (simp add: watcher_def baseline_Start_def baseline_SetPeers_def NewBaselineProtocol_def Let_def init_peer_def set_status_def)
  from heartbeats_exact [OF this t] show ?thesis by (simp add: t watcher_fields)
qed

section \<open>Revival\<close>

definition baseline_recv :: "envelope \<Rightarrow> baseline \<Rightarrow> baseline \<times> envelope list" where
  "baseline_recv e b = (case baseline_OnMessage (\<lambda>_ _ _ s. s) e (b, ()) of ((b', _), out) \<Rightarrow> (b', out))"

text \<open>
  Any message revives its sender.  After a heartbeat from another node, whatever its status was,
  the sender is neither suspected nor dead and its silence counts from this tick; a sender not
  seen before is added to the peer list; no other node's record changes and nothing is sent.
\<close>

theorem heartbeat_revives:
  assumes "fst (baseline_sender (env_From e)) = p" "p \<noteq> b_nodeID b" "env_Payload e = Raw s"
    and "baseline_recv e b = (b', out)"
  shows "status_of b' p \<notin> {StatusSuspect, StatusDead} \<and> last_seen b' p = b_tick b \<and> b_tick b' = b_tick b \<and> out = []
    \<and> b_peers b' = b_peers b @ (if map_of (b_lastSeen b) p = None then [p] else [])
    \<and> (\<forall>q. q \<noteq> p \<longrightarrow> status_of b' q = status_of b q \<and> last_seen b' q = last_seen b q)"
proof -
  obtain h port where "baseline_sender (env_From e) = (p, h, port)" using assms(1) by (metis prod.collapse)
  then show ?thesis
    using assms(2-4)
    by (cases "map_of (b_lastSeen b) p = None")
       (auto simp: baseline_recv_def baseline_OnMessage_def Let_def init_peer_def set_status_def split: if_splits)
qed

theorem heartbeat_revives_witness:
  "\<exists>b' out. baseline_recv (heartbeat (watcher\<lparr>b_nodeID := ''n2''\<rparr>) ''n1'') (set_status ''n2'' StatusDead watcher) = (b', out)
     \<and> status_of b' ''n2'' \<notin> {StatusSuspect, StatusDead}"
proof -
  let ?e = "heartbeat (watcher\<lparr>b_nodeID := ''n2''\<rparr>) ''n1''" and ?b = "set_status ''n2'' StatusDead watcher"
  obtain b' out where r: "baseline_recv ?e ?b = (b', out)" by force
  have "fst (baseline_sender (env_From ?e)) = ''n2''" "env_Payload ?e = Raw ''HEARTBEAT''"
    by (simp_all add: heartbeat_def baseline_sender_def cut_at_def)
  moreover have "''n2'' \<noteq> b_nodeID ?b"
    by (simp add: watcher_def baseline_Start_def baseline_SetPeers_def NewBaselineProtocol_def Let_def init_peer_def set_status_def)
  ultimately show ?thesis using heartbeat_revives [OF _ _ _ r] r by blast
qed

section \<open>The protocol contract\<close>

lemma fold_init_peer_node: "b_nodeID (fold (init_peer t) ps b) = b_nodeID b"
  by (rule fold_invariant) (auto simp: init_peer_def)

lemma SetPeers_node: "b_nodeID (baseline_SetPeers ps b) = b_nodeID b"
  unfolding baseline_SetPeers_def by (rule fold_invariant) (auto simp: init_peer_def)

lemma baseline_recv_node:
  "b_nodeID (fst (baseline_recv e b)) = b_nodeID b"
  "x \<in> set (snd (baseline_recv e b)) \<Longrightarrow> env_From x = b_nodeID b \<and> env_Protocol x = ''baseline''"
  by (auto simp: baseline_recv_def baseline_OnMessage_def Let_def init_peer_def set_status_def
      makeMembershipEnvelope_def split: prod.splits option.splits if_splits)

interpretation bp: cluster_protocol b_nodeID "''baseline''" baseline_Start "\<lambda>_ :: unit. baseline_Tick"
  "\<lambda>_. baseline_recv" baseline_SetPeers
proof unfold_locales
  fix n s ps e x and i :: unit
  show "b_nodeID (baseline_Start n s) = n"
    by (simp add: baseline_Start_def Let_def fold_init_peer_node set_status_def)
  show "b_nodeID (fst (baseline_Tick s)) = b_nodeID s"
    using Tick_fields [of s "fst (baseline_Tick s)" "snd (baseline_Tick s)"] by simp
  show "b_nodeID (fst (baseline_recv e s)) = b_nodeID s" by (rule baseline_recv_node)
  show "b_nodeID (baseline_SetPeers ps s) = b_nodeID s" by (rule SetPeers_node)
  show "env_From x = b_nodeID s \<and> env_Protocol x = ''baseline''" if "x \<in> set (snd (baseline_Tick s))"
    using that Tick_out [of s "fst (baseline_Tick s)" "snd (baseline_Tick s)"]
    by (auto simp: heartbeat_def death_notice_def split: if_splits)
  show "env_From x = b_nodeID s \<and> env_Protocol x = ''baseline''" if "x \<in> set (snd (baseline_recv e s))"
    using that by (rule baseline_recv_node)
qed

end
