(* ===== verification/NodeConfig.thy ===== *)
theory NodeConfig
  imports GoStrings
begin

text \<open>
  The node's static configuration (\<open>internal/node/config.go\<close>): the peer list given on the command
  line (\<open>id:port\<close> or \<open>id@host:port\<close>, comma separated) and the peer list the control plane sends,
  which replaces it.  Errors carry the item the message quotes.
\<close>

record peer =
  p_ID :: string
  p_Host :: string
  p_Port :: int

record node_config =
  nc_ID :: string
  nc_Port :: int
  nc_Peers :: "peer list"
  nc_ClusterID :: string
  nc_Host :: string
  nc_ControlPlaneHost :: string
  nc_ControlPlanePort :: int

text \<open>The wire form of a peer, \<open>protocol.NodeInfo\<close>.\<close>

record node_info =
  ni_Id :: string
  ni_Address :: string
  ni_Port :: "32 word"

datatype peer_error = MissingId string | InvalidPeer string | InvalidPort string

definition parse_peer :: "string \<Rightarrow> peer_error + peer" where
  "parse_peer item0 =
     (let item = trim_space item0 in
      case (case cut_at CHR ''@'' item of
              None \<Rightarrow> Inr ([], item)
            | Some (a, b) \<Rightarrow> if trim_space a = [] then Inl (MissingId item) else Inr (trim_space a, trim_space b)) of
        Inl e \<Rightarrow> Inl e
      | Inr (peerID, hostPort) \<Rightarrow> (case split_on CHR '':'' hostPort of
          [h, p] \<Rightarrow>
            if trim_space h = [] then Inl (InvalidPeer item)
            else (case atoi (trim_space p) of
              Inl _ \<Rightarrow> Inl (InvalidPort item)
            | Inr port \<Rightarrow>
                if port \<le> 0 then Inl (InvalidPort item)
                else if peerID = [] then Inr \<lparr>p_ID = trim_space h, p_Host = ''localhost'', p_Port = port\<rparr>
                else Inr \<lparr>p_ID = peerID, p_Host = trim_space h, p_Port = port\<rparr>)
        | _ \<Rightarrow> Inl (InvalidPeer item)))"

fun parse_items :: "string list \<Rightarrow> peer_error + peer list" where
  "parse_items [] = Inr []"
| "parse_items (i # is) = (case parse_peer i of Inl e \<Rightarrow> Inl e
     | Inr p \<Rightarrow> (case parse_items is of Inl e \<Rightarrow> Inl e | Inr ps \<Rightarrow> Inr (p # ps)))"

definition parsePeers :: "string \<Rightarrow> peer_error + peer list" where
  "parsePeers raw0 = (let raw = trim_space raw0 in
     if raw = [] then Inr [] else parse_items (split_on CHR '','' raw))"

definition NewConfig :: "string \<Rightarrow> int \<Rightarrow> string \<Rightarrow> peer_error + node_config" where
  "NewConfig nid port peersCSV = (case parsePeers peersCSV of
     Inl e \<Rightarrow> Inl e
   | Inr peers \<Rightarrow> Inr \<lparr>nc_ID = nid, nc_Port = port, nc_Peers = peers, nc_ClusterID = ''default'',
       nc_Host = ''localhost'', nc_ControlPlaneHost = ''localhost'', nc_ControlPlanePort = 9000\<rparr>)"

text \<open>A nil entry of the pointer slice is \<open>None\<close>.\<close>

definition config_SetPeers :: "node_info option list \<Rightarrow> node_config \<Rightarrow> node_config" where
  "config_SetPeers peers p =
     p\<lparr>nc_Peers := List.map_filter (\<lambda>peer. case peer of None \<Rightarrow> None | Some i \<Rightarrow>
         if ni_Id i = nc_ID p then None
         else let host = trim_space (ni_Address i)
              in Some \<lparr>p_ID = ni_Id i, p_Host = (if host = [] then ''localhost'' else host), p_Port = uint (ni_Port i)\<rparr>) peers\<rparr>"

lemma SetPeers_id [simp]: "nc_ID (config_SetPeers ps c) = nc_ID c"
  by (simp add: config_SetPeers_def)

lemma SetPeers_ids:
  "map p_ID (nc_Peers (config_SetPeers ps c)) = filter (\<lambda>i. i \<noteq> nc_ID c) (List.map_filter (map_option ni_Id) ps)"
  by (induction ps) (auto simp: config_SetPeers_def List.map_filter_def Let_def split: option.splits)

section \<open>The command-line form round-trips\<close>

definition show_peer :: "peer \<Rightarrow> string" where
  "show_peer p = p_ID p @ CHR ''@'' # p_Host p @ CHR '':'' # show_int (p_Port p)"

definition plain :: "string \<Rightarrow> bool" where
  "plain w \<longleftrightarrow> is_word w \<and> CHR '':'' \<notin> set w \<and> CHR '','' \<notin> set w \<and> CHR ''@'' \<notin> set w"

definition peer_ok :: "peer \<Rightarrow> bool" where
  "peer_ok p \<longleftrightarrow> plain (p_ID p) \<and> plain (p_Host p) \<and> 0 < p_Port p \<and> p_Port p \<le> i64_max"

lemma is_word_append: "is_word a \<Longrightarrow> is_word b \<Longrightarrow> \<not> is_space c \<Longrightarrow> is_word (a @ c # b)"
  by (simp add: is_word_def)

lemma show_peer_word: "peer_ok p \<Longrightarrow> is_word (show_peer p)"
  unfolding show_peer_def by (intro is_word_append is_word_show_int) (auto simp: peer_ok_def plain_def is_space_def)

lemma parse_show_peer:
  assumes "peer_ok p"
  shows "parse_peer (show_peer p) = Inr p"
proof -
  have w: "trim_space (show_peer p) = show_peer p" using show_peer_word [OF assms] by simp
  have cut: "cut_at CHR ''@'' (show_peer p) = Some (p_ID p, p_Host p @ CHR '':'' # show_int (p_Port p))"
    using assms by (simp add: show_peer_def peer_ok_def plain_def)
  have hw: "is_word (p_Host p @ CHR '':'' # show_int (p_Port p))"
    using assms by (intro is_word_append) (auto simp: peer_ok_def plain_def is_space_def)
  have sp: "split_on CHR '':'' (p_Host p @ CHR '':'' # show_int (p_Port p)) = [p_Host p, show_int (p_Port p)]"
    using assms by (simp add: peer_ok_def plain_def show_int_notin)
  have "atoi (show_int (p_Port p)) = Inr (p_Port p)"
    using assms by (intro atoi_show) (auto simp: peer_ok_def i64_min_def)
  then show ?thesis
    using assms w cut hw sp by (simp add: parse_peer_def peer_ok_def plain_def)
qed

lemma parse_show_items: "list_all peer_ok ps \<Longrightarrow> parse_items (map show_peer ps) = Inr ps"
  by (induction ps) (simp_all add: parse_show_peer)

lemma join_word: "xs \<noteq> [] \<Longrightarrow> list_all is_word xs \<Longrightarrow> is_word (join_with '','' xs)"
  by (induction "'',''" xs rule: join_with.induct) (auto simp: is_word_def is_space_def)

text \<open>
  The peer list survives the command line: a list of peers written as comma separated
  \<open>id@host:port\<close> items is parsed back to exactly that list by \<open>parsePeers\<close>, when names and hosts are
  words without the separators and ports are positive.
\<close>

theorem peers_roundtrip:
  assumes "list_all peer_ok ps"
  shows "parsePeers (join_with '','' (map show_peer ps)) = Inr ps"
proof (cases "ps = []")
  case False
  have w: "is_word (join_with '','' (map show_peer ps))"
    using assms False by (intro join_word) (auto simp: list_all_iff show_peer_word)
  have "CHR '','' \<notin> set (show_peer p)" if "p \<in> set ps" for p
    using assms that by (auto simp: show_peer_def list_all_iff peer_ok_def plain_def show_int_notin)
  then have "split_on CHR '','' (join_with '','' (map show_peer ps)) = map show_peer ps"
    using False by (intro split_join) auto
  with w show ?thesis using assms by (simp add: parsePeers_def Let_def parse_show_items)
qed (simp add: parsePeers_def)

theorem peers_roundtrip_witness:
  "parsePeers ''n2@localhost:8002,n3@host3:8003'' =
     Inr [\<lparr>p_ID = ''n2'', p_Host = ''localhost'', p_Port = 8002\<rparr>, \<lparr>p_ID = ''n3'', p_Host = ''host3'', p_Port = 8003\<rparr>]"
proof -
  let ?ps = "[\<lparr>p_ID = ''n2'', p_Host = ''localhost'', p_Port = 8002\<rparr>, \<lparr>p_ID = ''n3'', p_Host = ''host3'', p_Port = 8003\<rparr>]"
  have "join_with '','' (map show_peer ?ps) = ''n2@localhost:8002,n3@host3:8003''"
    by (simp add: show_peer_def show_int_def show_nat.simps digit_char_def)
  moreover have "list_all peer_ok ?ps" by (simp add: peer_ok_def plain_def is_word_def is_space_def i64_max_def)
  ultimately show ?thesis using peers_roundtrip [of ?ps] by simp
qed

end
