(* ===== verification/Session.thy ===== *)
theory Session
  imports Fault Baseline NodeConfig
begin

text \<open>
  The node's sessions: the peer session (\<open>internal/node/session/node.go\<close>) that sends envelopes and
  probes peers under the fault decisions, and the control plane session (\<open>controlplane.go\<close>).

  The gRPC library is outside the sources: what a dial, handshake, ping or call returns, and whether
  the context ends during a delay, is the argument \<open>outcome\<close>.  The fault decider is the engine
  shared with the runtime, \<open>None\<close> when it is nil.  \<open>session_Send\<close> and \<open>probeOnce\<close> return the new session and
  the envelope requests or pings they handed to gRPC; the \<open>Handshake\<close> calls they make on a first connection
  are the values of \<open>send_handshakes\<close> and \<open>probe_handshakes\<close>.  Closing a connection has no other effect.
  A call to the control plane is an argument of the session's method, a function of the request the
  method builds.
\<close>

section \<open>State\<close>

text \<open>The conversion of an \<open>int\<close> to the \<open>int32\<close> of the wire.\<close>

definition to_int32 :: "int \<Rightarrow> int" where
  "to_int32 x = (x + 2 ^ 31) mod 2 ^ 32 - 2 ^ 31"

lemma to_int32_id: "- (2 ^ 31) \<le> x \<Longrightarrow> x < 2 ^ 31 \<Longrightarrow> to_int32 x = x"
  by (simp add: to_int32_def)

datatype transport_health = PeerAlive | PeerSuspect | PeerDead

record peer_info =
  pi_ID :: string
  pi_Host :: string
  pi_Port :: int

record peer_state =
  ps_id :: string
  ps_host :: string
  ps_port :: int
  ps_conn :: bool
  ps_lastSuccess :: int
  ps_failCount :: int
  ps_health :: transport_health

record node_session =
  ns_nodeID :: string
  ns_nodePort :: int
  ns_nodeAddr :: string
  ns_peers :: "(string, peer_state) gomap"

record envelope_request =
  rq_From :: string
  rq_To :: string
  rq_Protocol :: string
  rq_Payload :: payload

record outcome =
  o_cancelled :: bool
  o_dial :: bool
  o_handshake :: bool
  o_rpc :: bool
  o_now :: int

datatype send_error = PeerNotFound string | CtxErr | DialErr | HandshakeErr | RpcErr

definition NewNodeSession :: "string \<Rightarrow> string \<Rightarrow> int \<Rightarrow> node_session" where
  "NewNodeSession nodeAddr nodeID nodePort =
     \<lparr>ns_nodeID = nodeID, ns_nodePort = nodePort, ns_nodeAddr = nodeAddr, ns_peers = []\<rparr>"

section \<open>Peer health\<close>

definition updateSuccess :: "int \<Rightarrow> peer_state \<Rightarrow> peer_state" where
  "updateSuccess now ps = ps\<lparr>ps_lastSuccess := now, ps_failCount := 0, ps_health := PeerAlive\<rparr>"

definition updateFailure :: "peer_state \<Rightarrow> peer_state" where
  "updateFailure ps0 =
     (let ps = ps0\<lparr>ps_failCount := wrap64 (ps_failCount ps0 + 1)\<rparr> in
      if ps_failCount ps = 1 then ps\<lparr>ps_health := PeerSuspect\<rparr>
      else if ps_failCount ps \<ge> 2 then ps\<lparr>ps_health := PeerDead\<rparr>
      else ps)"

definition GetTransportHealth :: "string \<Rightarrow> node_session \<Rightarrow> transport_health" where
  "GetTransportHealth i ns = (case map_of (ns_peers ns) i of Some ps \<Rightarrow> ps_health ps | None \<Rightarrow> PeerDead)"

definition set_peer :: "string \<Rightarrow> peer_state \<Rightarrow> node_session \<Rightarrow> node_session" where
  "set_peer i ps ns = ns\<lparr>ns_peers := gm_put i ps (ns_peers ns)\<rparr>"

section \<open>Sending\<close>

definition encode_from :: "string \<Rightarrow> node_session \<Rightarrow> string" where
  "encode_from from ns = from @ ''@'' @ ns_nodeAddr ns @ '':'' @ show_int (ns_nodePort ns)"

text \<open>The part of \<open>Send\<close> after the fault gate: lazy connection, handshake, and the call.\<close>

definition send_rpc :: "outcome \<Rightarrow> envelope \<Rightarrow> peer_state \<Rightarrow> node_session
    \<Rightarrow> node_session \<times> send_error option \<times> envelope_request list" where
  "send_rpc out env ps ns =
     (if \<not> ps_conn ps \<and> \<not> o_dial out then (ns, Some DialErr, [])
      else
        let connected = ps\<lparr>ps_conn := True\<rparr> in
        if \<not> ps_conn ps \<and> \<not> o_handshake out then (set_peer (env_To env) connected ns, Some HandshakeErr, [])
        else
          let req = \<lparr>rq_From = encode_from (env_From env) ns, rq_To = env_To env,
                     rq_Protocol = env_Protocol env, rq_Payload = env_Payload env\<rparr> in
          if \<not> o_rpc out then (set_peer (env_To env) (updateFailure connected) ns, Some RpcErr, [req])
          else (set_peer (env_To env) (updateSuccess (o_now out) connected) ns, None, [req]))"

definition session_Send :: "engine option \<Rightarrow> rat \<Rightarrow> outcome \<Rightarrow> envelope \<Rightarrow> node_session
    \<Rightarrow> node_session \<times> send_error option \<times> envelope_request list" where
  "session_Send fault draw out env ns = (case map_of (ns_peers ns) (env_To env) of
     None \<Rightarrow> (ns, Some (PeerNotFound (env_To env)), [])
   | Some ps \<Rightarrow> (case fault of
       None \<Rightarrow> send_rpc out env ps ns
     | Some _ \<Rightarrow>
         let decision = BeforeSend fault (ps_id ps) draw in
         if \<not> sd_Allow decision then (ns, None, [])
         else if sd_Delay decision > 0 \<and> o_cancelled out then (ns, Some CtxErr, [])
         else send_rpc out env ps ns))"

text \<open>The handshake request, whose port is an \<open>int32\<close>, and the handshakes a \<open>Send\<close> makes: to an unconnected peer, once dialled.\<close>

record handshake_request =
  hs_NodeId :: string
  hs_Addr :: string
  hs_Port :: int

definition handshake :: "node_session \<Rightarrow> handshake_request" where
  "handshake ns = \<lparr>hs_NodeId = ns_nodeID ns, hs_Addr = ns_nodeAddr ns, hs_Port = to_int32 (ns_nodePort ns)\<rparr>"

definition send_handshakes :: "engine option \<Rightarrow> rat \<Rightarrow> outcome \<Rightarrow> envelope \<Rightarrow> node_session \<Rightarrow> (string \<times> handshake_request) list" where
  "send_handshakes fault draw out env ns = (case map_of (ns_peers ns) (env_To env) of
     None \<Rightarrow> []
   | Some ps \<Rightarrow>
       let decision = BeforeSend fault (ps_id ps) draw in
       if fault \<noteq> None \<and> (\<not> sd_Allow decision \<or> sd_Delay decision > 0 \<and> o_cancelled out) then []
       else if ps_conn ps \<or> \<not> o_dial out then []
       else [(ps_id ps, handshake ns)])"

section \<open>Probing\<close>

definition shouldDial :: "string \<Rightarrow> string \<Rightarrow> bool" where
  "shouldDial self peer \<longleftrightarrow> self < peer"

text \<open>The second component tells whether a ping was sent.\<close>

definition probePeer :: "outcome \<Rightarrow> string \<Rightarrow> peer_state \<Rightarrow> node_session \<Rightarrow> node_session \<times> bool" where
  "probePeer out i ps ns =
     (if \<not> shouldDial (ns_nodeID ns) (ps_id ps) then (ns, False)
      else if \<not> ps_conn ps \<and> \<not> o_dial out then (set_peer i (updateFailure ps) ns, False)
      else let connected = ps\<lparr>ps_conn := True\<rparr> in
        if \<not> o_rpc out then (set_peer i (updateFailure connected) ns, True)
        else (set_peer i (updateSuccess (o_now out) connected) ns, True))"

definition probe_step :: "engine option \<Rightarrow> (string \<Rightarrow> outcome) \<Rightarrow> string \<times> peer_state
    \<Rightarrow> node_session \<times> string list \<Rightarrow> node_session \<times> string list" where
  "probe_step fault outs entry acc = (case (entry, acc) of ((i, ps), (ns, pinged)) \<Rightarrow>
     if fault \<noteq> None \<and> \<not> pd_Allow (BeforeProbe fault (ps_id ps)) then (ns, pinged)
     else if \<not> shouldDial (ns_nodeID ns) (ps_id ps) then (ns, pinged)
     else case probePeer (outs i) i ps ns of (ns', sent) \<Rightarrow> (ns', if sent then pinged @ [ps_id ps] else pinged))"

definition probeOnce :: "engine option \<Rightarrow> (string \<Rightarrow> outcome) \<Rightarrow> node_session \<Rightarrow> node_session \<times> string list" where
  "probeOnce fault outs ns = fold (probe_step fault outs) (ns_peers ns) (ns, [])"

text \<open>The handshakes of a probe round; a failed one is only logged.\<close>

definition probe_handshakes :: "engine option \<Rightarrow> (string \<Rightarrow> outcome) \<Rightarrow> node_session \<Rightarrow> (string \<times> handshake_request) list" where
  "probe_handshakes fault outs ns =
     map (\<lambda>(i, ps). (ps_id ps, handshake ns))
       (filter (\<lambda>(i, ps). \<not> (fault \<noteq> None \<and> \<not> pd_Allow (BeforeProbe fault (ps_id ps)))
          \<and> shouldDial (ns_nodeID ns) (ps_id ps) \<and> \<not> ps_conn ps \<and> o_dial (outs i)) (ns_peers ns))"

text \<open>One tick of the probe loop of \<open>Start\<close>; a delay that the context ends stops the loop (\<open>None\<close>).\<close>

definition probe_tick :: "engine option \<Rightarrow> bool \<Rightarrow> (string \<Rightarrow> outcome) \<Rightarrow> node_session \<Rightarrow> (node_session \<times> string list) option" where
  "probe_tick fault cancelled outs ns = (case fault of
     None \<Rightarrow> Some (probeOnce fault outs ns)
   | Some _ \<Rightarrow> let tick = BeforeTick fault in
       if \<not> td_Allow tick then Some (ns, [])
       else if td_Delay tick > 0 \<and> cancelled then None
       else Some (probeOnce fault outs ns))"

section \<open>Topology\<close>

definition fresh_peer :: "peer_info \<Rightarrow> peer_state" where
  "fresh_peer info = \<lparr>ps_id = pi_ID info, ps_host = pi_Host info, ps_port = pi_Port info, ps_conn = False,
     ps_lastSuccess = 0, ps_failCount = 0, ps_health = PeerSuspect\<rparr>"

definition OnPeersUpdated :: "peer_info list \<Rightarrow> node_session \<Rightarrow> node_session" where
  "OnPeersUpdated peers ns =
     (let newSet = fold (\<lambda>p m. gm_put (pi_ID p) p m) peers [];
          kept = fold (\<lambda>(i, ps) m. if map_of newSet i = None then gm_del i m else m) (ns_peers ns) (ns_peers ns);
          added = fold (\<lambda>(i, info) m. if map_of m i = None then gm_put i (fresh_peer info) m else m) newSet kept;
          moved = fold (\<lambda>(i, info) m. case map_of m i of
                    None \<Rightarrow> m
                  | Some ps \<Rightarrow> if ps_host ps \<noteq> pi_Host info \<or> ps_port ps \<noteq> pi_Port info
                      then gm_put i (ps\<lparr>ps_host := pi_Host info, ps_port := pi_Port info, ps_conn := False\<rparr>) m
                      else m) newSet added
      in ns\<lparr>ns_peers := moved\<rparr>)"

section \<open>The control plane session\<close>

record cp_session =
  cs_cpHost :: string
  cs_cpPort :: int
  cs_nodeID :: string
  cs_clusterID :: string
  cs_nodeHost :: string
  cs_nodePort :: int
  cs_conn :: bool

datatype cp_error = CpConnect | CpRpc | CpRejected string | CpNoProtocol | CpNoKey | CpHeartbeatRejected

text \<open>
  The request of a registration, with the port as the \<open>int32\<close> of the wire, and of a heartbeat.  A call
  may change the world behind it; its reply is \<open>None\<close> when it failed.
\<close>

record register_request =
  rg_ClusterId :: string
  rg_NodeId :: string
  rg_Address :: string
  rg_Port :: int

record heartbeat_request =
  hb_Id :: string
  hb_ClusterId :: string

record register_reply =
  rr_success :: bool
  rr_message :: string
  rr_assigned :: "string option"

definition NewControlplaneSession :: "string \<Rightarrow> string \<Rightarrow> string \<Rightarrow> int \<Rightarrow> string \<Rightarrow> int \<Rightarrow> cp_session" where
  "NewControlplaneSession nodeID clusterID cpHost cpPort nodeHost nodePort =
     \<lparr>cs_cpHost = cpHost, cs_cpPort = cpPort, cs_nodeID = nodeID, cs_clusterID = clusterID,
      cs_nodeHost = nodeHost, cs_nodePort = nodePort, cs_conn = False\<rparr>"

definition cp_connect :: "bool \<Rightarrow> cp_session \<Rightarrow> cp_session \<times> bool" where
  "cp_connect dial_ok s = (if cs_conn s then (s, True) else if dial_ok then (s\<lparr>cs_conn := True\<rparr>, True) else (s, False))"

definition invalidateConn :: "cp_session \<Rightarrow> cp_session" where
  "invalidateConn s = s\<lparr>cs_conn := False\<rparr>"

definition register_request_of :: "cp_session \<Rightarrow> register_request" where
  "register_request_of s = \<lparr>rg_ClusterId = cs_clusterID s, rg_NodeId = cs_nodeID s, rg_Address = cs_nodeHost s,
     rg_Port = to_int32 (cs_nodePort s)\<rparr>"

definition Establish :: "bool \<Rightarrow> (register_request \<Rightarrow> 'w \<Rightarrow> 'w \<times> register_reply option) \<Rightarrow> cp_session \<Rightarrow> 'w
    \<Rightarrow> cp_session \<times> 'w \<times> (cp_error + string)" where
  "Establish dial_ok call s0 w = (case cp_connect dial_ok s0 of (s, ok) \<Rightarrow>
     if \<not> ok then (s, w, Inl CpConnect)
     else case call (register_request_of s) w of
       (w', None) \<Rightarrow> (invalidateConn s, w', Inl CpRpc)
     | (w', Some resp) \<Rightarrow>
         if \<not> rr_success resp then (s, w', Inl (CpRejected (rr_message resp)))
         else case rr_assigned resp of
           None \<Rightarrow> (s, w', Inl CpNoProtocol)
         | Some key \<Rightarrow> if key = [] then (s, w', Inl CpNoKey) else (s, w', Inr key))"

definition cp_Heartbeat :: "bool \<Rightarrow> (heartbeat_request \<Rightarrow> 'w \<Rightarrow> 'w \<times> bool option) \<Rightarrow> cp_session \<Rightarrow> 'w
    \<Rightarrow> cp_session \<times> 'w \<times> cp_error option" where
  "cp_Heartbeat dial_ok call s0 w = (case cp_connect dial_ok s0 of (s, ok) \<Rightarrow>
     if \<not> ok then (s, w, Some CpConnect)
     else case call \<lparr>hb_Id = cs_nodeID s, hb_ClusterId = cs_clusterID s\<rparr> w of
       (w', None) \<Rightarrow> (invalidateConn s, w', Some CpRpc)
     | (w', Some accepted) \<Rightarrow> (s, w', if accepted then None else Some CpHeartbeatRejected))"

text \<open>The peers request names the cluster; the call only reads.\<close>

definition FetchPeers :: "bool \<Rightarrow> (string \<Rightarrow> node_info list option) \<Rightarrow> cp_session \<Rightarrow> cp_session \<times> (cp_error + node_info list)" where
  "FetchPeers dial_ok call s0 = (case cp_connect dial_ok s0 of (s, ok) \<Rightarrow>
     if \<not> ok then (s, Inl CpConnect)
     else case call (cs_clusterID s) of None \<Rightarrow> (invalidateConn s, Inl CpRpc) | Some peers \<Rightarrow> (s, Inr peers))"

text \<open>
  A log line goes out with cluster, node, time, level and message; a capability report with cluster,
  node, protocol key, epoch, capabilities and time.  A lost one keeps the connection.
\<close>

definition cp_ReportLog :: "bool \<Rightarrow> (string \<times> string \<times> int \<times> string \<times> string \<Rightarrow> 'w \<Rightarrow> 'w \<times> bool) \<Rightarrow> int \<Rightarrow> string \<Rightarrow> string
    \<Rightarrow> cp_session \<Rightarrow> 'w \<Rightarrow> cp_session \<times> 'w \<times> cp_error option" where
  "cp_ReportLog dial_ok call now level msg s0 w = (case cp_connect dial_ok s0 of (s, ok) \<Rightarrow>
     if \<not> ok then (s, w, Some CpConnect)
     else case call (cs_clusterID s, cs_nodeID s, now, level, msg) w of
       (w', rpc_ok) \<Rightarrow> (s, w', if rpc_ok then None else Some CpRpc))"

definition cp_ReportNodeCapabilities ::
  "bool \<Rightarrow> (string \<times> string \<times> string \<times> u64 \<times> 'caps \<times> int \<Rightarrow> 'w \<Rightarrow> 'w \<times> (bool \<times> string) option) \<Rightarrow> string \<Rightarrow> u64 \<Rightarrow> 'caps \<Rightarrow> int
    \<Rightarrow> cp_session \<Rightarrow> 'w \<Rightarrow> cp_session \<times> 'w \<times> cp_error option" where
  "cp_ReportNodeCapabilities dial_ok call protocolKey epoch capabilities now s0 w = (case cp_connect dial_ok s0 of (s, ok) \<Rightarrow>
     if \<not> ok then (s, w, Some CpConnect)
     else case call (cs_clusterID s, cs_nodeID s, protocolKey, epoch, capabilities, now) w of
       (w', None) \<Rightarrow> (s, w', Some CpRpc)
     | (w', Some (accepted, msg)) \<Rightarrow> (s, w', if accepted then None else Some (CpRejected msg)))"

section \<open>Health follows the last results\<close>

definition apply_results :: "bool list \<Rightarrow> peer_state \<Rightarrow> peer_state" where
  "apply_results rs ps = fold (\<lambda>ok ps. if ok then updateSuccess 0 ps else updateFailure ps) rs ps"

definition trailing_failures :: "bool list \<Rightarrow> nat" where
  "trailing_failures rs = length (takeWhile Not (rev rs))"

lemma trailing_failures_snoc [simp]:
  "trailing_failures (rs @ [ok]) = (if ok then 0 else trailing_failures rs + 1)"
  by (simp add: trailing_failures_def)

lemma trailing_failures_le: "trailing_failures rs \<le> length rs"
  using length_takeWhile_le [of Not "rev rs"] by (simp add: trailing_failures_def)

lemma results_state:
  "int (length rs) < i64_max \<Longrightarrow> ps_failCount (apply_results rs (fresh_peer info)) = int (trailing_failures rs)
     \<and> ps_health (apply_results rs (fresh_peer info)) =
        (if trailing_failures rs = 0 then (if rs = [] then PeerSuspect else PeerAlive)
         else if trailing_failures rs = 1 then PeerSuspect else PeerDead)"
proof (induction rs rule: rev_induct)
  case Nil
  then show ?case by (simp add: apply_results_def fresh_peer_def trailing_failures_def)
next
  case (snoc ok rs)
  let ?ps = "apply_results rs (fresh_peer info)"
  have IH: "ps_failCount ?ps = int (trailing_failures rs)" using snoc by simp
  have w: "wrap64 (ps_failCount ?ps + 1) = int (trailing_failures rs) + 1"
    unfolding IH using snoc.prems trailing_failures_le [of rs] by (intro wrap64_Suc) auto
  have "apply_results (rs @ [ok]) (fresh_peer info) = (if ok then updateSuccess 0 ?ps else updateFailure ?ps)"
    by (simp add: apply_results_def)
  then show ?case
    using w by (auto simp: updateSuccess_def updateFailure_def Let_def)
qed

text \<open>
  A peer's transport health is a function of the unbroken run of failures at the end of its
  history: none makes it alive, one suspect, two or more dead, and a single success undoes any
  number of failures; before the first result it is suspect.
\<close>

theorem health_is_trailing_failures:
  assumes "int (length rs) < i64_max"
  shows "ps_health (apply_results rs (fresh_peer info)) =
    (if trailing_failures rs = 0 then (if rs = [] then PeerSuspect else PeerAlive)
     else if trailing_failures rs = 1 then PeerSuspect else PeerDead)"
  using results_state [OF assms] by blast

theorem health_is_trailing_failures_witness:
  "ps_health (apply_results [False, False, True, False] (fresh_peer \<lparr>pi_ID = ''n2'', pi_Host = ''h'', pi_Port = 1\<rparr>)) = PeerSuspect"
  using health_is_trailing_failures [of "[False, False, True, False]" "\<lparr>pi_ID = ''n2'', pi_Host = ''h'', pi_Port = 1\<rparr>"]
  by (simp add: i64_max_def trailing_failures_def)

section \<open>Topology updates\<close>

lemma fold_drop_lookup:
  "map_of (fold (\<lambda>(i, v) m. if P i then gm_del i m else m) xs m) i =
     (if P i \<and> i \<in> fst ` set xs then None else map_of m i)"
  by (induction xs arbitrary: m) auto

lemma fold_add_lookup:
  "gm_wf xs \<Longrightarrow> map_of (fold (\<lambda>(i, v) m. if map_of m i = None then gm_put i (f v) m else m) xs m) i =
     (case map_of m i of Some x \<Rightarrow> Some x | None \<Rightarrow> map_option f (map_of xs i))"
proof (induction xs arbitrary: m)
  case (Cons x xs)
  obtain j v where x: "x = (j, v)" by force
  have "map_of xs j = None" using Cons.prems x by (simp add: map_of_eq_None_iff)
  then show ?case using Cons x by (auto split: option.splits)
qed (simp split: option.splits)

lemma fold_adjust_lookup:
  "gm_wf xs \<Longrightarrow> map_of (fold (\<lambda>(i, v) m. case map_of m i of None \<Rightarrow> m
       | Some y \<Rightarrow> if Q y v then gm_put i (h y v) m else m) xs m) i =
     (case map_of m i of None \<Rightarrow> None
      | Some y \<Rightarrow> (case map_of xs i of None \<Rightarrow> Some y | Some v \<Rightarrow> Some (if Q y v then h y v else y)))"
proof (induction xs arbitrary: m)
  case (Cons x xs)
  obtain j v where x: "x = (j, v)" by force
  have "map_of xs j = None" using Cons.prems x by (simp add: map_of_eq_None_iff)
  then show ?case using Cons x by (auto split: option.splits)
qed (simp split: option.splits)

lemma fold_update_wf:
  "gm_wf m \<Longrightarrow> gm_wf (fold (\<lambda>(i, v) m. if P i then gm_del i m else m) xs m)"
  "gm_wf m \<Longrightarrow> gm_wf (fold (\<lambda>(i, v) m. if map_of m i = None then gm_put i (f v) m else m) ys m)"
  "gm_wf m \<Longrightarrow> gm_wf (fold (\<lambda>(i, v) m. case map_of m i of None \<Rightarrow> m
       | Some y \<Rightarrow> if Q y v then gm_put i (h y v) m else m) zs m)"
proof -
  show "gm_wf m \<Longrightarrow> gm_wf (fold (\<lambda>(i, v) m. if P i then gm_del i m else m) xs m)"
    by (induction xs arbitrary: m) auto
  show "gm_wf m \<Longrightarrow> gm_wf (fold (\<lambda>(i, v) m. if map_of m i = None then gm_put i (f v) m else m) ys m)"
    by (induction ys arbitrary: m) auto
  show "gm_wf m \<Longrightarrow> gm_wf (fold (\<lambda>(i, v) m. case map_of m i of None \<Rightarrow> m
       | Some y \<Rightarrow> if Q y v then gm_put i (h y v) m else m) zs m)"
    by (induction zs arbitrary: m) (auto split: option.split)
qed

definition topology :: "peer_info list \<Rightarrow> (string, peer_info) gomap" where
  "topology peers = fold (\<lambda>p m. gm_put (pi_ID p) p m) peers []"

lemma topology_wf: "gm_wf (topology peers)"
  unfolding topology_def by (rule fold_invariant) auto

lemma topology_snoc: "map_of (topology (ps @ [p])) = (map_of (topology ps))(pi_ID p \<mapsto> p)"
  by (simp add: topology_def)

lemma topology_id: "map_of (topology peers) i = Some info \<Longrightarrow> pi_ID info = i"
proof (induction peers rule: rev_induct)
  case (snoc p ps)
  then show ?case by (cases "i = pi_ID p") (simp_all add: topology_snoc)
qed (simp add: topology_def)

lemma topology_dom: "dom (map_of (topology peers)) = pi_ID ` set peers"
proof (induction peers rule: rev_induct)
  case (snoc p ps)
  then show ?case unfolding topology_snoc by (simp only: dom_fun_upd) simp
qed (simp add: topology_def)

lemma topology_update_lookup:
  "map_of (ns_peers (OnPeersUpdated peers ns)) i =
     (case map_of (topology peers) i of None \<Rightarrow> None
      | Some info \<Rightarrow> Some (case map_of (ns_peers ns) i of None \<Rightarrow> fresh_peer info
          | Some ps \<Rightarrow> if ps_host ps = pi_Host info \<and> ps_port ps = pi_Port info then ps
              else ps\<lparr>ps_host := pi_Host info, ps_port := pi_Port info, ps_conn := False\<rparr>))"
proof -
  let ?kept = "fold (\<lambda>(i, ps) m. if map_of (topology peers) i = None then gm_del i m else m) (ns_peers ns) (ns_peers ns)"
  let ?added = "fold (\<lambda>(i, info) m. if map_of m i = None then gm_put i (fresh_peer info) m else m) (topology peers) ?kept"
  have kept: "map_of ?kept i = (if map_of (topology peers) i = None then None else map_of (ns_peers ns) i)"
    unfolding fold_drop_lookup [where P = "\<lambda>i. map_of (topology peers) i = None"]
    using map_of_eq_None_iff [of "ns_peers ns" i] by auto
  have added: "map_of ?added i = (case map_of (topology peers) i of None \<Rightarrow> None
      | Some info \<Rightarrow> Some (case map_of (ns_peers ns) i of None \<Rightarrow> fresh_peer info | Some ps \<Rightarrow> ps))"
    unfolding fold_add_lookup [OF topology_wf] kept by (auto split: option.splits)
  have sel: "ns_peers (ns\<lparr>ns_peers := x\<rparr>) = x" for x by simp
  have "map_of (ns_peers (OnPeersUpdated peers ns)) i =
      (case map_of ?added i of None \<Rightarrow> None
       | Some ps \<Rightarrow> (case map_of (topology peers) i of None \<Rightarrow> Some ps
         | Some info \<Rightarrow> Some (if ps_host ps \<noteq> pi_Host info \<or> ps_port ps \<noteq> pi_Port info
             then ps\<lparr>ps_host := pi_Host info, ps_port := pi_Port info, ps_conn := False\<rparr> else ps)))"
    unfolding OnPeersUpdated_def Let_def topology_def [symmetric] sel
    by (rule fold_adjust_lookup [OF topology_wf])
  then show ?thesis unfolding added by (auto simp: fresh_peer_def split: option.splits)
qed

text \<open>
  A topology update makes the session's peers exactly the peers of the new list.  A peer that
  stays at its address keeps its connection and health, one whose address changed keeps its
  health and loses its connection, a new one starts unconnected and suspect, and the rest are gone.
\<close>

theorem topology_update:
  "map_of (ns_peers (OnPeersUpdated peers ns)) i =
     (case map_of (topology peers) i of None \<Rightarrow> None
      | Some info \<Rightarrow> Some (case map_of (ns_peers ns) i of None \<Rightarrow> fresh_peer info
          | Some ps \<Rightarrow> if ps_host ps = pi_Host info \<and> ps_port ps = pi_Port info then ps
              else ps\<lparr>ps_host := pi_Host info, ps_port := pi_Port info, ps_conn := False\<rparr>))"
  by (rule topology_update_lookup)

section \<open>Sending under faults\<close>

text \<open>Every entry of the peer map is stored under its own name.\<close>

definition session_ok :: "node_session \<Rightarrow> bool" where
  "session_ok ns \<longleftrightarrow> gm_wf (ns_peers ns) \<and> list_all (\<lambda>(i, ps). ps_id ps = i) (ns_peers ns)"

lemma session_okD: "session_ok ns \<Longrightarrow> map_of (ns_peers ns) i = Some ps \<Longrightarrow> ps_id ps = i"
  by (auto simp: session_ok_def list_all_iff dest: map_of_SomeD)

lemma send_rpc_cases:
  "send_rpc out env ps ns = (ns', err, reqs) \<Longrightarrow>
     (reqs = [] \<or> reqs = [\<lparr>rq_From = encode_from (env_From env) ns, rq_To = env_To env,
        rq_Protocol = env_Protocol env, rq_Payload = env_Payload env\<rparr>])
     \<and> (err = None \<longrightarrow> reqs \<noteq> [] \<and> o_rpc out) \<and> (\<forall>q. q \<noteq> env_To env \<longrightarrow> map_of (ns_peers ns') q = map_of (ns_peers ns) q)"
  by (auto simp: send_rpc_def Let_def set_peer_def split: if_splits)

lemma send_lookup_rule:
  assumes "session_ok ns" "session_Send fault draw out env ns = (ns', err, reqs)"
  shows "(reqs \<noteq> [] \<longrightarrow> \<not> engine_down fault \<and> \<not> engine_cut fault (env_To env)
            \<and> reqs = [\<lparr>rq_From = encode_from (env_From env) ns, rq_To = env_To env,
                 rq_Protocol = env_Protocol env, rq_Payload = env_Payload env\<rparr>])
    \<and> (map_of (ns_peers ns) (env_To env) = None \<longrightarrow> err = Some (PeerNotFound (env_To env)) \<and> ns' = ns \<and> reqs = [])
    \<and> (map_of (ns_peers ns) (env_To env) \<noteq> None \<and> fault \<noteq> None \<and> \<not> sd_Allow (BeforeSend fault (env_To env) draw)
         \<longrightarrow> err = None \<and> ns' = ns \<and> reqs = [])
    \<and> (\<forall>q. q \<noteq> env_To env \<longrightarrow> map_of (ns_peers ns') q = map_of (ns_peers ns) q)"
proof (cases "map_of (ns_peers ns) (env_To env)")
  case None
  then show ?thesis using assms(2) by (auto simp: session_Send_def)
next
  case (Some ps)
  have ps: "ps_id ps = env_To env" by (rule session_okD [OF assms(1) Some])
  show ?thesis
  proof (cases "fault = None \<or> sd_Allow (BeforeSend fault (env_To env) draw)")
    case True
    have gate: "\<not> engine_down fault \<and> \<not> engine_cut fault (env_To env)"
      using True fe.send_gate by (auto simp: engine_down_def engine_cut_def)
    have "(ns' = ns \<and> err = Some CtxErr \<and> reqs = []) \<or> send_rpc out env ps ns = (ns', err, reqs)"
      using assms(2) Some ps True by (auto simp: session_Send_def Let_def split: option.splits if_splits)
    then show ?thesis using gate True Some send_rpc_cases [of out env ps ns ns' err reqs] by auto
  next
    case False
    then show ?thesis using assms(2) Some ps by (auto simp: session_Send_def Let_def split: option.splits)
  qed
qed

text \<open>A handshake passes the same gates as the call it precedes.\<close>

lemma send_handshake_gate:
  assumes "session_ok ns" "(p, h) \<in> set (send_handshakes fault draw out env ns)"
  shows "p = env_To env \<and> h = handshake ns \<and> \<not> engine_down fault \<and> \<not> engine_cut fault p"
proof -
  obtain ps where ps: "map_of (ns_peers ns) (env_To env) = Some ps"
    using assms(2) by (cases "map_of (ns_peers ns) (env_To env)") (auto simp: send_handshakes_def)
  have "ps_id ps = env_To env" by (rule session_okD [OF assms(1) ps])
  moreover have "fault = None \<or> sd_Allow (BeforeSend fault (ps_id ps) draw)" "p = ps_id ps" "h = handshake ns"
    using assms(2) ps by (auto simp: send_handshakes_def Let_def split: if_splits)
  ultimately show ?thesis using fe.send_gate by (auto simp: engine_down_def engine_cut_def)
qed

lemma probe_gate_open:
  "\<not> (fault \<noteq> None \<and> \<not> pd_Allow (BeforeProbe fault p)) \<longleftrightarrow> \<not> engine_down fault \<and> \<not> engine_cut fault p"
  using fe.probe_gate [of fault p] by (auto simp: engine_down_def engine_cut_def)

lemma probe_handshake_gate:
  "(p, h) \<in> set (probe_handshakes fault outs ns) \<Longrightarrow> h = handshake ns \<and> \<not> engine_down fault \<and> \<not> engine_cut fault p"
  unfolding probe_handshakes_def probe_gate_open by auto

lemma probe_fold:
  assumes "list_all (\<lambda>(i, ps). ps_id ps = i) xs" "fold (probe_step fault outs) xs (ns, pinged) = (ns', pinged')"
  shows "(\<forall>p \<in> set pinged'. p \<in> set pinged \<or> \<not> engine_cut fault p)
    \<and> (\<forall>p. engine_cut fault p \<longrightarrow> map_of (ns_peers ns') p = map_of (ns_peers ns) p)"
  using assms
proof (induction xs arbitrary: ns pinged)
  case (Cons x xs)
  obtain i ps where x: "x = (i, ps)" by force
  obtain ns1 p1 where s: "probe_step fault outs (i, ps) (ns, pinged) = (ns1, p1)" by force
  have "(\<forall>p \<in> set p1. p \<in> set pinged \<or> \<not> engine_cut fault p)
    \<and> (\<forall>p. engine_cut fault p \<longrightarrow> map_of (ns_peers ns1) p = map_of (ns_peers ns) p)"
    using s Cons.prems(1) x probe_gate_open [of fault i]
    by (auto simp: probe_step_def probePeer_def set_peer_def Let_def split: if_splits)
  moreover have "fold (probe_step fault outs) xs (ns1, p1) = (ns', pinged')" using Cons.prems(2) x s by simp
  ultimately show ?case using Cons.IH [of ns1 p1] Cons.prems(1) by auto
qed auto

text \<open>A probe round neither pings a peer that is cut off nor changes what the session knows of it.\<close>

lemma probe_tick_cut:
  assumes "session_ok ns" "probe_tick fault cancelled outs ns = Some (ns', pinged)" "engine_cut fault p"
  shows "p \<notin> set pinged \<and> map_of (ns_peers ns') p = map_of (ns_peers ns) p"
proof -
  have "(ns' = ns \<and> pinged = []) \<or> probeOnce fault outs ns = (ns', pinged)"
    using assms(2) by (auto simp: probe_tick_def Let_def split: option.splits if_splits)
  then show ?thesis
    using probe_fold [of "ns_peers ns" fault outs ns "[]" ns' pinged] assms(1,3)
    by (auto simp: session_ok_def probeOnce_def)
qed

text \<open>
  C19: Sending obeys the fault engine.  Whatever the network does, an envelope leaves the node only
  when the node is not crashed and the receiver not partitioned away; then it is the one request to
  that receiver with payload and protocol unchanged and the sender's address attached.  A send the
  engine refuses is reported as success with no effect at all, a send to an unknown peer as an
  error, and no other peer's state is touched.
\<close>

theorem send_respects_faults:
  assumes "session_ok ns" "session_Send fault draw out env ns = (ns', err, reqs)"
  shows "(reqs \<noteq> [] \<longrightarrow> \<not> engine_down fault \<and> \<not> engine_cut fault (env_To env)
            \<and> reqs = [\<lparr>rq_From = encode_from (env_From env) ns, rq_To = env_To env,
                 rq_Protocol = env_Protocol env, rq_Payload = env_Payload env\<rparr>])
    \<and> (map_of (ns_peers ns) (env_To env) = None \<longrightarrow> err = Some (PeerNotFound (env_To env)) \<and> ns' = ns \<and> reqs = [])
    \<and> (map_of (ns_peers ns) (env_To env) \<noteq> None \<and> fault \<noteq> None \<and> \<not> sd_Allow (BeforeSend fault (env_To env) draw)
         \<longrightarrow> err = None \<and> ns' = ns \<and> reqs = [])
    \<and> (\<forall>q. q \<noteq> env_To env \<longrightarrow> map_of (ns_peers ns') q = map_of (ns_peers ns) q)"
  by (rule send_lookup_rule [OF assms])

definition demo_session :: node_session where
  "demo_session = OnPeersUpdated [\<lparr>pi_ID = ''n2'', pi_Host = ''h2'', pi_Port = 2\<rparr>] (NewNodeSession ''h1'' ''n1'' 8001)"

lemma demo_session_peers:
  "ns_peers demo_session = [(''n2'', fresh_peer \<lparr>pi_ID = ''n2'', pi_Host = ''h2'', pi_Port = 2\<rparr>)]"
  by (simp add: demo_session_def OnPeersUpdated_def NewNodeSession_def Let_def gm_put_def fresh_peer_def)

theorem send_respects_faults_witness:
  "\<exists>ns' err reqs. session_Send (Some (Crash NewEngine)) 0 \<lparr>o_cancelled = False, o_dial = True, o_handshake = True, o_rpc = True, o_now = 1\<rparr>
      (heartbeat watcher ''n2'') demo_session = (ns', err, reqs) \<and> reqs = [] \<and> err = None \<and> ns' = demo_session"
proof -
  let ?e = "Some (Crash NewEngine)" and ?o = "\<lparr>o_cancelled = False, o_dial = True, o_handshake = True, o_rpc = True, o_now = 1\<rparr>"
  obtain ns' err reqs where r: "session_Send ?e 0 ?o (heartbeat watcher ''n2'') demo_session = (ns', err, reqs)"
    by (metis prod_cases3)
  have "session_ok demo_session" by (simp add: session_ok_def demo_session_peers fresh_peer_def)
  from send_respects_faults [OF this r] r show ?thesis
    by (simp add: demo_session_peers heartbeat_def BeforeSend_def IsCrashed_def)
qed

section \<open>The sender's address survives the trip\<close>

lemma encode_decode:
  assumes "CHR ''@'' \<notin> set n" "i64_min \<le> ns_nodePort ns" "ns_nodePort ns \<le> i64_max"
  shows "parseSenderAddress (encode_from n ns) = (n, ns_nodeAddr ns, ns_nodePort ns)
    \<and> baseline_sender (encode_from n ns) = (n, ns_nodeAddr ns, ns_nodePort ns)"
  using assms by (simp add: parseSenderAddress_def baseline_sender_def encode_from_def show_int_notin atoi_show parse_int_show)

text \<open>
  In-band discovery works: from the sender field a session writes, both protocols read back the
  sender's name, host and port, provided the name has no \<open>@\<close> and the port is an \<open>int64\<close>; hosts may
  contain colons.
\<close>

theorem sender_address_roundtrip:
  assumes "CHR ''@'' \<notin> set n" "i64_min \<le> ns_nodePort ns" "ns_nodePort ns \<le> i64_max"
  shows "parseSenderAddress (encode_from n ns) = (n, ns_nodeAddr ns, ns_nodePort ns)
    \<and> baseline_sender (encode_from n ns) = (n, ns_nodeAddr ns, ns_nodePort ns)"
  by (rule encode_decode [OF assms])

theorem sender_address_roundtrip_witness:
  "parseSenderAddress (encode_from ''n1'' (NewNodeSession ''::1'' ''n1'' 8001)) = (''n1'', ''::1'', 8001)"
  using sender_address_roundtrip [of "''n1''" "NewNodeSession ''::1'' ''n1'' 8001"]
  by (simp add: NewNodeSession_def i64_min_def i64_max_def)

end
