(* ===== verification/Registry.thy ===== *)
theory Registry
  imports GoStrings
begin

text \<open>
  The protocol registry (\<open>internal/node/protocol/registry.go\<close>): a process-wide map from protocol
  names to factories.  A factory is the fresh protocol value it builds, a nil factory is \<open>None\<close>,
  and \<open>Register\<close> panics with the messages of the source.  The lemmas: registering keeps earlier
  registrations, a registered name loads its own factory's value, and any other name is an error.
\<close>

type_synonym 'p registry = "(string, 'p) gomap"

definition Register :: "string \<Rightarrow> 'p option \<Rightarrow> 'p registry \<Rightarrow> string + 'p registry" where
  "Register name f factories =
     (if name = [] then Inl ''protocol: empty name''
      else case f of
        None \<Rightarrow> Inl ''protocol: nil factory''
      | Some p \<Rightarrow>
          if map_of factories name \<noteq> None then Inl (''protocol: already registered: '' @ name)
          else Inr (gm_put name p factories))"

definition Load :: "string \<Rightarrow> 'p registry \<Rightarrow> string + 'p" where
  "Load name factories = (case map_of factories name of
     None \<Rightarrow> Inl (''protocol: not found: '' @ name)
   | Some p \<Rightarrow> Inr p)"

definition registry_List :: "'p registry \<Rightarrow> string list" where
  "registry_List factories = gm_keys factories"

lemma Register_Inr:
  "Register name f r = Inr r' \<longleftrightarrow>
     name \<noteq> [] \<and> (\<exists>p. f = Some p \<and> map_of r name = None \<and> r' = gm_put name p r)"
  by (auto simp: Register_def split: option.splits)

lemma Register_wf [inv_intros]: "Register name f r = Inr r' \<Longrightarrow> gm_wf r \<Longrightarrow> gm_wf r'"
  by (auto simp: Register_Inr)

lemma Load_Register:
  "Register name f r = Inr r' \<Longrightarrow> Load n r' = (if n = name then Inr (the f) else Load n r)"
  by (auto simp: Register_Inr Load_def)

lemma List_Register: "Register name f r = Inr r' \<Longrightarrow> set (registry_List r') = insert name (set (registry_List r))"
  by (auto simp: Register_Inr registry_List_def set_gm_keys)

text \<open>The registrations of the \<open>init\<close> functions, in the order the runtime imports the packages.\<close>

fun register_all :: "(string \<times> 'p) list \<Rightarrow> 'p registry \<Rightarrow> string + 'p registry" where
  "register_all [] r = Inr r"
| "register_all ((n, p) # nps) r = (case Register n (Some p) r of Inl e \<Rightarrow> Inl e | Inr r' \<Rightarrow> register_all nps r')"

text \<open>
  A registered protocol name loads exactly what its factory builds; loading any other name
  after the registrations is the not-found error, and a duplicate registration panics, leaving
  the first one in force.
\<close>

theorem registry_load:
  assumes "register_all [(a, p), (b, q)] [] = Inr r"
  shows "Load a r = Inr p \<and> Load b r = Inr q \<and> a \<noteq> b
       \<and> (n \<noteq> a \<and> n \<noteq> b \<longrightarrow> Load n r = Inl (''protocol: not found: '' @ n))
       \<and> Register a (Some x) r = Inl (''protocol: already registered: '' @ a)"
  using assms by (auto simp: Register_def Load_def split: if_splits)

theorem registry_load_witness:
  "\<exists>r. register_all [(''baseline'', 1 :: nat), (''gossip'', 2)] [] = Inr r \<and> Load ''gossip'' r = Inr 2
     \<and> Load ''raft'' r = Inl ''protocol: not found: raft''"
proof -
  obtain r where r: "register_all [(''baseline'', 1 :: nat), (''gossip'', 2)] [] = Inr r"
    by (simp add: Register_def)
  show ?thesis using registry_load [OF r, of "''raft''"] r by auto
qed

end
