(* ===== verification/Runtime.thy ===== *)
theory Runtime
  imports Session Registry GossipSync
begin

text \<open>
  The node runtime (\<open>internal/node/runtime\<close>): the container of a protocol, its peers, its session
  and the fault engine, with the event reactor that is the only place protocol state changes
  (\<open>reactor.go\<close>), the actions of the control plane (\<open>action.go\<close>, \<open>capabilities.go\<close>), protocol swaps
  (\<open>protocol_swap.go\<close>), topology and discovery (\<open>controlplane_client.go\<close>, \<open>rpc.go\<close>), fault injection
  (\<open>rpc.go\<close>, \<open>decision_contract.go\<close>) and the tick driver (\<open>protocol_driver.go\<close>).

  The event channel is the list of events not yet handled.  A goroutine the source starts to
  report to the control plane appears as an output.  Protobuf encodings come from a library: the
  record \<open>pb\<close> of the functions used is an argument, and theorems name the round trips they need.
\<close>

section \<open>State and events\<close>

datatype proto = PGossip gossip | PBaseline baseline

datatype action_type = KV_PUT | KV_GET | OtherAction

record action_request =
  ar_Action :: action_type
  ar_Payload :: string

record action_response =
  as_Success :: bool
  as_Message :: string
  as_Payload :: string

datatype runtime_event = EventTick | EventMessage envelope | EventAction "action_request option" | EventProtocolSwap string

record runtime =
  r_config :: node_config
  r_ns :: node_session
  r_proto :: "proto option"
  r_fault :: "engine option"
  r_started :: bool
  r_stopped :: bool
  r_events :: "runtime_event list"

definition runtime_New :: "node_config \<Rightarrow> node_session \<Rightarrow> runtime" where
  "runtime_New cfg ns = \<lparr>r_config = cfg, r_ns = ns, r_proto = None, r_fault = None, r_started = False, r_stopped = False, r_events = []\<rparr>"

text \<open>\<open>Stop\<close> cancels the context and stops the server of a started runtime.\<close>

definition runtime_Stop :: "runtime \<Rightarrow> runtime" where
  "runtime_Stop r = r\<lparr>r_stopped := r_started r\<rparr>"

section \<open>Capabilities\<close>

record capabilities =
  cap_KVPut :: bool
  cap_KVGet :: bool
  cap_KVDelete :: bool

text \<open>The type assertions: only the gossip protocol has the key-value methods; nil has none.\<close>

definition PutAction :: "clock \<Rightarrow> proto option \<Rightarrow> string list \<Rightarrow> (proto option \<times> string list) \<times> string option" where
  "PutAction clock p args = (case p of
     Some (PGossip g) \<Rightarrow>
       if length args = 0 then ((p, []), None)
       else if length args \<noteq> 2 then ((p, []), Some ''kv_put expects key and value'')
       else (case gossip_Put clock (args ! 0) (args ! 1) g of (g', evs) \<Rightarrow> ((Some (PGossip g'), evs), None))
   | _ \<Rightarrow> ((p, []), Some ''kv_write not supported by protocol''))"

definition GetAction :: "proto option \<Rightarrow> string list \<Rightarrow> string + string \<times> bool" where
  "GetAction p args = (case p of
     Some (PGossip g) \<Rightarrow>
       if length args = 0 then Inr ([], False)
       else if length args \<noteq> 1 then Inl ''kv_get expects key''
       else Inr (gossip_Get (args ! 0) g)
   | _ \<Rightarrow> Inl ''kv_read not supported by protocol'')"

record kv_get_metadata =
  kg_Value :: string
  kg_Version :: int
  kg_Origin :: string

definition GetActionWithMetadata :: "proto option \<Rightarrow> string list \<Rightarrow> string + kv_get_metadata \<times> bool" where
  "GetActionWithMetadata p args = (case p of
     Some (PGossip g) \<Rightarrow>
       if length args = 0 then Inr (\<lparr>kg_Value = [], kg_Version = 0, kg_Origin = []\<rparr>, False)
       else if length args \<noteq> 1 then Inl ''kv_get expects key''
       else (case gossip_GetWithMetadata (args ! 0) g of (value, version, origin, found) \<Rightarrow>
         Inr (\<lparr>kg_Value = value, kg_Version = version, kg_Origin = origin\<rparr>, found))
   | _ \<Rightarrow> (case GetAction p args of
       Inl e \<Rightarrow> Inl e
     | Inr (value, found) \<Rightarrow> Inr (\<lparr>kg_Value = value, kg_Version = 0, kg_Origin = []\<rparr>, found)))"

definition DeleteAction :: "proto option \<Rightarrow> string list \<Rightarrow> proto option \<times> string option" where
  "DeleteAction p args = (case p of
     Some (PGossip g) \<Rightarrow>
       if length args = 0 then (p, None)
       else if length args \<noteq> 1 then (p, Some ''kv_delete expects key'')
       else (Some (PGossip (gossip_Delete (args ! 0) g)), None)
   | _ \<Rightarrow> (p, Some ''kv_delete not supported by protocol''))"

definition CheckCapabilities :: "proto option \<Rightarrow> capabilities" where
  "CheckCapabilities p =
     \<lparr>cap_KVPut = (snd (PutAction (\<lambda>_. 0) p []) = None),
      cap_KVGet = (case GetAction p [] of Inl _ \<Rightarrow> False | Inr _ \<Rightarrow> True),
      cap_KVDelete = (snd (DeleteAction p []) = None)\<rparr>"

section \<open>Actions\<close>

record kv_get_response =
  gr_Value :: string
  gr_Version :: int
  gr_Origin :: string
  gr_HasMetadata :: bool

text \<open>The protobuf functions the actions use; a failure is \<open>None\<close>.\<close>

record pb_codec =
  pb_unmarshal_put :: "string \<Rightarrow> (string \<times> string) option"
  pb_unmarshal_get :: "string \<Rightarrow> string option"
  pb_marshal_get_response :: "kv_get_response \<Rightarrow> string option"

definition success :: "string \<Rightarrow> action_response" where
  "success payload = \<lparr>as_Success = True, as_Message = [], as_Payload = payload\<rparr>"

definition fail :: "string \<Rightarrow> action_response" where
  "fail msg = \<lparr>as_Success = False, as_Message = msg, as_Payload = []\<rparr>"

definition handleActionEvent :: "pb_codec \<Rightarrow> clock \<Rightarrow> action_request option \<Rightarrow> runtime
    \<Rightarrow> runtime \<times> action_response \<times> string list" where
  "handleActionEvent pb clock act r = (case act of
     None \<Rightarrow> (r, fail ''nil action request'', [])
   | Some req \<Rightarrow> (case ar_Action req of
       KV_PUT \<Rightarrow> (case pb_unmarshal_put pb (ar_Payload req) of
           None \<Rightarrow> (r, fail ''invalid KVPut payload'', [])
         | Some (key, value) \<Rightarrow> (case PutAction clock (r_proto r) [key, value] of
             ((p, evs), Some err) \<Rightarrow> (r, fail err, [])
           | ((p, evs), None) \<Rightarrow> (r\<lparr>r_proto := p\<rparr>, success [], evs)))
     | KV_GET \<Rightarrow> (case pb_unmarshal_get pb (ar_Payload req) of
           None \<Rightarrow> (r, fail ''invalid KVGet payload'', [])
         | Some key \<Rightarrow> (case GetActionWithMetadata (r_proto r) [key] of
             Inl err \<Rightarrow> (r, fail err, [])
           | Inr (meta, found) \<Rightarrow>
               if \<not> found then (r, fail ''key not found'', [])
               else
                 let response = (if kg_Version meta > 0 \<or> kg_Origin meta \<noteq> []
                       then \<lparr>gr_Value = kg_Value meta, gr_Version = kg_Version meta,
                             gr_Origin = kg_Origin meta, gr_HasMetadata = True\<rparr>
                       else \<lparr>gr_Value = kg_Value meta, gr_Version = 0, gr_Origin = [], gr_HasMetadata = False\<rparr>)
                 in case pb_marshal_get_response pb response of
                      None \<Rightarrow> (r, fail ''serialization failed'', [])
                    | Some bytes \<Rightarrow> (r, success bytes, [])))
     | OtherAction \<Rightarrow> (r, fail ''unknown action'', [])))"

text \<open>\<open>ExecuteAction\<close> enqueues the request; the reply comes from the reactor.\<close>

definition ExecuteAction :: "action_request option \<Rightarrow> runtime \<Rightarrow> runtime \<times> action_response option" where
  "ExecuteAction act r = (case act of
     None \<Rightarrow> (r, Some (fail ''nil action request''))
   | Some _ \<Rightarrow> (r\<lparr>r_events := r_events r @ [EventAction act]\<rparr>, None))"

section \<open>Topology\<close>

definition proto_SetPeers :: "string list \<Rightarrow> proto option \<Rightarrow> proto option" where
  "proto_SetPeers ids p = (case p of
     None \<Rightarrow> None
   | Some (PGossip g) \<Rightarrow> Some (PGossip (gossip_SetPeers ids g))
   | Some (PBaseline b) \<Rightarrow> Some (PBaseline (baseline_SetPeers ids b)))"

definition merge_discovered :: "node_info list \<Rightarrow> node_info \<Rightarrow> node_info list" where
  "merge_discovered peers d =
     (let merged = map (\<lambda>p. if ni_Id p = ni_Id d
            then \<lparr>ni_Id = ni_Id d, ni_Address = (if ni_Address d \<noteq> [] then ni_Address d else ni_Address p),
                  ni_Port = (if ni_Port d > 0 then ni_Port d else ni_Port p)\<rparr>
            else p) peers
      in if list_ex (\<lambda>p. ni_Id p = ni_Id d) peers then merged else merged @ [d])"

definition applyPeersTopology :: "node_info list \<Rightarrow> node_info option \<Rightarrow> runtime \<Rightarrow> runtime" where
  "applyPeersTopology peers0 discovered r =
     (let peers = (case discovered of None \<Rightarrow> peers0 | Some d \<Rightarrow> merge_discovered peers0 d);
          cfg = config_SetPeers (map Some peers) (r_config r);
          sessionPeers = map (\<lambda>p. \<lparr>pi_ID = p_ID p, pi_Host = p_Host p, pi_Port = p_Port p\<rparr>) (nc_Peers cfg);
          peerIDs = map p_ID (nc_Peers cfg)
      in r\<lparr>r_config := cfg, r_ns := OnPeersUpdated sessionPeers (r_ns r), r_proto := proto_SetPeers peerIDs (r_proto r)\<rparr>)"

definition OnPeerDiscovered :: "string \<Rightarrow> string \<Rightarrow> int \<Rightarrow> runtime \<Rightarrow> runtime" where
  "OnPeerDiscovered peerID peerHost0 peerPort r =
     (if \<not> r_started r then r
      else if peerID = [] \<or> peerPort \<le> 0 then r
      else
        let peerHost = (if peerHost0 = [] then ''localhost'' else peerHost0);
            base = map (\<lambda>p. \<lparr>ni_Id = p_ID p, ni_Address = p_Host p, ni_Port = word_of_int (p_Port p)\<rparr>) (nc_Peers (r_config r))
        in applyPeersTopology base
             (Some \<lparr>ni_Id = peerID, ni_Address = peerHost, ni_Port = word_of_int peerPort\<rparr>) r)"

definition getPeersFromControlplane :: "cp_error + node_info list \<Rightarrow> runtime \<Rightarrow> runtime \<times> cp_error option" where
  "getPeersFromControlplane fetched r = (case fetched of
     Inl e \<Rightarrow> (r, Some e) | Inr peers \<Rightarrow> (applyPeersTopology peers None r, None))"

section \<open>Faults\<close>

record fault_request =
  fr_NodeId :: string
  fr_Crashed :: bool
  fr_DropRate :: f64
  fr_DelayMs :: int
  fr_Partition :: "string list"

datatype fault_error = NilParams | NoEngine | NodeMismatch string string | BadDropRate f64 | BadDelay int

definition runtime_SetFaultParams :: "fault_request option \<Rightarrow> runtime \<Rightarrow> runtime \<times> fault_error option" where
  "runtime_SetFaultParams params r = (case params of
     None \<Rightarrow> (r, Some NilParams)
   | Some fr \<Rightarrow> (case r_fault r of
       None \<Rightarrow> (r, Some NoEngine)
     | Some e0 \<Rightarrow>
         if fr_NodeId fr \<noteq> [] \<and> fr_NodeId fr \<noteq> nc_ID (r_config r)
         then (r, Some (NodeMismatch (fr_NodeId fr) (nc_ID (r_config r))))
         else if f64_lt (fr_DropRate fr) (Fin 0) \<or> f64_lt (Fin 1) (fr_DropRate fr) then (r, Some (BadDropRate (fr_DropRate fr)))
         else if fr_DelayMs fr < 0 then (r, Some (BadDelay (fr_DelayMs fr)))
         else
           let e1 = SetDelay (fr_DelayMs fr) (SetDropRate (fr_DropRate fr) (if fr_Crashed fr then Crash e0 else Recover e0));
               desired = gm_mark (filter (\<lambda>i. i \<noteq> [] \<and> i \<noteq> nc_ID (r_config r)) (fr_Partition fr)) [];
               knownPeers = map p_ID (nc_Peers (r_config r));
               e2 = fold (\<lambda>i e. if map_of desired i \<noteq> None then Partition i e else Heal i e) knownPeers e1;
               e3 = fold Partition (gm_keys desired) e2
           in (r\<lparr>r_fault := Some e3\<rparr>, None)))"

definition runtime_BeforeSend :: "string \<Rightarrow> rat \<Rightarrow> runtime \<Rightarrow> send_decision" where
  "runtime_BeforeSend peer draw r = (if r_fault r = None then \<lparr>sd_Allow = True, sd_Delay = 0, sd_Reason = []\<rparr>
     else BeforeSend (r_fault r) peer draw)"

definition runtime_BeforeProbe :: "string \<Rightarrow> runtime \<Rightarrow> probe_decision" where
  "runtime_BeforeProbe peer r = (if r_fault r = None then \<lparr>pd_Allow = True, pd_Delay = 0, pd_Reason = ''no-fault-engine''\<rparr>
     else BeforeProbe (r_fault r) peer)"

definition runtime_BeforeTick :: "runtime \<Rightarrow> tick_decision" where
  "runtime_BeforeTick r = (if r_fault r = None then \<lparr>td_Allow = True, td_Delay = 0, td_Reason = ''no-fault-engine''\<rparr>
     else BeforeTick (r_fault r))"

definition runtime_BeforeReceive :: "string \<Rightarrow> runtime \<Rightarrow> receive_decision" where
  "runtime_BeforeReceive sender r = (if r_fault r = None then \<lparr>rd_Allow = True, rd_Reason = []\<rparr>
     else BeforeReceive (r_fault r) sender)"

text \<open>One tick of the driver: the event it enqueues, or \<open>None\<close> when the loop ends during the delay.\<close>

definition driver_tick :: "bool \<Rightarrow> runtime \<Rightarrow> runtime_event list option" where
  "driver_tick stopped r = (let tick = runtime_BeforeTick r in
     if \<not> td_Allow tick then Some []
     else if td_Delay tick > 0 \<and> stopped then None
     else Some [EventTick])"

text \<open>The heartbeat to the control plane: skipped by a closed gate, which counts as success.\<close>

definition sendHeartbeatToControlPlane :: "(cp_session \<Rightarrow> cp_session \<times> cp_error option) \<Rightarrow> runtime \<Rightarrow> cp_session
    \<Rightarrow> cp_session \<times> cp_error option" where
  "sendHeartbeatToControlPlane beat r cp =
     (if \<not> td_Allow (runtime_BeforeTick r) then (cp, None) else beat cp)"

section \<open>Protocol swap\<close>

text \<open>The registry after the package initialisers the runtime imports: baseline, then gossip.\<close>

definition factories :: "proto registry" where
  "factories = (case register_all [(''baseline'', PBaseline (NewBaselineProtocol [])), (''gossip'', PGossip NewGossipProtocol)] [] of
     Inr reg \<Rightarrow> reg | Inl _ \<Rightarrow> [])"

definition proto_Start :: "string \<Rightarrow> proto \<Rightarrow> proto" where
  "proto_Start n p = (case p of PGossip g \<Rightarrow> PGossip (gossip_Start n g) | PBaseline b \<Rightarrow> PBaseline (baseline_Start n b))"

text \<open>
  Both protocols take the callback; only the gossip protocol's \<open>SetLogger\<close> has the signature the
  interface asks for.
\<close>

definition proto_install :: "proto \<Rightarrow> proto" where
  "proto_install p = (case p of
     PGossip g \<Rightarrow> PGossip (gossip_SetLogger (gossip_SetPeerDiscoveryCallback g))
   | PBaseline b \<Rightarrow> PBaseline (baseline_SetPeerDiscoveryCallback b))"

definition applyProtocolSwap :: "string \<Rightarrow> runtime \<Rightarrow> runtime \<times> string option" where
  "applyProtocolSwap protocolKey n = (case Load protocolKey factories of
     Inl e \<Rightarrow> (n, Some (''protocol load failed for '' @ protocolKey @ '': '' @ e))
   | Inr p \<Rightarrow>
       let peerIDs = map p_ID (nc_Peers (r_config n));
           p1 = (case proto_SetPeers peerIDs (Some p) of Some q \<Rightarrow> q | None \<Rightarrow> p)
       in (n\<lparr>r_proto := Some (proto_Start (nc_ID (r_config n)) (proto_install p1))\<rparr>, None))"

definition SendProtocolSwapEvent :: "string \<Rightarrow> runtime \<Rightarrow> runtime" where
  "SendProtocolSwapEvent protocolKey n = n\<lparr>r_events := r_events n @ [EventProtocolSwap protocolKey]\<rparr>"

section \<open>Sending\<close>

text \<open>\<open>net j\<close> is the random draw and the network outcome of the \<open>j\<close>-th send of a call.\<close>

fun send_to :: "(nat \<Rightarrow> rat \<times> outcome) \<Rightarrow> nat \<Rightarrow> envelope list \<Rightarrow> runtime \<Rightarrow> runtime \<times> envelope_request list" where
  "send_to net j [] r = (r, [])"
| "send_to net j (e # es) r = (case net j of (draw, out) \<Rightarrow>
     case session_Send (r_fault r) draw out e (r_ns r) of (ns, err, reqs) \<Rightarrow>
     case send_to net (j + 1) es (r\<lparr>r_ns := ns\<rparr>) of (r', reqs') \<Rightarrow> (r', reqs @ reqs'))"

definition unicast :: "envelope \<Rightarrow> string \<Rightarrow> envelope" where
  "unicast env peerID = \<lparr>env_From = env_From env, env_To = peerID, env_Protocol = env_Protocol env,
     env_Payload = env_Payload env, env_Kind = env_Kind env, env_TraceMetadata = [], env_Version = 0, env_LogicalTick = 0\<rparr>"

definition sendEnvelope :: "(nat \<Rightarrow> rat \<times> outcome) \<Rightarrow> envelope \<Rightarrow> runtime \<Rightarrow> runtime \<times> envelope_request list" where
  "sendEnvelope net env r =
     (if env_To env = [] then
        let peers = map p_ID (nc_Peers (r_config r)) in send_to net 0 (map (unicast env) peers) r
      else send_to net 0 [env] r)"

fun send_out :: "(nat \<Rightarrow> nat \<Rightarrow> rat \<times> outcome) \<Rightarrow> nat \<Rightarrow> envelope list \<Rightarrow> runtime \<Rightarrow> runtime \<times> envelope_request list" where
  "send_out net i [] r = (r, [])"
| "send_out net i (e # es) r = (case sendEnvelope (net i) e r of (r1, reqs1) \<Rightarrow>
     case send_out net (i + 1) es r1 of (r2, reqs2) \<Rightarrow> (r2, reqs1 @ reqs2))"

definition HandleEnvelope :: "envelope_request \<Rightarrow> runtime \<Rightarrow> runtime" where
  "HandleEnvelope req r =
     (let env = \<lparr>env_From = rq_From req, env_To = rq_To req, env_Protocol = rq_Protocol req, env_Payload = rq_Payload req,
                 env_Kind = KindProtocol, env_TraceMetadata = [], env_Version = 0, env_LogicalTick = 0\<rparr>
      in r\<lparr>r_events := r_events r @ [EventMessage env]\<rparr>)"

section \<open>The reactor\<close>

text \<open>What the outside contributes to one event: clock, choice, network.\<close>

record reactor_input =
  in_pb :: pb_codec
  in_clock :: clock
  in_choice :: nat
  in_net :: "nat \<Rightarrow> nat \<Rightarrow> rat \<times> outcome"

record reactor_output =
  out_requests :: "envelope_request list"
  out_response :: "action_response option"
  out_swap :: "string option option"
  out_report :: "(string \<times> capabilities) option"
  out_log :: "string list"

definition quiet_output :: reactor_output where
  "quiet_output = \<lparr>out_requests = [], out_response = None, out_swap = None, out_report = None, out_log = []\<rparr>"

text \<open>The runtime is the discovery callback: it re-enters the protocol through \<open>applyPeersTopology\<close>.\<close>

definition gossip_cb :: "(gossip, runtime) discovery_cb" where
  "gossip_cb i h p s = (case s of (g, r) \<Rightarrow>
     let r' = OnPeerDiscovered i h p (r\<lparr>r_proto := Some (PGossip g)\<rparr>)
     in case r_proto r' of Some (PGossip g') \<Rightarrow> (g', r') | _ \<Rightarrow> (g, r'))"

definition baseline_cb :: "(baseline, runtime) discovery_cb" where
  "baseline_cb i h p s = (case s of (b, r) \<Rightarrow>
     let r' = OnPeerDiscovered i h p (r\<lparr>r_proto := Some (PBaseline b)\<rparr>)
     in case r_proto r' of Some (PBaseline b') \<Rightarrow> (b', r') | _ \<Rightarrow> (b, r'))"

definition runtime_tick :: "reactor_input \<Rightarrow> proto \<Rightarrow> runtime \<Rightarrow> runtime \<times> envelope list \<times> string list" where
  "runtime_tick inp p r = (case p of
     PGossip g \<Rightarrow> (case gossip_Tick (in_clock inp) (in_choice inp) g of (g', out) \<Rightarrow> (r\<lparr>r_proto := Some (PGossip g')\<rparr>, out, []))
   | PBaseline b \<Rightarrow> (case baseline_Tick b of (b', out) \<Rightarrow> (r\<lparr>r_proto := Some (PBaseline b')\<rparr>, out, [])))"

definition runtime_message :: "reactor_input \<Rightarrow> envelope \<Rightarrow> proto \<Rightarrow> runtime \<Rightarrow> runtime \<times> envelope list \<times> string list" where
  "runtime_message inp env p r = (case p of
     PGossip g \<Rightarrow> (case gossip_OnMessage (in_clock inp) gossip_cb env (g, r) of
       ((g', r'), out, evs) \<Rightarrow> (r'\<lparr>r_proto := Some (PGossip g')\<rparr>, out, evs))
   | PBaseline b \<Rightarrow> (case baseline_OnMessage baseline_cb env (b, r) of
       ((b', r'), out) \<Rightarrow> (r'\<lparr>r_proto := Some (PBaseline b')\<rparr>, out, [])))"

definition deliver_out :: "reactor_input \<Rightarrow> runtime \<times> envelope list \<times> string list \<Rightarrow> runtime \<times> reactor_output" where
  "deliver_out inp res = (case res of (r, out, evs) \<Rightarrow>
     case send_out (in_net inp) 0 out r of (r', reqs) \<Rightarrow> (r', quiet_output\<lparr>out_requests := reqs, out_log := evs\<rparr>))"

text \<open>One event; \<open>None\<close> is the panic of a method call on a nil protocol.\<close>

definition reactor_step :: "reactor_input \<Rightarrow> runtime_event \<Rightarrow> runtime \<Rightarrow> (runtime \<times> reactor_output) option" where
  "reactor_step inp ev r = (case ev of
     EventTick \<Rightarrow> (case r_proto r of None \<Rightarrow> None | Some p \<Rightarrow> Some (deliver_out inp (runtime_tick inp p r)))
   | EventMessage msg \<Rightarrow> (case r_proto r of None \<Rightarrow> None | Some p \<Rightarrow> Some (deliver_out inp (runtime_message inp msg p r)))
   | EventAction act \<Rightarrow> (case handleActionEvent (in_pb inp) (in_clock inp) act r of
       (r', resp, evs) \<Rightarrow> Some (r', quiet_output\<lparr>out_response := Some resp, out_log := evs\<rparr>))
   | EventProtocolSwap key \<Rightarrow> (case applyProtocolSwap key r of
       (r', err) \<Rightarrow> Some (r', quiet_output\<lparr>out_swap := Some err,
         out_report := (if err = None then Some (key, CheckCapabilities (r_proto r')) else None)\<rparr>)))"

text \<open>The loop takes the oldest event of the channel.\<close>

definition reactor_next :: "reactor_input \<Rightarrow> runtime \<Rightarrow> (runtime \<times> reactor_output) option option" where
  "reactor_next inp r = (case r_events r of [] \<Rightarrow> None | ev # evs \<Rightarrow> Some (reactor_step inp ev (r\<lparr>r_events := evs\<rparr>)))"

lemma factories_eq: "factories = [(''baseline'', PBaseline (NewBaselineProtocol [])), (''gossip'', PGossip NewGossipProtocol)]"
  by (simp add: factories_def Register_def gm_put_def)

lemma Load_factories:
  "Load ''gossip'' factories = Inr (PGossip NewGossipProtocol)"
  "Load ''baseline'' factories = Inr (PBaseline (NewBaselineProtocol []))"
  "key \<noteq> ''gossip'' \<Longrightarrow> key \<noteq> ''baseline'' \<Longrightarrow> Load key factories = Inl (''protocol: not found: '' @ key)"
  by (auto simp: Load_def factories_eq)

section \<open>Fault parameters\<close>

lemma fold_partition_known:
  "IsPartitioned p (fold (\<lambda>i e. if D i then Partition i e else Heal i e) ks e) =
     (if p \<in> set ks then D p else IsPartitioned p e)"
  by (induction ks arbitrary: e) auto

lemma fold_partition_all: "IsPartitioned p (fold Partition ks e) \<longleftrightarrow> p \<in> set ks \<or> IsPartitioned p e"
  by (induction ks arbitrary: e) auto

lemma fold_partition_fields:
  "e_crashed (fold (\<lambda>i e. if D i then Partition i e else Heal i e) ks e) = e_crashed e"
  "e_dropRate (fold (\<lambda>i e. if D i then Partition i e else Heal i e) ks e) = e_dropRate e"
  "e_delayMs (fold (\<lambda>i e. if D i then Partition i e else Heal i e) ks e) = e_delayMs e"
  "e_crashed (fold Partition ks e) = e_crashed e" "e_dropRate (fold Partition ks e) = e_dropRate e"
  "e_delayMs (fold Partition ks e) = e_delayMs e"
  by (induction ks arbitrary: e) auto

lemma fault_params_effect:
  assumes "runtime_SetFaultParams (Some fr) r = (r', err)" "r_fault r = Some e"
  shows "(err \<noteq> None \<longrightarrow> r' = r)
    \<and> (err = None \<longrightarrow> (\<exists>e'. r' = r\<lparr>r_fault := Some e'\<rparr> \<and> e_crashed e' = fr_Crashed fr
         \<and> e_dropRate e' = fr_DropRate fr \<and> e_delayMs e' = fr_DelayMs fr \<and> 0 \<le> fr_DelayMs fr
         \<and> (\<forall>p. IsPartitioned p e' \<longleftrightarrow>
              (p \<in> set (fr_Partition fr) \<and> p \<noteq> [] \<and> p \<noteq> nc_ID (r_config r))
              \<or> (IsPartitioned p e \<and> p \<notin> p_ID ` set (nc_Peers (r_config r))))))"
proof (cases err)
  case None
  let ?des = "gm_mark (filter (\<lambda>i. i \<noteq> [] \<and> i \<noteq> nc_ID (r_config r)) (fr_Partition fr)) []"
  let ?e1 = "SetDelay (fr_DelayMs fr) (SetDropRate (fr_DropRate fr) (if fr_Crashed fr then Crash e else Recover e))"
  let ?e2 = "fold (\<lambda>i e. if map_of ?des i \<noteq> None then Partition i e else Heal i e) (map p_ID (nc_Peers (r_config r))) ?e1"
  let ?e' = "fold Partition (gm_keys ?des) ?e2"
  have des: "map_of ?des p \<noteq> None \<longleftrightarrow> p \<in> set (fr_Partition fr) \<and> p \<noteq> [] \<and> p \<noteq> nc_ID (r_config r)" for p
    by (auto simp: map_of_mark)
  have r': "r' = r\<lparr>r_fault := Some ?e'\<rparr>" and d: "0 \<le> fr_DelayMs fr"
    using assms None by (auto simp: runtime_SetFaultParams_def Let_def split: if_splits)
  have keys: "p \<in> set (gm_keys ?des) \<longleftrightarrow> map_of ?des p \<noteq> None" for p by (simp add: set_gm_keys domIff)
  have "IsPartitioned p ?e' \<longleftrightarrow> (p \<in> set (fr_Partition fr) \<and> p \<noteq> [] \<and> p \<noteq> nc_ID (r_config r))
      \<or> (IsPartitioned p e \<and> p \<notin> p_ID ` set (nc_Peers (r_config r)))" for p
    unfolding fold_partition_all fold_partition_known keys des by (cases "fr_Crashed fr") auto
  moreover have "e_crashed ?e' = fr_Crashed fr" "e_dropRate ?e' = fr_DropRate fr" "e_delayMs ?e' = fr_DelayMs fr"
    by (simp_all add: fold_partition_fields)
  ultimately show ?thesis using r' d None by blast
next
  case (Some x)
  then show ?thesis using assms by (auto simp: runtime_SetFaultParams_def Let_def split: if_splits)
qed

text \<open>
  C18: Fault parameters are applied all or nothing.  A request for another node, with a drop rate
  outside the unit interval or a negative delay leaves the runtime as it was; an accepted one sets
  crash state, drop rate and delay as asked, cuts exactly the requested peers among the configured
  ones, and for a peer outside the configuration only ever adds a cut.
\<close>

theorem fault_params_atomic:
  assumes "runtime_SetFaultParams (Some fr) r = (r', err)" "r_fault r = Some e"
  shows "(err \<noteq> None \<longrightarrow> r' = r)
    \<and> (err = None \<longrightarrow> (\<exists>e'. r' = r\<lparr>r_fault := Some e'\<rparr> \<and> e_crashed e' = fr_Crashed fr
         \<and> e_dropRate e' = fr_DropRate fr \<and> e_delayMs e' = fr_DelayMs fr \<and> 0 \<le> fr_DelayMs fr
         \<and> (\<forall>p. IsPartitioned p e' \<longleftrightarrow>
              (p \<in> set (fr_Partition fr) \<and> p \<noteq> [] \<and> p \<noteq> nc_ID (r_config r))
              \<or> (IsPartitioned p e \<and> p \<notin> p_ID ` set (nc_Peers (r_config r))))))"
  by (rule fault_params_effect [OF assms])

text \<open>A started runtime with two configured peers, for the witnesses.\<close>

definition demo_config :: node_config where
  "demo_config = \<lparr>nc_ID = ''n1'', nc_Port = 8001,
     nc_Peers = [\<lparr>p_ID = ''n2'', p_Host = ''h'', p_Port = 2\<rparr>, \<lparr>p_ID = ''n3'', p_Host = ''h'', p_Port = 3\<rparr>],
     nc_ClusterID = ''c'', nc_Host = ''h1'', nc_ControlPlaneHost = ''cp'', nc_ControlPlanePort = 9000\<rparr>"

definition demo_runtime :: runtime where
  "demo_runtime = fst (applyProtocolSwap ''gossip'' ((runtime_New demo_config (NewNodeSession ''h1'' ''n1'' 8001))
     \<lparr>r_fault := Some NewEngine, r_started := True\<rparr>))"

lemma demo_runtime_simps:
  "r_config demo_runtime = demo_config" "r_fault demo_runtime = Some NewEngine" "r_started demo_runtime = True"
  "r_ns demo_runtime = NewNodeSession ''h1'' ''n1'' 8001"
  "r_proto demo_runtime = Some (PGossip (gossip_Start ''n1'' (gossip_SetLogger (gossip_SetPeerDiscoveryCallback
     (gossip_SetPeers [''n2'', ''n3''] NewGossipProtocol)))))"
  by (simp_all add: demo_runtime_def applyProtocolSwap_def Load_factories runtime_New_def Let_def
      proto_SetPeers_def proto_install_def proto_Start_def demo_config_def)

theorem fault_params_atomic_witness:
  "\<exists>r'. runtime_SetFaultParams (Some \<lparr>fr_NodeId = ''n1'', fr_Crashed = False, fr_DropRate = Fin 0, fr_DelayMs = 5, fr_Partition = [''n2'']\<rparr>)
       demo_runtime = (r', None)
     \<and> (\<exists>e'. r' = demo_runtime\<lparr>r_fault := Some e'\<rparr> \<and> e_delayMs e' = 5 \<and> IsPartitioned ''n2'' e')"
proof -
  let ?fr = "\<lparr>fr_NodeId = ''n1'', fr_Crashed = False, fr_DropRate = Fin 0, fr_DelayMs = 5, fr_Partition = [''n2'']\<rparr>"
  obtain r' err where r: "runtime_SetFaultParams (Some ?fr) demo_runtime = (r', err)" by force
  have none: "err = None"
    using r by (simp add: runtime_SetFaultParams_def demo_runtime_simps demo_config_def Let_def)
  note at = fault_params_atomic [OF r demo_runtime_simps(2)]
  from at none obtain e' where "r' = demo_runtime\<lparr>r_fault := Some e'\<rparr>" "e_delayMs e' = 5"
    "IsPartitioned ''n2'' e' \<longleftrightarrow> (''n2'' \<in> set (fr_Partition ?fr) \<and> ''n2'' \<noteq> [] \<and> ''n2'' \<noteq> nc_ID (r_config demo_runtime))
        \<or> (IsPartitioned ''n2'' NewEngine \<and> ''n2'' \<notin> p_ID ` set (nc_Peers (r_config demo_runtime)))"
    by auto
  then show ?thesis using r none by (auto simp: demo_runtime_simps demo_config_def)
qed

section \<open>Topology\<close>

text \<open>The peers a protocol would gossip with or watch.\<close>

definition proto_peers :: "proto \<Rightarrow> string list" where
  "proto_peers p = (case p of PGossip g \<Rightarrow> g_peers g | PBaseline b \<Rightarrow> b_peers b)"

lemma baseline_SetPeers_peers: "b_peers (baseline_SetPeers ps b) = ps"
proof -
  have "b_peers (fold (\<lambda>p b. if map_of (b_lastSeen b) p = None then init_peer 0 p b else b) qs b') = b_peers b'" for qs b'
    by (induction qs arbitrary: b') (auto simp: init_peer_def)
  then show ?thesis by (simp add: baseline_SetPeers_def)
qed

definition proto_node :: "proto \<Rightarrow> string" where
  "proto_node p = (case p of PGossip g \<Rightarrow> g_nodeID g | PBaseline b \<Rightarrow> b_nodeID b)"

lemma proto_SetPeers_peers:
  assumes "proto_SetPeers ids (Some p) = Some q" "[] \<notin> set ids" "proto_node p \<notin> set ids"
  shows "proto_peers q = ids"
proof (cases p)
  case (PGossip g)
  have "filter (\<lambda>p. p \<noteq> [] \<and> p \<noteq> g_nodeID g) ids = ids"
    using assms PGossip by (auto simp: filter_id_conv proto_node_def)
  then show ?thesis using assms PGossip by (auto simp: proto_SetPeers_def proto_peers_def gossip_SetPeers_def Let_def)
next
  case (PBaseline b)
  then show ?thesis using assms by (auto simp: proto_SetPeers_def proto_peers_def baseline_SetPeers_peers)
qed

lemma dom_session_update:
  "dom (map_of (ns_peers (OnPeersUpdated ps ns))) = pi_ID ` set ps"
proof -
  have "dom (map_of (ns_peers (OnPeersUpdated ps ns))) = dom (map_of (topology ps))"
    by (auto simp: topology_update_lookup dom_def split: option.splits)
  then show ?thesis by (simp add: topology_dom)
qed

text \<open>
  One topology for all layers.  After a topology update the configured peers are the nodes of
  the list other than this one, in order, the session knows exactly those, and the running
  protocol's peer list is the same list.
\<close>

theorem topology_layers_agree:
  assumes "r' = applyPeersTopology peers None r" "r_proto r = Some p" "proto_node p = nc_ID (r_config r)"
    and "[] \<notin> ni_Id ` set peers"
  shows "map p_ID (nc_Peers (r_config r')) = filter (\<lambda>i. i \<noteq> nc_ID (r_config r)) (map ni_Id peers)
    \<and> dom (map_of (ns_peers (r_ns r'))) = p_ID ` set (nc_Peers (r_config r'))
    \<and> (\<exists>q. r_proto r' = Some q \<and> proto_peers q = map p_ID (nc_Peers (r_config r')))"
proof -
  let ?cfg = "config_SetPeers (map Some peers) (r_config r)"
  have mf: "List.map_filter (map_option ni_Id) (map Some peers) = map ni_Id peers"
    by (induction peers) (simp_all add: List.map_filter_def)
  have ids: "map p_ID (nc_Peers ?cfg) = filter (\<lambda>i. i \<noteq> nc_ID (r_config r)) (map ni_Id peers)"
    unfolding SetPeers_ids mf ..
  have cfg: "r_config r' = ?cfg" using assms(1) by (simp add: applyPeersTopology_def Let_def)
  obtain q where q: "proto_SetPeers (map p_ID (nc_Peers ?cfg)) (Some p) = Some q"
    by (cases p) (auto simp: proto_SetPeers_def)
  have "proto_peers q = map p_ID (nc_Peers ?cfg)"
    by (rule proto_SetPeers_peers [OF q]) (use assms(3,4) in \<open>auto simp: ids\<close>)
  moreover have "r_proto r' = Some q" using assms(1,2) q by (simp add: applyPeersTopology_def Let_def)
  moreover have "dom (map_of (ns_peers (r_ns r'))) = p_ID ` set (nc_Peers ?cfg)"
    using assms(1) by (simp add: applyPeersTopology_def Let_def dom_session_update image_image)
  ultimately show ?thesis using ids cfg by simp
qed

theorem topology_layers_agree_witness:
  "map p_ID (nc_Peers (r_config (applyPeersTopology
      [\<lparr>ni_Id = ''n1'', ni_Address = ''h'', ni_Port = 1\<rparr>, \<lparr>ni_Id = ''n4'', ni_Address = ''h'', ni_Port = 4\<rparr>] None demo_runtime))) = [''n4'']"
proof -
  let ?ps = "[\<lparr>ni_Id = ''n1'', ni_Address = ''h'', ni_Port = 1\<rparr>, \<lparr>ni_Id = ''n4'', ni_Address = ''h'', ni_Port = 4\<rparr>]"
  let ?g = "gossip_Start ''n1'' (gossip_SetLogger (gossip_SetPeerDiscoveryCallback (gossip_SetPeers [''n2'', ''n3''] NewGossipProtocol)))"
  have "proto_node (PGossip ?g) = nc_ID (r_config demo_runtime)"
    by (simp add: proto_node_def gossip_Start_def demo_runtime_simps demo_config_def)
  from topology_layers_agree [OF refl demo_runtime_simps(5) this, of ?ps]
  show ?thesis by (simp add: demo_runtime_simps demo_config_def)
qed

section \<open>What leaves the node\<close>

lemma session_ok_set:
  "session_ok ns \<Longrightarrow> ps_id ps = i \<Longrightarrow> session_ok (set_peer i ps ns)"
proof -
  assume ns: "session_ok ns" and ps: "ps_id ps = i"
  have "\<forall>k v. map_of (ns_peers (set_peer i ps ns)) k = Some v \<longrightarrow> ps_id v = k"
    using ps session_okD [OF ns] by (auto simp: set_peer_def)
  moreover have wf: "gm_wf (ns_peers (set_peer i ps ns))" using ns by (simp add: set_peer_def session_ok_def)
  ultimately show ?thesis by (auto simp: session_ok_def list_all_iff map_of_in_set [OF wf])
qed

lemma update_id [simp]: "ps_id (updateSuccess t ps) = ps_id ps" "ps_id (updateFailure ps) = ps_id ps"
  by (simp_all add: updateSuccess_def updateFailure_def Let_def)

lemma Send_session:
  assumes "session_ok ns" "session_Send f d out env ns = (ns', err, reqs)"
  shows "session_ok ns' \<and> dom (map_of (ns_peers ns')) = dom (map_of (ns_peers ns))
    \<and> ns_nodeAddr ns' = ns_nodeAddr ns \<and> ns_nodePort ns' = ns_nodePort ns"
proof (cases "map_of (ns_peers ns) (env_To env)")
  case None
  then show ?thesis using assms by (simp add: session_Send_def)
next
  case (Some ps)
  have ps: "ps_id ps = env_To env" by (rule session_okD [OF assms(1) Some])
  have "ns' = ns \<or> (\<exists>q. ns' = set_peer (env_To env) q ns \<and> ps_id q = env_To env)"
    using assms(2) Some ps by (auto simp: session_Send_def send_rpc_def Let_def split: option.splits if_splits)
  then show ?thesis
  proof (elim disjE exE conjE)
    fix q assume q: "ns' = set_peer (env_To env) q ns" "ps_id q = env_To env"
    have "ns_peers ns' = gm_put (env_To env) q (ns_peers ns)" using q(1) by (simp add: set_peer_def)
    then have "dom (map_of (ns_peers ns')) = insert (env_To env) (dom (map_of (ns_peers ns)))"
      by (simp only: dom_put)
    also have "\<dots> = dom (map_of (ns_peers ns))" using Some by (intro insert_absorb) (simp add: domI)
    finally show ?thesis using session_ok_set [OF assms(1) q(2)] q(1) by (simp add: set_peer_def)
  qed (use assms in simp)
qed

lemma encode_from_cong:
  "ns_nodeAddr ns' = ns_nodeAddr ns \<Longrightarrow> ns_nodePort ns' = ns_nodePort ns \<Longrightarrow> encode_from n ns' = encode_from n ns"
  by (simp add: encode_from_def)

text \<open>A request on the wire for one of the given envelopes, through an open gate.\<close>

definition carries :: "runtime \<Rightarrow> envelope \<Rightarrow> envelope_request \<Rightarrow> bool" where
  "carries r e q \<longleftrightarrow> q = \<lparr>rq_From = encode_from (env_From e) (r_ns r), rq_To = env_To e,
       rq_Protocol = env_Protocol e, rq_Payload = env_Payload e\<rparr>
     \<and> \<not> engine_down (r_fault r) \<and> \<not> engine_cut (r_fault r) (env_To e)"

text \<open>What sending leaves alone: everything but the session, whose peers and address stay.\<close>

definition same_but_health :: "runtime \<Rightarrow> runtime \<Rightarrow> bool" where
  "same_but_health r r' \<longleftrightarrow> r' = r\<lparr>r_ns := r_ns r'\<rparr> \<and> session_ok (r_ns r')
     \<and> dom (map_of (ns_peers (r_ns r'))) = dom (map_of (ns_peers (r_ns r)))
     \<and> ns_nodeAddr (r_ns r') = ns_nodeAddr (r_ns r) \<and> ns_nodePort (r_ns r') = ns_nodePort (r_ns r)"

lemma same_but_health_trans:
  assumes "same_but_health a b" "same_but_health b c"
  shows "same_but_health a c"
proof -
  have "c = b\<lparr>r_ns := r_ns c\<rparr>" "b = a\<lparr>r_ns := r_ns b\<rparr>" using assms by (auto simp: same_but_health_def)
  then have "c = a\<lparr>r_ns := r_ns c\<rparr>" by (metis runtime.surjective runtime.update_convs(2))
  then show ?thesis using assms by (simp add: same_but_health_def)
qed

lemma carries_same: "same_but_health r r' \<Longrightarrow> carries r' e q = carries r e q"
proof -
  assume s: "same_but_health r r'"
  then have "r_fault r' = r_fault r" unfolding same_but_health_def by (metis runtime.ext_inject runtime.surjective runtime.update_convs(2))
  moreover have "encode_from n (r_ns r') = encode_from n (r_ns r)" for n
    using s by (intro encode_from_cong) (auto simp: same_but_health_def)
  ultimately show ?thesis by (simp add: carries_def)
qed

lemma send_to_spec:
  assumes "session_ok (r_ns r)" "send_to net j es r = (r', reqs)"
  shows "same_but_health r r' \<and> (\<forall>q \<in> set reqs. \<exists>e \<in> set es. carries r e q)"
  using assms
proof (induction es arbitrary: j r r' reqs)
  case Nil
  then show ?case by (auto simp: same_but_health_def)
next
  case (Cons e es)
  obtain draw out where n: "net j = (draw, out)" by force
  obtain ns err rq where s: "session_Send (r_fault r) draw out e (r_ns r) = (ns, err, rq)" by (metis prod_cases3)
  obtain r2 rq2 where t: "send_to net (j + 1) es (r\<lparr>r_ns := ns\<rparr>) = (r2, rq2)" by force
  have res: "r' = r2" "reqs = rq @ rq2" using Cons.prems(2) n s t by auto
  have ok: "same_but_health r (r\<lparr>r_ns := ns\<rparr>)"
    using Send_session [OF Cons.prems(1) s] by (simp add: same_but_health_def)
  then have "session_ok (r_ns (r\<lparr>r_ns := ns\<rparr>))" by (simp add: same_but_health_def)
  from Cons.IH [OF this t]
  have IH: "same_but_health (r\<lparr>r_ns := ns\<rparr>) r2" "\<forall>q \<in> set rq2. \<exists>e \<in> set es. carries (r\<lparr>r_ns := ns\<rparr>) e q" by auto
  have "carries r e q" if "q \<in> set rq" for q
    using send_lookup_rule [OF Cons.prems(1) s] that by (cases "rq = []") (auto simp: carries_def)
  then show ?case
    using IH carries_same [OF ok] same_but_health_trans [OF ok IH(1)] res by auto
qed

lemma sendEnvelope_spec:
  assumes "session_ok (r_ns r)" "sendEnvelope net e r = (r', reqs)"
  shows "same_but_health r r' \<and> (\<forall>q \<in> set reqs.
    \<exists>e' \<in> set (if env_To e = [] then map (unicast e) (map p_ID (nc_Peers (r_config r))) else [e]). carries r e' q)"
proof -
  have "send_to net 0 (if env_To e = [] then map (unicast e) (map p_ID (nc_Peers (r_config r))) else [e]) r = (r', reqs)"
    using assms(2) unfolding sendEnvelope_def Let_def by (cases "env_To e = []") (simp_all del: send_to.simps)
  from send_to_spec [OF assms(1) this] show ?thesis .
qed

text \<open>The envelopes a list of emitted ones stands for, with broadcasts expanded over the configuration.\<close>

definition expand :: "runtime \<Rightarrow> envelope list \<Rightarrow> envelope set" where
  "expand r es = (\<Union>e \<in> set es. if env_To e = [] then unicast e ` p_ID ` set (nc_Peers (r_config r)) else {e})"

lemma send_out_spec:
  assumes "session_ok (r_ns r)" "send_out net i es r = (r', reqs)"
  shows "same_but_health r r' \<and> (\<forall>q \<in> set reqs. \<exists>e \<in> expand r es. carries r e q)"
  using assms
proof (induction es arbitrary: i r r' reqs)
  case Nil
  then show ?case by (auto simp: same_but_health_def)
next
  case (Cons e es)
  obtain r1 q1 where a: "sendEnvelope (net i) e r = (r1, q1)" by force
  obtain q2 where b: "send_out net (i + 1) es r1 = (r', q2)" and reqs: "reqs = q1 @ q2"
    using Cons.prems(2) a by (auto split: prod.splits)
  have s1: "same_but_health r r1" and c1: "\<forall>q \<in> set q1. \<exists>e' \<in> expand r [e]. carries r e' q"
    using sendEnvelope_spec [OF Cons.prems(1) a] by (auto simp: expand_def split: if_splits)
  have "session_ok (r_ns r1)" using s1 by (simp add: same_but_health_def)
  from Cons.IH [OF this b] have s2: "same_but_health r1 r'" and c2: "\<forall>q \<in> set q2. \<exists>e' \<in> expand r1 es. carries r1 e' q" by auto
  have cfg: "r_config r1 = r_config r"
    using s1 unfolding same_but_health_def by (metis runtime.ext_inject runtime.surjective runtime.update_convs(2))
  have ex: "expand r1 es = expand r es" by (simp add: expand_def cfg)
  have up: "expand r (e # es) = expand r [e] \<union> expand r es" by (auto simp: expand_def)
  show ?case
    using same_but_health_trans [OF s1 s2] c1 c2 carries_same [OF s1] unfolding reqs up ex by auto
qed

lemma deliver_out_spec:
  assumes "session_ok (r_ns r)" "deliver_out inp (r, es, evs) = (r', o')"
  shows "same_but_health r r' \<and> (\<forall>q \<in> set (out_requests o'). \<exists>e \<in> expand r es. carries r e q)"
  using send_out_spec [OF assms(1), of "in_net inp" 0 es r'] assms(2)
  by (auto simp: deliver_out_def quiet_output_def split: prod.splits)

section \<open>The key-value actions\<close>

text \<open>
  A key written through the control plane reads back.  On a gossip node a put request answers
  success, and a get request for the key handled next answers with the value, the new version and
  this node as the origin, in the encoding of the library.
\<close>

theorem kv_put_get:
  assumes "r_proto r = Some (PGossip g)" "gossip_inv g" "put_room k g"
    and "pb_unmarshal_put (in_pb i1) putb = Some (k, v)" "pb_unmarshal_get (in_pb i2) getb = Some k"
    and "reactor_step i1 (EventAction (Some \<lparr>ar_Action = KV_PUT, ar_Payload = putb\<rparr>)) r = Some (r1, o1)"
    and "reactor_step i2 (EventAction (Some \<lparr>ar_Action = KV_GET, ar_Payload = getb\<rparr>)) r1 = Some (r2, o2)"
    and "pb_marshal_get_response (in_pb i2)
           \<lparr>gr_Value = v, gr_Version = (case map_of (g_store g) k of None \<Rightarrow> 1 | Some old \<Rightarrow> v_Version old + 1),
            gr_Origin = g_nodeID g, gr_HasMetadata = True\<rparr> = Some bytes"
  shows "out_response o1 = Some (success []) \<and> out_response o2 = Some (success bytes) \<and> r2 = r1"
proof -
  obtain g' evs where put: "gossip_Put (in_clock i1) k v g = (g', evs)" by force
  have st: "map_of (g_store g') = (map_of (g_store g))(k \<mapsto> put_value (in_clock i1 0) k v g)"
    using Put_store [of "in_clock i1" k v g] put by simp
  have ver: "v_Version (put_value (in_clock i1 0) k v g) = (case map_of (g_store g) k of None \<Rightarrow> 1 | Some old \<Rightarrow> v_Version old + 1)"
    using assms(3) by (auto simp: put_value_fields put_room_def wrap64_Suc split: option.splits)
  have pos: "0 < v_Version (put_value (in_clock i1 0) k v g)"
    using assms(3) by (auto simp: ver put_room_def split: option.splits)
  have r1: "r1 = r\<lparr>r_proto := Some (PGossip g')\<rparr>" "out_response o1 = Some (success [])"
    using assms(1,4,6) put by (auto simp: reactor_step_def handleActionEvent_def PutAction_def quiet_output_def)
  have "gossip_GetWithMetadata k g' = (v, v_Version (put_value (in_clock i1 0) k v g), g_nodeID g, True)"
    by (simp add: gossip_GetWithMetadata_def st put_value_fields)
  then show ?thesis
    using assms(5,7,8) r1 pos
    by (auto simp: reactor_step_def handleActionEvent_def GetActionWithMetadata_def quiet_output_def ver [symmetric] Let_def)
qed

definition demo_pb :: pb_codec where
  "demo_pb = \<lparr>pb_unmarshal_put = (\<lambda>b. cut_at CHR ''='' b), pb_unmarshal_get = Some,
     pb_marshal_get_response = (\<lambda>resp. Some (gr_Value resp))\<rparr>"

definition demo_input :: reactor_input where
  "demo_input = \<lparr>in_pb = demo_pb, in_clock = (\<lambda>_. 5), in_choice = 0,
     in_net = (\<lambda>_ _. (0, \<lparr>o_cancelled = False, o_dial = True, o_handshake = True, o_rpc = True, o_now = 1\<rparr>))\<rparr>"

definition demo_gossip :: gossip where
  "demo_gossip = gossip_Start ''n1'' (gossip_SetLogger (gossip_SetPeerDiscoveryCallback (gossip_SetPeers [''n2'', ''n3''] NewGossipProtocol)))"

lemma demo_gossip_inv: "gossip_inv demo_gossip" "put_room k demo_gossip"
proof -
  show "gossip_inv demo_gossip"
    using gossip_inv_SetPeers [OF gossip_inv_new, of "[''n2'', ''n3'']"]
    by (simp add: demo_gossip_def gossip_inv_def gossip_Start_def gossip_SetLogger_def gossip_SetPeerDiscoveryCallback_def)
  show "put_room k demo_gossip"
    by (simp add: demo_gossip_def put_room_def gossip_Start_def gossip_SetLogger_def gossip_SetPeerDiscoveryCallback_def
        gossip_SetPeers_def NewGossipProtocol_def Let_def)
qed

lemma action_event: "\<exists>r' o'. reactor_step inp (EventAction a) r = Some (r', o')"
  by (simp add: reactor_step_def split: prod.splits)

theorem kv_put_get_witness:
  "\<exists>r1 o1 r2 o2. reactor_step demo_input (EventAction (Some \<lparr>ar_Action = KV_PUT, ar_Payload = ''k=v''\<rparr>)) demo_runtime = Some (r1, o1)
     \<and> reactor_step demo_input (EventAction (Some \<lparr>ar_Action = KV_GET, ar_Payload = ''k''\<rparr>)) r1 = Some (r2, o2)
     \<and> out_response o2 = Some (success ''v'')"
proof -
  let ?put = "EventAction (Some \<lparr>ar_Action = KV_PUT, ar_Payload = ''k=v''\<rparr>)"
  let ?get = "EventAction (Some \<lparr>ar_Action = KV_GET, ar_Payload = ''k''\<rparr>)"
  obtain r1 o1 where 1: "reactor_step demo_input ?put demo_runtime = Some (r1, o1)" using action_event by blast
  obtain r2 o2 where 2: "reactor_step demo_input ?get r1 = Some (r2, o2)" using action_event by blast
  have "r_proto demo_runtime = Some (PGossip demo_gossip)" by (simp add: demo_runtime_simps demo_gossip_def)
  moreover have "pb_unmarshal_put (in_pb demo_input) ''k=v'' = Some (''k'', ''v'')" "pb_unmarshal_get (in_pb demo_input) ''k'' = Some ''k''"
    by (simp_all add: demo_input_def demo_pb_def cut_at_def)
  moreover have "pb_marshal_get_response (in_pb demo_input) \<lparr>gr_Value = ''v'', gr_Version = x, gr_Origin = y, gr_HasMetadata = True\<rparr> = Some ''v''" for x y
    by (simp add: demo_input_def demo_pb_def)
  ultimately have "out_response o2 = Some (success ''v'')"
    using kv_put_get [OF _ demo_gossip_inv _ _ 1 2] by blast
  then show ?thesis using 1 2 by blast
qed

text \<open>
  A node without a key-value protocol refuses.  On a baseline node, and on a node with no
  protocol yet, every put and get request that decodes answers the unsupported error and
  changes nothing, and the reported capabilities say so; a gossip node reports all three.
\<close>

theorem kv_unsupported:
  assumes "\<nexists>g. r_proto r = Some (PGossip g)"
    and "pb_unmarshal_put pb b = Some (k, v)" "pb_unmarshal_get pb b' = Some k'"
  shows "handleActionEvent pb c (Some \<lparr>ar_Action = KV_PUT, ar_Payload = b\<rparr>) r = (r, fail ''kv_write not supported by protocol'', [])
    \<and> handleActionEvent pb c (Some \<lparr>ar_Action = KV_GET, ar_Payload = b'\<rparr>) r = (r, fail ''kv_read not supported by protocol'', [])
    \<and> CheckCapabilities (r_proto r) = \<lparr>cap_KVPut = False, cap_KVGet = False, cap_KVDelete = False\<rparr>
    \<and> CheckCapabilities (Some (PGossip g)) = \<lparr>cap_KVPut = True, cap_KVGet = True, cap_KVDelete = True\<rparr>"
  using assms
  by (auto simp: handleActionEvent_def PutAction_def GetActionWithMetadata_def GetAction_def DeleteAction_def
      CheckCapabilities_def split: option.splits proto.splits)

theorem kv_unsupported_witness:
  "handleActionEvent demo_pb (\<lambda>_. 0) (Some \<lparr>ar_Action = KV_PUT, ar_Payload = ''k=v''\<rparr>) (demo_runtime\<lparr>r_proto := None\<rparr>)
     = (demo_runtime\<lparr>r_proto := None\<rparr>, fail ''kv_write not supported by protocol'', [])"
proof -
  let ?r = "demo_runtime\<lparr>r_proto := None\<rparr>"
  have "pb_unmarshal_put demo_pb ''k=v'' = Some (''k'', ''v'')" "pb_unmarshal_get demo_pb ''k'' = Some ''k''"
    by (simp_all add: demo_pb_def cut_at_def)
  from kv_unsupported [OF _ this, of ?r] show ?thesis by simp
qed

end
