(* ===== verification/NodeServer.thy ===== *)
theory NodeServer
  imports Runtime
begin

text \<open>
  The gRPC handlers of a node (\<open>internal/node/server.go\<close>).  \<open>Ping\<close>, \<open>Handshake\<close>, \<open>SendEnvelope\<close>,
  \<open>ExecuteAction\<close> and \<open>ChangeProtocol\<close> pass the fault gate first; \<open>StopNode\<close> and \<open>SetFaultParams\<close>, through
  which the control plane ends and recovers a crashed node, do not.  A result \<open>Inl\<close> is a gRPC status error; the others are the
  response messages.  The theorems follow a crash and a partition through all layers: handlers,
  reactor, session, driver and heartbeat.
\<close>

section \<open>Handlers\<close>

record ack =
  ack_Success :: bool
  ack_Message :: string

definition server_Ping :: "runtime \<Rightarrow> string + string" where
  "server_Ping r = (if \<not> td_Allow (runtime_BeforeTick r) then Inl ''node is crashed'' else Inr ''Pong'')"

definition server_Handshake :: "handshake_request option \<Rightarrow> runtime \<Rightarrow> string + ack" where
  "server_Handshake req r =
     (if \<not> td_Allow (runtime_BeforeTick r) then Inl ''node is crashed''
      else case req of
        None \<Rightarrow> Inr \<lparr>ack_Success = False, ack_Message = ''handshake request is nil''\<rparr>
      | Some h \<Rightarrow>
          if hs_NodeId h = [] then Inr \<lparr>ack_Success = False, ack_Message = ''node_id is required''\<rparr>
          else if hs_Addr h = [] then Inr \<lparr>ack_Success = False, ack_Message = ''addr is required''\<rparr>
          else if hs_Port h \<le> 0 then Inr \<lparr>ack_Success = False, ack_Message = ''port must be > 0''\<rparr>
          else Inr \<lparr>ack_Success = True, ack_Message = ''handshake successful''\<rparr>)"

definition server_StopNode :: "runtime \<Rightarrow> runtime" where
  "server_StopNode r = runtime_Stop r"

definition server_SendEnvelope :: "envelope_request option \<Rightarrow> runtime \<Rightarrow> runtime \<times> (string + ack)" where
  "server_SendEnvelope req r =
     (if \<not> td_Allow (runtime_BeforeTick r) then (r, Inl ''node is crashed'')
      else case req of
        None \<Rightarrow> (r, Inr \<lparr>ack_Success = False, ack_Message = ''nil envelope''\<rparr>)
      | Some q \<Rightarrow>
          let sender = (case cut_at CHR ''@'' (rq_From q) of Some (s, _) \<Rightarrow> s | None \<Rightarrow> rq_From q) in
          if \<not> rd_Allow (runtime_BeforeReceive sender r) then (r, Inl ''partitioned'')
          else (HandleEnvelope q r, Inr \<lparr>ack_Success = True, ack_Message = ''delivered''\<rparr>))"

datatype fault_reply = FaultNilRequest | FaultRejected fault_error | FaultApplied

definition server_SetFaultParams :: "fault_request option \<Rightarrow> runtime \<Rightarrow> runtime \<times> fault_reply" where
  "server_SetFaultParams req r = (case req of
     None \<Rightarrow> (r, FaultNilRequest)
   | Some _ \<Rightarrow> (case runtime_SetFaultParams req r of
       (r', Some e) \<Rightarrow> (r', FaultRejected e)
     | (r', None) \<Rightarrow> (r', FaultApplied)))"

text \<open>A queued action has no reply yet: \<open>Inr None\<close>.\<close>

definition server_ExecuteAction :: "action_request option \<Rightarrow> runtime \<Rightarrow> runtime \<times> (string + action_response option)" where
  "server_ExecuteAction req r =
     (if \<not> td_Allow (runtime_BeforeTick r) then (r, Inl ''node is crashed'')
      else case req of
        None \<Rightarrow> (r, Inr (Some (fail ''nil action request'')))
      | Some _ \<Rightarrow> (case ExecuteAction req r of (r', resp) \<Rightarrow> (r', Inr resp)))"

record change_reply =
  cr_Done :: bool
  cr_Active :: "string option"
  cr_Message :: string

text \<open>
  The request's assignment is the key of \<open>assigned_protocol\<close>, \<open>None\<close> when it is nil.  \<open>ProtocolSwap\<close>
  waits for the reactor's answer, the argument \<open>answer\<close>.
\<close>

definition server_ChangeProtocol :: "string option option \<Rightarrow> string option \<Rightarrow> runtime \<Rightarrow> runtime \<times> (string + change_reply)" where
  "server_ChangeProtocol req answer r =
     (if \<not> td_Allow (runtime_BeforeTick r) then (r, Inl ''node is crashed'')
      else case req of
        None \<Rightarrow> (r, Inr \<lparr>cr_Done = False, cr_Active = None, cr_Message = ''nil change protocol request''\<rparr>)
      | Some None \<Rightarrow> (r, Inr \<lparr>cr_Done = False, cr_Active = None, cr_Message = ''assigned_protocol is required''\<rparr>)
      | Some (Some key) \<Rightarrow>
          if key = [] then (r, Inr \<lparr>cr_Done = False, cr_Active = None, cr_Message = ''assigned_protocol.key is required''\<rparr>)
          else case answer of
            Some err \<Rightarrow> (SendProtocolSwapEvent key r, Inr \<lparr>cr_Done = False, cr_Active = Some key, cr_Message = err\<rparr>)
          | None \<Rightarrow> (SendProtocolSwapEvent key r, Inr \<lparr>cr_Done = True, cr_Active = Some key, cr_Message = ''protocol change acknowledged''\<rparr>))"

section \<open>Gates\<close>

lemma runtime_tick_gate: "td_Allow (runtime_BeforeTick r) \<longleftrightarrow> \<not> engine_down (r_fault r)"
  using fe.tick_gate [of "r_fault r"] by (auto simp: runtime_BeforeTick_def engine_down_def)

lemma runtime_receive_gate:
  "rd_Allow (runtime_BeforeReceive s r) \<longleftrightarrow> \<not> engine_down (r_fault r) \<and> \<not> engine_cut (r_fault r) s"
  using fe.receive_gate [of "r_fault r" s] by (auto simp: runtime_BeforeReceive_def engine_down_def engine_cut_def)

text \<open>The protocol part of an event keeps the session sound and the fault engine untouched.\<close>

lemma OnPeersUpdated_ok:
  assumes "session_ok ns"
  shows "session_ok (OnPeersUpdated ps ns)"
proof -
  have wf: "gm_wf (ns_peers (OnPeersUpdated ps ns))"
    using assms by (simp add: OnPeersUpdated_def Let_def session_ok_def fold_update_wf)
  have "ps_id v = k" if "map_of (ns_peers (OnPeersUpdated ps ns)) k = Some v" for k v
    using that session_okD [OF assms, of k] topology_id [of ps k]
    by (auto simp: topology_update_lookup fresh_peer_def split: option.splits if_splits)
  then show ?thesis using wf by (auto simp: session_ok_def list_all_iff map_of_in_set [OF wf])
qed

definition runtime_ok :: "runtime \<Rightarrow> bool" where
  "runtime_ok r \<longleftrightarrow> session_ok (r_ns r) \<and> (\<forall>p. r_proto r = Some p \<longrightarrow> proto_node p = nc_ID (r_config r))"

lemma proto_SetPeers_node: "proto_SetPeers ids (Some p) = Some q \<Longrightarrow> proto_node q = proto_node p"
  by (cases p) (auto simp: proto_SetPeers_def proto_node_def SetPeers_node gossip_SetPeers_def Let_def)

text \<open>What a discovery does to the runtime around the protocol.\<close>

lemma OnPeerDiscovered_ok:
  assumes "session_ok (r_ns r)" "r_proto r = Some p"
  shows "session_ok (r_ns (OnPeerDiscovered i h port r)) \<and> r_fault (OnPeerDiscovered i h port r) = r_fault r
    \<and> nc_ID (r_config (OnPeerDiscovered i h port r)) = nc_ID (r_config r)
    \<and> (\<exists>q. r_proto (OnPeerDiscovered i h port r) = Some q \<and> proto_node q = proto_node p
         \<and> ((\<exists>g. p = PGossip g) \<longrightarrow> (\<exists>g. q = PGossip g)) \<and> ((\<exists>b. p = PBaseline b) \<longrightarrow> (\<exists>b. q = PBaseline b)))"
proof -
  have "\<exists>q. proto_SetPeers ids (Some p) = Some q \<and> proto_node q = proto_node p
      \<and> ((\<exists>g. p = PGossip g) \<longrightarrow> (\<exists>g. q = PGossip g)) \<and> ((\<exists>b. p = PBaseline b) \<longrightarrow> (\<exists>b. q = PBaseline b))" for ids
    using proto_SetPeers_node [of ids p] by (cases p) (auto simp: proto_SetPeers_def)
  then show ?thesis
    using assms OnPeersUpdated_ok by (auto simp: OnPeerDiscovered_def applyPeersTopology_def Let_def)
qed

text \<open>Handling an event keeps faults, identity and the session's address.\<close>

definition keeps :: "runtime \<Rightarrow> runtime \<Rightarrow> bool" where
  "keeps r r' \<longleftrightarrow> session_ok (r_ns r') \<and> r_fault r' = r_fault r \<and> nc_ID (r_config r') = nc_ID (r_config r)
     \<and> ns_nodeAddr (r_ns r') = ns_nodeAddr (r_ns r) \<and> ns_nodePort (r_ns r') = ns_nodePort (r_ns r)"

lemma keeps_refl: "session_ok (r_ns r) \<Longrightarrow> keeps r r"
  by (simp add: keeps_def)

lemma keeps_proto [simp]: "keeps r (r'\<lparr>r_proto := p\<rparr>) = keeps r r'" "keeps (r\<lparr>r_proto := p\<rparr>) r' = keeps r r'"
  by (simp_all add: keeps_def)

lemma OnPeersUpdated_addr:
  "ns_nodeAddr (OnPeersUpdated ps ns) = ns_nodeAddr ns" "ns_nodePort (OnPeersUpdated ps ns) = ns_nodePort ns"
  by (simp_all add: OnPeersUpdated_def Let_def)

lemma OnPeerDiscovered_keeps: "session_ok (r_ns r) \<Longrightarrow> keeps r (OnPeerDiscovered i h port r)"
  by (simp add: keeps_def OnPeerDiscovered_def applyPeersTopology_def Let_def OnPeersUpdated_ok OnPeersUpdated_addr)

lemma gossip_cb_keeps:
  assumes "session_ok (r_ns r)" "gossip_cb i h port (g, r) = (g', r')"
  shows "keeps r r' \<and> g_nodeID g' = g_nodeID g"
proof -
  let ?r = "r\<lparr>r_proto := Some (PGossip g)\<rparr>"
  have k: "keeps r (OnPeerDiscovered i h port ?r)" using OnPeerDiscovered_keeps [of ?r i h port] assms(1) by simp
  obtain g2 where "r_proto (OnPeerDiscovered i h port ?r) = Some (PGossip g2)" "g_nodeID g2 = g_nodeID g"
    using OnPeerDiscovered_ok [of ?r "PGossip g" i h port] assms(1) by (auto simp: proto_node_def)
  then show ?thesis using assms(2) k by (auto simp: gossip_cb_def Let_def)
qed

lemma baseline_cb_keeps:
  assumes "session_ok (r_ns r)" "baseline_cb i h port (b, r) = (b', r')"
  shows "keeps r r' \<and> b_nodeID b' = b_nodeID b"
proof -
  let ?r = "r\<lparr>r_proto := Some (PBaseline b)\<rparr>"
  have k: "keeps r (OnPeerDiscovered i h port ?r)" using OnPeerDiscovered_keeps [of ?r i h port] assms(1) by simp
  obtain b2 where "r_proto (OnPeerDiscovered i h port ?r) = Some (PBaseline b2)" "b_nodeID b2 = b_nodeID b"
    using OnPeerDiscovered_ok [of ?r "PBaseline b" i h port] assms(1) by (auto simp: proto_node_def)
  then show ?thesis using assms(2) k by (auto simp: baseline_cb_def Let_def)
qed

lemma discover_keeps:
  assumes "session_ok (r_ns r)" "gossip_discover gossip_cb i h port (g, r) = (g', r')"
  shows "keeps r r' \<and> g_nodeID g' = g_nodeID g"
  using assms gossip_cb_keeps [OF assms(1), of i h port "g\<lparr>g_peers := g_peers g @ [i]\<rparr>" g' r'] keeps_refl [OF assms(1)]
  by (auto simp: gossip_discover_def Let_def split: if_splits)

lemma handleDigest_from: "e \<in> set (handleDigest c from m g) \<Longrightarrow> env_From e = g_nodeID g"
  by (auto simp: handleDigest_def Let_def gossip_envelope_def split: if_splits)

lemma gossip_message_keeps:
  assumes "session_ok (r_ns r)" "gossip_OnMessage c gossip_cb env (g, r) = ((g', r'), out, evs)"
  shows "keeps r r' \<and> g_nodeID g' = g_nodeID g \<and> (\<forall>e \<in> set out. env_From e = g_nodeID g)"
proof -
  obtain i h port where a: "parseSenderAddress (env_From env) = (i, h, port)" by (metis prod_cases3)
  obtain g1 r1 where d: "gossip_discover gossip_cb (if i = [] then env_From env else i) h port (g, r) = (g1, r1)" by force
  note k = discover_keeps [OF assms(1) d]
  have hs: "handleState c m g1 = (x, y) \<Longrightarrow> g_nodeID x = g_nodeID g1" for m x y
    using handleState_fields(1) [of c m g1] by simp
  show ?thesis
    using assms(2) a d k handleDigest_from
    by (auto simp: gossip_OnMessage_def Let_def split: option.splits if_splits prod.splits dest!: hs)
qed

lemma baseline_message_keeps:
  assumes "session_ok (r_ns r)" "baseline_OnMessage baseline_cb env (b, r) = ((b', r'), out)"
  shows "keeps r r' \<and> b_nodeID b' = b_nodeID b \<and> (\<forall>e \<in> set out. env_From e = b_nodeID b)"
proof -
  obtain fr h port where a: "baseline_sender (env_From env) = (fr, h, port)" by (metis prod_cases3)
  let ?b1 = "init_peer (b_tick b) fr (b\<lparr>b_peers := b_peers b @ [fr]\<rparr>)"
  obtain b2 r2 where cb: "baseline_cb fr h port (?b1, r) = (b2, r2)" by force
  have k: "keeps r r2" "b_nodeID b2 = b_nodeID b"
    using baseline_cb_keeps [OF assms(1) cb] by (auto simp: init_peer_def)
  show ?thesis
    using assms(2) a cb k keeps_refl [OF assms(1)]
    by (auto simp: baseline_OnMessage_def Let_def init_peer_def set_status_def makeMembershipEnvelope_def
        split: option.splits if_splits prod.splits)
qed

lemma runtime_message_keeps:
  assumes "session_ok (r_ns r)" "runtime_message inp env p r = (r', out, evs)"
  shows "keeps r r' \<and> (\<exists>q. r_proto r' = Some q \<and> proto_node q = proto_node p) \<and> (\<forall>e \<in> set out. env_From e = proto_node p)"
proof (cases p)
  case (PGossip g)
  obtain g2 r2 out2 evs2 where m: "gossip_OnMessage (in_clock inp) gossip_cb env (g, r) = ((g2, r2), out2, evs2)"
    by (metis prod.collapse)
  show ?thesis using gossip_message_keeps [OF assms(1) m] assms(2) m PGossip by (auto simp: runtime_message_def proto_node_def)
next
  case (PBaseline b)
  obtain b2 r2 out2 where m: "baseline_OnMessage baseline_cb env (b, r) = ((b2, r2), out2)" by (metis prod.collapse)
  show ?thesis using baseline_message_keeps [OF assms(1) m] assms(2) m PBaseline by (auto simp: runtime_message_def proto_node_def)
qed

lemma runtime_tick_keeps:
  assumes "session_ok (r_ns r)" "runtime_tick inp p r = (r', out, evs)"
  shows "keeps r r' \<and> (\<exists>q. r_proto r' = Some q \<and> proto_node q = proto_node p) \<and> (\<forall>e \<in> set out. env_From e = proto_node p)"
proof (cases p)
  case (PGossip g)
  show ?thesis
    using assms keeps_refl [OF assms(1)] PGossip gp.tick_node [of "(in_clock inp, in_choice inp)" g]
      gp.tick_out [of _ "(in_clock inp, in_choice inp)" g]
    by (auto simp: runtime_tick_def proto_node_def split: prod.splits)
next
  case (PBaseline b)
  show ?thesis
    using assms keeps_refl [OF assms(1)] PBaseline bp.tick_node [of b] bp.tick_out [of _ b]
    by (auto simp: runtime_tick_def proto_node_def split: prod.splits)
qed

lemma expand_from: "\<forall>e \<in> set es. env_From e = n \<Longrightarrow> e \<in> expand r es \<Longrightarrow> env_From e = n"
  by (auto simp: expand_def unicast_def split: if_splits)

text \<open>Every request an event sends passed the gate and carries the node's identity.\<close>

lemma reactor_requests:
  assumes "runtime_ok r" "reactor_step inp ev r = Some (r', o')" "q \<in> set (out_requests o')"
  shows "\<not> engine_down (r_fault r) \<and> \<not> engine_cut (r_fault r) (rq_To q)
    \<and> rq_From q = encode_from (nc_ID (r_config r)) (r_ns r)"
proof -
  have ok: "session_ok (r_ns r)" using assms(1) by (simp add: runtime_ok_def)
  have main: "?thesis" if p: "r_proto r = Some p" and k: "keeps r r1" "\<forall>e \<in> set es. env_From e = proto_node p"
    and d: "deliver_out inp (r1, es, evs) = (r', o')" for p r1 es evs
  proof -
    have "session_ok (r_ns r1)" using k(1) by (simp add: keeps_def)
    from deliver_out_spec [OF this d] assms(3) obtain e where e: "e \<in> expand r1 es" "carries r1 e q" by blast
    have "env_From e = nc_ID (r_config r)"
      using expand_from [OF k(2) e(1)] assms(1) p by (simp add: runtime_ok_def)
    moreover have "encode_from n (r_ns r1) = encode_from n (r_ns r)" for n
      using k(1) by (intro encode_from_cong) (auto simp: keeps_def)
    ultimately show ?thesis using e(2) k(1) by (auto simp: carries_def keeps_def)
  qed
  show ?thesis
  proof (cases ev)
    case EventTick
    then obtain p where p: "r_proto r = Some p" "deliver_out inp (runtime_tick inp p r) = (r', o')"
      using assms(2) by (auto simp: reactor_step_def split: option.splits)
    obtain r1 es evs where t: "runtime_tick inp p r = (r1, es, evs)" by (metis prod_cases3)
    show ?thesis using main [OF p(1)] runtime_tick_keeps [OF ok t] p(2) t by auto
  next
    case (EventMessage msg)
    then obtain p where p: "r_proto r = Some p" "deliver_out inp (runtime_message inp msg p r) = (r', o')"
      using assms(2) by (auto simp: reactor_step_def split: option.splits)
    obtain r1 es evs where t: "runtime_message inp msg p r = (r1, es, evs)" by (metis prod_cases3)
    show ?thesis using main [OF p(1)] runtime_message_keeps [OF ok t] p(2) t by auto
  next
    case (EventAction a)
    then show ?thesis using assms(2,3) by (auto simp: reactor_step_def quiet_output_def split: prod.splits)
  next
    case (EventProtocolSwap k)
    then show ?thesis using assms(2,3) by (auto simp: reactor_step_def quiet_output_def split: prod.splits)
  qed
qed

section \<open>Crash and partition through all layers\<close>

text \<open>Fault parameters reach a crashed node too.\<close>

lemma fault_params_ungated:
  assumes "r_fault r = Some e" "fr_NodeId fr = [] \<or> fr_NodeId fr = nc_ID (r_config r)" "0 \<le> fr_DelayMs fr"
    and "\<not> f64_lt (fr_DropRate fr) (Fin 0)" "\<not> f64_lt (Fin 1) (fr_DropRate fr)"
  shows "\<exists>r'. server_SetFaultParams (Some fr) r = (r', FaultApplied) \<and> (engine_down (r_fault r') \<longleftrightarrow> fr_Crashed fr)"
proof -
  obtain r' err where s: "runtime_SetFaultParams (Some fr) r = (r', err)" by force
  have "err = None" using s assms by (auto simp: runtime_SetFaultParams_def Let_def)
  then show ?thesis
    using s fault_params_effect [OF s assms(1)] by (auto simp: server_SetFaultParams_def engine_down_def IsCrashed_def)
qed

text \<open>
  C15: A crashed node is isolated.  While the engine is crashed, the five gated calls (\<open>Ping\<close>, \<open>Handshake\<close>,
  \<open>SendEnvelope\<close>, \<open>ExecuteAction\<close>, \<open>ChangeProtocol\<close>) are refused with an error and leave the runtime as it was,
  the driver produces no tick, the probe loop sends no ping and changes nothing, the control plane
  gets no heartbeat, no event still in the queue makes an envelope leave the node, and no handshake
  leaves it either.  The two calls that are not gated keep working: \<open>StopNode\<close> stops a started
  runtime, and valid fault parameters are applied, after which the node is crashed exactly when they say so.
  Log lines and capability reports to the control plane are not covered: they are not gated.
\<close>

theorem crash_isolates:
  assumes "runtime_ok r" "engine_down (r_fault r)"
  shows "server_SendEnvelope rq r = (r, Inl ''node is crashed'') \<and> server_ExecuteAction act r = (r, Inl ''node is crashed'')
    \<and> server_ChangeProtocol ch ans r = (r, Inl ''node is crashed'') \<and> server_Ping r = Inl ''node is crashed''
    \<and> server_Handshake hs r = Inl ''node is crashed''
    \<and> driver_tick st r = Some [] \<and> probe_tick (r_fault r) can outs (r_ns r) = Some (r_ns r, [])
    \<and> sendHeartbeatToControlPlane beat r cp = (cp, None)
    \<and> (\<forall>inp ev r' o'. reactor_step inp ev r = Some (r', o') \<longrightarrow> out_requests o' = [])
    \<and> send_handshakes (r_fault r) draw out env (r_ns r) = [] \<and> probe_handshakes (r_fault r) outs (r_ns r) = []
    \<and> server_StopNode r = r\<lparr>r_stopped := r_started r\<rparr>
    \<and> ((fr_NodeId fr = [] \<or> fr_NodeId fr = nc_ID (r_config r)) \<and> 0 \<le> fr_DelayMs fr
         \<and> \<not> f64_lt (fr_DropRate fr) (Fin 0) \<and> \<not> f64_lt (Fin 1) (fr_DropRate fr) \<longrightarrow>
         (\<exists>r'. server_SetFaultParams (Some fr) r = (r', FaultApplied) \<and> (engine_down (r_fault r') \<longleftrightarrow> fr_Crashed fr)))"
proof -
  have gate: "\<not> td_Allow (runtime_BeforeTick r)" using assms(2) by (simp add: runtime_tick_gate)
  obtain e where e: "r_fault r = Some e" using assms(2) by (auto simp: engine_down_def split: option.splits)
  then have pt: "probe_tick (r_fault r) can outs (r_ns r) = Some (r_ns r, [])"
    using fe.tick_gate [of "r_fault r"] assms(2) by (auto simp: probe_tick_def Let_def)
  have rs: "out_requests o' = []" if "reactor_step inp ev r = Some (r', o')" for inp ev r' o'
    using reactor_requests [OF assms(1) that] assms(2) by (cases "out_requests o'") auto
  have ok: "session_ok (r_ns r)" using assms(1) by (simp add: runtime_ok_def)
  have none: "xs = []" if "\<And>p h. (p, h) \<notin> set xs" for xs :: "(string \<times> handshake_request) list"
    using that by (cases xs) force+
  have sh: "send_handshakes (r_fault r) draw out env (r_ns r) = []"
    using send_handshake_gate [OF ok] assms(2) by (intro none) blast
  have ph: "probe_handshakes (r_fault r) outs (r_ns r) = []"
    using probe_handshake_gate assms(2) by (intro none) blast
  note fp = fault_params_ungated [OF e, of fr]
  show ?thesis
    using rs sh ph fp pt unfolding server_StopNode_def runtime_Stop_def
    by (intro conjI) (simp_all add: gate server_SendEnvelope_def server_ExecuteAction_def server_ChangeProtocol_def
        server_Ping_def server_Handshake_def driver_tick_def sendHeartbeatToControlPlane_def)
qed

lemma demo_runtime_ok: "runtime_ok demo_runtime"
  by (simp add: runtime_ok_def demo_runtime_simps session_ok_def NewNodeSession_def proto_node_def gossip_Start_def demo_config_def)

theorem crash_isolates_witness:
  "server_SendEnvelope None (demo_runtime\<lparr>r_fault := Some (Crash NewEngine)\<rparr>) =
     (demo_runtime\<lparr>r_fault := Some (Crash NewEngine)\<rparr>, Inl ''node is crashed'')"
proof -
  have "runtime_ok (demo_runtime\<lparr>r_fault := Some (Crash NewEngine)\<rparr>)" using demo_runtime_ok by (simp add: runtime_ok_def)
  then show ?thesis using crash_isolates by (simp add: engine_down_def IsCrashed_def)
qed

text \<open>
  C16: A partition holds in both directions, at a node that is not crashed.  While a peer is cut off, an
  envelope whose sender field names it is refused and changes nothing, no event sends it an envelope,
  a probe round neither pings it nor changes what the session knows of it, and no handshake goes to
  it.  An envelope from a sender that is not cut off is queued exactly once, at the end of
  the queue, with sender, receiver, protocol and payload unchanged, and nothing else changes.
\<close>

theorem partition_blocks_both_ways:
  assumes "runtime_ok r" "\<not> engine_down (r_fault r)"
  shows "(engine_cut (r_fault r) (fst (parseSenderAddress (rq_From q))) \<longrightarrow> server_SendEnvelope (Some q) r = (r, Inl ''partitioned''))
    \<and> (\<not> engine_cut (r_fault r) (fst (parseSenderAddress (rq_From q))) \<longrightarrow>
         server_SendEnvelope (Some q) r =
           (r\<lparr>r_events := r_events r @ [EventMessage \<lparr>env_From = rq_From q, env_To = rq_To q, env_Protocol = rq_Protocol q,
                env_Payload = rq_Payload q, env_Kind = KindProtocol, env_TraceMetadata = [], env_Version = 0, env_LogicalTick = 0\<rparr>]\<rparr>,
            Inr \<lparr>ack_Success = True, ack_Message = ''delivered''\<rparr>))
    \<and> (\<forall>inp ev r' o' x. reactor_step inp ev r = Some (r', o') \<and> x \<in> set (out_requests o') \<longrightarrow> \<not> engine_cut (r_fault r) (rq_To x))
    \<and> (\<forall>can outs ns' pinged p. probe_tick (r_fault r) can outs (r_ns r) = Some (ns', pinged) \<and> engine_cut (r_fault r) p \<longrightarrow>
         p \<notin> set pinged \<and> map_of (ns_peers ns') p = map_of (ns_peers (r_ns r)) p)
    \<and> (\<forall>draw out env p h. (p, h) \<in> set (send_handshakes (r_fault r) draw out env (r_ns r)) \<longrightarrow> \<not> engine_cut (r_fault r) p)
    \<and> (\<forall>outs p h. (p, h) \<in> set (probe_handshakes (r_fault r) outs (r_ns r)) \<longrightarrow> \<not> engine_cut (r_fault r) p)"
proof -
  let ?s = "fst (parseSenderAddress (rq_From q))"
  have sender: "(case cut_at CHR ''@'' (rq_From q) of Some (s, _) \<Rightarrow> s | None \<Rightarrow> rq_From q) = ?s"
    by (auto simp: parseSenderAddress_def split: option.splits sum.splits prod.splits)
  have gate: "td_Allow (runtime_BeforeTick r)" using assms(2) by (simp add: runtime_tick_gate)
  have ok: "session_ok (r_ns r)" using assms(1) by (simp add: runtime_ok_def)
  have recv: "server_SendEnvelope (Some q) r = (if engine_cut (r_fault r) ?s then (r, Inl ''partitioned'')
      else (HandleEnvelope q r, Inr \<lparr>ack_Success = True, ack_Message = ''delivered''\<rparr>))"
    using assms(2) gate sender by (simp add: server_SendEnvelope_def Let_def runtime_receive_gate)
  show ?thesis
    using recv reactor_requests [OF assms(1)] probe_tick_cut [OF ok] send_handshake_gate [OF ok] probe_handshake_gate
    unfolding HandleEnvelope_def Let_def by (intro conjI) (simp_all, blast+)
qed

theorem partition_blocks_both_ways_witness:
  "server_SendEnvelope (Some \<lparr>rq_From = ''n2@h:2'', rq_To = ''n1'', rq_Protocol = ''gossip'', rq_Payload = Raw ''x''\<rparr>)
       (demo_runtime\<lparr>r_fault := Some (Partition ''n2'' NewEngine)\<rparr>)
     = (demo_runtime\<lparr>r_fault := Some (Partition ''n2'' NewEngine)\<rparr>, Inl ''partitioned'')"
proof -
  let ?r = "demo_runtime\<lparr>r_fault := Some (Partition ''n2'' NewEngine)\<rparr>"
  let ?q = "\<lparr>rq_From = ''n2@h:2'', rq_To = ''n1'', rq_Protocol = ''gossip'', rq_Payload = Raw ''x''\<rparr>"
  have "runtime_ok ?r" using demo_runtime_ok by (simp add: runtime_ok_def)
  moreover have "\<not> engine_down (r_fault ?r)" by (simp add: engine_down_def IsCrashed_def NewEngine_def)
  moreover have "engine_cut (r_fault ?r) (fst (parseSenderAddress (rq_From ?q)))"
    by (simp add: engine_cut_def parseSenderAddress_def cut_at_def cut_last_def atoi_def parse_int_def split_sign_def
        parse_uint_def digit_val_def)
  ultimately show ?thesis using partition_blocks_both_ways by blast
qed

text \<open>
  Requests carry the node's identity: whatever event is handled, every envelope request that
  leaves the node has a sender field from which both protocols read back this node's name, host
  and port.
\<close>

theorem requests_carry_identity:
  assumes "runtime_ok r" "reactor_step inp ev r = Some (r', o')" "q \<in> set (out_requests o')"
    and "CHR ''@'' \<notin> set (nc_ID (r_config r))" "i64_min \<le> ns_nodePort (r_ns r)" "ns_nodePort (r_ns r) \<le> i64_max"
  shows "parseSenderAddress (rq_From q) = (nc_ID (r_config r), ns_nodeAddr (r_ns r), ns_nodePort (r_ns r))
    \<and> baseline_sender (rq_From q) = (nc_ID (r_config r), ns_nodeAddr (r_ns r), ns_nodePort (r_ns r))"
  using reactor_requests [OF assms(1-3)] encode_decode [OF assms(4-6)] by simp

definition tick_runtime :: runtime where
  "tick_runtime = demo_runtime\<lparr>r_ns := demo_session, r_proto := Some (PGossip (demo_gossip\<lparr>g_tick := 2\<rparr>))\<rparr>"

lemma tick_runtime_ok: "runtime_ok tick_runtime"
  by (simp add: runtime_ok_def tick_runtime_def session_ok_def demo_session_peers fresh_peer_def proto_node_def
      demo_gossip_def gossip_Start_def demo_runtime_simps demo_config_def)

lemma demo_session_addr: "ns_nodeAddr demo_session = ''h1''" "ns_nodePort demo_session = 8001" "ns_nodeID demo_session = ''n1''"
  by (simp_all add: demo_session_def OnPeersUpdated_def Let_def NewNodeSession_def)

lemma tick_runtime_sends: "\<exists>r' o' q. reactor_step demo_input EventTick tick_runtime = Some (r', o') \<and> q \<in> set (out_requests o')"
proof -
  let ?g = "demo_gossip\<lparr>g_tick := 2\<rparr>"
  have t: "\<exists>g' e. gossip_Tick (\<lambda>_. 5) 0 ?g = (g', [e]) \<and> env_To e = ''n2''"
    by (simp add: gossip_Tick_def demo_gossip_def gossip_Start_def gossip_SetLogger_def gossip_SetPeerDiscoveryCallback_def
        gossip_SetPeers_def NewGossipProtocol_def Let_def gm_mark_def gm_put_def gm_keys_def gm_getd_def gossip_envelope_def)
  then obtain g' e where e: "gossip_Tick (\<lambda>_. 5) 0 ?g = (g', [e])" "env_To e = ''n2''" by blast
  then show ?thesis
    by (simp add: reactor_step_def tick_runtime_def runtime_tick_def demo_input_def deliver_out_def sendEnvelope_def
        session_Send_def demo_session_peers demo_runtime_simps BeforeSend_def engine_defs f64_lt.simps
        send_rpc_def fresh_peer_def Let_def quiet_output_def set_peer_def)
qed

theorem requests_carry_identity_witness:
  "\<exists>r' o' q. reactor_step demo_input EventTick tick_runtime = Some (r', o') \<and> q \<in> set (out_requests o')
     \<and> parseSenderAddress (rq_From q) = (''n1'', ''h1'', 8001)"
proof -
  obtain r' o' q where q: "reactor_step demo_input EventTick tick_runtime = Some (r', o')" "q \<in> set (out_requests o')"
    using tick_runtime_sends by blast
  have f: "nc_ID (r_config tick_runtime) = ''n1''" "r_ns tick_runtime = demo_session"
    by (simp_all add: tick_runtime_def demo_runtime_simps demo_config_def)
  from requests_carry_identity [OF tick_runtime_ok q] q show ?thesis
    by (auto simp: f demo_session_addr i64_min_def i64_max_def)
qed

section \<open>Broadcast\<close>

lemma send_to_complete:
  assumes "session_ok (r_ns r)" "env_To ` set es \<subseteq> dom (map_of (ns_peers (r_ns r)))"
    and "\<forall>j. o_dial (snd (net j)) \<and> o_handshake (snd (net j)) \<and> o_rpc (snd (net j)) \<and> \<not> o_cancelled (snd (net j))"
    and "\<forall>e \<in> set es. \<forall>j. r_fault r = None \<or> sd_Allow (BeforeSend (r_fault r) (env_To e) (fst (net j)))"
    and "send_to net j es r = (r', reqs)"
  shows "map rq_To reqs = map env_To es \<and> map rq_Payload reqs = map env_Payload es"
  using assms(1,2,4,5)
proof (induction es arbitrary: j r r' reqs)
  case (Cons e es)
  obtain draw out where n: "net j = (draw, out)" by force
  obtain ns err rq where s: "session_Send (r_fault r) draw out e (r_ns r) = (ns, err, rq)" by (metis prod_cases3)
  obtain rq2 where t: "send_to net (j + 1) es (r\<lparr>r_ns := ns\<rparr>) = (r', rq2)" and reqs: "reqs = rq @ rq2"
    using Cons.prems(4) n s by (auto split: prod.splits)
  note sess = Send_session [OF Cons.prems(1) s]
  obtain ps where ps: "map_of (ns_peers (r_ns r)) (env_To e) = Some ps" using Cons.prems(2) by auto
  have "ps_id ps = env_To e" by (rule session_okD [OF Cons.prems(1) ps])
  moreover have "r_fault r = None \<or> sd_Allow (BeforeSend (r_fault r) (env_To e) draw)"
    using Cons.prems(3) n by (metis fst_conv list.set_intros(1))
  moreover have "o_dial out" "o_handshake out" "o_rpc out" "\<not> o_cancelled out"
    using assms(3) n by (metis snd_conv)+
  ultimately have "rq = [\<lparr>rq_From = encode_from (env_From e) (r_ns r), rq_To = env_To e,
      rq_Protocol = env_Protocol e, rq_Payload = env_Payload e\<rparr>]"
    using s ps by (auto simp: session_Send_def send_rpc_def Let_def split: option.splits if_splits)
  moreover have "map rq_To rq2 = map env_To es \<and> map rq_Payload rq2 = map env_Payload es"
    using sess Cons.prems(2,3) by (intro Cons.IH [OF _ _ _ t]) auto
  ultimately show ?case using reqs by simp
qed simp

text \<open>
  A broadcast reaches every configured peer: when the engine lets the sends through and the
  network delivers, an envelope with no receiver becomes one request to each configured peer,
  in the configuration's order, each with the envelope's payload.
\<close>

theorem broadcast_reaches_all:
  assumes "session_ok (r_ns r)" "env_To env = []" "sendEnvelope net env r = (r', reqs)"
    and "p_ID ` set (nc_Peers (r_config r)) \<subseteq> dom (map_of (ns_peers (r_ns r)))"
    and "\<forall>j. o_dial (snd (net j)) \<and> o_handshake (snd (net j)) \<and> o_rpc (snd (net j)) \<and> \<not> o_cancelled (snd (net j))"
    and "\<forall>p \<in> set (nc_Peers (r_config r)). \<forall>j. r_fault r = None \<or> sd_Allow (BeforeSend (r_fault r) (p_ID p) (fst (net j)))"
  shows "map rq_To reqs = map p_ID (nc_Peers (r_config r)) \<and> (\<forall>q \<in> set reqs. rq_Payload q = env_Payload env)"
proof -
  let ?es = "map (unicast env) (map p_ID (nc_Peers (r_config r)))"
  have send: "send_to net 0 ?es r = (r', reqs)" using assms(2,3) by (simp add: sendEnvelope_def Let_def)
  have to: "map env_To ?es = map p_ID (nc_Peers (r_config r))" by (simp add: unicast_def comp_def)
  have pl: "map env_Payload ?es = map (\<lambda>_. env_Payload env) (nc_Peers (r_config r))" by (simp add: unicast_def comp_def)
  have "map rq_To reqs = map env_To ?es \<and> map rq_Payload reqs = map env_Payload ?es"
    by (rule send_to_complete [OF assms(1) _ assms(5) _ send]) (use assms(4,6) in \<open>auto simp: unicast_def\<close>)
  moreover have "rq_Payload q = env_Payload env" if "q \<in> set reqs" "map rq_Payload reqs = map env_Payload ?es" for q
  proof -
    have "rq_Payload q \<in> set (map rq_Payload reqs)" using that(1) by simp
    then show ?thesis unfolding that(2) pl by auto
  qed
  ultimately show ?thesis using to by simp
qed

theorem broadcast_reaches_all_witness:
  "map rq_To (snd (sendEnvelope (in_net demo_input 0) (makeMembershipEnvelope ''n9'' StatusDead watcher)
      (tick_runtime\<lparr>r_config := demo_config\<lparr>nc_Peers := [\<lparr>p_ID = ''n2'', p_Host = ''h2'', p_Port = 2\<rparr>]\<rparr>, r_fault := None\<rparr>))) = [''n2'']"
proof -
  let ?r = "tick_runtime\<lparr>r_config := demo_config\<lparr>nc_Peers := [\<lparr>p_ID = ''n2'', p_Host = ''h2'', p_Port = 2\<rparr>]\<rparr>, r_fault := None\<rparr>"
  let ?e = "makeMembershipEnvelope ''n9'' StatusDead watcher"
  obtain r' reqs where s: "sendEnvelope (in_net demo_input 0) ?e ?r = (r', reqs)" by force
  have "session_ok (r_ns ?r)" "p_ID ` set (nc_Peers (r_config ?r)) \<subseteq> dom (map_of (ns_peers (r_ns ?r)))"
    using tick_runtime_ok by (auto simp: runtime_ok_def tick_runtime_def demo_session_peers)
  moreover have "env_To ?e = []" by (simp add: makeMembershipEnvelope_def Let_def)
  ultimately have "map rq_To reqs = map p_ID (nc_Peers (r_config ?r))"
    using broadcast_reaches_all [OF _ _ s] by (simp add: demo_input_def)
  then show ?thesis using s by simp
qed

end
