(* ===== verification/ClusterManager.thy ===== *)
theory ClusterManager
  imports GoStrings
begin

text \<open>
  The control plane's record of clusters and nodes: \<open>internal/cluster/config.go\<close> (the data) and
  \<open>internal/cluster/manager\<close> (the \<open>Manager\<close> and its operations).  Every method holds the manager's
  lock for its whole body, so a method is one step on the \<open>manager\<close> record; \<open>SetFaultParams\<close>
  releases the lock before it calls the node, which changes nothing in the manager.  A pointer
  the source returns (\<open>GetCluster\<close>, \<open>GetNode\<close>) is the value it points to at the time of the call.
  Times are nanoseconds; the reading of \<open>time.Now()\<close> is an argument.

  Shown: the invariant of the data for every sequence of operations, what registration returns,
  and exactly which nodes a clean-up pass removes.
\<close>

section \<open>Data\<close>

record fault_state =
  fs_Crashed :: bool
  fs_DropRate :: f64
  fs_DelayMs :: int
  fs_Partition :: "string list"

record node_action_capabilities =
  ac_KVPut :: bool
  ac_KVGet :: bool
  ac_KVDelete :: bool

definition DefaultFaultState :: fault_state where
  "DefaultFaultState = \<lparr>fs_Crashed = False, fs_DropRate = Fin 0, fs_DelayMs = 0, fs_Partition = []\<rparr>"

record cluster_node =
  cn_ID :: string
  cn_Address :: string
  cn_Port :: int
  cn_LastSeen :: int
  cn_Status :: string
  cn_Fault :: fault_state
  cn_ActiveProtocolKey :: string
  cn_ActiveProtocolEpoch :: u64
  cn_Capabilities :: node_action_capabilities
  cn_CapabilitiesAt :: int

record cluster =
  cl_ID :: string
  cl_Protocol :: string
  cl_Nodes :: "(string, cluster_node) gomap"

text \<open>
  The \<open>NodeSession\<close> interface: the call that forwards fault parameters to a node at an address
  and port, and the error it returns.
\<close>

type_synonym forward_faults = "string \<Rightarrow> int \<Rightarrow> string \<Rightarrow> fault_state \<Rightarrow> string option"

record manager =
  m_clusters :: "(string, cluster) gomap"
  m_ns :: "forward_faults option"

datatype manager_error =
  UnsupportedProtocol string
| ClusterExists
| ClusterDoesNotExist
| ClusterNotFound
| ClusterInvalid
| NodeInvalid
| NodeNotFound
| NodeCallFailed string

section \<open>Clusters\<close>

definition NewManager :: "forward_faults list \<Rightarrow> manager" where
  "NewManager ns = \<lparr>m_clusters = [], m_ns = (case ns of [] \<Rightarrow> None | n # _ \<Rightarrow> Some n)\<rparr>"

text \<open>The protocol name as both \<open>CreateCluster\<close> and \<open>SwapProtocol\<close> normalise and check it.\<close>

definition cluster_protocol_name :: "string \<Rightarrow> manager_error + string" where
  "cluster_protocol_name protocol =
     (let p = to_lower (trim_space protocol);
          p = (if p = [] then ''gossip'' else p)
      in if p = ''gossip'' \<or> p = ''raft'' then Inr p else Inl (UnsupportedProtocol p))"

definition CreateCluster :: "string \<Rightarrow> string \<Rightarrow> manager \<Rightarrow> manager \<times> manager_error option" where
  "CreateCluster clusterID protocol m = (case cluster_protocol_name protocol of
     Inl e \<Rightarrow> (m, Some e)
   | Inr p \<Rightarrow>
       if map_of (m_clusters m) clusterID \<noteq> None then (m, Some ClusterExists)
       else (m\<lparr>m_clusters := gm_put clusterID \<lparr>cl_ID = clusterID, cl_Protocol = p, cl_Nodes = []\<rparr> (m_clusters m)\<rparr>, None))"

definition RemoveCluster :: "string \<Rightarrow> manager \<Rightarrow> manager \<times> manager_error option" where
  "RemoveCluster clusterID m =
     (if map_of (m_clusters m) clusterID = None then (m, Some ClusterDoesNotExist)
      else (m\<lparr>m_clusters := gm_del clusterID (m_clusters m)\<rparr>, None))"

definition GetClusters :: "manager \<Rightarrow> string list" where
  "GetClusters m = gm_keys (m_clusters m)"

definition GetCluster :: "string \<Rightarrow> manager \<Rightarrow> manager_error + cluster" where
  "GetCluster clusterID m = (case map_of (m_clusters m) clusterID of None \<Rightarrow> Inl ClusterNotFound | Some c \<Rightarrow> Inr c)"

text \<open>An update of the cluster a pointer in the map leads to.\<close>

definition set_cluster :: "string \<Rightarrow> cluster \<Rightarrow> manager \<Rightarrow> manager" where
  "set_cluster clusterID c m = m\<lparr>m_clusters := gm_put clusterID c (m_clusters m)\<rparr>"

definition SwapProtocol :: "string \<Rightarrow> string \<Rightarrow> manager \<Rightarrow> manager \<times> manager_error option" where
  "SwapProtocol clusterID protocol m = (case cluster_protocol_name protocol of
     Inl e \<Rightarrow> (m, Some e)
   | Inr p \<Rightarrow> (case map_of (m_clusters m) clusterID of
       None \<Rightarrow> (m, Some ClusterNotFound)
     | Some c \<Rightarrow> (set_cluster clusterID (c\<lparr>cl_Protocol := p\<rparr>) m, None)))"

section \<open>Nodes\<close>

definition fresh_node :: "string \<Rightarrow> string \<Rightarrow> int \<Rightarrow> int \<Rightarrow> cluster_node" where
  "fresh_node nodeID address port now =
     \<lparr>cn_ID = nodeID, cn_Address = address, cn_Port = port, cn_LastSeen = now, cn_Status = ''active'',
      cn_Fault = DefaultFaultState, cn_ActiveProtocolKey = [], cn_ActiveProtocolEpoch = 0,
      cn_Capabilities = \<lparr>ac_KVPut = False, ac_KVGet = False, ac_KVDelete = False\<rparr>, cn_CapabilitiesAt = 0\<rparr>"

definition RegisterNode :: "int \<Rightarrow> string \<Rightarrow> string \<Rightarrow> string \<Rightarrow> int \<Rightarrow> manager \<Rightarrow> manager \<times> cluster_node list" where
  "RegisterNode now clusterID nodeID address port m =
     (let c = (case map_of (m_clusters m) clusterID of
                 None \<Rightarrow> \<lparr>cl_ID = clusterID, cl_Protocol = ''gossip'', cl_Nodes = []\<rparr>
               | Some c \<Rightarrow> c);
          nodes = gm_put nodeID (fresh_node nodeID address port now) (cl_Nodes c)
      in (set_cluster clusterID (c\<lparr>cl_Nodes := nodes\<rparr>) m, filter (\<lambda>n. cn_ID n \<noteq> nodeID) (map snd nodes)))"

definition RemoveNode :: "string \<Rightarrow> string \<Rightarrow> manager \<Rightarrow> manager \<times> manager_error option" where
  "RemoveNode clusterID nodeID m = (case map_of (m_clusters m) clusterID of
     None \<Rightarrow> (m, Some ClusterInvalid)
   | Some c \<Rightarrow>
       if map_of (cl_Nodes c) nodeID = None then (m, Some NodeInvalid)
       else (set_cluster clusterID (c\<lparr>cl_Nodes := gm_del nodeID (cl_Nodes c)\<rparr>) m, None))"

definition GetNodes :: "string \<Rightarrow> manager \<Rightarrow> manager_error + cluster_node list" where
  "GetNodes clusterID m = (case map_of (m_clusters m) clusterID of
     None \<Rightarrow> Inl ClusterInvalid
   | Some c \<Rightarrow> Inr (map snd (cl_Nodes c)))"

definition GetNode :: "string \<Rightarrow> string \<Rightarrow> manager \<Rightarrow> manager_error + cluster_node" where
  "GetNode clusterID nodeID m = (case map_of (m_clusters m) clusterID of
     None \<Rightarrow> Inl ClusterNotFound
   | Some c \<Rightarrow> (case map_of (cl_Nodes c) nodeID of None \<Rightarrow> Inl NodeNotFound | Some n \<Rightarrow> Inr n))"

text \<open>An update of the node a pointer in the map leads to.\<close>

definition set_node :: "string \<Rightarrow> cluster \<Rightarrow> string \<Rightarrow> cluster_node \<Rightarrow> manager \<Rightarrow> manager" where
  "set_node clusterID c nodeID n m = set_cluster clusterID (c\<lparr>cl_Nodes := gm_put nodeID n (cl_Nodes c)\<rparr>) m"

definition manager_Heartbeat :: "int \<Rightarrow> string \<Rightarrow> string \<Rightarrow> manager \<Rightarrow> manager \<times> manager_error option" where
  "manager_Heartbeat now clusterID nodeID m = (case map_of (m_clusters m) clusterID of
     None \<Rightarrow> (m, Some ClusterInvalid)
   | Some c \<Rightarrow> (case map_of (cl_Nodes c) nodeID of
       None \<Rightarrow> (m, Some NodeInvalid)
     | Some n \<Rightarrow> (set_node clusterID c nodeID (n\<lparr>cn_LastSeen := now, cn_Status := ''active''\<rparr>) m, None)))"

text \<open>
  One pass of the clean-up loop.  The clock is read once per node, at the time the loop reaches it.
\<close>

definition cleanup_node :: "(string \<Rightarrow> int) \<Rightarrow> int \<Rightarrow> string \<times> cluster_node \<Rightarrow> (string, cluster_node) gomap \<Rightarrow> (string, cluster_node) gomap" where
  "cleanup_node clock timeout = (\<lambda>(i, n) nodes.
     if time_sub (clock i) (cn_LastSeen n) > timeout then
       (if \<not> fs_Crashed (cn_Fault n) then gm_del i nodes
        else gm_put i (n\<lparr>cn_Status := ''crashed''\<rparr>) nodes)
     else nodes)"

definition Cleanup :: "(string \<Rightarrow> string \<Rightarrow> int) \<Rightarrow> int \<Rightarrow> manager \<Rightarrow> manager" where
  "Cleanup clock timeout m = m\<lparr>m_clusters :=
     map (\<lambda>(ci, c). (ci, c\<lparr>cl_Nodes := fold (cleanup_node (clock ci) timeout) (cl_Nodes c) (cl_Nodes c)\<rparr>)) (m_clusters m)\<rparr>"

definition SetNodeCapabilities :: "string \<Rightarrow> string \<Rightarrow> string \<Rightarrow> u64 \<Rightarrow> node_action_capabilities \<Rightarrow> int \<Rightarrow> manager \<Rightarrow> manager \<times> manager_error option" where
  "SetNodeCapabilities clusterID nodeID key epoch actions reportedAt m = (case map_of (m_clusters m) clusterID of
     None \<Rightarrow> (m, Some ClusterNotFound)
   | Some c \<Rightarrow> (case map_of (cl_Nodes c) nodeID of
       None \<Rightarrow> (m, Some NodeNotFound)
     | Some n \<Rightarrow> (set_node clusterID c nodeID
         (n\<lparr>cn_ActiveProtocolKey := key, cn_ActiveProtocolEpoch := epoch, cn_Capabilities := actions, cn_CapabilitiesAt := reportedAt\<rparr>) m, None)))"

definition SetNodeSession :: "forward_faults option \<Rightarrow> manager \<Rightarrow> manager" where
  "SetNodeSession ns m = m\<lparr>m_ns := ns\<rparr>"

definition manager_SetFaultParams :: "string \<Rightarrow> string \<Rightarrow> fault_state \<Rightarrow> manager \<Rightarrow> manager \<times> manager_error option" where
  "manager_SetFaultParams clusterID nodeID params m = (case map_of (m_clusters m) clusterID of
     None \<Rightarrow> (m, Some ClusterInvalid)
   | Some c \<Rightarrow> (case map_of (cl_Nodes c) nodeID of
       None \<Rightarrow> (m, Some NodeInvalid)
     | Some n \<Rightarrow>
         let n' = n\<lparr>cn_Fault := params, cn_Status := (if fs_Crashed params then ''crashed'' else ''active'')\<rparr>;
             m' = set_node clusterID c nodeID n' m
         in case m_ns m of
              None \<Rightarrow> (m', None)
            | Some ns \<Rightarrow> (m', map_option NodeCallFailed (ns (cn_Address n) (cn_Port n) nodeID params))))"

section \<open>The invariant\<close>

definition node_ok :: "string \<times> cluster_node \<Rightarrow> bool" where
  "node_ok = (\<lambda>(i, n). cn_ID n = i \<and> (cn_Status n = ''active'' \<or> cn_Status n = ''crashed'' \<and> fs_Crashed (cn_Fault n)))"

definition cluster_ok :: "string \<times> cluster \<Rightarrow> bool" where
  "cluster_ok = (\<lambda>(i, c). cl_ID c = i \<and> cl_Protocol c \<in> {''gossip'', ''raft''} \<and> gm_wf (cl_Nodes c) \<and> list_all node_ok (cl_Nodes c))"

definition manager_ok :: "manager \<Rightarrow> bool" where
  "manager_ok m \<longleftrightarrow> gm_wf (m_clusters m) \<and> list_all cluster_ok (m_clusters m)"

lemmas manager_parts = manager_ok_def cluster_ok_def node_ok_def

lemma manager_okD:
  assumes "manager_ok m" "map_of (m_clusters m) ci = Some c"
  shows "cluster_ok (ci, c)" "gm_wf (cl_Nodes c)"
  using list_all_map_of [of cluster_ok "m_clusters m" ci c] assms by (auto simp: manager_parts)

lemma cluster_okD: "cluster_ok (ci, c) \<Longrightarrow> map_of (cl_Nodes c) i = Some n \<Longrightarrow> node_ok (i, n)"
  using list_all_map_of [of node_ok "cl_Nodes c" i n] by (auto simp: cluster_ok_def)

lemma set_cluster_ok [inv_intros]: "manager_ok m \<Longrightarrow> cluster_ok (ci, c) \<Longrightarrow> manager_ok (set_cluster ci c m)"
  by (simp add: manager_ok_def set_cluster_def list_all_put)

lemma set_node_ok [inv_intros]:
  "manager_ok m \<Longrightarrow> cluster_ok (ci, c) \<Longrightarrow> node_ok (i, n) \<Longrightarrow> manager_ok (set_node ci c i n m)"
  unfolding set_node_def by (rule set_cluster_ok) (simp_all add: cluster_ok_def list_all_put)

lemma protocol_name_ok: "cluster_protocol_name p = Inr q \<Longrightarrow> q \<in> {''gossip'', ''raft''}"
  by (auto simp: cluster_protocol_name_def Let_def split: if_splits)

lemma cleanup_node_ok: "list_all node_ok ns \<Longrightarrow> node_ok x \<Longrightarrow> list_all node_ok (cleanup_node clock t x ns)"
  by (auto simp: cleanup_node_def node_ok_def intro!: list_all_put list_all_del split: prod.splits)

lemma cleanup_fold_ok:
  "list_all node_ok xs \<Longrightarrow> list_all node_ok ns \<Longrightarrow> gm_wf ns \<Longrightarrow>
     list_all node_ok (fold (cleanup_node clock t) xs ns) \<and> gm_wf (fold (cleanup_node clock t) xs ns)"
proof (induction xs arbitrary: ns)
  case (Cons x xs)
  have "gm_wf (cleanup_node clock t x ns)" using Cons.prems by (auto simp: cleanup_node_def split: prod.splits)
  with Cons show ?case by (simp add: cleanup_node_ok)
qed simp

text \<open>The operations as one type, and the step each of them makes.\<close>

datatype manager_op =
  DoCreateCluster string string
| DoRemoveCluster string
| DoSwapProtocol string string
| DoRegisterNode int string string string int
| DoRemoveNode string string
| DoHeartbeat int string string
| DoCleanup "string \<Rightarrow> string \<Rightarrow> int" int
| DoSetNodeCapabilities string string string u64 node_action_capabilities int
| DoSetNodeSession "forward_faults option"
| DoSetFaultParams string string fault_state

fun manager_step :: "manager_op \<Rightarrow> manager \<Rightarrow> manager" where
  "manager_step (DoCreateCluster c p) m = fst (CreateCluster c p m)"
| "manager_step (DoRemoveCluster c) m = fst (RemoveCluster c m)"
| "manager_step (DoSwapProtocol c p) m = fst (SwapProtocol c p m)"
| "manager_step (DoRegisterNode now c n a p) m = fst (RegisterNode now c n a p m)"
| "manager_step (DoRemoveNode c n) m = fst (RemoveNode c n m)"
| "manager_step (DoHeartbeat now c n) m = fst (manager_Heartbeat now c n m)"
| "manager_step (DoCleanup clock t) m = Cleanup clock t m"
| "manager_step (DoSetNodeCapabilities c n key e a ts) m = fst (SetNodeCapabilities c n key e a ts m)"
| "manager_step (DoSetNodeSession ns) m = SetNodeSession ns m"
| "manager_step (DoSetFaultParams c n f) m = fst (manager_SetFaultParams c n f m)"

lemma CreateCluster_ok [inv_intros]: "manager_ok m \<Longrightarrow> manager_ok (fst (CreateCluster c p m))"
  using protocol_name_ok [of p]
  by (auto simp: CreateCluster_def manager_ok_def cluster_ok_def intro!: list_all_put split: sum.splits)

lemma SwapProtocol_ok [inv_intros]: "manager_ok m \<Longrightarrow> manager_ok (fst (SwapProtocol c p m))"
  using protocol_name_ok [of p] manager_okD(1) [of m c]
  by (auto simp: SwapProtocol_def cluster_ok_def intro!: set_cluster_ok split: sum.splits option.splits)

lemma RegisterNode_ok [inv_intros]: "manager_ok m \<Longrightarrow> manager_ok (fst (RegisterNode now c n a p m))"
  using manager_okD(1) [of m c]
  by (cases "map_of (m_clusters m) c") (simp_all add: RegisterNode_def Let_def cluster_ok_def node_ok_def fresh_node_def set_cluster_ok list_all_put)

lemma RemoveNode_ok [inv_intros]: "manager_ok m \<Longrightarrow> manager_ok (fst (RemoveNode c n m))"
  using manager_okD(1) [of m c]
  by (auto simp: RemoveNode_def cluster_ok_def intro!: set_cluster_ok list_all_del split: option.splits)

lemma cleanup_cluster_ok:
  "cluster_ok (ci, c) \<Longrightarrow> cluster_ok (ci, c\<lparr>cl_Nodes := fold (cleanup_node clock t) (cl_Nodes c) (cl_Nodes c)\<rparr>)"
  using cleanup_fold_ok [of "cl_Nodes c" "cl_Nodes c" clock t] by (simp add: cluster_ok_def)

lemma Cleanup_ok [inv_intros]: "manager_ok m \<Longrightarrow> manager_ok (Cleanup clock t m)"
  using cleanup_cluster_ok by (auto simp: Cleanup_def manager_ok_def list_all_iff)

lemma Heartbeat_ok [inv_intros]: "manager_ok m \<Longrightarrow> manager_ok (fst (manager_Heartbeat now c n m))"
  using manager_okD(1) [of m c] cluster_okD [of c _ n]
  by (auto simp: manager_Heartbeat_def node_ok_def intro!: set_node_ok split: option.splits)

lemma SetNodeCapabilities_ok [inv_intros]: "manager_ok m \<Longrightarrow> manager_ok (fst (SetNodeCapabilities c n key e a ts m))"
  using manager_okD(1) [of m c] cluster_okD [of c _ n]
  by (fastforce simp: SetNodeCapabilities_def node_ok_def intro!: set_node_ok split: option.splits)

lemma SetFaultParams_ok [inv_intros]: "manager_ok m \<Longrightarrow> manager_ok (fst (manager_SetFaultParams c n f m))"
  using manager_okD(1) [of m c] cluster_okD [of c _ n]
  by (auto simp: manager_SetFaultParams_def Let_def node_ok_def intro!: set_node_ok split: option.splits)

lemma RemoveCluster_ok [inv_intros]: "manager_ok m \<Longrightarrow> manager_ok (fst (RemoveCluster c m))"
  by (auto simp: RemoveCluster_def manager_ok_def list_all_del)

lemma SetNodeSession_ok [inv_intros]: "manager_ok m \<Longrightarrow> manager_ok (SetNodeSession ns m)"
  by (simp add: SetNodeSession_def manager_ok_def)

lemma manager_step_ok: "manager_ok m \<Longrightarrow> manager_ok (manager_step s m)"
  by (cases s) (auto intro: inv_intros)

interpretation mgr: locked_component manager_step manager_ok
  by unfold_locales (rule manager_step_ok)

text \<open>
  The manager's data stays consistent: after any sequence of operations every cluster and every
  node is stored once, under its own ID, every cluster runs a supported protocol, and a node's
  status is active or crashed, crashed only if a crash fault is recorded for it.
\<close>

theorem manager_invariant: "manager_ok (fold manager_step ops (NewManager ns))"
  by (rule mgr.run_inv) (simp add: NewManager_def manager_ok_def)

section \<open>Registration\<close>

lemma GetNode_Inr:
  "GetNode c i m = Inr n \<longleftrightarrow> (\<exists>cl. map_of (m_clusters m) c = Some cl \<and> map_of (cl_Nodes cl) i = Some n)"
  by (auto simp: GetNode_def split: option.splits)

definition nodes_of :: "string \<Rightarrow> manager \<Rightarrow> (string, cluster_node) gomap" where
  "nodes_of c m = (case map_of (m_clusters m) c of None \<Rightarrow> [] | Some cl \<Rightarrow> cl_Nodes cl)"

lemma GetNode_nodes_of: "GetNode c i m = Inr n \<longleftrightarrow> map_of (nodes_of c m) i = Some n"
  by (auto simp: GetNode_Inr nodes_of_def split: option.splits)

lemma nodes_of_ok:
  assumes "manager_ok m"
  shows "gm_wf (nodes_of c m)" "list_all node_ok (nodes_of c m)"
  using manager_okD [OF assms, of c] by (auto simp: nodes_of_def cluster_ok_def split: option.splits)

lemma RegisterNode_nodes:
  "nodes_of c' (fst (RegisterNode now c n a p m)) =
     (if c' = c then gm_put n (fresh_node n a p now) (nodes_of c m) else nodes_of c' m)"
  by (auto simp: RegisterNode_def Let_def nodes_of_def set_cluster_def split: option.splits)

lemma RegisterNode_peers:
  "snd (RegisterNode now c n a p m) =
     filter (\<lambda>x. cn_ID x \<noteq> n) (map snd (gm_put n (fresh_node n a p now) (nodes_of c m)))"
  by (auto simp: RegisterNode_def Let_def nodes_of_def split: option.splits)

lemma NewManager_nodes: "nodes_of c (NewManager ns) = []"
  by (simp add: NewManager_def nodes_of_def)

lemma node_values_distinct:
  assumes "gm_wf ns" "list_all node_ok ns"
  shows "map cn_ID (map snd ns) = map fst ns" "distinct (map cn_ID (map snd ns))"
proof -
  show ids: "map cn_ID (map snd ns) = map fst ns"
    using assms(2) by (induction ns) (auto simp: node_ok_def)
  show "distinct (map cn_ID (map snd ns))" unfolding ids using assms(1) by (simp add: gm_wf_def)
qed

text \<open>
  Registration.  A registered node is found under its cluster and name, active and with no
  faults; the answer lists exactly the other nodes of the cluster, each once; no other node of any
  cluster is added, removed or changed.
\<close>

theorem register_returns_peers:
  assumes "manager_ok m" "RegisterNode now c n a p m = (m', peers)"
  shows "GetNode c n m' = Inr (fresh_node n a p now)
    \<and> set peers = {x. \<exists>j. j \<noteq> n \<and> GetNode c j m = Inr x} \<and> distinct (map cn_ID peers)
    \<and> (\<forall>c' j x. (c', j) \<noteq> (c, n) \<longrightarrow> (GetNode c' j m' = Inr x \<longleftrightarrow> GetNode c' j m = Inr x))"
proof -
  let ?ns = "gm_put n (fresh_node n a p now) (nodes_of c m)"
  have m': "nodes_of c' m' = (if c' = c then ?ns else nodes_of c' m)" for c'
    using RegisterNode_nodes [of c' now c n a p m] assms(2) by simp
  have peers: "peers = filter (\<lambda>x. cn_ID x \<noteq> n) (map snd ?ns)"
    using RegisterNode_peers [of now c n a p m] assms(2) by simp
  have wf: "gm_wf ?ns" and ok: "list_all node_ok ?ns"
    using nodes_of_ok [OF assms(1)] by (auto simp: node_ok_def fresh_node_def intro!: list_all_put)
  have "x \<in> set peers \<longleftrightarrow> (\<exists>j. j \<noteq> n \<and> GetNode c j m = Inr x)" for x
  proof -
    have "x \<in> set peers \<longleftrightarrow> (\<exists>j. map_of ?ns j = Some x) \<and> cn_ID x \<noteq> n"
      by (simp only: peers set_filter mem_Collect_eq gm_values [OF wf])
    also have "\<dots> \<longleftrightarrow> (\<exists>j. j \<noteq> n \<and> map_of ?ns j = Some x)"
      using list_all_map_of [OF ok] unfolding node_ok_def by blast
    finally show ?thesis by (auto simp: GetNode_nodes_of)
  qed
  moreover have "distinct (map cn_ID peers)"
    using node_values_distinct(2) [OF wf ok] unfolding peers by (rule distinct_map_filter)
  moreover have "GetNode c n m' = Inr (fresh_node n a p now)" by (simp add: GetNode_nodes_of m')
  moreover have "(GetNode c' j m' = Inr x) = (GetNode c' j m = Inr x)" if "(c', j) \<noteq> (c, n)" for c' j x
    using that by (auto simp: GetNode_nodes_of m')
  ultimately show ?thesis by blast
qed

theorem register_returns_peers_witness:
  "set (snd (RegisterNode 7 ''c'' ''n2'' ''h'' 2 (fst (RegisterNode 5 ''c'' ''n1'' ''h'' 1 (NewManager []))))) =
     {fresh_node ''n1'' ''h'' 1 5}"
proof -
  let ?m = "fst (RegisterNode 5 ''c'' ''n1'' ''h'' 1 (NewManager []))"
  have "manager_ok ?m" by (intro RegisterNode_ok) (simp add: NewManager_def manager_ok_def)
  then have "set (snd (RegisterNode 7 ''c'' ''n2'' ''h'' 2 ?m)) = {x. \<exists>j. j \<noteq> ''n2'' \<and> GetNode ''c'' j ?m = Inr x}"
    by (rule register_returns_peers [OF _ prod.collapse [symmetric], THEN conjunct2, THEN conjunct1])
  moreover have "GetNode ''c'' j ?m = Inr x \<longleftrightarrow> j = ''n1'' \<and> x = fresh_node ''n1'' ''h'' 1 5" for j x
    by (auto simp: GetNode_nodes_of RegisterNode_nodes NewManager_nodes)
  ultimately show ?thesis by simp
qed

section \<open>Clean-up\<close>

definition cleaned :: "(string \<Rightarrow> int) \<Rightarrow> int \<Rightarrow> string \<Rightarrow> cluster_node \<Rightarrow> cluster_node option" where
  "cleaned clock t i n =
     (if time_sub (clock i) (cn_LastSeen n) \<le> t then Some n
      else if fs_Crashed (cn_Fault n) then Some (n\<lparr>cn_Status := ''crashed''\<rparr>) else None)"

lemma cleanup_fold_lookup:
  "gm_wf xs \<Longrightarrow> (\<And>i n. map_of xs i = Some n \<Longrightarrow> map_of ns i = Some n) \<Longrightarrow>
     map_of (fold (cleanup_node clock t) xs ns) i =
       (case map_of xs i of None \<Rightarrow> map_of ns i | Some n \<Rightarrow> cleaned clock t i n)"
proof (induction xs arbitrary: ns)
  case (Cons x xs)
  obtain j n where x: "x = (j, n)" by force
  have fresh: "map_of xs j = None" using Cons.prems(1) x by (simp add: map_of_eq_None_iff)
  have step: "map_of (cleanup_node clock t x ns) k = (if k = j then cleaned clock t j n else map_of ns k)" for k
    using Cons.prems(2) [of j n] x by (auto simp: cleanup_node_def cleaned_def)
  have "map_of (fold (cleanup_node clock t) xs (cleanup_node clock t x ns)) i =
      (case map_of xs i of None \<Rightarrow> map_of (cleanup_node clock t x ns) i | Some n \<Rightarrow> cleaned clock t i n)"
  proof (rule Cons.IH)
    show "gm_wf xs" using Cons.prems(1) x by simp
    show "map_of (cleanup_node clock t x ns) k = Some v" if "map_of xs k = Some v" for k v
      unfolding step using that fresh Cons.prems(2) [of k v] x by auto
  qed
  then show ?case using fresh by (auto simp: x step [unfolded x] split: option.splits)
qed simp

lemma Cleanup_nodes:
  assumes "manager_ok m"
  shows "map_of (nodes_of c (Cleanup clock t m)) i =
    (case map_of (nodes_of c m) i of None \<Rightarrow> None | Some n \<Rightarrow> cleaned (clock c) t i n)"
proof (cases "map_of (m_clusters m) c")
  case None
  then show ?thesis by (simp add: nodes_of_def Cleanup_def map_of_map_snd)
next
  case (Some cl)
  have "gm_wf (cl_Nodes cl)" using manager_okD(2) [OF assms Some] .
  from cleanup_fold_lookup [OF this, of "cl_Nodes cl" "clock c" t i] Some show ?thesis
    by (auto simp: nodes_of_def Cleanup_def map_of_map_snd split: option.splits)
qed

text \<open>
  C22: A clean-up pass removes exactly the dead nodes.  A node heard within the timeout is left as it
  is; a silent node with a crash fault is kept and marked crashed; a silent node without one is
  removed; no cluster is removed and no node added.
\<close>

theorem cleanup_exact:
  assumes "manager_ok m"
  shows "GetClusters (Cleanup clock t m) = GetClusters m
    \<and> (GetNode c i (Cleanup clock t m) = Inr n' \<longleftrightarrow>
        (\<exists>n. GetNode c i m = Inr n \<and>
           (time_sub (clock c i) (cn_LastSeen n) \<le> t \<and> n' = n
            \<or> time_sub (clock c i) (cn_LastSeen n) > t \<and> fs_Crashed (cn_Fault n) \<and> n' = n\<lparr>cn_Status := ''crashed''\<rparr>)))"
proof
  show "GetClusters (Cleanup clock t m) = GetClusters m"
    by (simp add: GetClusters_def gm_keys_def Cleanup_def case_prod_unfold)
  show "GetNode c i (Cleanup clock t m) = Inr n' \<longleftrightarrow> (\<exists>n. GetNode c i m = Inr n \<and>
           (time_sub (clock c i) (cn_LastSeen n) \<le> t \<and> n' = n
            \<or> time_sub (clock c i) (cn_LastSeen n) > t \<and> fs_Crashed (cn_Fault n) \<and> n' = n\<lparr>cn_Status := ''crashed''\<rparr>))"
    unfolding GetNode_nodes_of Cleanup_nodes [OF assms]
    by (auto simp: cleaned_def split: option.splits if_splits)
qed

theorem cleanup_exact_witness:
  "\<nexists>n. GetNode ''c'' ''n1'' (Cleanup (\<lambda>_ _. 100) 10 (fst (RegisterNode 5 ''c'' ''n1'' ''h'' 1 (NewManager [])))) = Inr n"
proof -
  let ?m = "fst (RegisterNode 5 ''c'' ''n1'' ''h'' 1 (NewManager []))"
  have "manager_ok ?m" by (intro RegisterNode_ok) (simp add: NewManager_def manager_ok_def)
  moreover have "GetNode ''c'' ''n1'' ?m = Inr n \<longleftrightarrow> n = fresh_node ''n1'' ''h'' 1 5" for n
    by (auto simp: GetNode_nodes_of RegisterNode_nodes)
  ultimately show ?thesis
    using cleanup_exact [of ?m "\<lambda>_ _. 100" 10 "''c''" "''n1''"]
    by (auto simp: fresh_node_def DefaultFaultState_def time_sub_def i64_min_def i64_max_def)
qed

section \<open>Fault parameters\<close>

text \<open>
  Fault parameters are recorded before the node is asked.  For a known node the parameters and
  the matching status are stored whatever the call to the node returns, the call gets the node's
  own address and port, and its error is the operation's; other nodes keep theirs, and an unknown
  cluster or node is an error without effect.
\<close>

theorem fault_params_recorded:
  assumes "manager_SetFaultParams c i f m = (m', err)"
  shows "(\<forall>n. GetNode c i m = Inr n \<longrightarrow>
          GetNode c i m' = Inr (n\<lparr>cn_Fault := f, cn_Status := (if fs_Crashed f then ''crashed'' else ''active'')\<rparr>)
          \<and> err = (case m_ns m of None \<Rightarrow> None | Some ns \<Rightarrow> map_option NodeCallFailed (ns (cn_Address n) (cn_Port n) i f)))
    \<and> ((\<nexists>n. GetNode c i m = Inr n) \<longrightarrow> m' = m \<and> err \<in> {Some ClusterInvalid, Some NodeInvalid})
    \<and> (\<forall>c' j. (c', j) \<noteq> (c, i) \<longrightarrow> GetNode c' j m' = GetNode c' j m)"
  using assms
  by (auto simp: manager_SetFaultParams_def GetNode_def set_node_def set_cluster_def Let_def split: option.splits if_splits)

theorem fault_params_recorded_witness:
  "\<exists>m' n. manager_SetFaultParams ''c'' ''n1'' (DefaultFaultState\<lparr>fs_Crashed := True\<rparr>)
      (fst (RegisterNode 5 ''c'' ''n1'' ''h'' 1 (NewManager [\<lambda>_ _ _ _. Some ''refused'']))) = (m', Some (NodeCallFailed ''refused''))
    \<and> GetNode ''c'' ''n1'' m' = Inr n \<and> fs_Crashed (cn_Fault n)"
proof -
  let ?f = "DefaultFaultState\<lparr>fs_Crashed := True\<rparr>"
  let ?m = "fst (RegisterNode 5 ''c'' ''n1'' ''h'' 1 (NewManager [\<lambda>_ _ _ _. Some ''refused'']))"
  obtain m' err where r: "manager_SetFaultParams ''c'' ''n1'' ?f ?m = (m', err)" by force
  have g: "GetNode ''c'' ''n1'' ?m = Inr (fresh_node ''n1'' ''h'' 1 5)" by (simp add: GetNode_nodes_of RegisterNode_nodes)
  have ns: "m_ns ?m = Some (\<lambda>_ _ _ _. Some ''refused'')" by (simp add: RegisterNode_def Let_def set_cluster_def NewManager_def)
  from fault_params_recorded [OF r] g ns
  have "err = Some (NodeCallFailed ''refused'')"
    "GetNode ''c'' ''n1'' m' = Inr (fresh_node ''n1'' ''h'' 1 5\<lparr>cn_Fault := ?f, cn_Status := ''crashed''\<rparr>)" by auto
  then show ?thesis using r by auto
qed

end
