(* ===== verification/Metrics.thy ===== *)
theory Metrics
  imports Prelude
begin

text \<open>
  The consistency metrics of an experiment (\<open>internal/metrics/metrics.go\<close>): what is computed from
  the snapshots of one key's state on every node.  Durations are \<open>int64\<close> nanoseconds with the
  wrap-around written out; a nil pointer to a time is \<open>None\<close>; \<open>sort.SliceStable\<close> is the library's
  stable \<open>sort_key\<close>.

  Shown: the mode the one-pass counting loop returns is the least of the states with the largest
  multiplicity; convergence, agreement and final consistency mean what their names say; and the
  stale times of the nodes add up to the area under the divergence curve.
\<close>

section \<open>Data\<close>

record node_state =
  st_Exists :: bool
  st_Value :: string
  st_Version :: int
  st_Origin :: string
  st_HasMetadata :: bool

record snapshot =
  sn_Time :: int
  sn_Nodes :: "(string, node_state) gomap"

record timeline_event =
  te_Time :: int
  te_NodeID :: string
  te_Key :: string
  te_Value :: string
  te_Version :: int
  te_Origin :: string
  te_Source :: string
  te_EventType :: string
  te_Round :: u64
  te_LWWTimestamp :: int

record divergence_point =
  dp_Time :: int
  dp_Divergence :: int

record metrics_result =
  mr_ConvergenceTime :: "int option"
  mr_FirstAgreementTime :: "int option"
  mr_FinalConsistent :: bool
  mr_PeakDivergence :: int
  mr_AreaUnderDivergence :: int
  mr_DivergenceOverTime :: "divergence_point list"
  mr_StaleDurationPerNode :: "(string, int) gomap"
  mr_Timeline :: "timeline_event list"
  mr_ConvergenceCurve :: "divergence_point list"

definition empty_result :: metrics_result where
  "empty_result = \<lparr>mr_ConvergenceTime = None, mr_FirstAgreementTime = None, mr_FinalConsistent = False, mr_PeakDivergence = 0,
     mr_AreaUnderDivergence = 0, mr_DivergenceOverTime = [], mr_StaleDurationPerNode = [], mr_Timeline = [], mr_ConvergenceCurve = []\<rparr>"

definition zero_state :: node_state where
  "zero_state = \<lparr>st_Exists = False, st_Value = [], st_Version = 0, st_Origin = [], st_HasMetadata = False\<rparr>"

section \<open>The computation\<close>

definition allNodesExist :: "(string, node_state) gomap \<Rightarrow> bool" where
  "allNodesExist nodes \<longleftrightarrow> nodes \<noteq> [] \<and> list_all (\<lambda>(_, s). st_Exists s) nodes"

definition lessState :: "node_state \<Rightarrow> node_state \<Rightarrow> bool" where
  "lessState a b =
     (if st_Value a \<noteq> st_Value b then st_Value a < st_Value b
      else if st_Version a \<noteq> st_Version b then st_Version a < st_Version b
      else if st_Origin a \<noteq> st_Origin b then st_Origin a < st_Origin b
      else if st_HasMetadata a \<noteq> st_HasMetadata b then \<not> st_HasMetadata a \<and> st_HasMetadata b
      else False)"

definition mode_step :: "node_state \<Rightarrow> (node_state, int) gomap \<times> node_state \<times> int \<Rightarrow> (node_state, int) gomap \<times> node_state \<times> int" where
  "mode_step state = (\<lambda>(counts, topState, topCount).
     let counts = gm_put state (gm_getd 0 counts state + 1) counts;
         c = gm_getd 0 counts state
     in if c > topCount \<or> (c = topCount \<and> lessState state topState) then (counts, state, c)
        else (counts, topState, topCount))"

definition mostCommonState :: "(string, node_state) gomap \<Rightarrow> node_state \<times> int" where
  "mostCommonState nodes =
     (if nodes = [] then (zero_state, 0)
      else case fold mode_step (map snd nodes) ([], zero_state, 0) of (_, topState, topCount) \<Rightarrow> (topState, topCount))"

text \<open>One round of the loop over the sorted snapshots; \<open>next\<close> is the time of the following snapshot.\<close>

definition stale_step :: "node_state \<Rightarrow> int \<Rightarrow> string \<times> node_state \<Rightarrow> (string, int) gomap \<Rightarrow> (string, int) gomap" where
  "stale_step mode delta = (\<lambda>(nodeID, nodeState) stale.
     if nodeState \<noteq> mode then gm_put nodeID (wrap64 (gm_getd 0 stale nodeID + delta)) stale else stale)"

definition compute_step :: "snapshot \<Rightarrow> int option \<Rightarrow> metrics_result \<Rightarrow> metrics_result" where
  "compute_step snap nxt r =
     (case mostCommonState (sn_Nodes snap) of (mode, modeCount) \<Rightarrow>
      let nodes = sn_Nodes snap;
          divergence = int (length nodes) - modeCount;
          quorum = int (length nodes) div 2 + 1;
          r = r\<lparr>mr_DivergenceOverTime := mr_DivergenceOverTime r @ [\<lparr>dp_Time = sn_Time snap, dp_Divergence = divergence\<rparr>]\<rparr>;
          r = (if divergence > mr_PeakDivergence r then r\<lparr>mr_PeakDivergence := divergence\<rparr> else r);
          r = (if divergence = 0 \<and> mr_ConvergenceTime r = None \<and> allNodesExist nodes
               then r\<lparr>mr_ConvergenceTime := Some (sn_Time snap)\<rparr> else r);
          r = (if mr_FirstAgreementTime r = None \<and> modeCount \<ge> quorum \<and> quorum > 0
               then r\<lparr>mr_FirstAgreementTime := Some (sn_Time snap)\<rparr> else r)
      in case nxt of
           None \<Rightarrow> r
         | Some t \<Rightarrow>
             let delta = wrap64 (t - sn_Time snap);
                 delta = (if delta < 0 then 0 else delta)
             in r\<lparr>mr_AreaUnderDivergence := wrap64 (mr_AreaUnderDivergence r + wrap64 (divergence * delta)),
                  mr_StaleDurationPerNode := fold (stale_step mode delta) nodes (mr_StaleDurationPerNode r)\<rparr>)"

fun compute_loop :: "snapshot list \<Rightarrow> metrics_result \<Rightarrow> metrics_result" where
  "compute_loop [] r = r"
| "compute_loop [s] r = compute_step s None r"
| "compute_loop (s # s' # ss) r = compute_loop (s' # ss) (compute_step s (Some (sn_Time s')) r)"

definition Compute :: "snapshot list \<Rightarrow> metrics_result" where
  "Compute snapshots =
     (if snapshots = [] then empty_result
      else let ordered = sort_key sn_Time snapshots;
               r = compute_loop ordered empty_result
           in r\<lparr>mr_FinalConsistent := (dp_Divergence (last (mr_DivergenceOverTime r)) = 0
                 \<and> allNodesExist (sn_Nodes (last ordered)))\<rparr>)"

section \<open>The most common state\<close>

lemma lessState_irrefl [simp]: "\<not> lessState a a"
  by (simp add: lessState_def)

lemma lessState_trans: "lessState a b \<Longrightarrow> lessState b c \<Longrightarrow> lessState a c"
  by (auto simp: lessState_def split: if_splits)

lemma lessState_total:
  "\<not> lessState a b \<Longrightarrow> \<not> lessState b a \<Longrightarrow> st_Exists a = st_Exists b \<Longrightarrow> a = b"
  by (auto simp: lessState_def split: if_splits)

text \<open>What the loop knows after the states \<open>xs\<close>.\<close>

definition mode_inv :: "node_state list \<Rightarrow> (node_state, int) gomap \<times> node_state \<times> int \<Rightarrow> bool" where
  "mode_inv xs = (\<lambda>(counts, t, c).
     (\<forall>s. gm_getd 0 counts s = int (count_list xs s)) \<and> (\<forall>s. int (count_list xs s) \<le> c)
     \<and> (if xs = [] then c = 0 else int (count_list xs t) = c) \<and> (\<forall>s \<in> set xs. int (count_list xs s) = c \<longrightarrow> \<not> lessState s t))"

lemma mode_inv_step:
  assumes "mode_inv xs (counts, t, c)"
  shows "mode_inv (xs @ [s]) (mode_step s (counts, t, c))"
proof -
  let ?n = "int (count_list xs s) + 1"
  have cnt: "gm_getd 0 (gm_put s ?n counts) u = int (count_list (xs @ [s]) u)" for u
    using assms by (simp add: mode_inv_def)
  have getd: "gm_getd 0 counts s = int (count_list xs s)" using assms by (simp add: mode_inv_def)
  have le: "int (count_list xs u) \<le> c" for u using assms by (simp add: mode_inv_def)
  have top: "if xs = [] then c = 0 else int (count_list xs t) = c" using assms by (simp add: mode_inv_def)
  have least: "u \<in> set xs \<Longrightarrow> int (count_list xs u) = c \<Longrightarrow> \<not> lessState u t" for u
    using assms by (simp add: mode_inv_def)
  consider (more) "?n > c" | (less) "?n = c" "lessState s t" | (keep) "?n \<le> c" "\<not> (?n = c \<and> lessState s t)" by linarith
  then show ?thesis
  proof cases
    case more
    have "int (count_list xs u) < ?n" "int (count_list xs u) \<noteq> ?n" for u using le [of u] more by simp_all
    then show ?thesis using more cnt getd by (auto simp: mode_step_def mode_inv_def Let_def less_imp_le)
  next
    case less
    have "\<not> lessState u s" if "u \<in> set xs" "int (count_list xs u) = c" for u
      using least [OF that] less(2) lessState_trans by blast
    then show ?thesis using less cnt getd le by (auto simp: mode_step_def mode_inv_def Let_def)
  next
    case keep
    then have ne: "xs \<noteq> []" and st: "s \<noteq> t" using top by (auto split: if_splits)
    then show ?thesis using keep cnt getd le top least by (auto simp: mode_step_def mode_inv_def Let_def)
  qed
qed

lemma mode_inv_fold: "mode_inv xs (fold mode_step xs ([], zero_state, 0))"
proof (induction xs rule: rev_induct)
  case (snoc s xs)
  obtain counts t c where "fold mode_step xs ([], zero_state, 0) = (counts, t, c)" by (cases "fold mode_step xs ([], zero_state, 0)")
  with snoc mode_inv_step show ?case by simp
qed (simp add: mode_inv_def)

lemma mode_fold:
  assumes "mostCommonState nodes = (t, c)"
  shows "\<exists>counts t'. mode_inv (map snd nodes) (counts, t', c) \<and> (nodes \<noteq> [] \<longrightarrow> t' = t)"
  using mode_inv_fold [of "map snd nodes"] assms by (auto simp: mostCommonState_def split: prod.splits if_splits)

lemma most_common_facts:
  assumes "mostCommonState nodes = (t, c)"
  shows "int (count_list (map snd nodes) t) = c" "int (count_list (map snd nodes) s) \<le> c"
    and "s \<in> snd ` set nodes \<Longrightarrow> int (count_list (map snd nodes) s) = c \<Longrightarrow> \<not> lessState s t"
    and "nodes \<noteq> [] \<Longrightarrow> t \<in> snd ` set nodes"
proof -
  obtain counts t' where inv: "mode_inv (map snd nodes) (counts, t', c)" and t: "nodes \<noteq> [] \<Longrightarrow> t' = t"
    using mode_fold [OF assms] by blast
  show cnt: "int (count_list (map snd nodes) t) = c" using inv t by (cases "nodes = []") (simp_all add: mode_inv_def)
  show le: "int (count_list (map snd nodes) s) \<le> c" for s using inv by (simp add: mode_inv_def)
  show "s \<in> snd ` set nodes \<Longrightarrow> int (count_list (map snd nodes) s) = c \<Longrightarrow> \<not> lessState s t"
    using inv t by (cases "nodes = []") (auto simp: mode_inv_def)
  show "t \<in> snd ` set nodes" if ne: "nodes \<noteq> []"
  proof -
    obtain x where "x \<in> set nodes" using ne by (cases nodes) auto
    then have "snd x \<in> set (map snd nodes)" by simp
    then have "count_list (map snd nodes) (snd x) \<noteq> 0" by (metis count_list_0_iff)
    then have "count_list (map snd nodes) t \<noteq> 0" using le [of "snd x"] cnt by simp
    then have "t \<in> set (map snd nodes)" by (metis count_list_0_iff)
    then show ?thesis by simp
  qed
qed

text \<open>
  The one-pass mode.  For a non-empty map \<open>mostCommonState\<close> returns a state of the map that
  occurs most often, with the number of its occurrences, and among the states that occur as
  often the least in the order of \<open>lessState\<close>; so the result does not depend on the iteration
  order, unless two states that differ only in \<open>Exists\<close> tie.
\<close>

theorem most_common_state:
  assumes "nodes \<noteq> []" "mostCommonState nodes = (t, c)"
  shows "t \<in> snd ` set nodes \<and> c = int (count_list (map snd nodes) t)
    \<and> (\<forall>s. int (count_list (map snd nodes) s) \<le> c)
    \<and> (\<forall>s \<in> snd ` set nodes. int (count_list (map snd nodes) s) = c \<longrightarrow> \<not> lessState s t)
    \<and> (mset nodes' = mset nodes \<and> mostCommonState nodes' = (t', c') \<longrightarrow>
         c' = c \<and> (st_Exists t' = st_Exists t \<longrightarrow> t' = t))"
proof -
  have "c' = c \<and> (st_Exists t' = st_Exists t \<longrightarrow> t' = t)"
    if m: "mset nodes' = mset nodes" and r: "mostCommonState nodes' = (t', c')"
  proof -
    have cnt: "count_list (map snd nodes') s = count_list (map snd nodes) s" for s
      using m by (metis count_mset mset_map)
    have vals: "snd ` set nodes' = snd ` set nodes" using m by (metis set_mset_mset)
    have ne: "nodes' \<noteq> []" using m assms(1) by auto
    have c: "c' = c"
      using most_common_facts(1,2) [OF assms(2)] most_common_facts(1,2) [OF r] cnt by (metis order_antisym)
    have "\<not> lessState t' t" "\<not> lessState t t'"
      using most_common_facts(1,3,4) [OF assms(2)] most_common_facts(1,3,4) [OF r] assms(1) ne cnt vals c by metis+
    then show ?thesis using c lessState_total by blast
  qed
  then show ?thesis
    using most_common_facts [OF assms(2)] assms(1) by (auto simp del: count_list_0_iff)
qed

theorem most_common_state_witness:
  "fst (mostCommonState [(''a'', zero_state), (''b'', zero_state\<lparr>st_Version := 3\<rparr>), (''c'', zero_state)]) \<in> {zero_state, zero_state\<lparr>st_Version := 3\<rparr>}"
proof -
  let ?n = "[(''a'', zero_state), (''b'', zero_state\<lparr>st_Version := 3\<rparr>), (''c'', zero_state)]"
  have "fst (mostCommonState ?n) \<in> snd ` set ?n"
    by (rule most_common_state [OF _ prod.collapse [symmetric], THEN conjunct1]) simp
  then show ?thesis by auto
qed

section \<open>What the results mean\<close>

text \<open>All nodes hold one and the same existing state; more than half of the nodes hold the same state.\<close>

definition agreed :: "snapshot \<Rightarrow> bool" where
  "agreed s \<longleftrightarrow> sn_Nodes s \<noteq> [] \<and> (\<exists>x. st_Exists x \<and> snd ` set (sn_Nodes s) \<subseteq> {x})"

definition majority :: "snapshot \<Rightarrow> bool" where
  "majority s \<longleftrightarrow> (\<exists>x. 2 * count_list (map snd (sn_Nodes s)) x > length (sn_Nodes s))"

definition divergence_of :: "snapshot \<Rightarrow> int" where
  "divergence_of s = int (length (sn_Nodes s)) - snd (mostCommonState (sn_Nodes s))"

lemma count_filter_compl: "length xs = count_list xs t + length (filter (\<lambda>x. x \<noteq> t) xs)"
  by (induction xs) auto

lemma divergence_filter:
  "divergence_of s = int (length (filter (\<lambda>x. x \<noteq> fst (mostCommonState (sn_Nodes s))) (map snd (sn_Nodes s))))"
proof -
  obtain t c where m: "mostCommonState (sn_Nodes s) = (t, c)" by force
  show ?thesis
    using most_common_facts(1) [OF m] count_filter_compl [of "map snd (sn_Nodes s)" t] by (simp add: divergence_of_def m)
qed

lemma divergence_nonneg: "0 \<le> divergence_of s"
  by (simp add: divergence_filter)

lemma agreed_alt: "divergence_of s = 0 \<and> allNodesExist (sn_Nodes s) \<longleftrightarrow> agreed s"
proof -
  obtain t c where m: "mostCommonState (sn_Nodes s) = (t, c)" by force
  have d: "divergence_of s = 0 \<longleftrightarrow> snd ` set (sn_Nodes s) \<subseteq> {t}"
    by (auto simp: divergence_filter m filter_empty_conv)
  have t: "sn_Nodes s \<noteq> [] \<Longrightarrow> t \<in> snd ` set (sn_Nodes s)" by (rule most_common_facts(4) [OF m])
  have e: "allNodesExist (sn_Nodes s) \<longleftrightarrow> sn_Nodes s \<noteq> [] \<and> (\<forall>x \<in> snd ` set (sn_Nodes s). st_Exists x)"
    by (auto simp: allNodesExist_def list_all_iff)
  show ?thesis unfolding d e agreed_def using t by blast
qed

lemma majority_alt: "int (length (sn_Nodes s)) div 2 + 1 \<le> snd (mostCommonState (sn_Nodes s)) \<longleftrightarrow> majority s"
proof -
  obtain t c where m: "mostCommonState (sn_Nodes s) = (t, c)" by force
  have "int (length (sn_Nodes s)) div 2 + 1 \<le> c \<longleftrightarrow> int (length (sn_Nodes s)) < 2 * c" by linarith
  also have "\<dots> \<longleftrightarrow> majority s"
  proof
    assume "int (length (sn_Nodes s)) < 2 * c"
    then have "length (sn_Nodes s) < 2 * count_list (map snd (sn_Nodes s)) t" using most_common_facts(1) [OF m] by linarith
    then show "majority s" unfolding majority_def by blast
  next
    assume "majority s"
    then obtain x where "length (sn_Nodes s) < 2 * count_list (map snd (sn_Nodes s)) x" unfolding majority_def by blast
    then show "int (length (sn_Nodes s)) < 2 * c" using most_common_facts(2) [OF m, of x] by linarith
  qed
  finally show ?thesis by (simp add: m)
qed

lemma compute_step_fields:
  "mr_DivergenceOverTime (compute_step s n r) = mr_DivergenceOverTime r @ [\<lparr>dp_Time = sn_Time s, dp_Divergence = divergence_of s\<rparr>]"
  "mr_PeakDivergence (compute_step s n r) = max (mr_PeakDivergence r) (divergence_of s)"
  "mr_ConvergenceTime (compute_step s n r) = (if mr_ConvergenceTime r = None \<and> agreed s then Some (sn_Time s) else mr_ConvergenceTime r)"
  "mr_FirstAgreementTime (compute_step s n r) = (if mr_FirstAgreementTime r = None \<and> majority s then Some (sn_Time s) else mr_FirstAgreementTime r)"
  unfolding agreed_alt [symmetric] majority_alt [symmetric] divergence_of_def
  by (auto simp: compute_step_def Let_def split: prod.splits option.splits)

lemma compute_loop_fields:
  "mr_DivergenceOverTime (compute_loop ss r) = mr_DivergenceOverTime r @ map (\<lambda>s. \<lparr>dp_Time = sn_Time s, dp_Divergence = divergence_of s\<rparr>) ss"
  "mr_PeakDivergence (compute_loop ss r) = fold (\<lambda>s p. max p (divergence_of s)) ss (mr_PeakDivergence r)"
  "mr_ConvergenceTime (compute_loop ss r) =
     (case mr_ConvergenceTime r of None \<Rightarrow> map_option sn_Time (find agreed ss) | Some t \<Rightarrow> Some t)"
  "mr_FirstAgreementTime (compute_loop ss r) =
     (case mr_FirstAgreementTime r of None \<Rightarrow> map_option sn_Time (find majority ss) | Some t \<Rightarrow> Some t)"
  by (induction ss r rule: compute_loop.induct) (auto simp: compute_step_fields split: option.splits)

text \<open>
  C23: The metrics mean what they say.  Whatever the order of the snapshots, the convergence time is
  the earliest time at which all nodes held one existing state, the first agreement time the
  earliest with a strict majority, both absent when there is none; the divergence series gives
  for each snapshot in time order the number of nodes outside the most common state, the peak is
  its maximum, and the run is finally consistent when the last snapshot agrees.
\<close>

theorem metrics_meaning:
  assumes "ss \<noteq> []"
  shows "mr_ConvergenceTime (Compute ss) =
       (if \<exists>s \<in> set ss. agreed s then Some (Min (sn_Time ` {s \<in> set ss. agreed s})) else None)
    \<and> mr_FirstAgreementTime (Compute ss) =
       (if \<exists>s \<in> set ss. majority s then Some (Min (sn_Time ` {s \<in> set ss. majority s})) else None)
    \<and> mr_DivergenceOverTime (Compute ss) = map (\<lambda>s. \<lparr>dp_Time = sn_Time s, dp_Divergence = divergence_of s\<rparr>) (sort_key sn_Time ss)
    \<and> mr_PeakDivergence (Compute ss) = Max (divergence_of ` set ss)
    \<and> mr_FinalConsistent (Compute ss) = agreed (last (sort_key sn_Time ss))"
proof -
  let ?o = "sort_key sn_Time ss" and ?r = "compute_loop (sort_key sn_Time ss) empty_result"
  have o: "sorted (map sn_Time ?o)" "set ?o = set ss" by simp_all
  have ne: "?o \<noteq> []" using assms by (metis length_0_conv length_sort)
  have C: "Compute ss = ?r\<lparr>mr_FinalConsistent := dp_Divergence (last (mr_DivergenceOverTime ?r)) = 0 \<and> allNodesExist (sn_Nodes (last ?o))\<rparr>"
    using assms by (simp add: Compute_def Let_def)
  have pk: "fold (\<lambda>s p. max p (divergence_of s)) xs p = Max (insert p (divergence_of ` set xs))" for xs p
    using Max.set_eq_fold [of p "map divergence_of xs"] by (simp add: fold_map comp_def max.commute [of _ "divergence_of _"])
  have peak: "Max (insert 0 (divergence_of ` set ss)) = Max (divergence_of ` set ss)"
  proof -
    obtain x where "x \<in> set ss" using assms by (cases ss) auto
    then have "0 \<le> Max (divergence_of ` set ss)" using divergence_nonneg [of x] by (auto intro: order_trans Max_ge)
    then show ?thesis using assms by simp
  qed
  have "mr_DivergenceOverTime ?r = map (\<lambda>s. \<lparr>dp_Time = sn_Time s, dp_Divergence = divergence_of s\<rparr>) ?o"
    by (simp add: compute_loop_fields empty_result_def)
  moreover from this have "dp_Divergence (last (mr_DivergenceOverTime ?r)) = divergence_of (last ?o)"
    using ne by (simp add: last_map)
  moreover have "mr_PeakDivergence ?r = Max (divergence_of ` set ss)"
    unfolding compute_loop_fields pk o(2) by (simp add: empty_result_def peak)
  moreover have "mr_ConvergenceTime ?r = map_option sn_Time (find agreed ?o)"
    "mr_FirstAgreementTime ?r = map_option sn_Time (find majority ?o)"
    by (simp_all add: compute_loop_fields empty_result_def)
  ultimately show ?thesis
    unfolding find_sorted_Min [OF o(1)] o(2) using agreed_alt [of "last ?o"] by (simp add: C)
qed

definition demo_snapshots :: "snapshot list" where
  "demo_snapshots =
     [\<lparr>sn_Time = 10, sn_Nodes = [(''a'', zero_state\<lparr>st_Exists := True\<rparr>), (''b'', zero_state\<lparr>st_Exists := True\<rparr>)]\<rparr>,
      \<lparr>sn_Time = 0, sn_Nodes = [(''a'', zero_state\<lparr>st_Exists := True\<rparr>), (''b'', zero_state)]\<rparr>]"

theorem metrics_meaning_witness: "mr_ConvergenceTime (Compute demo_snapshots) = Some 10"
proof -
  have "demo_snapshots \<noteq> []" by (simp add: demo_snapshots_def)
  from metrics_meaning [OF this, THEN conjunct1]
  have "mr_ConvergenceTime (Compute demo_snapshots) =
    (if \<exists>s \<in> set demo_snapshots. agreed s then Some (Min (sn_Time ` {s \<in> set demo_snapshots. agreed s})) else None)" .
  moreover have "{s \<in> set demo_snapshots. agreed s} = {hd demo_snapshots}"
    by (auto simp: demo_snapshots_def agreed_def zero_state_def)
  moreover have "\<exists>s \<in> set demo_snapshots. agreed s" by (auto simp: demo_snapshots_def agreed_def)
  ultimately show ?thesis by (simp add: demo_snapshots_def)
qed

section \<open>Stale time and the area under the divergence curve\<close>

definition total :: "(string, int) gomap \<Rightarrow> int" where
  "total m = sum_list (map snd m)"

lemma total_put: "total (gm_put k v m) = total m - gm_getd 0 m k + v"
  by (induction m) (auto simp: total_def gm_put_def gm_getd_def)

lemma stale_fold_total:
  "wrap64 (total (fold (stale_step mode d) nodes m)) =
     wrap64 (total m + int (length (filter (\<lambda>x. x \<noteq> mode) (map snd nodes))) * d)"
proof (induction nodes arbitrary: m)
  case (Cons p nodes)
  obtain i x where p: "p = (i, x)" by force
  have "wrap64 (total (gm_put i (wrap64 (gm_getd 0 m i + d)) m) + y) = wrap64 (total m + d + y)" for y
    using wrap64_add(2) [of "total m - gm_getd 0 m i + y" "gm_getd 0 m i + d"]
    by (simp add: total_put algebra_simps)
  note put = this
  have "stale_step mode d (i, x) m = (if x \<noteq> mode then gm_put i (wrap64 (gm_getd 0 m i + d)) m else m)"
    by (simp add: stale_step_def)
  then show ?case by (cases "x = mode") (simp_all add: p Cons.IH put distrib_right add.assoc)
qed simp

definition stale_balance :: "metrics_result \<Rightarrow> bool" where
  "stale_balance r \<longleftrightarrow> wrap64 (total (mr_StaleDurationPerNode r)) = wrap64 (mr_AreaUnderDivergence r)"

lemma compute_step_balance:
  assumes "stale_balance r"
  shows "stale_balance (compute_step s n r)"
proof -
  obtain t c where m: "mostCommonState (sn_Nodes s) = (t, c)" by force
  have d: "int (length (sn_Nodes s)) - c = int (length (filter (\<lambda>x. x \<noteq> t) (map snd (sn_Nodes s))))"
    using divergence_filter [of s] by (simp add: divergence_of_def m)
  have bal: "wrap64 (total (mr_StaleDurationPerNode r) + y) = wrap64 (mr_AreaUnderDivergence r + y)" for y
    using wrap64_add(1) [of "total (mr_StaleDurationPerNode r)" y] wrap64_add(1) [of "mr_AreaUnderDivergence r" y] assms
    by (simp add: stale_balance_def)
  show ?thesis
    using assms
    by (auto simp: compute_step_def m d Let_def stale_balance_def stale_fold_total wrap64_add bal split: option.splits)
qed

lemma compute_loop_balance: "stale_balance r \<Longrightarrow> stale_balance (compute_loop ss r)"
  by (induction ss r rule: compute_loop.induct) (simp_all add: compute_step_balance)

text \<open>
  Conservation of stale time: the stale durations of all nodes add up, in \<open>int64\<close> arithmetic, to
  the area under the divergence curve, for every list of snapshots.
\<close>

theorem stale_time_is_area:
  "wrap64 (sum_list (map snd (mr_StaleDurationPerNode (Compute ss)))) = wrap64 (mr_AreaUnderDivergence (Compute ss))"
proof -
  have "stale_balance empty_result" by (simp add: stale_balance_def empty_result_def total_def)
  then have "stale_balance (compute_loop (sort_key sn_Time ss) empty_result)" by (rule compute_loop_balance)
  then show ?thesis by (auto simp: Compute_def Let_def stale_balance_def total_def empty_result_def)
qed

end
