(* ===== verification/MetricsSessions.thy ===== *)
theory MetricsSessions
  imports Metrics GoStrings
begin

text \<open>
  The in-memory metrics sessions of the control plane (\<open>internal/metrics/session_manager.go\<close>): per
  cluster a history of sessions, of which only the last can be active.  Each method runs under the
  manager's lock and is one step; a session reached through a pointer is updated in place, here at
  the end of its history.  Times are nanoseconds.

  Shown: the history stays bounded and has at most its last session active, for every sequence of
  calls; what is recorded is exactly what the results are computed from; and the convergence
  curve counts the distinct versions the nodes hold.
\<close>

section \<open>Data\<close>

record session_stats =
  ss_TotalRPCs :: u64
  ss_TotalWrites :: u64
  ss_RecentKeys :: "string list"

record metrics_session =
  ms_ClusterID :: string
  ms_StartedAt :: int
  ms_StoppedAt :: "int option"
  ms_trackedKeys :: "(string, unit) gomap"
  ms_snapshots :: "(string, snapshot list) gomap"
  ms_timeline :: "(string, timeline_event list) gomap"
  ms_Stats :: session_stats

record session_snapshot =
  sv_ClusterID :: string
  sv_StartedAt :: int
  sv_StoppedAt :: "int option"
  sv_TrackedKeys :: "string list"
  sv_Stats :: session_stats

type_synonym session_manager = "(string, metrics_session list) gomap"

datatype session_error =
  ClusterIDRequired
| SessionActive string
| NoSession string
| AlreadyStopped string
| SessionStopped string
| SessionNotFound

section \<open>Life cycle\<close>

definition NewSessionManager :: session_manager where
  "NewSessionManager = []"

definition new_session :: "string \<Rightarrow> int \<Rightarrow> metrics_session" where
  "new_session clusterID now = \<lparr>ms_ClusterID = clusterID, ms_StartedAt = now, ms_StoppedAt = None, ms_trackedKeys = [],
     ms_snapshots = [], ms_timeline = [], ms_Stats = \<lparr>ss_TotalRPCs = 0, ss_TotalWrites = 0, ss_RecentKeys = []\<rparr>\<rparr>"

definition session_Start :: "string \<Rightarrow> int \<Rightarrow> session_manager \<Rightarrow> session_manager \<times> session_error option" where
  "session_Start clusterID now m =
     (let c = trim_space clusterID in
      if c = [] then (m, Some ClusterIDRequired)
      else let history = gm_getd [] m c in
        if history \<noteq> [] \<and> ms_StoppedAt (last history) = None then (m, Some (SessionActive c))
        else let history = (if length history \<ge> 50 then tl history else history)
             in (gm_put c (history @ [new_session c now]) m, None))"

text \<open>A change of the latest session of a history, through the pointer to it.\<close>

definition upd_last :: "('a \<Rightarrow> 'a) \<Rightarrow> 'a list \<Rightarrow> 'a list" where
  "upd_last f history = butlast history @ [f (last history)]"

definition session_Stop :: "string \<Rightarrow> int \<Rightarrow> session_manager \<Rightarrow> session_manager \<times> session_error option" where
  "session_Stop clusterID now m =
     (let c = trim_space clusterID in
      if c = [] then (m, Some ClusterIDRequired)
      else let history = gm_getd [] m c in
        if history = [] then (m, Some (NoSession c))
        else if ms_StoppedAt (last history) \<noteq> None then (m, Some (AlreadyStopped c))
        else (gm_put c (upd_last (\<lambda>s. s\<lparr>ms_StoppedAt := Some now\<rparr>) history) m, None))"

definition UpdateSessionStats :: "string \<Rightarrow> session_stats \<Rightarrow> session_manager \<Rightarrow> session_manager" where
  "UpdateSessionStats clusterID stats m =
     (let history = gm_getd [] m clusterID in
      if history \<noteq> [] then gm_put clusterID (upd_last (\<lambda>s. s\<lparr>ms_Stats := stats\<rparr>) history) m else m)"

definition IsActive :: "string \<Rightarrow> session_manager \<Rightarrow> bool" where
  "IsActive clusterID m =
     (let history = gm_getd [] m (trim_space clusterID) in history \<noteq> [] \<and> ms_StoppedAt (last history) = None)"

section \<open>Recording\<close>

text \<open>The guard the three recording methods share: the latest session of the cluster, if active.\<close>

definition active_session :: "string \<Rightarrow> session_manager \<Rightarrow> session_error + metrics_session" where
  "active_session c m =
     (let history = gm_getd [] m c in
      if history = [] then Inl (NoSession c)
      else if ms_StoppedAt (last history) \<noteq> None then Inl (SessionStopped c)
      else Inr (last history))"

text \<open>\<open>if _, exists := m[key]; !exists { m[key] = []T{} }\<close>\<close>

definition ensure_key :: "string \<Rightarrow> (string, 'a list) gomap \<Rightarrow> (string, 'a list) gomap" where
  "ensure_key key m = (if map_of m key = None then gm_put key [] m else m)"

definition TrackKey :: "string \<Rightarrow> string \<Rightarrow> session_manager \<Rightarrow> session_manager \<times> session_error option" where
  "TrackKey clusterID key m =
     (let c = trim_space clusterID; k = trim_space key in
      case active_session c m of
        Inl e \<Rightarrow> (m, Some e)
      | Inr _ \<Rightarrow> (gm_put c (upd_last (\<lambda>s. s\<lparr>ms_trackedKeys := gm_put k () (ms_trackedKeys s),
            ms_snapshots := ensure_key k (ms_snapshots s), ms_timeline := ensure_key k (ms_timeline s)\<rparr>) (gm_getd [] m c)) m, None))"

definition since_start :: "int \<Rightarrow> metrics_session \<Rightarrow> int" where
  "since_start observedAt s = (let t = time_sub observedAt (ms_StartedAt s) in if t < 0 then 0 else t)"

definition add_event :: "string \<Rightarrow> int \<Rightarrow> timeline_event \<Rightarrow> metrics_session \<Rightarrow> metrics_session" where
  "add_event k observedAt event s =
     (let tl = ensure_key k (ms_timeline s)
      in s\<lparr>ms_trackedKeys := gm_put k () (ms_trackedKeys s),
           ms_timeline := gm_put k (gm_getd [] tl k @ [event\<lparr>te_Time := since_start observedAt s\<rparr>]) tl\<rparr>)"

definition RecordTimelineEvent :: "string \<Rightarrow> string \<Rightarrow> int \<Rightarrow> timeline_event \<Rightarrow> session_manager \<Rightarrow> session_manager \<times> session_error option" where
  "RecordTimelineEvent clusterID key observedAt event m =
     (let c = trim_space clusterID; k = trim_space key in
      case active_session c m of
        Inl e \<Rightarrow> (m, Some e)
      | Inr _ \<Rightarrow> (gm_put c (upd_last (add_event k observedAt event) (gm_getd [] m c)) m, None))"

definition add_snapshot :: "string \<Rightarrow> int \<Rightarrow> (string, node_state) gomap \<Rightarrow> metrics_session \<Rightarrow> metrics_session" where
  "add_snapshot k observedAt nodes s =
     (let sn = ensure_key k (ms_snapshots s)
      in s\<lparr>ms_trackedKeys := gm_put k () (ms_trackedKeys s),
           ms_snapshots := gm_put k (gm_getd [] sn k @ [\<lparr>sn_Time = since_start observedAt s, sn_Nodes = gm_copy nodes\<rparr>]) sn\<rparr>)"

definition RecordSnapshot :: "string \<Rightarrow> string \<Rightarrow> int \<Rightarrow> (string, node_state) gomap \<Rightarrow> session_manager \<Rightarrow> session_manager \<times> session_error option" where
  "RecordSnapshot clusterID key observedAt nodes m =
     (let c = trim_space clusterID; k = trim_space key in
      case active_session c m of
        Inl e \<Rightarrow> (m, Some e)
      | Inr _ \<Rightarrow> (gm_put c (upd_last (add_snapshot k observedAt nodes) (gm_getd [] m c)) m, None))"

section \<open>Views and results\<close>

definition session_view :: "metrics_session \<Rightarrow> session_snapshot" where
  "session_view s = \<lparr>sv_ClusterID = ms_ClusterID s, sv_StartedAt = ms_StartedAt s, sv_StoppedAt = ms_StoppedAt s,
     sv_TrackedKeys = sort (gm_keys (ms_trackedKeys s)), sv_Stats = ms_Stats s\<rparr>"

definition GetSession :: "string \<Rightarrow> session_manager \<Rightarrow> session_error + session_snapshot" where
  "GetSession clusterID m =
     (let c = trim_space clusterID; history = gm_getd [] m c in
      if history = [] then Inl (NoSession c) else Inr (session_view (last history)))"

definition GetHistory :: "string \<Rightarrow> session_manager \<Rightarrow> session_snapshot list" where
  "GetHistory clusterID m = map session_view (gm_getd [] m clusterID)"

definition event_text :: "timeline_event \<Rightarrow> string" where
  "event_text e = te_Value e @ ''|'' @ te_Origin e @ ''|'' @ show_int (te_Version e)"

fun curve_loop :: "timeline_event list \<Rightarrow> (string, string) gomap \<Rightarrow> divergence_point list" where
  "curve_loop [] nodeValues = []"
| "curve_loop (e # es) nodeValues =
     (let nodeValues = gm_put (te_NodeID e) (event_text e) nodeValues;
          seen = gm_mark (map snd nodeValues) []
      in \<lparr>dp_Time = te_Time e, dp_Divergence = int (length seen)\<rparr> # curve_loop es nodeValues)"

definition computeConvergenceCurve :: "timeline_event list \<Rightarrow> divergence_point list" where
  "computeConvergenceCurve events = (if events = [] then [] else curve_loop (sort_key te_Time events) [])"

definition key_result :: "metrics_session \<Rightarrow> string \<Rightarrow> metrics_result" where
  "key_result s key =
     (Compute (gm_getd [] (ms_snapshots s) key))\<lparr>mr_Timeline := gm_getd [] (ms_timeline s) key,
        mr_ConvergenceCurve := computeConvergenceCurve (gm_getd [] (ms_timeline s) key)\<rparr>"

definition ComputeKeyResult :: "string \<Rightarrow> string \<Rightarrow> session_manager \<Rightarrow> session_error + metrics_result" where
  "ComputeKeyResult clusterID key m =
     (let history = gm_getd [] m clusterID in
      if history = [] then Inl (NoSession clusterID) else Inr (key_result (last history) key))"

definition all_results :: "metrics_session \<Rightarrow> (string, metrics_result) gomap" where
  "all_results s =
     (let allKeys = gm_mark (gm_keys (ms_timeline s)) (gm_mark (gm_keys (ms_snapshots s)) [])
      in fold (\<lambda>key out. gm_put key (key_result s key) out) (gm_keys allKeys) [])"

definition ComputeResultsBySessionID :: "string \<Rightarrow> int \<Rightarrow> session_manager \<Rightarrow> session_error + (string, metrics_result) gomap" where
  "ComputeResultsBySessionID clusterID sessionIdx m =
     (let history = gm_getd [] m clusterID in
      if map_of m clusterID = None \<or> sessionIdx < 0 \<or> sessionIdx \<ge> int (length history) then Inl SessionNotFound
      else Inr (all_results (history ! nat sessionIdx)))"

definition ComputeAllResults :: "string \<Rightarrow> session_manager \<Rightarrow> session_error + (string, metrics_result) gomap" where
  "ComputeAllResults clusterID m =
     (let history = gm_getd [] m clusterID in
      if history = [] then Inl (NoSession clusterID) else Inr (all_results (last history)))"

section \<open>The calls as steps\<close>

datatype session_op =
  DoStart string int
| DoStop string int
| DoStats string session_stats
| DoTrack string string
| DoEvent string string int timeline_event
| DoSnapshot string string int "(string, node_state) gomap"

fun session_step :: "session_op \<Rightarrow> session_manager \<Rightarrow> session_manager" where
  "session_step (DoStart c now) m = fst (session_Start c now m)"
| "session_step (DoStop c now) m = fst (session_Stop c now m)"
| "session_step (DoStats c st) m = UpdateSessionStats c st m"
| "session_step (DoTrack c k) m = fst (TrackKey c k m)"
| "session_step (DoEvent c k t e) m = fst (RecordTimelineEvent c k t e m)"
| "session_step (DoSnapshot c k t ns) m = fst (RecordSnapshot c k t ns m)"

text \<open>
  A session of cluster \<open>c\<close>: recorded keys are tracked, recorded times are not negative.  A history
  has at most 50 sessions, all of them of its cluster, and all but the last are stopped.
\<close>

definition session_wf :: "string \<Rightarrow> metrics_session \<Rightarrow> bool" where
  "session_wf c s \<longleftrightarrow> ms_ClusterID s = c
     \<and> dom (map_of (ms_snapshots s)) \<union> dom (map_of (ms_timeline s)) \<subseteq> dom (map_of (ms_trackedKeys s))
     \<and> list_all (\<lambda>(k, l). list_all (\<lambda>x. 0 \<le> sn_Time x) l) (ms_snapshots s)
     \<and> list_all (\<lambda>(k, l). list_all (\<lambda>x. 0 \<le> te_Time x) l) (ms_timeline s)"

definition history_ok :: "string \<times> metrics_session list \<Rightarrow> bool" where
  "history_ok = (\<lambda>(c, h). length h \<le> 50 \<and> list_all (session_wf c) h \<and> list_all (\<lambda>s. ms_StoppedAt s \<noteq> None) (butlast h))"

definition sessions_ok :: "session_manager \<Rightarrow> bool" where
  "sessions_ok m \<longleftrightarrow> gm_wf m \<and> list_all history_ok m"

lemma history_getd: "sessions_ok m \<Longrightarrow> history_ok (c, gm_getd [] m c)"
  using list_all_map_of [of history_ok m c]
  by (auto simp: sessions_ok_def gm_getd_def history_ok_def split: option.splits)

lemma last_wf: "history_ok (c, h) \<Longrightarrow> h \<noteq> [] \<Longrightarrow> session_wf c (last h)"
  by (auto simp: history_ok_def list_all_iff)

lemma upd_last_ok:
  assumes "sessions_ok m" "gm_getd [] m c \<noteq> []"
    and "session_wf c (last (gm_getd [] m c)) \<Longrightarrow> session_wf c (f (last (gm_getd [] m c)))"
  shows "sessions_ok (gm_put c (upd_last f (gm_getd [] m c)) m)"
proof -
  let ?h = "gm_getd [] m c"
  have h: "history_ok (c, ?h)" by (rule history_getd [OF assms(1)])
  have "length (upd_last f ?h) = length ?h" using assms(2) by (simp add: upd_last_def)
  moreover have "list_all (session_wf c) (butlast ?h)" using h by (auto simp: history_ok_def list_all_iff dest: in_set_butlastD)
  ultimately have "history_ok (c, upd_last f ?h)"
    using h assms(3) [OF last_wf [OF h assms(2)]] by (simp add: history_ok_def upd_last_def)
  then show ?thesis using assms(1) by (simp add: sessions_ok_def list_all_put)
qed

lemma since_start_nonneg: "0 \<le> since_start t s"
  by (simp add: since_start_def Let_def)

lemma ensure_key_props:
  "dom (map_of (ensure_key k m)) = insert k (dom (map_of m))"
  "list_all P m \<Longrightarrow> P (k, []) \<Longrightarrow> list_all P (ensure_key k m)"
  "gm_getd [] (ensure_key k m) k' = gm_getd [] m k'"
  by (auto simp: ensure_key_def list_all_put gm_getd_None)

lemma list_all_append_key:
  assumes "list_all (\<lambda>(k, l). list_all P l) m" "P x"
  shows "list_all (\<lambda>(k, l). list_all P l) (gm_put k (gm_getd [] m k @ [x]) m)"
proof -
  have "list_all P (gm_getd [] m k)"
    using list_all_map_of [OF assms(1), of k] by (auto simp: gm_getd_def split: option.splits)
  then show ?thesis using assms by (intro list_all_put) simp_all
qed

lemma session_wf_fields:
  "session_wf c (s\<lparr>ms_StoppedAt := x\<rparr>) = session_wf c s" "session_wf c (s\<lparr>ms_Stats := y\<rparr>) = session_wf c s"
  by (simp_all add: session_wf_def)

lemma session_wf_track:
  "session_wf c s \<Longrightarrow> session_wf c (s\<lparr>ms_trackedKeys := gm_put k () (ms_trackedKeys s),
     ms_snapshots := ensure_key k (ms_snapshots s), ms_timeline := ensure_key k (ms_timeline s)\<rparr>)"
  by (auto simp: session_wf_def dom_put ensure_key_props simp del: map_of_put dom_fun_upd)

lemma session_wf_event: "session_wf c s \<Longrightarrow> session_wf c (add_event k t e s)"
  using list_all_append_key [of "\<lambda>x. 0 \<le> te_Time x" "ensure_key k (ms_timeline s)" "e\<lparr>te_Time := since_start t s\<rparr>" k]
  by (auto simp: session_wf_def add_event_def Let_def dom_put ensure_key_props since_start_nonneg simp del: map_of_put dom_fun_upd)

lemma session_wf_snapshot: "session_wf c s \<Longrightarrow> session_wf c (add_snapshot k t ns s)"
  using list_all_append_key [of "\<lambda>x. 0 \<le> sn_Time x" "ensure_key k (ms_snapshots s)" "\<lparr>sn_Time = since_start t s, sn_Nodes = gm_copy ns\<rparr>" k]
  by (auto simp: session_wf_def add_snapshot_def Let_def dom_put ensure_key_props since_start_nonneg simp del: map_of_put dom_fun_upd)

lemma active_session_Inr:
  "active_session c m = Inr s \<longleftrightarrow> gm_getd [] m c \<noteq> [] \<and> ms_StoppedAt (last (gm_getd [] m c)) = None \<and> s = last (gm_getd [] m c)"
  by (auto simp: active_session_def Let_def)

lemma Start_ok:
  assumes "sessions_ok m"
  shows "sessions_ok (fst (session_Start cid now m))"
proof (cases "trim_space cid = [] \<or> (gm_getd [] m (trim_space cid) \<noteq> [] \<and> ms_StoppedAt (last (gm_getd [] m (trim_space cid))) = None)")
  case False
  define c where "c = trim_space cid"
  define h where "h = gm_getd [] m c"
  let ?h = "if length h \<ge> 50 then tl h else h"
  have ok: "history_ok (c, h)" unfolding h_def by (rule history_getd [OF assms])
  have stopped: "list_all (\<lambda>s. ms_StoppedAt s \<noteq> None) h"
    using ok False by (cases h rule: rev_cases) (auto simp: history_ok_def h_def c_def)
  have "length ?h + 1 \<le> 50" using ok by (auto simp: history_ok_def)
  moreover have "list_all (session_wf c) ?h" "list_all (\<lambda>s. ms_StoppedAt s \<noteq> None) ?h"
    using ok stopped by (cases h; simp add: history_ok_def)+
  moreover have "session_wf c (new_session c now)" by (simp add: session_wf_def new_session_def)
  ultimately have "history_ok (c, ?h @ [new_session c now])" by (simp add: history_ok_def)
  moreover have "fst (session_Start cid now m) = gm_put c (?h @ [new_session c now]) m"
    using False by (auto simp: session_Start_def Let_def c_def h_def)
  ultimately show ?thesis using assms by (simp only: sessions_ok_def) (simp add: list_all_put)
qed (use assms in \<open>auto simp: session_Start_def Let_def\<close>)

lemma session_step_ok:
  assumes "sessions_ok m"
  shows "sessions_ok (session_step x m)"
proof (cases x)
  case (DoStart c now)
  then show ?thesis using Start_ok [OF assms] by simp
next
  case (DoStop c now)
  then show ?thesis using assms by (auto simp: session_Stop_def Let_def session_wf_fields intro!: upd_last_ok)
next
  case (DoStats c st)
  then show ?thesis using assms by (auto simp: UpdateSessionStats_def Let_def session_wf_fields intro!: upd_last_ok)
next
  case (DoTrack c k)
  then show ?thesis using assms
    by (auto simp: TrackKey_def Let_def active_session_Inr intro!: upd_last_ok session_wf_track split: sum.splits)
next
  case (DoEvent c k t e)
  then show ?thesis using assms
    by (auto simp: RecordTimelineEvent_def Let_def active_session_Inr intro!: upd_last_ok session_wf_event split: sum.splits)
next
  case (DoSnapshot c k t ns)
  then show ?thesis using assms
    by (auto simp: RecordSnapshot_def Let_def active_session_Inr intro!: upd_last_ok session_wf_snapshot split: sum.splits)
qed

interpretation sm: locked_component session_step sessions_ok
  by unfold_locales (rule session_step_ok)

text \<open>
  C24: After any sequence of calls every cluster's history has at most 50 sessions, each of that
  cluster, and all of them but possibly the last are stopped; in every session the keys with data
  are tracked and no recorded time is negative.
\<close>

theorem session_history_bounded: "sessions_ok (fold session_step ops NewSessionManager)"
  by (rule sm.run_inv) (simp add: NewSessionManager_def sessions_ok_def)

section \<open>Starting, stopping and recording\<close>

lemma last_upd: "last (upd_last f h) = f (last h)" "upd_last f h \<noteq> []"
  by (simp_all add: upd_last_def)

text \<open>
  The life cycle.  For a proper cluster name, starting succeeds exactly when no session is
  active and leaves one active, stopping succeeds exactly when one is active and leaves none, and
  tracking and recording succeed exactly when one is active; a call that fails changes nothing.
\<close>

theorem session_lifecycle:
  assumes "trim_space c \<noteq> []"
  shows "(snd (session_Start c now m) = None \<longleftrightarrow> \<not> IsActive c m) \<and> IsActive c (fst (session_Start c now m))
    \<and> (snd (session_Stop c now m) = None \<longleftrightarrow> IsActive c m) \<and> \<not> IsActive c (fst (session_Stop c now m))
    \<and> (\<forall>r \<in> {TrackKey c k m, RecordTimelineEvent c k t e m, RecordSnapshot c k t ns m}.
         (snd r = None \<longleftrightarrow> IsActive c m) \<and> IsActive c (fst r) = IsActive c m)
    \<and> (\<forall>r \<in> {session_Start c now m, session_Stop c now m, TrackKey c k m, RecordTimelineEvent c k t e m, RecordSnapshot c k t ns m}.
         snd r \<noteq> None \<longrightarrow> fst r = m)"
  using assms
  by (auto simp: session_Start_def session_Stop_def TrackKey_def RecordTimelineEvent_def RecordSnapshot_def IsActive_def
      active_session_def Let_def last_upd add_event_def add_snapshot_def new_session_def split: sum.splits if_splits)

theorem session_lifecycle_witness:
  "IsActive ''c'' (fst (session_Start ''c'' 5 NewSessionManager)) \<and> snd (session_Start ''c'' 5 NewSessionManager) = None"
proof -
  have "trim_space ''c'' \<noteq> []" by (simp add: trim_space_eq_Nil is_space_def)
  moreover have "\<not> IsActive ''c'' NewSessionManager" by (simp add: IsActive_def NewSessionManager_def)
  ultimately show ?thesis using session_lifecycle [of "''c''"] by blast
qed

text \<open>The data of key \<open>k\<close> of cluster \<open>c\<close> in a sequence of calls, with times relative to the start.\<close>

definition rel_time :: "int \<Rightarrow> int \<Rightarrow> int" where
  "rel_time start t = max 0 (time_sub t start)"

fun snapshots_in :: "string \<Rightarrow> string \<Rightarrow> int \<Rightarrow> session_op \<Rightarrow> snapshot list" where
  "snapshots_in c k start (DoSnapshot ci ki t ns) =
     (if trim_space ci = c \<and> trim_space ki = k then [\<lparr>sn_Time = rel_time start t, sn_Nodes = ns\<rparr>] else [])"
| "snapshots_in c k start _ = []"

fun events_in :: "string \<Rightarrow> string \<Rightarrow> int \<Rightarrow> session_op \<Rightarrow> timeline_event list" where
  "events_in c k start (DoEvent ci ki t e) =
     (if trim_space ci = c \<and> trim_space ki = k then [e\<lparr>te_Time := rel_time start t\<rparr>] else [])"
| "events_in c k start _ = []"

fun keeps_session :: "string \<Rightarrow> session_op \<Rightarrow> bool" where
  "keeps_session c (DoStart ci _) = (trim_space ci \<noteq> c)"
| "keeps_session c (DoStop ci _) = (trim_space ci \<noteq> c)"
| "keeps_session c (DoSnapshot _ _ _ ns) = gm_wf ns"
| "keeps_session c _ = True"

definition running :: "string \<Rightarrow> int \<Rightarrow> session_manager \<Rightarrow> bool" where
  "running c start m \<longleftrightarrow> gm_getd [] m c \<noteq> [] \<and> ms_StoppedAt (last (gm_getd [] m c)) = None \<and> ms_StartedAt (last (gm_getd [] m c)) = start"

lemma since_rel: "since_start t s = rel_time (ms_StartedAt s) t"
  by (simp add: since_start_def rel_time_def Let_def)

lemma step_records:
  assumes "running c start m" "keeps_session c x"
  shows "running c start (session_step x m)
    \<and> gm_getd [] (ms_snapshots (last (gm_getd [] (session_step x m) c))) k =
        gm_getd [] (ms_snapshots (last (gm_getd [] m c))) k @ snapshots_in c k start x
    \<and> gm_getd [] (ms_timeline (last (gm_getd [] (session_step x m) c))) k =
        gm_getd [] (ms_timeline (last (gm_getd [] m c))) k @ events_in c k start x"
  using assms
  by (cases x)
     (auto simp: running_def session_Start_def session_Stop_def TrackKey_def RecordTimelineEvent_def RecordSnapshot_def
       UpdateSessionStats_def active_session_def Let_def last_upd add_event_def add_snapshot_def ensure_key_props since_rel split: sum.splits)

lemma run_records:
  assumes "running c start m" "list_all (keeps_session c) ops"
  shows "running c start (fold session_step ops m)
    \<and> gm_getd [] (ms_snapshots (last (gm_getd [] (fold session_step ops m) c))) k =
        gm_getd [] (ms_snapshots (last (gm_getd [] m c))) k @ concat (map (snapshots_in c k start) ops)
    \<and> gm_getd [] (ms_timeline (last (gm_getd [] (fold session_step ops m) c))) k =
        gm_getd [] (ms_timeline (last (gm_getd [] m c))) k @ concat (map (events_in c k start) ops)"
  using assms
proof (induction ops arbitrary: m)
  case (Cons x ops)
  have step: "running c start (session_step x m)"
    "gm_getd [] (ms_snapshots (last (gm_getd [] (session_step x m) c))) k =
        gm_getd [] (ms_snapshots (last (gm_getd [] m c))) k @ snapshots_in c k start x"
    "gm_getd [] (ms_timeline (last (gm_getd [] (session_step x m) c))) k =
        gm_getd [] (ms_timeline (last (gm_getd [] m c))) k @ events_in c k start x"
    using step_records [of c start m x k] Cons.prems by simp_all
  show ?case using Cons.IH [OF step(1)] Cons.prems(2) step(2,3) by simp
qed simp

text \<open>
  The results are computed from exactly what was recorded.  After a session of a cluster is
  started, and calls of any kind for any cluster are made that neither start nor stop a session
  of this one, the result for a key is computed from the snapshots and events recorded for that
  key of that cluster since the start, in the order of the calls, with times relative to it.
\<close>

theorem results_from_recordings:
  assumes "trim_space c = c" "session_Start c start m = (m', None)" "list_all (keeps_session c) ops"
  shows "ComputeKeyResult c k (fold session_step ops m') =
    Inr ((Compute (concat (map (snapshots_in c k start) ops)))
      \<lparr>mr_Timeline := concat (map (events_in c k start) ops),
       mr_ConvergenceCurve := computeConvergenceCurve (concat (map (events_in c k start) ops))\<rparr>)"
proof -
  have l: "last (gm_getd [] m' c) = new_session c start" "gm_getd [] m' c \<noteq> []"
    using assms(1,2) by (auto simp: session_Start_def Let_def split: if_splits)
  then have "running c start m'" by (simp add: running_def new_session_def)
  from run_records [OF this assms(3), of k]
  show ?thesis by (simp add: ComputeKeyResult_def Let_def key_result_def running_def l(1)) (simp add: new_session_def)
qed

theorem results_from_recordings_witness:
  "\<exists>m'. session_Start ''c'' 100 NewSessionManager = (m', None)
     \<and> ComputeKeyResult ''c'' ''k'' (fold session_step [DoSnapshot ''c'' ''k'' 110 [(''a'', zero_state)], DoTrack ''d'' ''k''] m') =
        Inr (Compute [\<lparr>sn_Time = 10, sn_Nodes = [(''a'', zero_state)]\<rparr>])"
proof -
  obtain m' where m': "session_Start ''c'' 100 NewSessionManager = (m', None)"
    by (simp add: session_Start_def NewSessionManager_def is_word_def is_space_def Let_def)
  have c: "trim_space ''c'' = ''c''" "trim_space ''k'' = ''k''" by (rule trim_space_word, simp add: is_word_def is_space_def)+
  have res: "Compute [\<lparr>sn_Time = 10, sn_Nodes = [(''a'', zero_state)]\<rparr>]\<lparr>mr_Timeline := [], mr_ConvergenceCurve := []\<rparr> =
      Compute [\<lparr>sn_Time = 10, sn_Nodes = [(''a'', zero_state)]\<rparr>]"
    by (simp add: Compute_def Let_def compute_step_def empty_result_def split: prod.splits)
  have "ComputeKeyResult ''c'' ''k'' (fold session_step [DoSnapshot ''c'' ''k'' 110 [(''a'', zero_state)], DoTrack ''d'' ''k''] m') =
        Inr (Compute [\<lparr>sn_Time = 10, sn_Nodes = [(''a'', zero_state)]\<rparr>])"
    by (subst results_from_recordings [OF c(1) m'])
       (simp_all add: c rel_time_def time_sub_def i64_min_def i64_max_def computeConvergenceCurve_def res)
  then show ?thesis using m' by blast
qed

section \<open>The convergence curve\<close>

type_synonym held_version = "string \<times> string \<times> int"

definition version_of :: "timeline_event \<Rightarrow> held_version" where
  "version_of e = (te_Value e, te_Origin e, te_Version e)"

text \<open>The version each node holds after a sequence of events.\<close>

definition held_after :: "timeline_event list \<Rightarrow> (string \<rightharpoonup> held_version) \<Rightarrow> string \<rightharpoonup> held_version" where
  "held_after es H = fold (\<lambda>e H. H(te_NodeID e \<mapsto> version_of e)) es H"

definition version_text :: "held_version \<Rightarrow> string" where
  "version_text = (\<lambda>(v, org, n). v @ ''|'' @ org @ ''|'' @ show_int n)"

definition bar_free :: "held_version set" where
  "bar_free = {(v, org, n). CHR ''|'' \<notin> set org \<and> i64_min \<le> n \<and> n \<le> i64_max}"

lemma event_text_version: "event_text e = version_text (version_of e)"
  by (simp add: event_text_def version_text_def version_of_def)

lemma inj_version_text: "inj_on version_text bar_free"
proof (rule inj_onI)
  fix x y
  assume x: "x \<in> bar_free" and y: "y \<in> bar_free" and eq: "version_text x = version_text y"
  have dec: "map_option (\<lambda>(a, n). (cut_last CHR ''|'' a, atoi n)) (cut_last CHR ''|'' (version_text (v, org, n))) = Some (Some (v, org), Inr n)"
    if "(v, org, n) \<in> bar_free" for v org n
  proof -
    have t: "version_text (v, org, n) = (v @ CHR ''|'' # org) @ CHR ''|'' # show_int n" by (simp add: version_text_def)
    have "CHR ''|'' \<notin> set (show_int n)" by (rule show_int_notin)
    then have "cut_last CHR ''|'' (version_text (v, org, n)) = Some (v @ CHR ''|'' # org, show_int n)"
      unfolding t by (rule cut_last_append)
    then show ?thesis using that by (simp add: bar_free_def atoi_show)
  qed
  show "x = y" using dec [of "fst x" "fst (snd x)" "snd (snd x)"] dec [of "fst y" "fst (snd y)" "snd (snd y)"] x y eq
    by (auto simp: prod_eq_iff)
qed

lemma length_gm_mark: "length (gm_mark xs []) = card (set xs)"
proof -
  have "length (gm_mark xs []) = card (set (gm_keys (gm_mark xs [])))"
    using distinct_card [of "gm_keys (gm_mark xs [])"] gm_wf_mark [of "[]" xs] by (simp add: gm_wf_def gm_keys_def)
  then show ?thesis unfolding set_keys_mark by (simp add: gm_keys_def)
qed

lemma set_snd_ran: "gm_wf m \<Longrightarrow> set (map snd m) = ran (map_of m)"
  using gm_values [of m] by (auto simp: ran_def simp del: set_map)

lemma curve_loop_spec:
  assumes "gm_wf nv" "map_of nv = map_option version_text \<circ> H" "ran H \<subseteq> bar_free" "version_of ` set es \<subseteq> bar_free"
  shows "length (curve_loop es nv) = length es \<and> (\<forall>i < length es. curve_loop es nv ! i =
    \<lparr>dp_Time = te_Time (es ! i), dp_Divergence = int (card (ran (held_after (take (Suc i) es) H)))\<rparr>)"
  using assms
proof (induction es arbitrary: nv H)
  case (Cons e es)
  define nv' where "nv' = gm_put (te_NodeID e) (event_text e) nv"
  define H' where "H' = H(te_NodeID e \<mapsto> version_of e)"
  have wf: "gm_wf nv'" using Cons.prems(1) by (simp add: nv'_def)
  have m: "map_of nv' = map_option version_text \<circ> H'"
    using Cons.prems(2) by (auto simp: nv'_def H'_def event_text_version fun_eq_iff)
  have r: "ran H' \<subseteq> bar_free" using Cons.prems(3,4) by (auto simp: H'_def ran_def split: if_splits)
  have "set (map snd nv') = version_text ` ran H'" unfolding set_snd_ran [OF wf] m by (auto simp: ran_def)
  then have card: "length (gm_mark (map snd nv') []) = card (ran H')"
    using card_image [OF inj_on_subset [OF inj_version_text r]] by (simp only: length_gm_mark)
  have eq: "curve_loop (e # es) nv = \<lparr>dp_Time = te_Time e, dp_Divergence = int (card (ran H'))\<rparr> # curve_loop es nv'"
    by (simp only: curve_loop.simps Let_def nv'_def [symmetric] card)
  have IH: "length (curve_loop es nv') = length es \<and> (\<forall>i < length es. curve_loop es nv' ! i =
    \<lparr>dp_Time = te_Time (es ! i), dp_Divergence = int (card (ran (held_after (take (Suc i) es) H')))\<rparr>)"
    by (rule Cons.IH [OF wf m r]) (use Cons.prems(4) in auto)
  have held: "held_after (e # xs) H = held_after xs H'" "held_after [] H' = H'" for xs by (simp_all add: held_after_def H'_def)
  show ?case unfolding eq
  proof (intro conjI allI impI)
    fix i assume "i < length (e # es)"
    then show "(\<lparr>dp_Time = te_Time e, dp_Divergence = int (card (ran H'))\<rparr> # curve_loop es nv') ! i =
      \<lparr>dp_Time = te_Time ((e # es) ! i), dp_Divergence = int (card (ran (held_after (take (Suc i) (e # es)) H)))\<rparr>"
      using IH by (cases i) (simp_all add: held)
  qed (use IH in simp)
qed simp

text \<open>
  The convergence curve.  It has one point per event in time order, and each point counts the
  distinct versions (value, origin, version number) held by the nodes after that event, where a
  node holds the version of its last event; origins must not contain the separator.
\<close>

theorem curve_counts_versions:
  assumes "version_of ` set es \<subseteq> bar_free"
  shows "length (computeConvergenceCurve es) = length es
    \<and> (\<forall>i < length es. computeConvergenceCurve es ! i =
         \<lparr>dp_Time = te_Time (sort_key te_Time es ! i),
          dp_Divergence = int (card (ran (held_after (take (Suc i) (sort_key te_Time es)) Map.empty)))\<rparr>)"
proof (cases "es = []")
  case False
  have "map_of [] = map_option version_text \<circ> Map.empty" "ran Map.empty \<subseteq> bar_free" by auto
  then show ?thesis
    using curve_loop_spec [OF gm_wf_Nil, of Map.empty "sort_key te_Time es"] assms False by (simp add: computeConvergenceCurve_def)
qed (simp add: computeConvergenceCurve_def)

definition demo_events :: "timeline_event list" where
  "demo_events = [\<lparr>te_Time = 5, te_NodeID = ''b'', te_Key = ''k'', te_Value = ''x'', te_Version = 1, te_Origin = ''a'', te_Source = [],
       te_EventType = ''GOSSIP_RECEIVE'', te_Round = 1, te_LWWTimestamp = 0\<rparr>,
     \<lparr>te_Time = 1, te_NodeID = ''a'', te_Key = ''k'', te_Value = ''x'', te_Version = 1, te_Origin = ''a'', te_Source = [],
       te_EventType = ''WRITE'', te_Round = 0, te_LWWTimestamp = 0\<rparr>]"

theorem curve_counts_versions_witness: "dp_Divergence (computeConvergenceCurve demo_events ! 1) = 1"
proof -
  have "version_of ` set demo_events \<subseteq> bar_free"
    by (simp add: demo_events_def bar_free_def version_of_def i64_min_def i64_max_def)
  from curve_counts_versions [OF this, THEN conjunct2, rule_format, of 1]
  have "dp_Divergence (computeConvergenceCurve demo_events ! 1) =
      int (card (ran (held_after (take 2 (sort_key te_Time demo_events)) Map.empty)))"
    by (simp add: demo_events_def numeral_2_eq_2)
  moreover have "ran (held_after (take 2 (sort_key te_Time demo_events)) Map.empty) = {(''x'', ''a'', 1)}"
    by (auto simp: demo_events_def held_after_def version_of_def ran_def split: if_splits)
  ultimately show ?thesis by simp
qed

end
