(* ===== verification/CommandParser.thy ===== *)
theory CommandParser
  imports GoStrings
begin

text \<open>
  The text commands of the control plane: \<open>internal/controlplane/command.go\<close> (the command record),
  \<open>parser.go\<close> (\<open>Parse\<close>, one definition per case of its switch) and the text handling of
  \<open>runtime_commands.go\<close>.  The reply channel of a command carries the actor's answer back and is not
  part of the record.  \<open>strconv.ParseFloat\<close> is the argument \<open>pf\<close>; the theorems hold for every such
  function, and the round trip names what it needs of it.

  Shown: every command the parser can produce is written back as a canonical text that parses to
  it again, and all that \<open>Parse\<close> accepts is well formed for its type.
\<close>

datatype command_type =
  CmdCreateCluster | CmdStartNodeProcess | CmdStopNodeProcess | CmdListNodeProcesses | CmdAddNode | CmdRemoveNode
| CmdListNodes | CmdListClusters | CmdSetFaultParams | CmdCrashNode | CmdRecoverNode | CmdSetDropRate | CmdSetDelay
| CmdSetPartition | CmdKVPut | CmdKVGet | CmdSetClusterProtocol | CmdRunHypothesis | CmdKillCluster | CmdMetricsStart
| CmdMetricsStop | CmdMetricsWatchKey | CmdMetricsShow | CmdMetricsHistory | CmdLogLifecycleEvent | CmdHelp

record command =
  cmd_Type :: command_type
  cmd_ClusterID :: string
  cmd_Protocol :: string
  cmd_NodeID :: string
  cmd_Key :: string
  cmd_Value :: string
  cmd_Host :: string
  cmd_Port :: int
  cmd_Crashed :: bool
  cmd_DropRate :: f64
  cmd_DelayMs :: int
  cmd_Partition :: "string list"
  cmd_PeerID :: string
  cmd_PeersCSV :: string
  cmd_Enabled :: bool
  cmd_FilePath :: string
  cmd_ProjectRoot :: string
  cmd_CPHost :: string
  cmd_CPPort :: int
  cmd_IntervalMs :: int
  cmd_EventType :: string

definition NewCommand :: "command_type \<Rightarrow> command" where
  "NewCommand t = \<lparr>cmd_Type = t, cmd_ClusterID = [], cmd_Protocol = [], cmd_NodeID = [], cmd_Key = [], cmd_Value = [],
     cmd_Host = [], cmd_Port = 0, cmd_Crashed = False, cmd_DropRate = Fin 0, cmd_DelayMs = 0, cmd_Partition = [],
     cmd_PeerID = [], cmd_PeersCSV = [], cmd_Enabled = False, cmd_FilePath = [], cmd_ProjectRoot = [], cmd_CPHost = [],
     cmd_CPPort = 0, cmd_IntervalMs = 0, cmd_EventType = []\<rparr>"

text \<open>The errors: an empty line, a usage message, a value that does not parse (with its name), an
  option without value, an unknown option of a command, an unknown command.\<close>

datatype parse_error =
  EmptyCommand
| Usage string
| InvalidValue string
| MissingValue string
| UnknownOption string string
| UnknownCommand

type_synonym float_parser = "string \<Rightarrow> f64 option"

section \<open>The cases of the parser\<close>

text \<open>The options of \<open>start-node\<close>: how each one changes the command.\<close>

definition start_option :: "string \<Rightarrow> (string \<Rightarrow> command \<Rightarrow> parse_error + command) option" where
  "start_option arg =
     (if arg = ''--cluster-id'' then Some (\<lambda>v cmd. Inr (cmd\<lparr>cmd_ClusterID := v\<rparr>))
      else if arg = ''--host'' then Some (\<lambda>v cmd. Inr (cmd\<lparr>cmd_Host := v\<rparr>))
      else if arg = ''--peers'' then Some (\<lambda>v cmd. Inr (cmd\<lparr>cmd_PeersCSV := v\<rparr>))
      else if arg = ''--cp-host'' then Some (\<lambda>v cmd. Inr (cmd\<lparr>cmd_CPHost := v\<rparr>))
      else if arg = ''--cp-port'' then Some (\<lambda>v cmd. case atoi v of
          Inl _ \<Rightarrow> Inl (InvalidValue ''--cp-port'') | Inr p \<Rightarrow> Inr (cmd\<lparr>cmd_CPPort := p\<rparr>))
      else None)"

fun start_options :: "string list \<Rightarrow> command \<Rightarrow> parse_error + command" where
  "start_options [] cmd = Inr cmd"
| "start_options (arg # rest) cmd = (case start_option arg of
     None \<Rightarrow> Inl (UnknownOption ''start-node'' arg)
   | Some set_it \<Rightarrow> (case rest of
       [] \<Rightarrow> Inl (MissingValue arg)
     | v # rest' \<Rightarrow> (case set_it v cmd of Inl e \<Rightarrow> Inl e | Inr cmd' \<Rightarrow> start_options rest' cmd')))"

definition parse_start_node :: "string list \<Rightarrow> parse_error + command" where
  "parse_start_node args = (case args of
     nodeID # p # opts \<Rightarrow> (case atoi p of
       Inl _ \<Rightarrow> Inl (InvalidValue ''port'')
     | Inr port \<Rightarrow> start_options opts
         ((NewCommand CmdStartNodeProcess)\<lparr>cmd_NodeID := nodeID, cmd_Port := port, cmd_ClusterID := ''default'', cmd_Host := ''localhost''\<rparr>))
   | _ \<Rightarrow> Inl (Usage ''start-node <node-id> <port> [--cluster-id <id>] [--host <host>] [--peers <csv>] [--cp-host <host>] [--cp-port <port>]''))"

text \<open>The option loop of \<open>new-cluster\<close>; \<open>first\<close> holds in the round with index 2.\<close>

fun cluster_options :: "bool \<Rightarrow> string list \<Rightarrow> string \<Rightarrow> parse_error + string" where
  "cluster_options first [] protocol = Inr protocol"
| "cluster_options first (arg # rest) protocol =
     (if arg = ''--protocol'' \<or> arg = ''-protocol'' \<or> arg = ''-p'' then
        (case rest of
           [] \<Rightarrow> Inl (Usage ''new-cluster <cluster-id> [--protocol <gossip|raft>]'')
         | v # rest' \<Rightarrow> cluster_options False rest' v)
      else if first \<and> \<not> has_prefix arg ''-'' then cluster_options False rest arg
      else Inl (UnknownOption ''new-cluster'' arg))"

definition parse_new_cluster :: "string list \<Rightarrow> parse_error + command" where
  "parse_new_cluster args = (case args of
     cid # opts \<Rightarrow> (case cluster_options True opts ''gossip'' of
       Inl e \<Rightarrow> Inl e
     | Inr protocol \<Rightarrow> Inr ((NewCommand CmdCreateCluster)\<lparr>cmd_ClusterID := cid, cmd_Protocol := protocol\<rparr>))
   | [] \<Rightarrow> Inl (Usage ''new-cluster <cluster-id> [--protocol <gossip|raft>]''))"

definition parse_add_node :: "string list \<Rightarrow> parse_error + command" where
  "parse_add_node args = (case args of
     cid # nid # host # p # _ \<Rightarrow> (case atoi p of
       Inl _ \<Rightarrow> Inl (InvalidValue ''port'')
     | Inr port \<Rightarrow> Inr ((NewCommand CmdAddNode)\<lparr>cmd_ClusterID := cid, cmd_NodeID := nid, cmd_Host := host, cmd_Port := port\<rparr>))
   | _ \<Rightarrow> Inl (Usage ''add-node <cluster-id> <node-id> <host> <port>''))"

definition parse_set_fault :: "float_parser \<Rightarrow> string list \<Rightarrow> parse_error + command" where
  "parse_set_fault pf args = (case args of
     cid # nid # c # r # d # extra \<Rightarrow> (case parse_bool c of
       None \<Rightarrow> Inl (InvalidValue ''crashed flag'')
     | Some crashed \<Rightarrow> (case pf r of
         None \<Rightarrow> Inl (InvalidValue ''drop-rate'')
       | Some dropRate \<Rightarrow> (case atoi d of
           Inl _ \<Rightarrow> Inl (InvalidValue ''delay-ms'')
         | Inr delayMs \<Rightarrow>
             let partition = (case extra of [] \<Rightarrow> [] | csv # _ \<Rightarrow> if trim_space csv \<noteq> [] then split_on CHR '','' csv else [])
             in Inr ((NewCommand CmdSetFaultParams)\<lparr>cmd_ClusterID := cid, cmd_NodeID := nid, cmd_Crashed := crashed,
                  cmd_DropRate := dropRate, cmd_DelayMs := delayMs, cmd_Partition := partition\<rparr>))))
   | _ \<Rightarrow> Inl (Usage ''set-fault <cluster-id> <node-id> <crashed:true|false> <drop-rate:0..1> <delay-ms:int> [partition-csv]''))"

text \<open>The commands that only name a cluster and a node.\<close>

definition parse_cluster_node :: "command_type \<Rightarrow> string \<Rightarrow> string list \<Rightarrow> parse_error + command" where
  "parse_cluster_node t usage args = (case args of
     cid # nid # _ \<Rightarrow> Inr ((NewCommand t)\<lparr>cmd_ClusterID := cid, cmd_NodeID := nid\<rparr>)
   | _ \<Rightarrow> Inl (Usage usage))"

text \<open>The commands that only name a cluster.\<close>

definition parse_cluster :: "command_type \<Rightarrow> string \<Rightarrow> string list \<Rightarrow> parse_error + command" where
  "parse_cluster t usage args = (case args of
     cid # _ \<Rightarrow> Inr ((NewCommand t)\<lparr>cmd_ClusterID := cid\<rparr>)
   | [] \<Rightarrow> Inl (Usage usage))"

definition parse_stop_node :: "string list \<Rightarrow> parse_error + command" where
  "parse_stop_node args = (case args of
     nid # _ \<Rightarrow> Inr ((NewCommand CmdStopNodeProcess)\<lparr>cmd_NodeID := nid\<rparr>)
   | [] \<Rightarrow> Inl (Usage ''stop-node <node-id>''))"

definition parse_fault_drop :: "float_parser \<Rightarrow> string list \<Rightarrow> parse_error + command" where
  "parse_fault_drop pf args = (case args of
     cid # nid # r # _ \<Rightarrow> (case pf r of
       None \<Rightarrow> Inl (InvalidValue ''drop-rate'')
     | Some rate \<Rightarrow> Inr ((NewCommand CmdSetDropRate)\<lparr>cmd_ClusterID := cid, cmd_NodeID := nid, cmd_DropRate := rate\<rparr>))
   | _ \<Rightarrow> Inl (Usage ''fault-drop <cluster-id> <node-id> <drop-rate:0..1>''))"

definition parse_fault_delay :: "string list \<Rightarrow> parse_error + command" where
  "parse_fault_delay args = (case args of
     cid # nid # d # _ \<Rightarrow> (case atoi d of
       Inl _ \<Rightarrow> Inl (InvalidValue ''delay-ms'')
     | Inr ms \<Rightarrow> Inr ((NewCommand CmdSetDelay)\<lparr>cmd_ClusterID := cid, cmd_NodeID := nid, cmd_DelayMs := ms\<rparr>))
   | _ \<Rightarrow> Inl (Usage ''fault-delay <cluster-id> <node-id> <delay-ms:int>''))"

definition parse_fault_partition :: "string list \<Rightarrow> parse_error + command" where
  "parse_fault_partition args = (case args of
     cid # nid # peer # b # _ \<Rightarrow> (case parse_bool b of
       None \<Rightarrow> Inl (InvalidValue ''enabled flag'')
     | Some enabled \<Rightarrow> Inr ((NewCommand CmdSetPartition)\<lparr>cmd_ClusterID := cid, cmd_NodeID := nid, cmd_PeerID := peer, cmd_Enabled := enabled\<rparr>))
   | _ \<Rightarrow> Inl (Usage ''fault-partition <cluster-id> <node-id> <peer-id> <enabled:true|false>''))"

definition parse_kv_put :: "string list \<Rightarrow> parse_error + command" where
  "parse_kv_put args = (case args of
     cid # nid # key # v # _ \<Rightarrow> Inr ((NewCommand CmdKVPut)\<lparr>cmd_ClusterID := cid, cmd_NodeID := nid, cmd_Key := key, cmd_Value := v\<rparr>)
   | _ \<Rightarrow> Inl (Usage ''kv-put <cluster-id> <node-id> <key> <value>''))"

definition parse_kv_get :: "string list \<Rightarrow> parse_error + command" where
  "parse_kv_get args = (case args of
     cid # nid # key # _ \<Rightarrow> Inr ((NewCommand CmdKVGet)\<lparr>cmd_ClusterID := cid, cmd_NodeID := nid, cmd_Key := key\<rparr>)
   | _ \<Rightarrow> Inl (Usage ''kv-get <cluster-id> <node-id> <key>''))"

definition parse_set_protocol :: "string list \<Rightarrow> parse_error + command" where
  "parse_set_protocol args = (case args of
     cid # p # _ \<Rightarrow> Inr ((NewCommand CmdSetClusterProtocol)\<lparr>cmd_ClusterID := cid, cmd_Protocol := p\<rparr>)
   | _ \<Rightarrow> Inl (Usage ''set-protocol <cluster-id> <protocol>''))"

definition parse_run_hypothesis :: "string list \<Rightarrow> parse_error + command" where
  "parse_run_hypothesis args = (case args of
     path # _ \<Rightarrow> Inr ((NewCommand CmdRunHypothesis)\<lparr>cmd_FilePath := path\<rparr>)
   | [] \<Rightarrow> Inl (Usage ''run-hypothesis <relative-experiment-path>''))"

definition parse_metrics_start :: "string list \<Rightarrow> parse_error + command" where
  "parse_metrics_start args = (case args of
     cid # extra \<Rightarrow> (case extra of
       [] \<Rightarrow> Inr ((NewCommand CmdMetricsStart)\<lparr>cmd_ClusterID := cid\<rparr>)
     | i # _ \<Rightarrow> (case atoi i of
         Inl _ \<Rightarrow> Inl (InvalidValue ''interval-ms'')
       | Inr ms \<Rightarrow> Inr ((NewCommand CmdMetricsStart)\<lparr>cmd_ClusterID := cid, cmd_IntervalMs := ms\<rparr>)))
   | [] \<Rightarrow> Inl (Usage ''metrics-start <cluster-id> [interval-ms]''))"

definition parse_watch_key :: "string list \<Rightarrow> parse_error + command" where
  "parse_watch_key args = (case args of
     cid # key # _ \<Rightarrow> Inr ((NewCommand CmdMetricsWatchKey)\<lparr>cmd_ClusterID := cid, cmd_Key := key\<rparr>)
   | _ \<Rightarrow> Inl (Usage ''metrics-watch-key <cluster-id> <key>''))"

definition parse_log_lifecycle :: "string list \<Rightarrow> parse_error + command" where
  "parse_log_lifecycle args = (case args of
     cid # nid # ty # d # ds \<Rightarrow> Inr ((NewCommand CmdLogLifecycleEvent)\<lparr>cmd_ClusterID := cid, cmd_NodeID := nid, cmd_EventType := ty,
        cmd_Value := trim_char CHR 0x22 (join_with '' '' (d # ds))\<rparr>)
   | _ \<Rightarrow> Inl (Usage ''log-lifecycle <cluster-id> <node-id> <type> <details>''))"

definition parse_parts :: "float_parser \<Rightarrow> string \<Rightarrow> string list \<Rightarrow> parse_error + command" where
  "parse_parts pf name args =
     (if name = ''help'' then Inr (NewCommand CmdHelp)
      else if name = ''start-node'' then parse_start_node args
      else if name = ''stop-node'' then parse_stop_node args
      else if name = ''list-node-procs'' then Inr (NewCommand CmdListNodeProcesses)
      else if name = ''new-cluster'' then parse_new_cluster args
      else if name = ''remove-node'' then parse_cluster_node CmdRemoveNode ''remove-node <cluster-id> <node-id>'' args
      else if name = ''list-nodes'' then parse_cluster CmdListNodes ''list-nodes <cluster-id>'' args
      else if name = ''list-clusters'' then Inr (NewCommand CmdListClusters)
      else if name = ''add-node'' then parse_add_node args
      else if name = ''set-fault'' then parse_set_fault pf args
      else if name = ''fault-crash'' then parse_cluster_node CmdCrashNode ''fault-crash <cluster-id> <node-id>'' args
      else if name = ''fault-recover'' then parse_cluster_node CmdRecoverNode ''fault-recover <cluster-id> <node-id>'' args
      else if name = ''fault-drop'' then parse_fault_drop pf args
      else if name = ''fault-delay'' then parse_fault_delay args
      else if name = ''fault-partition'' then parse_fault_partition args
      else if name = ''kv-put'' then parse_kv_put args
      else if name = ''kv-get'' then parse_kv_get args
      else if name = ''set-protocol'' then parse_set_protocol args
      else if name = ''run-hypothesis'' \<or> name = ''run-experiment'' then parse_run_hypothesis args
      else if name = ''kill-cluster'' \<or> name = ''stop-cluster'' then parse_cluster CmdKillCluster ''kill-cluster <cluster-id>'' args
      else if name = ''metrics-start'' then parse_metrics_start args
      else if name = ''metrics-stop'' then parse_cluster CmdMetricsStop ''metrics-stop <cluster-id>'' args
      else if name = ''metrics-watch-key'' then parse_watch_key args
      else if name = ''metrics-show'' then parse_cluster CmdMetricsShow ''metrics-show <cluster-id>'' args
      else if name = ''log-lifecycle'' then parse_log_lifecycle args
      else Inl UnknownCommand)"

definition Parse :: "float_parser \<Rightarrow> string \<Rightarrow> parse_error + command" where
  "Parse pf input = (case str_fields input of [] \<Rightarrow> Inl EmptyCommand | name # args \<Rightarrow> parse_parts pf name args)"

text \<open>
  The text handling of \<open>ExecuteRuntimeCommand\<close>: nothing for a blank line, an optional \<open>cp\<close> prefix,
  otherwise the parsed command that is submitted to the actor.
\<close>

definition runtime_command :: "float_parser \<Rightarrow> string \<Rightarrow> (parse_error + command) option" where
  "runtime_command pf raw =
     (let trimmed = trim_space raw in
      if trimmed = [] then None
      else Some (case str_fields trimmed of
          name # _ \<Rightarrow>
            if name = ''cp'' then
              (let remainder = trim_space (trim_prefix trimmed name) in
               if remainder = [] then Inl (Usage ''cp <controlplane-command...>'') else Parse pf remainder)
            else Parse pf trimmed
        | [] \<Rightarrow> Parse pf trimmed))"

section \<open>Canonical texts\<close>

text \<open>The words of the canonical text of a command; \<open>fmt\<close> writes a drop rate.\<close>

definition optional :: "string \<Rightarrow> string \<Rightarrow> string list" where
  "optional flag v = (if v = [] then [] else [flag, v])"

definition cluster_and_node :: "string \<Rightarrow> command \<Rightarrow> string list" where
  "cluster_and_node name cmd = [name, cmd_ClusterID cmd, cmd_NodeID cmd]"

definition render :: "(f64 \<Rightarrow> string) \<Rightarrow> command \<Rightarrow> string list" where
  "render fmt cmd = (case cmd_Type cmd of
     CmdCreateCluster \<Rightarrow> [''new-cluster'', cmd_ClusterID cmd, ''--protocol'', cmd_Protocol cmd]
   | CmdStartNodeProcess \<Rightarrow> [''start-node'', cmd_NodeID cmd, show_int (cmd_Port cmd), ''--cluster-id'', cmd_ClusterID cmd,
       ''--host'', cmd_Host cmd] @ optional ''--peers'' (cmd_PeersCSV cmd) @ optional ''--cp-host'' (cmd_CPHost cmd)
       @ [''--cp-port'', show_int (cmd_CPPort cmd)]
   | CmdStopNodeProcess \<Rightarrow> [''stop-node'', cmd_NodeID cmd]
   | CmdListNodeProcesses \<Rightarrow> [''list-node-procs'']
   | CmdAddNode \<Rightarrow> cluster_and_node ''add-node'' cmd @ [cmd_Host cmd, show_int (cmd_Port cmd)]
   | CmdRemoveNode \<Rightarrow> cluster_and_node ''remove-node'' cmd
   | CmdListNodes \<Rightarrow> [''list-nodes'', cmd_ClusterID cmd]
   | CmdListClusters \<Rightarrow> [''list-clusters'']
   | CmdSetFaultParams \<Rightarrow> cluster_and_node ''set-fault'' cmd @ [show_bool (cmd_Crashed cmd), fmt (cmd_DropRate cmd), show_int (cmd_DelayMs cmd)]
       @ (if cmd_Partition cmd = [] then [] else [join_with '','' (cmd_Partition cmd)])
   | CmdCrashNode \<Rightarrow> cluster_and_node ''fault-crash'' cmd
   | CmdRecoverNode \<Rightarrow> cluster_and_node ''fault-recover'' cmd
   | CmdSetDropRate \<Rightarrow> cluster_and_node ''fault-drop'' cmd @ [fmt (cmd_DropRate cmd)]
   | CmdSetDelay \<Rightarrow> cluster_and_node ''fault-delay'' cmd @ [show_int (cmd_DelayMs cmd)]
   | CmdSetPartition \<Rightarrow> cluster_and_node ''fault-partition'' cmd @ [cmd_PeerID cmd, show_bool (cmd_Enabled cmd)]
   | CmdKVPut \<Rightarrow> cluster_and_node ''kv-put'' cmd @ [cmd_Key cmd, cmd_Value cmd]
   | CmdKVGet \<Rightarrow> cluster_and_node ''kv-get'' cmd @ [cmd_Key cmd]
   | CmdSetClusterProtocol \<Rightarrow> [''set-protocol'', cmd_ClusterID cmd, cmd_Protocol cmd]
   | CmdRunHypothesis \<Rightarrow> [''run-hypothesis'', cmd_FilePath cmd]
   | CmdKillCluster \<Rightarrow> [''kill-cluster'', cmd_ClusterID cmd]
   | CmdMetricsStart \<Rightarrow> [''metrics-start'', cmd_ClusterID cmd, show_int (cmd_IntervalMs cmd)]
   | CmdMetricsStop \<Rightarrow> [''metrics-stop'', cmd_ClusterID cmd]
   | CmdMetricsWatchKey \<Rightarrow> [''metrics-watch-key'', cmd_ClusterID cmd, cmd_Key cmd]
   | CmdMetricsShow \<Rightarrow> [''metrics-show'', cmd_ClusterID cmd]
   | CmdMetricsHistory \<Rightarrow> []
   | CmdLogLifecycleEvent \<Rightarrow> cluster_and_node ''log-lifecycle'' cmd @ [cmd_EventType cmd, cmd_Value cmd]
   | CmdHelp \<Rightarrow> [''help''])"

definition reparses :: "float_parser \<Rightarrow> (f64 \<Rightarrow> string) \<Rightarrow> command \<Rightarrow> bool" where
  "reparses pf fmt cmd = (case render fmt cmd of [] \<Rightarrow> False
     | n # ws \<Rightarrow> list_all is_word (n # ws) \<and> parse_parts pf n ws = Inr cmd)"

text \<open>A formatter for the rates a float parser returns.\<close>

definition formats :: "float_parser \<Rightarrow> (f64 \<Rightarrow> string) \<Rightarrow> bool" where
  "formats pf fmt \<longleftrightarrow> (\<forall>s r. pf s = Some r \<longrightarrow> is_word (fmt r) \<and> pf (fmt r) = Some r)"

lemmas parse_defs = parse_stop_node_def parse_cluster_node_def parse_cluster_def parse_add_node_def parse_fault_drop_def
  parse_fault_delay_def parse_fault_partition_def parse_kv_put_def parse_kv_get_def parse_set_protocol_def
  parse_run_hypothesis_def parse_metrics_start_def parse_watch_key_def

lemmas render_defs = reparses_def render_def cluster_and_node_def

lemmas word_simps = is_word_def is_space_def

lemma parse_parts_name:
  "parse_parts pf ''help'' args = Inr (NewCommand CmdHelp)"
  "parse_parts pf ''start-node'' args = parse_start_node args"
  "parse_parts pf ''stop-node'' args = parse_stop_node args"
  "parse_parts pf ''list-node-procs'' args = Inr (NewCommand CmdListNodeProcesses)"
  "parse_parts pf ''new-cluster'' args = parse_new_cluster args"
  "parse_parts pf ''remove-node'' args = parse_cluster_node CmdRemoveNode ''remove-node <cluster-id> <node-id>'' args"
  "parse_parts pf ''list-nodes'' args = parse_cluster CmdListNodes ''list-nodes <cluster-id>'' args"
  "parse_parts pf ''list-clusters'' args = Inr (NewCommand CmdListClusters)"
  "parse_parts pf ''add-node'' args = parse_add_node args"
  "parse_parts pf ''set-fault'' args = parse_set_fault pf args"
  "parse_parts pf ''fault-crash'' args = parse_cluster_node CmdCrashNode ''fault-crash <cluster-id> <node-id>'' args"
  "parse_parts pf ''fault-recover'' args = parse_cluster_node CmdRecoverNode ''fault-recover <cluster-id> <node-id>'' args"
  "parse_parts pf ''fault-drop'' args = parse_fault_drop pf args"
  "parse_parts pf ''fault-delay'' args = parse_fault_delay args"
  "parse_parts pf ''fault-partition'' args = parse_fault_partition args"
  "parse_parts pf ''kv-put'' args = parse_kv_put args"
  "parse_parts pf ''kv-get'' args = parse_kv_get args"
  "parse_parts pf ''set-protocol'' args = parse_set_protocol args"
  "parse_parts pf ''run-hypothesis'' args = parse_run_hypothesis args"
  "parse_parts pf ''kill-cluster'' args = parse_cluster CmdKillCluster ''kill-cluster <cluster-id>'' args"
  "parse_parts pf ''metrics-start'' args = parse_metrics_start args"
  "parse_parts pf ''metrics-stop'' args = parse_cluster CmdMetricsStop ''metrics-stop <cluster-id>'' args"
  "parse_parts pf ''metrics-watch-key'' args = parse_watch_key args"
  "parse_parts pf ''metrics-show'' args = parse_cluster CmdMetricsShow ''metrics-show <cluster-id>'' args"
  "parse_parts pf ''log-lifecycle'' args = parse_log_lifecycle args"
  by (simp_all add: parse_parts_def)

lemma NewCommand_Type [simp]: "cmd_Type (NewCommand t) = t"
  by (simp add: NewCommand_def)

lemma words_tail: "list_all is_word ws \<Longrightarrow> set ws' \<subseteq> set ws \<Longrightarrow> list_all is_word ws'"
  by (auto simp: list_all_iff)

lemma is_word_lit:
  "is_word ''default''" "is_word ''localhost''" "is_word ''gossip''" "is_word ''--protocol''" "is_word ''--cluster-id''"
  "is_word ''--host''" "is_word ''--peers''" "is_word ''--cp-host''" "is_word ''--cp-port''"
  by (simp_all add: word_simps)

lemma is_word_names:
  "list_all is_word [''new-cluster'', ''start-node'', ''stop-node'', ''list-node-procs'', ''add-node'', ''remove-node'', ''list-nodes'',
     ''list-clusters'', ''set-fault'', ''fault-crash'', ''fault-recover'', ''fault-drop'', ''fault-delay'', ''fault-partition'', ''kv-put'',
     ''kv-get'', ''set-protocol'', ''run-hypothesis'', ''kill-cluster'', ''metrics-start'', ''metrics-stop'', ''metrics-watch-key'',
     ''metrics-show'', ''help'']"
  by (simp add: word_simps)

lemmas is_word_name = is_word_names [simplified list.pred_inject]

lemma reparses_simple:
  assumes "list_all is_word args"
  shows "parse_stop_node args = Inr cmd \<Longrightarrow> reparses pf fmt cmd"
    and "parse_kv_put args = Inr cmd \<Longrightarrow> reparses pf fmt cmd"
    and "parse_kv_get args = Inr cmd \<Longrightarrow> reparses pf fmt cmd"
    and "parse_set_protocol args = Inr cmd \<Longrightarrow> reparses pf fmt cmd"
    and "parse_run_hypothesis args = Inr cmd \<Longrightarrow> reparses pf fmt cmd"
    and "parse_watch_key args = Inr cmd \<Longrightarrow> reparses pf fmt cmd"
    and "parse_add_node args = Inr cmd \<Longrightarrow> reparses pf fmt cmd"
    and "parse_fault_delay args = Inr cmd \<Longrightarrow> reparses pf fmt cmd"
    and "parse_fault_partition args = Inr cmd \<Longrightarrow> reparses pf fmt cmd"
  using assms
  by (auto simp: parse_defs render_defs parse_parts_name is_word_name atoi_show_atoi split: list.splits sum.splits option.splits)

lemma reparses_metrics_start:
  assumes "list_all is_word args" "parse_metrics_start args = Inr cmd"
  shows "reparses pf fmt cmd"
proof -
  have "cmd_IntervalMs (NewCommand CmdMetricsStart) = 0" "(NewCommand CmdMetricsStart)\<lparr>cmd_ClusterID := c, cmd_IntervalMs := 0\<rparr> =
      (NewCommand CmdMetricsStart)\<lparr>cmd_ClusterID := c\<rparr>" for c by (simp_all add: NewCommand_def)
  moreover have "atoi (show_int 0) = Inr 0" by (rule atoi_show) (simp_all add: i64_min_def i64_max_def)
  ultimately show ?thesis using assms
    by (auto simp: parse_metrics_start_def reparses_def render_def parse_parts_name is_word_name atoi_show_atoi
        split: list.splits sum.splits)
qed

lemma reparses_cluster:
  assumes "list_all is_word args" "parse_cluster t u args = Inr cmd" "t \<in> {CmdListNodes, CmdKillCluster, CmdMetricsStop, CmdMetricsShow}"
  shows "reparses pf fmt cmd"
  using assms by (auto simp: parse_cluster_def reparses_def render_def parse_parts_name is_word_name split: list.splits)

lemma reparses_cluster_node:
  assumes "list_all is_word args" "parse_cluster_node t u args = Inr cmd" "t \<in> {CmdRemoveNode, CmdCrashNode, CmdRecoverNode}"
  shows "reparses pf fmt cmd"
  using assms
  by (auto simp: parse_cluster_node_def render_defs parse_parts_name is_word_name split: list.splits)

lemma reparses_fault_drop:
  assumes "list_all is_word args" "parse_fault_drop pf args = Inr cmd" "formats pf fmt"
  shows "reparses pf fmt cmd"
  using assms unfolding formats_def
  by (auto simp: parse_fault_drop_def render_defs parse_parts_name is_word_name split: list.splits option.splits)

lemma set_fault_shape:
  assumes "list_all is_word args" "parse_set_fault pf args = Inr cmd"
  shows "\<exists>cid nid b r s ms csv. is_word cid \<and> is_word nid \<and> pf s = Some r \<and> i64_min \<le> ms \<and> ms \<le> i64_max \<and> (csv = [] \<or> is_word csv)
    \<and> cmd = (NewCommand CmdSetFaultParams)\<lparr>cmd_ClusterID := cid, cmd_NodeID := nid, cmd_Crashed := b, cmd_DropRate := r,
        cmd_DelayMs := ms, cmd_Partition := (if csv = [] then [] else split_on CHR '','' csv)\<rparr>"
proof -
  obtain cid nid c r d extra where args: "args = cid # nid # c # r # d # extra"
    using assms(2) by (auto simp: parse_set_fault_def split: list.splits)
  obtain b rate ms where v: "parse_bool c = Some b" "pf r = Some rate" "atoi d = Inr ms"
    using assms(2) by (auto simp: parse_set_fault_def args split: option.splits sum.splits)
  define csv where "csv = (case extra of [] \<Rightarrow> [] | x # _ \<Rightarrow> x)"
  have csv: "csv = [] \<or> is_word csv" using assms(1) by (auto simp: csv_def args split: list.splits)
  have "cmd = (NewCommand CmdSetFaultParams)\<lparr>cmd_ClusterID := cid, cmd_NodeID := nid, cmd_Crashed := b, cmd_DropRate := rate,
        cmd_DelayMs := ms, cmd_Partition := (if csv = [] then [] else split_on CHR '','' csv)\<rparr>"
    using assms csv by (auto simp: parse_set_fault_def args v csv_def Let_def split: list.splits)
  moreover have "is_word cid" "is_word nid" using assms(1) args by simp_all
  ultimately show ?thesis using v(2) atoi_range [OF v(3)] csv by blast
qed

lemma reparses_set_fault:
  assumes "list_all is_word args" "parse_set_fault pf args = Inr cmd" "formats pf fmt"
  shows "reparses pf fmt cmd"
proof -
  obtain cid nid b r s ms csv where w: "is_word cid" "is_word nid" "pf s = Some r" "i64_min \<le> ms" "ms \<le> i64_max" "csv = [] \<or> is_word csv"
    and cmd: "cmd = (NewCommand CmdSetFaultParams)\<lparr>cmd_ClusterID := cid, cmd_NodeID := nid, cmd_Crashed := b, cmd_DropRate := r,
        cmd_DelayMs := ms, cmd_Partition := (if csv = [] then [] else split_on CHR '','' csv)\<rparr>"
    using set_fault_shape [OF assms(1,2)] by blast
  have fmt: "is_word (fmt r)" "pf (fmt r) = Some r" using assms(3) w(3) by (auto simp: formats_def)
  have ren: "render fmt cmd = [''set-fault'', cid, nid, show_bool b, fmt r, show_int ms] @ (if csv = [] then [] else [csv])"
    by (simp add: render_def cmd cluster_and_node_def)
  have "parse_set_fault pf ([cid, nid, show_bool b, fmt r, show_int ms] @ (if csv = [] then [] else [csv])) = Inr cmd"
    using w by (auto simp: parse_set_fault_def fmt atoi_show cmd Let_def)
  then show ?thesis using w fmt by (auto simp: reparses_def ren parse_parts_name is_word_name)
qed

lemma cluster_options_word: "list_all is_word opts \<Longrightarrow> is_word p \<Longrightarrow> cluster_options b opts p = Inr q \<Longrightarrow> is_word q"
  by (induction b opts p rule: cluster_options.induct) (auto split: list.splits if_splits)

lemma reparses_new_cluster:
  assumes "list_all is_word args" "parse_new_cluster args = Inr cmd"
  shows "reparses pf fmt cmd"
proof -
  obtain cid opts p where args: "args = cid # opts" and p: "cluster_options True opts ''gossip'' = Inr p"
    and cmd: "cmd = (NewCommand CmdCreateCluster)\<lparr>cmd_ClusterID := cid, cmd_Protocol := p\<rparr>"
    using assms(2) by (auto simp: parse_new_cluster_def split: list.splits sum.splits)
  have "is_word p" by (rule cluster_options_word [OF _ _ p]) (use assms(1) args in \<open>simp_all add: is_word_lit\<close>)
  then show ?thesis using assms(1) args
    by (simp add: reparses_def render_def cmd parse_parts_name is_word_name is_word_lit parse_new_cluster_def)
qed

text \<open>The commands \<open>start-node\<close> produces, and that its option loop keeps to them.\<close>

definition start_command :: "command \<Rightarrow> bool" where
  "start_command cmd \<longleftrightarrow> cmd_Type cmd = CmdStartNodeProcess \<and> is_word (cmd_NodeID cmd) \<and> is_word (cmd_ClusterID cmd) \<and> is_word (cmd_Host cmd)
     \<and> (cmd_PeersCSV cmd = [] \<or> is_word (cmd_PeersCSV cmd)) \<and> (cmd_CPHost cmd = [] \<or> is_word (cmd_CPHost cmd))
     \<and> i64_min \<le> cmd_Port cmd \<and> cmd_Port cmd \<le> i64_max \<and> i64_min \<le> cmd_CPPort cmd \<and> cmd_CPPort cmd \<le> i64_max
     \<and> cmd = (NewCommand CmdStartNodeProcess)\<lparr>cmd_NodeID := cmd_NodeID cmd, cmd_Port := cmd_Port cmd, cmd_ClusterID := cmd_ClusterID cmd,
         cmd_Host := cmd_Host cmd, cmd_PeersCSV := cmd_PeersCSV cmd, cmd_CPHost := cmd_CPHost cmd, cmd_CPPort := cmd_CPPort cmd\<rparr>"

lemma start_option_keeps:
  assumes "start_command cmd" "start_option arg = Some f" "is_word v" "f v cmd = Inr cmd'"
  shows "start_command cmd'"
proof (cases "arg = ''--cp-port''")
  case True
  then obtain p where p: "atoi v = Inr p" "cmd' = cmd\<lparr>cmd_CPPort := p\<rparr>"
    using assms(2,4) by (auto simp: start_option_def split: sum.splits)
  show ?thesis using assms(1) atoi_range [OF p(1)] unfolding p(2) by (cases cmd) (simp add: start_command_def NewCommand_def)
next
  case False
  then have "cmd' \<in> {cmd\<lparr>cmd_ClusterID := v\<rparr>, cmd\<lparr>cmd_Host := v\<rparr>, cmd\<lparr>cmd_PeersCSV := v\<rparr>, cmd\<lparr>cmd_CPHost := v\<rparr>}"
    using assms(2,4) by (auto simp: start_option_def split: if_splits)
  then show ?thesis using assms(1,3) by (cases cmd) (elim insertE emptyE; simp add: start_command_def NewCommand_def)
qed

lemma start_options_keep:
  "start_command cmd \<Longrightarrow> list_all is_word opts \<Longrightarrow> start_options opts cmd = Inr cmd' \<Longrightarrow> start_command cmd'"
proof (induction opts cmd rule: start_options.induct)
  case (2 arg rest cmd)
  obtain f v rest' cmd1 where f: "start_option arg = Some f" "rest = v # rest'" "f v cmd = Inr cmd1" "start_options rest' cmd1 = Inr cmd'"
    using 2(4) by (auto split: option.splits list.splits sum.splits)
  have "start_command cmd1" using start_option_keeps [OF 2(2) f(1) _ f(3)] 2(3) f(2) by simp
  then show ?case using 2(1) [OF f(1,2,3)] 2(3) f(2,4) by simp
qed simp

lemma start_options_render:
  assumes "start_command cmd"
  shows "start_options ([''--cluster-id'', cmd_ClusterID cmd, ''--host'', cmd_Host cmd] @ optional ''--peers'' (cmd_PeersCSV cmd)
      @ optional ''--cp-host'' (cmd_CPHost cmd) @ [''--cp-port'', show_int (cmd_CPPort cmd)])
    ((NewCommand CmdStartNodeProcess)\<lparr>cmd_NodeID := cmd_NodeID cmd, cmd_Port := cmd_Port cmd, cmd_ClusterID := ''default'', cmd_Host := ''localhost''\<rparr>)
    = Inr cmd"
  using assms by (cases cmd) (auto simp: start_command_def optional_def start_option_def atoi_show NewCommand_def)

lemma reparses_start_node:
  assumes "list_all is_word args" "parse_start_node args = Inr cmd"
  shows "reparses pf fmt cmd"
proof -
  obtain nid p port opts where args: "args = nid # p # opts" and port: "atoi p = Inr port"
    and run: "start_options opts ((NewCommand CmdStartNodeProcess)\<lparr>cmd_NodeID := nid, cmd_Port := port, cmd_ClusterID := ''default'', cmd_Host := ''localhost''\<rparr>) = Inr cmd"
    using assms(2) by (auto simp: parse_start_node_def split: list.splits sum.splits)
  have "start_command ((NewCommand CmdStartNodeProcess)\<lparr>cmd_NodeID := nid, cmd_Port := port, cmd_ClusterID := ''default'', cmd_Host := ''localhost''\<rparr>)"
    using assms(1) args atoi_range [OF port] by (simp add: start_command_def NewCommand_def is_word_lit i64_min_def i64_max_def)
  then have sc: "start_command cmd" by (rule start_options_keep [OF _ _ run]) (use assms(1) args in simp)
  have ty: "cmd_Type cmd = CmdStartNodeProcess"
    using sc by (simp add: start_command_def)
  have words: "list_all is_word (render fmt cmd)"
    using sc by (auto simp: render_def ty start_command_def optional_def is_word_name is_word_lit)
  have "parse_start_node (tl (render fmt cmd)) = Inr cmd"
    using start_options_render [OF sc] sc by (simp add: render_def ty parse_start_node_def atoi_show start_command_def)
  then show ?thesis using words by (simp add: reparses_def render_def ty parse_parts_name)
qed

text \<open>What the switch of the parser can come to.\<close>

lemma parse_parts_cases:
  "parse_parts pf name args \<in>
     {parse_start_node args, parse_stop_node args, parse_new_cluster args, parse_add_node args, parse_set_fault pf args, parse_fault_drop pf args, parse_fault_delay args, parse_fault_partition args, parse_kv_put args, parse_kv_get args, parse_set_protocol args, parse_run_hypothesis args, parse_metrics_start args, parse_watch_key args, parse_log_lifecycle args, Inl UnknownCommand}
     \<union> {Inr (NewCommand CmdHelp), Inr (NewCommand CmdListNodeProcesses), Inr (NewCommand CmdListClusters)}
     \<union> {parse_cluster CmdListNodes ''list-nodes <cluster-id>'' args, parse_cluster CmdKillCluster ''kill-cluster <cluster-id>'' args,
        parse_cluster CmdMetricsStop ''metrics-stop <cluster-id>'' args, parse_cluster CmdMetricsShow ''metrics-show <cluster-id>'' args}
     \<union> {parse_cluster_node CmdRemoveNode ''remove-node <cluster-id> <node-id>'' args,
        parse_cluster_node CmdCrashNode ''fault-crash <cluster-id> <node-id>'' args,
        parse_cluster_node CmdRecoverNode ''fault-recover <cluster-id> <node-id>'' args}"
  unfolding parse_parts_def by simp

text \<open>
  Every command has a canonical text.  Whatever text \<open>C21: Parse\<close> accepts, the command it returns
  (other than the free-text lifecycle note) is written by \<open>render\<close> as space separated words that
  parse to the very same command, given a way to write the drop rates that the float parser reads.
\<close>

theorem parse_render_roundtrip:
  assumes "Parse pf input = Inr cmd" "cmd_Type cmd \<noteq> CmdLogLifecycleEvent" "formats pf fmt"
  shows "Parse pf (join_with '' '' (render fmt cmd)) = Inr cmd"
proof -
  obtain name args where f: "str_fields input = name # args" and p: "parse_parts pf name args = Inr cmd"
    using assms(1) by (auto simp: Parse_def split: list.splits)
  have w: "list_all is_word args" using fields_words [of _ input] f by (auto simp: list_all_iff)
  have const: "reparses pf fmt (NewCommand t)" if "t \<in> {CmdHelp, CmdListNodeProcesses, CmdListClusters}" for t
    using that by (auto simp: reparses_def render_def parse_parts_name is_word_name)
  have log: "parse_log_lifecycle args \<noteq> Inr cmd" using assms(2) by (auto simp: parse_log_lifecycle_def split: list.splits)
  have "reparses pf fmt cmd"
    using parse_parts_cases [of pf name args] unfolding p
    by (elim UnE insertE emptyE)
       (use log const reparses_simple [OF w] reparses_metrics_start [OF w] reparses_cluster [OF w] reparses_cluster_node [OF w]
          reparses_fault_drop [OF w _ assms(3)] reparses_set_fault [OF w _ assms(3)] reparses_new_cluster [OF w] reparses_start_node [OF w]
        in \<open>(force dest: sym)+\<close>)
  then show ?thesis by (auto simp: reparses_def Parse_def fields_join split: list.splits)
qed

definition half_only :: float_parser where
  "half_only s = (if s = ''0.5'' then Some (Fin (1/2)) else None)"

theorem parse_render_roundtrip_witness:
  "\<exists>cmd. Parse half_only ''fault-drop  c   n 0.5 x'' = Inr cmd
     \<and> Parse half_only (join_with '' '' (render (\<lambda>_. ''0.5'') cmd)) = Inr cmd"
proof -
  let ?cmd = "(NewCommand CmdSetDropRate)\<lparr>cmd_ClusterID := ''c'', cmd_NodeID := ''n'', cmd_DropRate := Fin (1/2)\<rparr>"
  have p: "Parse half_only ''fault-drop  c   n 0.5 x'' = Inr ?cmd"
    by (simp add: Parse_def str_fields_def is_space_def parse_parts_name parse_fault_drop_def half_only_def)
  have f: "formats half_only (\<lambda>_. ''0.5'')" by (auto simp: formats_def half_only_def word_simps split: if_splits)
  show ?thesis using parse_render_roundtrip [OF p _ f] p by auto
qed

end
