(* ===== verification/Experiment.thy ===== *)
theory Experiment
  imports CommandParser NodeConfig
begin

text \<open>
  Declarative experiments: \<open>internal/experiment/experiment.go\<close> (the data, normalisation, validation,
  loading) and \<open>internal/experiment/command_parser.go\<close> (compilation of the timeline into text commands
  for the control plane).  Durations are nanoseconds.  Reading the file and the YAML library are
  arguments of \<open>LoadFile\<close>; errors are values with the position the message names.

  Shown: loaded experiments compile to batches in time order; the compiled texts parse back to the
  intended commands; the peers a node process is given are the other members; which pairs a
  partition step cuts; and that a one-member cluster compiles to a text the parser rejects.
\<close>

section \<open>Data\<close>

record cluster_member =
  mb_ID :: string
  mb_Port :: int
  mb_Host :: string

record cluster_config =
  cc_ID :: string
  cc_Members :: "cluster_member list"

record timeline_step =
  tst_At :: int
  tst_Action :: string
  tst_Groups :: "string list list"
  tst_Key :: string
  tst_Value :: string
  tst_Target :: string

record experiment_spec =
  x_Name :: string
  x_Cluster :: cluster_config
  x_Timeline :: "timeline_step list"

record command_batch =
  bt_At :: int
  bt_Commands :: "string list"

record compile_options =
  co_ClusterID :: string
  co_ControlPlaneHost :: string
  co_ControlPlanePort :: int

datatype step_error =
  NeedsTwoGroups string
| GroupEmpty string nat
| GroupNodeEmpty string nat nat
| NeedsKey string
| NeedsValue string
| NeedsTarget string
| NeedsGroups string
| UnknownAction string
| PartitionNeedsGroups
| NodeIDRequired
| NodeUnknown string
| TargetRequired
| TargetNeedsMembers string
| TargetOutOfRange string
| TargetNoNodes string
| TargetForm string
| TargetInvalid string

datatype experiment_error =
  ReadFailed string
| YAMLFailed string
| NilExperiment
| NameRequired
| ClusterIDMissing
| MemberIDRequired nat
| MemberPortInvalid nat
| MemberDuplicate nat string
| MembersRequired
| TimelineEmpty
| StepTimeNegative nat
| StepActionRequired nat
| StepInvalid nat step_error
| CompileFailed step_error

section \<open>Normalisation and validation\<close>

definition Normalize :: "experiment_spec \<Rightarrow> experiment_spec" where
  "Normalize e = e\<lparr>x_Timeline := sort_key tst_At (x_Timeline e)\<rparr>"

fun check_group :: "string \<Rightarrow> nat \<Rightarrow> nat \<Rightarrow> string list \<Rightarrow> step_error option" where
  "check_group action i j [] = None"
| "check_group action i j (nodeID # ns) =
     (if trim_space nodeID = [] then Some (GroupNodeEmpty action i j) else check_group action i (j + 1) ns)"

fun check_groups :: "string \<Rightarrow> nat \<Rightarrow> string list list \<Rightarrow> step_error option" where
  "check_groups action i [] = None"
| "check_groups action i (g # gs) =
     (if g = [] then Some (GroupEmpty action i)
      else case check_group action i 0 g of Some e \<Rightarrow> Some e | None \<Rightarrow> check_groups action (i + 1) gs)"

definition step_Validate :: "timeline_step \<Rightarrow> step_error option" where
  "step_Validate s =
     (let action = trim_space (tst_Action s) in
      if action = ''start_cluster'' then None
      else if action = ''start_metrics_collection'' then None
      else if action = ''partition'' \<or> action = ''heal_partition'' then
        (if length (tst_Groups s) < 2 then Some (NeedsTwoGroups (tst_Action s))
         else check_groups (tst_Action s) 0 (tst_Groups s))
      else if action = ''write'' then
        (if trim_space (tst_Key s) = [] then Some (NeedsKey (tst_Action s))
         else if trim_space (tst_Value s) = [] then Some (NeedsValue (tst_Action s))
         else if trim_space (tst_Target s) = [] then Some (NeedsTarget (tst_Action s))
         else if has_prefix (to_lower (trim_space (tst_Target s))) ''group'' \<and> tst_Groups s = [] then Some (NeedsGroups (tst_Action s))
         else None)
      else if action = ''read_all'' then
        (if trim_space (tst_Key s) = [] then Some (NeedsKey (tst_Action s)) else None)
      else Some (UnknownAction (tst_Action s)))"

fun check_members :: "nat \<Rightarrow> (string, unit) gomap \<Rightarrow> cluster_member list \<Rightarrow> experiment_error option" where
  "check_members i seen [] = None"
| "check_members i seen (m # ms) =
     (if trim_space (mb_ID m) = [] then Some (MemberIDRequired i)
      else if mb_Port m \<le> 0 then Some (MemberPortInvalid i)
      else if map_of seen (mb_ID m) \<noteq> None then Some (MemberDuplicate i (mb_ID m))
      else check_members (i + 1) (gm_put (mb_ID m) () seen) ms)"

fun check_steps :: "nat \<Rightarrow> timeline_step list \<Rightarrow> experiment_error option" where
  "check_steps i [] = None"
| "check_steps i (s # ss) =
     (if tst_At s < 0 then Some (StepTimeNegative i)
      else if trim_space (tst_Action s) = [] then Some (StepActionRequired i)
      else case step_Validate s of Some e \<Rightarrow> Some (StepInvalid i e) | None \<Rightarrow> check_steps (i + 1) ss)"

text \<open>A nil experiment is \<open>None\<close>.\<close>

definition experiment_Validate :: "experiment_spec option \<Rightarrow> experiment_error option" where
  "experiment_Validate eo = (case eo of
     None \<Rightarrow> Some NilExperiment
   | Some e \<Rightarrow>
       if trim_space (x_Name e) = [] then Some NameRequired
       else if trim_space (cc_ID (x_Cluster e)) = [] then Some ClusterIDMissing
       else if cc_Members (x_Cluster e) = [] then Some MembersRequired
       else case check_members 0 [] (cc_Members (x_Cluster e)) of
         Some er \<Rightarrow> Some er
       | None \<Rightarrow> if x_Timeline e = [] then Some TimelineEmpty else check_steps 0 (x_Timeline e))"

text \<open>
  The hook with which the YAML library decodes the time of a step, given the tag and the text of a scalar; a nil node
  keeps the value.  \<open>time.ParseDuration\<close> and \<open>strconv.ParseFloat\<close> are arguments, and so is the conversion of seconds to a
  duration, which multiplies in floating point.
\<close>

datatype duration_error = BadDuration string | BadSeconds string | UnsupportedTag string

definition UnmarshalYAML ::
  "(string \<Rightarrow> int option) \<Rightarrow> float_parser \<Rightarrow> (f64 \<Rightarrow> int) \<Rightarrow> (string \<times> string) option \<Rightarrow> int \<Rightarrow> duration_error + int" where
  "UnmarshalYAML pd pf to_ns node d = (case node of
     None \<Rightarrow> Inr d
   | Some (tag, v) \<Rightarrow>
       if tag = ''!!str'' \<or> tag = [] then (case pd (trim_space v) of None \<Rightarrow> Inl (BadDuration v) | Some x \<Rightarrow> Inr x)
       else if tag = ''!!int'' \<or> tag = ''!!float'' then (case pf (trim_space v) of None \<Rightarrow> Inl (BadSeconds v) | Some x \<Rightarrow> Inr (to_ns x))
       else Inl (UnsupportedTag tag))"

definition LoadFile :: "(string \<Rightarrow> string + 'raw) \<Rightarrow> ('raw \<Rightarrow> string + experiment_spec) \<Rightarrow> string \<Rightarrow> experiment_error + experiment_spec" where
  "LoadFile readFile unmarshal path = (case readFile path of
     Inl e \<Rightarrow> Inl (ReadFailed e)
   | Inr raw \<Rightarrow> (case unmarshal raw of
       Inl e \<Rightarrow> Inl (YAMLFailed e)
     | Inr e0 \<Rightarrow> let e = Normalize e0 in (case experiment_Validate (Some e) of Some er \<Rightarrow> Inl er | None \<Rightarrow> Inr e)))"

section \<open>Compilation\<close>

definition resolveGroupNodeID :: "string \<Rightarrow> cluster_config \<Rightarrow> step_error + string" where
  "resolveGroupNodeID nodeID cfg =
     (let n = trim_space nodeID in
      if n = [] then Inl NodeIDRequired
      else if list_ex (\<lambda>m. mb_ID m = n) (cc_Members cfg) then Inr n else Inl (NodeUnknown n))"

definition resolveMember :: "nat \<Rightarrow> cluster_config \<Rightarrow> (string \<times> int \<times> string) option" where
  "resolveMember i cfg =
     (if i = 0 \<or> i > length (cc_Members cfg) then None
      else let m = cc_Members cfg ! (i - 1); host = trim_space (mb_Host m)
           in Some (mb_ID m, mb_Port m, if trim_space host = [] then ''localhost'' else host))"

definition buildPeerList :: "nat \<Rightarrow> cluster_config \<Rightarrow> string" where
  "buildPeerList nodeIndex cfg = join_with '',''
     (concat (map (\<lambda>i. if i = nodeIndex then [] else (case resolveMember i cfg of None \<Rightarrow> []
        | Some (nodeID, port, _) \<Rightarrow> [nodeID @ '':'' @ show_int port])) [1..<length (cc_Members cfg) + 1]))"

definition parseGroupTarget :: "string \<Rightarrow> step_error + int" where
  "parseGroupTarget target =
     (let t = to_lower (trim_space target) in
      if \<not> has_prefix t ''group'' then Inl (TargetForm target)
      else case atoi (trim_prefix t ''group'') of Inl _ \<Rightarrow> Inl (TargetInvalid target) | Inr i \<Rightarrow> Inr i)"

definition resolveTargetGroupLeader :: "string \<Rightarrow> string list list \<Rightarrow> cluster_config \<Rightarrow> step_error + string" where
  "resolveTargetGroupLeader target groups cfg = (case parseGroupTarget target of
     Inl e \<Rightarrow> Inl e
   | Inr i \<Rightarrow>
       if i < 1 \<or> i > int (length groups) then Inl (TargetOutOfRange target)
       else case groups ! nat (i - 1) of [] \<Rightarrow> Inl (TargetNoNodes target) | n # _ \<Rightarrow> resolveGroupNodeID n cfg)"

definition resolveWriteTargets :: "string \<Rightarrow> string list list \<Rightarrow> cluster_config \<Rightarrow> step_error + string list" where
  "resolveWriteTargets target groups cfg =
     (let trimmed = trim_space target; lower = to_lower trimmed in
      if trimmed = [] then Inl TargetRequired
      else if lower = ''all'' then
        (if cc_Members cfg = [] then Inl (TargetNeedsMembers target) else Inr (map mb_ID (cc_Members cfg)))
      else case (if has_prefix lower ''group'' then resolveTargetGroupLeader trimmed groups cfg else resolveGroupNodeID trimmed cfg) of
        Inl e \<Rightarrow> Inl e
      | Inr n \<Rightarrow> Inr [n])"

definition partition_text :: "string \<Rightarrow> string \<Rightarrow> string \<Rightarrow> bool \<Rightarrow> string" where
  "partition_text clusterID l r enabled = ''fault-partition '' @ clusterID @ '' '' @ l @ '' '' @ r @ '' '' @ show_bool enabled"

text \<open>The pairs the four nested loops visit, in their order.\<close>

fun group_pairs :: "string list list \<Rightarrow> (string \<times> string) list" where
  "group_pairs [] = []"
| "group_pairs (g # gs) = concat (map (List.product g) gs) @ group_pairs gs"

fun partition_loop :: "string \<Rightarrow> bool \<Rightarrow> cluster_config \<Rightarrow> (string \<times> string) list \<Rightarrow> step_error + string list" where
  "partition_loop clusterID enabled cfg [] = Inr []"
| "partition_loop clusterID enabled cfg ((l, r) # ps) = (case resolveGroupNodeID l cfg of
     Inl e \<Rightarrow> Inl e
   | Inr l' \<Rightarrow> (case resolveGroupNodeID r cfg of
       Inl e \<Rightarrow> Inl e
     | Inr r' \<Rightarrow> (case partition_loop clusterID enabled cfg ps of
         Inl e \<Rightarrow> Inl e
       | Inr cs \<Rightarrow> Inr (partition_text clusterID l' r' enabled # cs))))"

definition compilePartitionCommands :: "string \<Rightarrow> string list list \<Rightarrow> bool \<Rightarrow> cluster_config \<Rightarrow> step_error + string list" where
  "compilePartitionCommands clusterID groups enabled cfg =
     (if length groups < 2 then Inl PartitionNeedsGroups else partition_loop clusterID enabled cfg (group_pairs groups))"

definition start_node_text :: "string \<Rightarrow> int \<Rightarrow> string \<Rightarrow> string \<Rightarrow> string \<Rightarrow> string \<Rightarrow> int \<Rightarrow> string" where
  "start_node_text nodeID port clusterID host peers cpHost cpPort =
     ''start-node '' @ nodeID @ '' '' @ show_int port @ '' --cluster-id '' @ clusterID @ '' --host '' @ host @ '' --peers '' @ peers
     @ '' --cp-host '' @ cpHost @ '' --cp-port '' @ show_int cpPort"

definition compileStartClusterCommands :: "string \<Rightarrow> string \<Rightarrow> int \<Rightarrow> cluster_config \<Rightarrow> string list" where
  "compileStartClusterCommands clusterID cpHost cpPort cfg =
     [''cp new-cluster '' @ clusterID,
      ''log-lifecycle '' @ clusterID @ '' SYSTEM NODE_JOIN '' @ [CHR 0x22] @ ''Starting cluster members'' @ [CHR 0x22]]
     @ concat (map (\<lambda>i. case resolveMember i cfg of None \<Rightarrow> []
         | Some (nodeID, port, host) \<Rightarrow> [start_node_text nodeID port clusterID host (buildPeerList i cfg) cpHost cpPort])
       [1..<length (cc_Members cfg) + 1])"

definition compileCommands :: "string \<Rightarrow> string \<Rightarrow> int \<Rightarrow> cluster_config \<Rightarrow> timeline_step \<Rightarrow> step_error + string list" where
  "compileCommands clusterID cpHost cpPort cfg s =
     (let action = trim_space (tst_Action s) in
      if action = ''start_cluster'' then Inr (compileStartClusterCommands clusterID cpHost cpPort cfg)
      else if action = ''start_metrics_collection'' then Inr [''metrics-start '' @ clusterID]
      else if action = ''partition'' then
        (case compilePartitionCommands clusterID (tst_Groups s) True cfg of
           Inl e \<Rightarrow> Inl e
         | Inr cmds \<Rightarrow> Inr ((''log-lifecycle '' @ clusterID @ '' SYSTEM PARTITION '' @ [CHR 0x22] @ ''Splitting cluster into ''
              @ show_nat (length (tst_Groups s)) @ '' partitions'' @ [CHR 0x22]) # cmds))
      else if action = ''heal_partition'' then
        (case compilePartitionCommands clusterID (tst_Groups s) False cfg of
           Inl e \<Rightarrow> Inl e
         | Inr cmds \<Rightarrow> Inr ((''log-lifecycle '' @ clusterID @ '' SYSTEM HEAL '' @ [CHR 0x22] @ ''Healing all network partitions''
              @ [CHR 0x22]) # cmds))
      else if action = ''write'' then
        (case resolveWriteTargets (tst_Target s) (tst_Groups s) cfg of
           Inl e \<Rightarrow> Inl e
         | Inr ns \<Rightarrow> Inr (map (\<lambda>n. ''kv-put '' @ clusterID @ '' '' @ n @ '' '' @ tst_Key s @ '' '' @ tst_Value s) ns))
      else if action = ''read_all'' then
        Inr (map (\<lambda>m. ''kv-get '' @ clusterID @ '' '' @ mb_ID m @ '' '' @ tst_Key s) (cc_Members cfg))
      else Inl (UnknownAction (tst_Action s)))"

fun compile_steps :: "(timeline_step \<Rightarrow> step_error + string list) \<Rightarrow> timeline_step list \<Rightarrow> step_error + command_batch list" where
  "compile_steps cmp [] = Inr []"
| "compile_steps cmp (s # ss) = (case cmp s of
     Inl e \<Rightarrow> Inl e
   | Inr cs \<Rightarrow> (case compile_steps cmp ss of Inl e \<Rightarrow> Inl e
       | Inr bs \<Rightarrow> Inr (\<lparr>bt_At = tst_At s, bt_Commands = cs\<rparr> # bs)))"

definition compile_cluster_id :: "compile_options \<Rightarrow> experiment_spec \<Rightarrow> string" where
  "compile_cluster_id opts e =
     (let c = trim_space (co_ClusterID opts);
          c = (if c = [] then trim_space (cc_ID (x_Cluster e)) else c)
      in if c = [] then x_Name e else c)"

definition Compile :: "experiment_spec option \<Rightarrow> compile_options \<Rightarrow> experiment_error + command_batch list" where
  "Compile eo opts = (case experiment_Validate eo of
     Some er \<Rightarrow> Inl er
   | None \<Rightarrow>
       let e = the eo;
           host = trim_space (co_ControlPlaneHost opts);
           host = (if host = [] then ''localhost'' else host);
           port = (if co_ControlPlanePort opts \<le> 0 then 9091 else co_ControlPlanePort opts)
       in case compile_steps (compileCommands (compile_cluster_id opts e) host port (x_Cluster e)) (x_Timeline e) of
            Inl er \<Rightarrow> Inl (CompileFailed er)
          | Inr bs \<Rightarrow> Inr bs)"

section \<open>The schedule\<close>

lemma compile_steps_times:
  "compile_steps f ss = Inr bs \<Longrightarrow> map bt_At bs = map tst_At ss
     \<and> (\<forall>i < length ss. f (ss ! i) = Inr (bt_Commands (bs ! i)))"
proof (induction ss arbitrary: bs)
  case (Cons s ss)
  then obtain cs bs' where "f s = Inr cs" "compile_steps f ss = Inr bs'" "bs = \<lparr>bt_At = tst_At s, bt_Commands = cs\<rparr> # bs'"
    by (auto split: sum.splits)
  with Cons.IH [of bs'] show ?case by (auto simp: less_Suc_eq_0_disj)
qed simp

lemma check_steps_None: "check_steps i ss = None \<longleftrightarrow>
  (\<forall>s \<in> set ss. 0 \<le> tst_At s \<and> trim_space (tst_Action s) \<noteq> [] \<and> step_Validate s = None)"
  by (induction ss arbitrary: i) (auto split: option.splits)

lemma check_members_None: "check_members i seen ms = None \<longleftrightarrow>
  (\<forall>m \<in> set ms. trim_space (mb_ID m) \<noteq> [] \<and> 0 < mb_Port m \<and> mb_ID m \<notin> dom (map_of seen)) \<and> distinct (map mb_ID ms)"
proof (induction ms arbitrary: i seen)
  case (Cons m ms)
  have "mb_ID x \<notin> dom (map_of (gm_put (mb_ID m) () seen)) \<longleftrightarrow> mb_ID x \<noteq> mb_ID m \<and> mb_ID x \<notin> dom (map_of seen)" for x
    unfolding dom_put by simp
  with Cons.IH [of "i + 1" "gm_put (mb_ID m) () seen"] show ?case by (auto simp: domIff image_iff)
qed simp

lemma Validate_None: "experiment_Validate (Some e) = None \<longleftrightarrow>
  trim_space (x_Name e) \<noteq> [] \<and> trim_space (cc_ID (x_Cluster e)) \<noteq> [] \<and> cc_Members (x_Cluster e) \<noteq> []
  \<and> (\<forall>m \<in> set (cc_Members (x_Cluster e)). trim_space (mb_ID m) \<noteq> [] \<and> 0 < mb_Port m) \<and> distinct (map mb_ID (cc_Members (x_Cluster e)))
  \<and> x_Timeline e \<noteq> [] \<and> (\<forall>s \<in> set (x_Timeline e). 0 \<le> tst_At s \<and> trim_space (tst_Action s) \<noteq> [] \<and> step_Validate s = None)"
proof (cases "check_members 0 [] (cc_Members (x_Cluster e))")
  case None
  with check_members_None [of 0 "[]" "cc_Members (x_Cluster e)"] show ?thesis
    by (auto simp: experiment_Validate_def check_steps_None)
next
  case (Some er)
  with check_members_None [of 0 "[]" "cc_Members (x_Cluster e)"] show ?thesis
    by (auto simp: experiment_Validate_def)
qed

text \<open>
  A loaded experiment runs in time order.  Whatever order the file lists the steps in, the
  compiled batches have non-decreasing, non-negative times, one batch per step of the file; steps
  at the same time keep the file's order; members are distinct and have positive ports.
\<close>

theorem schedule_in_time_order:
  assumes "LoadFile readFile unmarshal path = Inr e" "Compile (Some e) opts = Inr bs"
  shows "\<exists>raw e0. readFile path = Inr raw \<and> unmarshal raw = Inr e0
    \<and> sorted (map bt_At bs) \<and> (\<forall>t \<in> set (map bt_At bs). 0 \<le> t) \<and> bs \<noteq> []
    \<and> map bt_At bs = map tst_At (x_Timeline e)
    \<and> (\<forall>t. filter (\<lambda>s. tst_At s = t) (x_Timeline e) = filter (\<lambda>s. tst_At s = t) (x_Timeline e0))
    \<and> distinct (map mb_ID (cc_Members (x_Cluster e))) \<and> (\<forall>m \<in> set (cc_Members (x_Cluster e)). 0 < mb_Port m)"
proof -
  obtain raw e0 where r: "readFile path = Inr raw" "unmarshal raw = Inr e0" and e: "e = Normalize e0"
    and v: "experiment_Validate (Some e) = None"
    using assms(1) by (auto simp: LoadFile_def Let_def split: sum.splits option.splits)
  obtain f where "compile_steps f (x_Timeline e) = Inr bs"
    using assms(2) v by (auto simp: Compile_def Let_def split: sum.splits)
  then have t: "map bt_At bs = map tst_At (x_Timeline e)" by (simp add: compile_steps_times)
  have tl: "x_Timeline e = sort_key tst_At (x_Timeline e0)" by (simp add: e Normalize_def)
  have st: "filter (\<lambda>s. tst_At s = t) (x_Timeline e) = filter (\<lambda>s. tst_At s = t) (x_Timeline e0)" for t
    unfolding tl using sort_key_stable [of tst_At t "x_Timeline e0"] by simp
  note ok = v [unfolded Validate_None]
  have "sorted (map bt_At bs)" unfolding t tl by simp
  moreover have "\<forall>t \<in> set (map bt_At bs). 0 \<le> t" unfolding t using ok by auto
  moreover have "bs \<noteq> []" using t ok by auto
  ultimately show ?thesis using r t st ok by blast
qed

section \<open>Compiled texts are understood\<close>

lemma runtime_words:
  assumes "list_all is_word (n # ws)" "n \<noteq> ''cp''"
  shows "runtime_command pf (join_with '' '' (n # ws)) = Some (parse_parts pf n ws)"
proof -
  have "str_fields (join_with '' '' (n # ws)) = n # ws" by (rule fields_join [OF assms(1)])
  moreover have "join_with '' '' (n # ws) \<noteq> []" using last_join [OF _ assms(1)] by simp
  ultimately show ?thesis
    using assms(2) by (simp only: runtime_command_def trim_join [OF assms(1)] Let_def) (simp add: Parse_def)
qed

lemma runtime_cp:
  assumes "list_all is_word (n # ws)"
  shows "runtime_command pf (''cp '' @ join_with '' '' (n # ws)) = Some (parse_parts pf n ws)"
proof -
  have w: "list_all is_word (''cp'' # n # ws)" using assms by (simp add: word_simps)
  have tx: "''cp '' @ join_with '' '' (n # ws) = join_with '' '' (''cp'' # n # ws)" by simp
  have f: "str_fields (join_with '' '' (''cp'' # n # ws)) = ''cp'' # n # ws" by (rule fields_join [OF w])
  have rem: "trim_space (trim_prefix (join_with '' '' (''cp'' # n # ws)) ''cp'') = join_with '' '' (n # ws)"
  proof -
    have "trim_prefix (join_with '' '' (''cp'' # n # ws)) ''cp'' = CHR '' '' # join_with '' '' (n # ws)"
      using trim_prefix_append [of "''cp''" "CHR '' '' # join_with '' '' (n # ws)"] by simp
    then show ?thesis using trim_join [OF assms] by (simp add: trim_space_front is_space_def)
  qed
  have ne: "join_with '' '' (n # ws) \<noteq> []" "join_with '' '' (''cp'' # n # ws) \<noteq> []"
    using last_join [OF _ assms] last_join [OF _ w] by simp_all
  have p: "Parse pf (join_with '' '' (n # ws)) = parse_parts pf n ws"
    by (simp add: Parse_def fields_join [OF assms])
  show ?thesis
    unfolding tx by (simp only: runtime_command_def trim_join [OF w] Let_def f rem) (simp only: ne p rem list.case simp_thms if_False if_True)
qed

text \<open>A lifecycle note: its details are quoted words.\<close>

definition note_command :: "string \<Rightarrow> string \<Rightarrow> string \<Rightarrow> command" where
  "note_command cid ty v = (NewCommand CmdLogLifecycleEvent)\<lparr>cmd_ClusterID := cid, cmd_NodeID := ''SYSTEM'', cmd_EventType := ty, cmd_Value := v\<rparr>"

lemma runtime_note:
  assumes "is_word cid" "is_word ty" "list_all is_word (d # ds)" "join_with '' '' (d # ds) = CHR 0x22 # v @ [CHR 0x22]"
    and "v \<noteq> []" "hd v \<noteq> CHR 0x22" "last v \<noteq> CHR 0x22"
  shows "runtime_command pf (''log-lifecycle '' @ cid @ '' SYSTEM '' @ ty @ '' '' @ CHR 0x22 # v @ [CHR 0x22]) = Some (Inr (note_command cid ty v))"
proof -
  have tx: "''log-lifecycle '' @ cid @ '' SYSTEM '' @ ty @ '' '' @ CHR 0x22 # v @ [CHR 0x22] =
      join_with '' '' (''log-lifecycle'' # cid # ''SYSTEM'' # ty # d # ds)"
    by (simp add: assms(4))
  have "list_all is_word (''log-lifecycle'' # cid # ''SYSTEM'' # ty # d # ds)" using assms(1-3) by (simp add: word_simps)
  from runtime_words [OF this, of pf] show ?thesis
    unfolding tx using assms(4) trim_char_quoted [OF assms(5-7)]
    by (simp add: parse_parts_name parse_log_lifecycle_def note_command_def)
qed

text \<open>The commands a step is meant to run.\<close>

definition member_host :: "cluster_member \<Rightarrow> string" where
  "member_host m = (if trim_space (mb_Host m) = [] then ''localhost'' else trim_space (mb_Host m))"

definition start_member :: "string \<Rightarrow> string \<Rightarrow> int \<Rightarrow> cluster_config \<Rightarrow> nat \<Rightarrow> command" where
  "start_member cid cpHost cpPort cfg j = (NewCommand CmdStartNodeProcess)\<lparr>cmd_NodeID := mb_ID (cc_Members cfg ! j),
     cmd_Port := mb_Port (cc_Members cfg ! j), cmd_ClusterID := cid, cmd_Host := member_host (cc_Members cfg ! j),
     cmd_PeersCSV := buildPeerList (j + 1) cfg, cmd_CPHost := cpHost, cmd_CPPort := cpPort\<rparr>"

definition cut_commands :: "string \<Rightarrow> bool \<Rightarrow> (string \<times> string) list \<Rightarrow> command list" where
  "cut_commands cid b ps = map (\<lambda>(l, r). (NewCommand CmdSetPartition)\<lparr>cmd_ClusterID := cid, cmd_NodeID := trim_space l,
     cmd_PeerID := trim_space r, cmd_Enabled := b\<rparr>) ps"

definition intended :: "string \<Rightarrow> string \<Rightarrow> int \<Rightarrow> cluster_config \<Rightarrow> timeline_step \<Rightarrow> command list" where
  "intended cid cpHost cpPort cfg s =
     (let action = trim_space (tst_Action s) in
      if action = ''start_cluster'' then
        [(NewCommand CmdCreateCluster)\<lparr>cmd_ClusterID := cid, cmd_Protocol := ''gossip''\<rparr>,
         note_command cid ''NODE_JOIN'' ''Starting cluster members'']
        @ map (start_member cid cpHost cpPort cfg) [0..<length (cc_Members cfg)]
      else if action = ''start_metrics_collection'' then [(NewCommand CmdMetricsStart)\<lparr>cmd_ClusterID := cid\<rparr>]
      else if action = ''partition'' then
        note_command cid ''PARTITION'' (''Splitting cluster into '' @ show_nat (length (tst_Groups s)) @ '' partitions'')
        # cut_commands cid True (group_pairs (tst_Groups s))
      else if action = ''heal_partition'' then
        note_command cid ''HEAL'' ''Healing all network partitions'' # cut_commands cid False (group_pairs (tst_Groups s))
      else if action = ''write'' then
        map (\<lambda>n. (NewCommand CmdKVPut)\<lparr>cmd_ClusterID := cid, cmd_NodeID := n, cmd_Key := tst_Key s, cmd_Value := tst_Value s\<rparr>)
          (case resolveWriteTargets (tst_Target s) (tst_Groups s) cfg of Inl _ \<Rightarrow> [] | Inr ns \<Rightarrow> ns)
      else map (\<lambda>m. (NewCommand CmdKVGet)\<lparr>cmd_ClusterID := cid, cmd_NodeID := mb_ID m, cmd_Key := tst_Key s\<rparr>) (cc_Members cfg))"

text \<open>A configuration whose names are words; at least two members.\<close>

definition plain_config :: "cluster_config \<Rightarrow> bool" where
  "plain_config cfg \<longleftrightarrow> 2 \<le> length (cc_Members cfg) \<and>
     list_all (\<lambda>m. is_word (mb_ID m) \<and> is_word (member_host m) \<and> i64_min \<le> mb_Port m \<and> mb_Port m \<le> i64_max) (cc_Members cfg)"

definition others :: "nat \<Rightarrow> cluster_config \<Rightarrow> cluster_member list" where
  "others j cfg = map ((!) (cc_Members cfg)) (filter (\<lambda>k. k \<noteq> j) [0..<length (cc_Members cfg)])"

lemma resolveMember_Suc:
  "j < length (cc_Members cfg) \<Longrightarrow> resolveMember (Suc j) cfg =
     Some (mb_ID (cc_Members cfg ! j), mb_Port (cc_Members cfg ! j), member_host (cc_Members cfg ! j))"
  by (simp add: resolveMember_def Let_def member_host_def trim_space_idem)

lemma upt_Suc_map: "[1..<n + 1] = map Suc [0..<n]"
  by (simp add: map_Suc_upt)

lemma buildPeerList_others:
  "buildPeerList (Suc j) cfg = join_with '','' (map (\<lambda>m. mb_ID m @ '':'' @ show_int (mb_Port m)) (others j cfg))"
proof -
  let ?f = "\<lambda>i. if i = Suc j then [] else (case resolveMember i cfg of None \<Rightarrow> [] | Some (nodeID, port, _) \<Rightarrow> [nodeID @ '':'' @ show_int port])"
  have "concat (map ?f (map Suc ks)) = map (\<lambda>m. mb_ID m @ '':'' @ show_int (mb_Port m)) (map ((!) (cc_Members cfg)) (filter (\<lambda>k. k \<noteq> j) ks))"
    if "set ks \<subseteq> {..<length (cc_Members cfg)}" for ks
    using that by (induction ks) (auto simp: resolveMember_Suc)
  from this [of "[0..<length (cc_Members cfg)]"] show ?thesis
    by (simp only: buildPeerList_def upt_Suc_map others_def) (simp add: atLeast0LessThan)
qed

lemma others_ne: "2 \<le> length (cc_Members cfg) \<Longrightarrow> others j cfg \<noteq> []"
proof -
  assume n: "2 \<le> length (cc_Members cfg)"
  define k where "k = (if j = 0 then 1 else 0 :: nat)"
  have "k \<in> set (filter (\<lambda>k. k \<noteq> j) [0..<length (cc_Members cfg)])" using n by (cases "cc_Members cfg") (auto simp: k_def)
  then show ?thesis unfolding others_def by (metis empty_iff list.set(1) map_is_Nil_conv)
qed

lemma others_sub: "set (others j cfg) \<subseteq> set (cc_Members cfg)"
  by (auto simp: others_def)

lemma item_word: "is_word a \<Longrightarrow> is_word b \<Longrightarrow> is_word (a @ CHR '':'' # b)"
  by (auto simp: word_simps)

lemma peer_list_word:
  assumes "plain_config cfg"
  shows "is_word (buildPeerList (Suc j) cfg)"
proof -
  have "list_all is_word (map (\<lambda>m. mb_ID m @ '':'' @ show_int (mb_Port m)) (others j cfg))"
    using assms others_sub [of j cfg]
    by (auto simp: list_all_iff plain_config_def subset_iff intro!: item_word)
  then show ?thesis unfolding buildPeerList_others
    using others_ne [of cfg j] assms by (intro join_word) (auto simp: plain_config_def)
qed

lemma runtime_start_node:
  assumes "plain_config cfg" "j < length (cc_Members cfg)" "is_word cid" "is_word cpHost" "i64_min \<le> cpPort" "cpPort \<le> i64_max"
  shows "runtime_command pf (start_node_text (mb_ID (cc_Members cfg ! j)) (mb_Port (cc_Members cfg ! j)) cid (member_host (cc_Members cfg ! j))
      (buildPeerList (Suc j) cfg) cpHost cpPort) = Some (Inr (start_member cid cpHost cpPort cfg j))"
proof -
  let ?m = "cc_Members cfg ! j"
  let ?ws = "[mb_ID ?m, show_int (mb_Port ?m), ''--cluster-id'', cid, ''--host'', member_host ?m, ''--peers'', buildPeerList (Suc j) cfg,
      ''--cp-host'', cpHost, ''--cp-port'', show_int cpPort]"
  have m: "is_word (mb_ID ?m)" "is_word (member_host ?m)" "i64_min \<le> mb_Port ?m" "mb_Port ?m \<le> i64_max"
    using assms(1,2) by (simp_all add: plain_config_def list_all_length)
  have w: "list_all is_word (''start-node'' # ?ws)"
    using m assms(3,4) peer_list_word [OF assms(1), of j] by (simp add: is_word_name is_word_lit)
  have tx: "start_node_text (mb_ID ?m) (mb_Port ?m) cid (member_host ?m) (buildPeerList (Suc j) cfg) cpHost cpPort = join_with '' '' (''start-node'' # ?ws)"
    by (simp add: start_node_text_def)
  have "parse_start_node ?ws = Inr (start_member cid cpHost cpPort cfg j)"
    using m assms(5,6) by (simp add: parse_start_node_def start_option_def atoi_show start_member_def)
  moreover have "''start-node'' \<noteq> ''cp''" by simp
  ultimately show ?thesis using runtime_words [OF w, of pf] by (metis tx parse_parts_name(2))
qed

lemma compileStart_map:
  "compileStartClusterCommands cid cpHost cpPort cfg =
     [''cp new-cluster '' @ cid, ''log-lifecycle '' @ cid @ '' SYSTEM NODE_JOIN '' @ [CHR 0x22] @ ''Starting cluster members'' @ [CHR 0x22]]
     @ map (\<lambda>j. start_node_text (mb_ID (cc_Members cfg ! j)) (mb_Port (cc_Members cfg ! j)) cid (member_host (cc_Members cfg ! j))
         (buildPeerList (Suc j) cfg) cpHost cpPort) [0..<length (cc_Members cfg)]"
proof -
  let ?f = "\<lambda>i. case resolveMember i cfg of None \<Rightarrow> []
         | Some (nodeID, port, host) \<Rightarrow> [start_node_text nodeID port cid host (buildPeerList i cfg) cpHost cpPort]"
  have "concat (map ?f (map Suc ks)) = map (\<lambda>j. start_node_text (mb_ID (cc_Members cfg ! j)) (mb_Port (cc_Members cfg ! j)) cid (member_host (cc_Members cfg ! j))
         (buildPeerList (Suc j) cfg) cpHost cpPort) ks" if "set ks \<subseteq> {..<length (cc_Members cfg)}" for ks
    using that by (induction ks) (auto simp: resolveMember_Suc)
  from this [of "[0..<length (cc_Members cfg)]"] show ?thesis
    by (simp only: compileStartClusterCommands_def upt_Suc_map) (simp add: atLeast0LessThan)
qed

lemma start_cluster_parses:
  assumes "plain_config cfg" "is_word cid" "is_word cpHost" "i64_min \<le> cpPort" "cpPort \<le> i64_max"
  shows "map (runtime_command pf) (compileStartClusterCommands cid cpHost cpPort cfg) =
    map (Some \<circ> Inr) ([(NewCommand CmdCreateCluster)\<lparr>cmd_ClusterID := cid, cmd_Protocol := ''gossip''\<rparr>,
         note_command cid ''NODE_JOIN'' ''Starting cluster members''] @ map (start_member cid cpHost cpPort cfg) [0..<length (cc_Members cfg)])"
proof -
  have "list_all is_word [''new-cluster'', cid]" using assms(2) by (simp add: is_word_name)
  from runtime_cp [OF this, of pf]
  have new: "runtime_command pf (''cp new-cluster '' @ cid) = Some (Inr ((NewCommand CmdCreateCluster)\<lparr>cmd_ClusterID := cid, cmd_Protocol := ''gossip''\<rparr>))"
    by (simp add: parse_parts_name parse_new_cluster_def)
  have nt: "runtime_command pf (''log-lifecycle '' @ cid @ '' SYSTEM '' @ ''NODE_JOIN'' @ '' '' @ CHR 0x22 # ''Starting cluster members'' @ [CHR 0x22]) =
      Some (Inr (note_command cid ''NODE_JOIN'' ''Starting cluster members''))"
    by (rule runtime_note [where d = "CHR 0x22 # ''Starting''" and ds = "[''cluster'', ''members'' @ [CHR 0x22]]"])
       (use assms(2) in \<open>simp_all add: word_simps\<close>)
  have starts: "map (runtime_command pf) (map (\<lambda>j. start_node_text (mb_ID (cc_Members cfg ! j)) (mb_Port (cc_Members cfg ! j)) cid (member_host (cc_Members cfg ! j))
         (buildPeerList (Suc j) cfg) cpHost cpPort) [0..<length (cc_Members cfg)]) =
      map (Some \<circ> Inr) (map (start_member cid cpHost cpPort cfg) [0..<length (cc_Members cfg)])"
    using runtime_start_node [OF assms(1) _ assms(2-5), of _ pf] by simp
  show ?thesis
    unfolding compileStart_map map_append starts using new nt by simp
qed

lemma resolve_Inr: "resolveGroupNodeID x cfg = Inr n \<Longrightarrow> n = trim_space x \<and> n \<in> mb_ID ` set (cc_Members cfg)"
  by (auto simp: resolveGroupNodeID_def Let_def list_ex_iff image_iff split: if_splits) metis

lemma partition_loop_texts:
  "partition_loop cid b cfg ps = Inr cs \<Longrightarrow> cs = map (\<lambda>(l, r). partition_text cid (trim_space l) (trim_space r) b) ps
     \<and> (\<forall>(l, r) \<in> set ps. trim_space l \<in> mb_ID ` set (cc_Members cfg) \<and> trim_space r \<in> mb_ID ` set (cc_Members cfg))"
proof (induction ps arbitrary: cs)
  case (Cons p ps)
  obtain l r where p: "p = (l, r)" by force
  obtain l' r' cs' where "resolveGroupNodeID l cfg = Inr l'" "resolveGroupNodeID r cfg = Inr r'" "partition_loop cid b cfg ps = Inr cs'"
    "cs = partition_text cid l' r' b # cs'"
    using Cons.prems by (auto simp: p split: sum.splits)
  with Cons.IH [of cs'] resolve_Inr [of l cfg l'] resolve_Inr [of r cfg r'] show ?case by (auto simp: p)
qed simp

lemma runtime_partition:
  assumes "is_word cid" "is_word l" "is_word r"
  shows "runtime_command pf (partition_text cid l r b) =
    Some (Inr ((NewCommand CmdSetPartition)\<lparr>cmd_ClusterID := cid, cmd_NodeID := l, cmd_PeerID := r, cmd_Enabled := b\<rparr>))"
proof -
  have w: "list_all is_word [''fault-partition'', cid, l, r, show_bool b]" using assms by (simp add: is_word_name)
  have tx: "partition_text cid l r b = join_with '' '' [''fault-partition'', cid, l, r, show_bool b]" by (simp add: partition_text_def)
  show ?thesis using runtime_words [OF w, of pf] by (simp add: tx parse_parts_name parse_fault_partition_def)
qed

lemma partition_parses:
  assumes "compilePartitionCommands cid gs b cfg = Inr cs" "plain_config cfg" "is_word cid"
  shows "map (runtime_command pf) cs = map (Some \<circ> Inr) (cut_commands cid b (group_pairs gs))"
proof -
  have "partition_loop cid b cfg (group_pairs gs) = Inr cs"
    using assms(1) by (auto simp: compilePartitionCommands_def split: if_splits)
  from partition_loop_texts [OF this] have cs: "cs = map (\<lambda>(l, r). partition_text cid (trim_space l) (trim_space r) b) (group_pairs gs)"
    and m: "(l, r) \<in> set (group_pairs gs) \<Longrightarrow> trim_space l \<in> mb_ID ` set (cc_Members cfg) \<and> trim_space r \<in> mb_ID ` set (cc_Members cfg)" for l r
    by auto
  have "is_word x" if "x \<in> mb_ID ` set (cc_Members cfg)" for x using that assms(2) by (auto simp: plain_config_def list_all_iff)
  with m assms(3) show ?thesis unfolding cs by (auto simp: cut_commands_def runtime_partition)
qed

lemma targets_members:
  "resolveWriteTargets t gs cfg = Inr ns \<Longrightarrow> set ns \<subseteq> mb_ID ` set (cc_Members cfg)"
  using resolve_Inr
  by (fastforce simp: resolveWriteTargets_def resolveTargetGroupLeader_def Let_def split: if_splits sum.splits list.splits)

lemma is_word_show_nat: "is_word (show_nat n)"
  using is_word_show_int [of "int n"] by (simp add: show_int_def)

lemma runtime_kv:
  assumes "is_word cid" "is_word n" "is_word k"
  shows "runtime_command pf (''kv-get '' @ cid @ '' '' @ n @ '' '' @ k) =
      Some (Inr ((NewCommand CmdKVGet)\<lparr>cmd_ClusterID := cid, cmd_NodeID := n, cmd_Key := k\<rparr>))"
    and "is_word v \<Longrightarrow> runtime_command pf (''kv-put '' @ cid @ '' '' @ n @ '' '' @ k @ '' '' @ v) =
      Some (Inr ((NewCommand CmdKVPut)\<lparr>cmd_ClusterID := cid, cmd_NodeID := n, cmd_Key := k, cmd_Value := v\<rparr>))"
  using runtime_words [of "''kv-get''" "[cid, n, k]" pf] runtime_words [of "''kv-put''" "[cid, n, k, v]" pf] assms
  by (simp_all add: is_word_name parse_parts_name parse_kv_get_def parse_kv_put_def)

lemma runtime_metrics_start:
  "is_word cid \<Longrightarrow> runtime_command pf (''metrics-start '' @ cid) = Some (Inr ((NewCommand CmdMetricsStart)\<lparr>cmd_ClusterID := cid\<rparr>))"
  using runtime_words [of "''metrics-start''" "[cid]" pf] by (simp add: is_word_name parse_parts_name parse_metrics_start_def)

lemma runtime_partition_note:
  assumes "is_word cid"
  shows "runtime_command pf (''log-lifecycle '' @ cid @ '' SYSTEM '' @ ''PARTITION'' @ '' '' @ CHR 0x22 # (''Splitting cluster into '' @ show_nat n @ '' partitions'') @ [CHR 0x22])
      = Some (Inr (note_command cid ''PARTITION'' (''Splitting cluster into '' @ show_nat n @ '' partitions'')))"
    and "runtime_command pf (''log-lifecycle '' @ cid @ '' SYSTEM '' @ ''HEAL'' @ '' '' @ CHR 0x22 # ''Healing all network partitions'' @ [CHR 0x22])
      = Some (Inr (note_command cid ''HEAL'' ''Healing all network partitions''))"
proof -
  show "runtime_command pf (''log-lifecycle '' @ cid @ '' SYSTEM '' @ ''PARTITION'' @ '' '' @ CHR 0x22 # (''Splitting cluster into '' @ show_nat n @ '' partitions'') @ [CHR 0x22])
      = Some (Inr (note_command cid ''PARTITION'' (''Splitting cluster into '' @ show_nat n @ '' partitions'')))"
    by (rule runtime_note [where d = "CHR 0x22 # ''Splitting''" and ds = "[''cluster'', ''into'', show_nat n, ''partitions'' @ [CHR 0x22]]"])
       (use assms is_word_show_nat [of n] in \<open>simp_all add: word_simps\<close>)
  show "runtime_command pf (''log-lifecycle '' @ cid @ '' SYSTEM '' @ ''HEAL'' @ '' '' @ CHR 0x22 # ''Healing all network partitions'' @ [CHR 0x22])
      = Some (Inr (note_command cid ''HEAL'' ''Healing all network partitions''))"
    by (rule runtime_note [where d = "CHR 0x22 # ''Healing''" and ds = "[''all'', ''network'', ''partitions'' @ [CHR 0x22]]"])
       (use assms in \<open>simp_all add: word_simps\<close>)
qed

text \<open>Names that survive the peer list: words without its separators.\<close>

definition plain_members :: "cluster_config \<Rightarrow> bool" where
  "plain_members cfg \<longleftrightarrow> list_all (\<lambda>m. CHR '','' \<notin> set (mb_ID m) \<and> CHR '':'' \<notin> set (mb_ID m) \<and> CHR ''@'' \<notin> set (mb_ID m) \<and> 0 < mb_Port m) (cc_Members cfg)"

definition demo_config :: cluster_config where
  "demo_config = \<lparr>cc_ID = ''c'', cc_Members = [\<lparr>mb_ID = ''n1'', mb_Port = 8001, mb_Host = []\<rparr>, \<lparr>mb_ID = ''n2'', mb_Port = 8002, mb_Host = ''h2''\<rparr>]\<rparr>"

definition write_step :: timeline_step where
  "write_step = \<lparr>tst_At = 2, tst_Action = ''write'', tst_Groups = [], tst_Key = ''k'', tst_Value = ''v'', tst_Target = ''n2''\<rparr>"

definition demo_experiment :: experiment_spec where
  "demo_experiment = \<lparr>x_Name = ''demo'', x_Cluster = demo_config, x_Timeline = [write_step, write_step\<lparr>tst_At := 1, tst_Action := ''start_cluster''\<rparr>]\<rparr>"

lemma demo_words: "trim_space ''write'' = ''write''" "trim_space ''start_cluster'' = ''start_cluster''" "trim_space ''n2'' = ''n2''"
  "trim_space ''k'' = ''k''" "trim_space ''v'' = ''v''" "trim_space ''h2'' = ''h2''" "trim_space ''c'' = ''c''" "trim_space ''demo'' = ''demo''"
  "trim_space ''n1'' = ''n1''"
  by (rule trim_space_word, simp add: word_simps)+

lemma demo_lower: "to_lower ''n2'' = ''n2''"
  by code_simp

lemma demo_valid: "experiment_Validate (Some (Normalize demo_experiment)) = None"
  by (simp add: Validate_None Normalize_def demo_experiment_def demo_config_def write_step_def step_Validate_def demo_words demo_lower has_prefix_def)

lemma demo_is_word: "is_word ''n1''" "is_word ''n2''" "is_word ''h2''"
  by (simp_all add: word_simps)

lemma demo_host: "map member_host (cc_Members demo_config) = [''localhost'', ''h2'']"
  by (simp add: member_host_def demo_config_def demo_words)

lemma demo_plain: "plain_config demo_config" "plain_members demo_config"
proof -
  have "list_all is_word (map member_host (cc_Members demo_config))" by (simp add: demo_host demo_is_word is_word_lit)
  moreover have "list_all (\<lambda>m. is_word (mb_ID m) \<and> i64_min \<le> mb_Port m \<and> mb_Port m \<le> i64_max) (cc_Members demo_config)" "2 \<le> length (cc_Members demo_config)"
    by (simp_all add: demo_config_def demo_is_word i64_min_def i64_max_def)
  ultimately show "plain_config demo_config" by (auto simp: plain_config_def list_all_iff)
  show "plain_members demo_config" by (simp add: plain_members_def demo_config_def)
qed

lemma demo_write: "compileCommands ''c'' ''localhost'' 9091 demo_config write_step = Inr [''kv-put c n2 k v'']"
  by (simp add: compileCommands_def write_step_def demo_words resolveWriteTargets_def resolveGroupNodeID_def demo_config_def demo_lower has_prefix_def)

text \<open>
  C20: The control plane understands what the experiment compiler writes, when names, keys and values are single
  words.  For a cluster of at least two members whose names are words, a cluster identifier and a control plane host that are
  words and a port in the range of \<open>int\<close>, and a step whose key (if it writes or reads) and value (if it writes) are
  words without blanks, every text compiled from the step is parsed to exactly the command meant: the creation of the cluster and
  one process per member, one write per target, one read per member, one cut or heal per pair of nodes of different groups, in the order
  of the loops.  The restriction is needed: texts are built without quotes, and the parser cuts a value at its first blank.
\<close>

theorem compiled_texts_parse:
  assumes "compileCommands cid cpHost cpPort cfg s = Inr texts" "plain_config cfg" "is_word cid" "is_word cpHost"
    and "i64_min \<le> cpPort" "cpPort \<le> i64_max"
    and "trim_space (tst_Action s) \<in> {''write'', ''read_all''} \<Longrightarrow> is_word (tst_Key s)"
    and "trim_space (tst_Action s) = ''write'' \<Longrightarrow> is_word (tst_Value s)"
  shows "map (runtime_command pf) texts = map (Some \<circ> Inr) (intended cid cpHost cpPort cfg s)"
proof -
  have w: "is_word x" if "x \<in> mb_ID ` set (cc_Members cfg)" for x using that assms(2) by (auto simp: plain_config_def list_all_iff)
  consider (start) "trim_space (tst_Action s) = ''start_cluster''" | (metrics) "trim_space (tst_Action s) = ''start_metrics_collection''"
    | (part) "trim_space (tst_Action s) = ''partition''" | (heal) "trim_space (tst_Action s) = ''heal_partition''"
    | (wr) "trim_space (tst_Action s) = ''write''" | (rd) "trim_space (tst_Action s) = ''read_all''"
    using assms(1) by (auto simp: compileCommands_def Let_def split: if_splits)
  then show ?thesis
  proof cases
    case start
    then show ?thesis using assms(1) start_cluster_parses [OF assms(2-6), of pf] by (simp add: compileCommands_def intended_def)
  next
    case metrics
    then show ?thesis using assms(1) runtime_metrics_start [OF assms(3), of pf] by (auto simp: compileCommands_def intended_def)
  next
    case part
    then obtain cmds where c: "compilePartitionCommands cid (tst_Groups s) True cfg = Inr cmds"
      and t: "texts = (''log-lifecycle '' @ cid @ '' SYSTEM PARTITION '' @ [CHR 0x22] @ ''Splitting cluster into '' @ show_nat (length (tst_Groups s))
        @ '' partitions'' @ [CHR 0x22]) # cmds"
      using assms(1) by (auto simp: compileCommands_def split: sum.splits)
    show ?thesis
      using runtime_partition_note(1) [OF assms(3), of pf "length (tst_Groups s)"] partition_parses [OF c assms(2,3), of pf] part
      by (simp add: t intended_def)
  next
    case heal
    then obtain cmds where c: "compilePartitionCommands cid (tst_Groups s) False cfg = Inr cmds"
      and t: "texts = (''log-lifecycle '' @ cid @ '' SYSTEM HEAL '' @ [CHR 0x22] @ ''Healing all network partitions'' @ [CHR 0x22]) # cmds"
      using assms(1) by (auto simp: compileCommands_def split: sum.splits)
    show ?thesis
      using runtime_partition_note(2) [OF assms(3), of pf] partition_parses [OF c assms(2,3), of pf] heal
      by (simp add: t intended_def)
  next
    case wr
    then obtain ns where ns: "resolveWriteTargets (tst_Target s) (tst_Groups s) cfg = Inr ns"
      and t: "texts = map (\<lambda>n. ''kv-put '' @ cid @ '' '' @ n @ '' '' @ tst_Key s @ '' '' @ tst_Value s) ns"
      using assms(1) by (auto simp: compileCommands_def split: sum.splits)
    have "is_word n" if "n \<in> set ns" for n using that targets_members [OF ns] w by blast
    then show ?thesis unfolding t intended_def
      using wr ns runtime_kv(2) [OF assms(3) _ assms(7) assms(8), of _ pf] by simp
  next
    case rd
    then show ?thesis using assms(1) runtime_kv(1) [OF assms(3) _ assms(7), of _ pf] w by (auto simp: compileCommands_def intended_def)
  qed
qed

theorem compiled_texts_parse_witness:
  "map (runtime_command (\<lambda>_. None)) [''kv-put c n2 k v''] = map (Some \<circ> Inr) (intended ''c'' ''localhost'' 9091 demo_config write_step)"
  by (rule compiled_texts_parse [OF demo_write demo_plain(1)]) (simp_all add: word_simps i64_min_def i64_max_def write_step_def)

text \<open>
  The pairs of a partition step: exactly the pairs of nodes from different groups, the earlier group
  first.
\<close>

lemma ex_split_zero: "(\<exists>i j. P i j) \<longleftrightarrow> (\<exists>j. P (0 :: nat) j) \<or> (\<exists>i j. 0 < i \<and> P i j)"
  by (metis neq0_conv)

lemma group_pairs_set:
  "(x, y) \<in> set (group_pairs gs) \<longleftrightarrow> (\<exists>i j. i < j \<and> j < length gs \<and> x \<in> set (gs ! i) \<and> y \<in> set (gs ! j))"
proof (induction gs)
  case (Cons g gs)
  have "(x, y) \<in> set (concat (map (List.product g) gs)) \<longleftrightarrow> x \<in> set g \<and> (\<exists>j < length gs. y \<in> set (gs ! j))"
    by (auto simp: set_conv_nth [of gs])
  also have "\<dots> \<longleftrightarrow> (\<exists>j. 0 < j \<and> j < length (g # gs) \<and> x \<in> set ((g # gs) ! 0) \<and> y \<in> set ((g # gs) ! j))"
    by (auto simp: gr0_conv_Suc)
  finally have head: "(x, y) \<in> set (concat (map (List.product g) gs)) \<longleftrightarrow> \<dots>" .
  have tail: "(\<exists>i j. i < j \<and> j < length gs \<and> x \<in> set (gs ! i) \<and> y \<in> set (gs ! j)) \<longleftrightarrow>
      (\<exists>i j. 0 < i \<and> i < j \<and> j < length (g # gs) \<and> x \<in> set ((g # gs) ! i) \<and> y \<in> set ((g # gs) ! j))" (is "?L \<longleftrightarrow> ?R")
  proof
    assume ?L
    then obtain i j where "i < j" "j < length gs" "x \<in> set (gs ! i)" "y \<in> set (gs ! j)" by blast
    then show ?R by (intro exI [of _ "Suc i"] exI [of _ "Suc j"]) simp
  next
    assume ?R
    then obtain i j where "0 < i" "i < j" "j < length (g # gs)" "x \<in> set ((g # gs) ! i)" "y \<in> set ((g # gs) ! j)" by blast
    then show ?L by (intro exI [of _ "i - 1"] exI [of _ "j - 1"]) (auto simp: nth_Cons')
  qed
  show ?case unfolding group_pairs.simps set_append Un_iff head Cons.IH tail
    using ex_split_zero [of "\<lambda>i j. i < j \<and> j < length (g # gs) \<and> x \<in> set ((g # gs) ! i) \<and> y \<in> set ((g # gs) ! j)"] by simp
qed simp

text \<open>
  A partition step cuts exactly the pairs of nodes in different groups: the compiled commands
  after the note are one per such pair, the node of the earlier group named first, every node of
  them is a member of the cluster, and a heal step with the same groups names the same pairs.
\<close>

theorem partition_cuts_exactly:
  assumes "compilePartitionCommands cid gs b cfg = Inr cs"
  shows "set cs = {partition_text cid (trim_space x) (trim_space y) b | x y. \<exists>i j. i < j \<and> j < length gs \<and> x \<in> set (gs ! i) \<and> y \<in> set (gs ! j)}
    \<and> length cs = length (group_pairs gs)
    \<and> (\<forall>i < length gs. \<forall>j < length gs. i \<noteq> j \<longrightarrow> (\<forall>x \<in> set (gs ! i). gs ! j \<noteq> [] \<longrightarrow> trim_space x \<in> mb_ID ` set (cc_Members cfg)))
    \<and> (\<exists>cs'. compilePartitionCommands cid gs (\<not> b) cfg = Inr cs' \<and> length cs' = length cs)"
proof -
  have len: "\<not> length gs < 2" and loop: "partition_loop cid b cfg (group_pairs gs) = Inr cs"
    using assms by (auto simp: compilePartitionCommands_def split: if_splits)
  note t = partition_loop_texts [OF loop]
  have cs: "cs = map (\<lambda>(l, r). partition_text cid (trim_space l) (trim_space r) b) (group_pairs gs)" using t by blast
  have mem: "trim_space l \<in> mb_ID ` set (cc_Members cfg) \<and> trim_space r \<in> mb_ID ` set (cc_Members cfg)"
    if "(l, r) \<in> set (group_pairs gs)" for l r using t that by auto
  have "trim_space x \<in> mb_ID ` set (cc_Members cfg)"
    if h: "i < length gs" "j < length gs" "i \<noteq> j" "x \<in> set (gs ! i)" "gs ! j \<noteq> []" for i j x
  proof -
    obtain y where "y \<in> set (gs ! j)" using h(5) by (cases "gs ! j") auto
    then have "(x, y) \<in> set (group_pairs gs) \<or> (y, x) \<in> set (group_pairs gs)"
      unfolding group_pairs_set using h by (metis linorder_neqE_nat)
    then show ?thesis using mem by blast
  qed
  moreover have heal: "\<exists>cs'. partition_loop cid (\<not> b) cfg ps = Inr cs' \<and> length cs' = length cs"
    if "partition_loop cid b cfg ps = Inr cs" for ps cs
    using that by (induction ps arbitrary: cs) (auto split: sum.splits)
  moreover note heal [OF loop]
  moreover have "set cs = {partition_text cid (trim_space x) (trim_space y) b | x y. (x, y) \<in> set (group_pairs gs)}"
    unfolding cs by auto
  moreover have "length cs = length (group_pairs gs)" by (simp add: cs)
  ultimately show ?thesis using len unfolding compilePartitionCommands_def group_pairs_set by auto
qed

theorem partition_cuts_exactly_witness:
  "\<exists>cs. compilePartitionCommands ''c'' [[''n1''], [''n2'']] True demo_config = Inr cs \<and> length cs = 1
     \<and> (\<exists>cs'. compilePartitionCommands ''c'' [[''n1''], [''n2'']] False demo_config = Inr cs' \<and> length cs' = length cs)"
proof -
  obtain cs where c: "compilePartitionCommands ''c'' [[''n1''], [''n2'']] True demo_config = Inr cs"
    by (simp add: compilePartitionCommands_def resolveGroupNodeID_def demo_words demo_config_def)
  from partition_cuts_exactly [OF c] have "length cs = length (group_pairs [[''n1''], [''n2'']])"
    "\<exists>cs'. compilePartitionCommands ''c'' [[''n1''], [''n2'']] False demo_config = Inr cs' \<and> length cs' = length cs" by (elim conjE, simp)+
  with c show ?thesis by simp
qed

lemma parse_item:
  assumes "is_word i" "CHR '','' \<notin> set i" "CHR '':'' \<notin> set i" "CHR ''@'' \<notin> set i" "0 < p" "p \<le> i64_max"
  shows "parse_peer (i @ '':'' @ show_int p) = Inr \<lparr>p_ID = i, p_Host = ''localhost'', p_Port = p\<rparr>"
proof -
  have w: "is_word (i @ CHR '':'' # show_int p)" using assms(1) by (intro item_word) simp_all
  have "CHR ''@'' \<notin> set (i @ CHR '':'' # show_int p)" using assms(4) show_int_notin by simp
  then have cut: "cut_at CHR ''@'' (i @ CHR '':'' # show_int p) = None" by (rule cut_at_None)
  have sp: "split_on CHR '':'' (i @ CHR '':'' # show_int p) = [i, show_int p]" using assms(3) show_int_notin by simp
  have at: "atoi (show_int p) = Inr p" using assms(5,6) by (intro atoi_show) (auto simp: i64_min_def)
  show ?thesis using w cut sp at assms(1,5) by (simp add: parse_peer_def)
qed

lemma peer_list_parses:
  assumes "plain_config cfg" "plain_members cfg"
  shows "parsePeers (buildPeerList (Suc j) cfg) = Inr (map (\<lambda>m. \<lparr>p_ID = mb_ID m, p_Host = ''localhost'', p_Port = mb_Port m\<rparr>) (others j cfg))"
proof -
  let ?item = "\<lambda>m. mb_ID m @ '':'' @ show_int (mb_Port m)"
  have ok: "is_word (mb_ID m)" "CHR '','' \<notin> set (mb_ID m)" "CHR '':'' \<notin> set (mb_ID m)" "CHR ''@'' \<notin> set (mb_ID m)" "0 < mb_Port m" "mb_Port m \<le> i64_max"
    if "m \<in> set (others j cfg)" for m
    using that others_sub [of j cfg] assms by (auto simp: plain_config_def plain_members_def list_all_iff)
  have w: "trim_space (buildPeerList (Suc j) cfg) = buildPeerList (Suc j) cfg" "buildPeerList (Suc j) cfg \<noteq> []"
    using peer_list_word [OF assms(1), of j] by simp_all
  have ne: "map ?item (others j cfg) \<noteq> []" using others_ne [of cfg j] assms(1) by (auto simp: plain_config_def)
  have "CHR '','' \<notin> set x" if "x \<in> set (map ?item (others j cfg))" for x using that ok show_int_notin by auto
  with ne have split: "split_on CHR '','' (buildPeerList (Suc j) cfg) = map ?item (others j cfg)"
    unfolding buildPeerList_others by (intro split_join) auto
  have "parse_items (map ?item ms) = Inr (map (\<lambda>m. \<lparr>p_ID = mb_ID m, p_Host = ''localhost'', p_Port = mb_Port m\<rparr>) ms)"
    if "set ms \<subseteq> set (others j cfg)" for ms
    using that
  proof (induction ms)
    case (Cons m ms)
    then have "parse_peer (?item m) = Inr \<lparr>p_ID = mb_ID m, p_Host = ''localhost'', p_Port = mb_Port m\<rparr>"
      by (intro parse_item) (use ok in auto)
    with Cons show ?case by simp
  qed simp
  then show ?thesis using w by (simp add: parsePeers_def split)
qed

text \<open>
  Every node of a started experiment knows its peers.  The start command compiled for a member
  is parsed by the control plane to that member's name and port, and the peer list it carries,
  parsed by the node itself, is exactly the other members, in order, with their ports; the host
  is always localhost, whatever host the experiment gives.
\<close>

theorem started_nodes_know_peers:
  assumes "plain_config cfg" "plain_members cfg" "j < length (cc_Members cfg)" "is_word cid" "is_word cpHost"
    and "i64_min \<le> cpPort" "cpPort \<le> i64_max"
  shows "\<exists>cmd conf. runtime_command pf (compileStartClusterCommands cid cpHost cpPort cfg ! (j + 2)) = Some (Inr cmd)
    \<and> cmd_Type cmd = CmdStartNodeProcess \<and> cmd_NodeID cmd = mb_ID (cc_Members cfg ! j) \<and> cmd_Port cmd = mb_Port (cc_Members cfg ! j)
    \<and> NewConfig (cmd_NodeID cmd) (cmd_Port cmd) (cmd_PeersCSV cmd) = Inr conf
    \<and> map (\<lambda>p. (p_ID p, p_Port p)) (nc_Peers conf) = map (\<lambda>m. (mb_ID m, mb_Port m)) (others j cfg)
    \<and> (\<forall>p \<in> set (nc_Peers conf). p_Host p = ''localhost'')"
proof -
  have tx: "compileStartClusterCommands cid cpHost cpPort cfg ! (j + 2) = start_node_text (mb_ID (cc_Members cfg ! j)) (mb_Port (cc_Members cfg ! j)) cid
      (member_host (cc_Members cfg ! j)) (buildPeerList (Suc j) cfg) cpHost cpPort"
    using assms(3) by (simp add: compileStart_map)
  have "runtime_command pf (compileStartClusterCommands cid cpHost cpPort cfg ! (j + 2)) = Some (Inr (start_member cid cpHost cpPort cfg j))"
    unfolding tx by (rule runtime_start_node [OF assms(1,3-7)])
  moreover have "NewConfig (mb_ID (cc_Members cfg ! j)) (mb_Port (cc_Members cfg ! j)) (buildPeerList (Suc j) cfg) =
    Inr \<lparr>nc_ID = mb_ID (cc_Members cfg ! j), nc_Port = mb_Port (cc_Members cfg ! j),
      nc_Peers = map (\<lambda>m. \<lparr>p_ID = mb_ID m, p_Host = ''localhost'', p_Port = mb_Port m\<rparr>) (others j cfg), nc_ClusterID = ''default'',
      nc_Host = ''localhost'', nc_ControlPlaneHost = ''localhost'', nc_ControlPlanePort = 9000\<rparr>" (is "_ = Inr ?conf")
    by (simp add: NewConfig_def peer_list_parses [OF assms(1,2)])
  ultimately show ?thesis
    by (intro exI [of _ "start_member cid cpHost cpPort cfg j"] exI [of _ ?conf]) (simp add: start_member_def comp_def)
qed

theorem started_nodes_know_peers_witness:
  "\<exists>cmd conf. runtime_command (\<lambda>_. None) (compileStartClusterCommands ''c'' ''localhost'' 9091 demo_config ! 2) = Some (Inr cmd)
     \<and> NewConfig (cmd_NodeID cmd) (cmd_Port cmd) (cmd_PeersCSV cmd) = Inr conf \<and> map (\<lambda>p. (p_ID p, p_Port p)) (nc_Peers conf) = [(''n2'', 8002)]"
proof -
  have o: "map (\<lambda>m. (mb_ID m, mb_Port m)) (others 0 demo_config) = [(''n2'', 8002)]" by (simp add: others_def demo_config_def)
  have "0 < length (cc_Members demo_config)" by (simp add: demo_config_def)
  from started_nodes_know_peers [OF demo_plain this, of "''c''" "''localhost''" 9091 "\<lambda>_. None"] o
  show ?thesis by (auto simp: word_simps i64_min_def i64_max_def numeral_2_eq_2)
qed

lemma demo_compiles:
  "\<exists>bs. Compile (Some (Normalize demo_experiment)) \<lparr>co_ClusterID = [], co_ControlPlaneHost = [], co_ControlPlanePort = 0\<rparr> = Inr bs"
  "x_Timeline (Normalize demo_experiment) = [write_step\<lparr>tst_At := 1, tst_Action := ''start_cluster''\<rparr>, write_step]"
proof -
  let ?e = "Normalize demo_experiment" and ?o = "\<lparr>co_ClusterID = [], co_ControlPlaneHost = [], co_ControlPlanePort = 0\<rparr>"
  show tl: "x_Timeline ?e = [write_step\<lparr>tst_At := 1, tst_Action := ''start_cluster''\<rparr>, write_step]"
    by (simp add: Normalize_def demo_experiment_def write_step_def)
  have cl: "x_Cluster ?e = demo_config" by (simp add: Normalize_def demo_experiment_def)
  have st: "compileCommands c h p demo_config (write_step\<lparr>tst_At := 1, tst_Action := ''start_cluster''\<rparr>) = Inr (compileStartClusterCommands c h p demo_config)" for c h p
    by (simp add: compileCommands_def demo_words)
  have id: "compile_cluster_id ?o ?e = ''c''" by (simp add: compile_cluster_id_def cl demo_config_def demo_words)
  show "\<exists>bs. Compile (Some ?e) ?o = Inr bs" by (simp add: Compile_def demo_valid tl cl st id demo_write)
qed

theorem schedule_in_time_order_witness:
  "\<exists>bs. Compile (Some (Normalize demo_experiment)) \<lparr>co_ClusterID = [], co_ControlPlaneHost = [], co_ControlPlanePort = 0\<rparr> = Inr bs
     \<and> map bt_At bs = [1, 2]"
proof -
  let ?e = "Normalize demo_experiment"
  have l: "LoadFile (\<lambda>_. Inr ()) (\<lambda>_. Inr demo_experiment) [] = Inr ?e" by (simp add: LoadFile_def demo_valid)
  obtain bs where c: "Compile (Some ?e) \<lparr>co_ClusterID = [], co_ControlPlaneHost = [], co_ControlPlanePort = 0\<rparr> = Inr bs" using demo_compiles(1) by blast
  from schedule_in_time_order [OF l c] have "map bt_At bs = map tst_At (x_Timeline ?e)" by blast
  then show ?thesis using c by (simp add: demo_compiles(2)) (simp add: write_step_def)
qed

section \<open>A cluster of one\<close>

lemma fields_join_space:
  "ws \<noteq> [] \<Longrightarrow> list_all is_word ws \<Longrightarrow> str_fields (join_with '' '' ws @ CHR '' '' # s) = ws @ str_fields s"
proof (induction "'' ''" ws rule: join_with.induct)
  case (3 x y zs)
  then show ?case using fields_word_space [of x "CHR '' ''" "join_with '' '' (y # zs) @ CHR '' '' # s"] by (simp add: is_space_def)
qed (simp_all add: fields_word_space is_space_def)

text \<open>
  A one-member cluster cannot be started.  With no other members the peer list is empty, the
  option \<open>--peers\<close> of the compiled text swallows the next option's name, and the parser rejects the
  text because the control plane's host is then read as an option.
\<close>

theorem single_member_start_rejected:
  assumes "cc_Members cfg = [m]" "is_word (mb_ID m)" "is_word (member_host m)" "is_word cid" "is_word cpHost" "start_option cpHost = None"
    and "i64_min \<le> mb_Port m" "mb_Port m \<le> i64_max"
  shows "Parse pf (compileStartClusterCommands cid cpHost cpPort cfg ! 2) = Inl (UnknownOption ''start-node'' cpHost)"
proof -
  let ?a = "[''start-node'', mb_ID m, show_int (mb_Port m), ''--cluster-id'', cid, ''--host'', member_host m, ''--peers'']"
  let ?b = "[''--cp-host'', cpHost, ''--cp-port'', show_int cpPort]"
  have pl: "buildPeerList (Suc 0) cfg = []" unfolding buildPeerList_others by (simp add: others_def assms(1))
  have tx: "compileStartClusterCommands cid cpHost cpPort cfg ! 2 = join_with '' '' ?a @ CHR '' '' # CHR '' '' # join_with '' '' ?b"
    using assms(1) by (simp add: compileStart_map start_node_text_def pl)
  have "str_fields (compileStartClusterCommands cid cpHost cpPort cfg ! 2) = ?a @ ?b"
  proof -
    have a: "list_all is_word ?a" "list_all is_word ?b" using assms by (simp_all add: is_word_name is_word_lit)
    have "str_fields (CHR '' '' # join_with '' '' ?b) = ?b"
      using fields_space [of "CHR '' ''" "join_with '' '' ?b"] fields_join [OF a(2)] by (simp add: is_space_def)
    then show ?thesis unfolding tx using fields_join_space [OF _ a(1), of "CHR '' '' # join_with '' '' ?b"] by simp
  qed
  then show ?thesis
    using assms(6-8) by (simp add: Parse_def parse_parts_name parse_start_node_def start_option_def atoi_show)
qed

theorem single_member_start_rejected_witness:
  "Parse (\<lambda>_. None) (compileStartClusterCommands ''c'' ''localhost'' 9091 \<lparr>cc_ID = ''c'', cc_Members = [\<lparr>mb_ID = ''n1'', mb_Port = 8001, mb_Host = ''h2''\<rparr>]\<rparr> ! 2)
     = Inl (UnknownOption ''start-node'' ''localhost'')"
  by (rule single_member_start_rejected [where m = "\<lparr>mb_ID = ''n1'', mb_Port = 8001, mb_Host = ''h2''\<rparr>"])
     (simp_all add: member_host_def demo_words word_simps start_option_def i64_min_def i64_max_def)

end
