(* ===== verification/Service.thy ===== *)
theory Service
  imports ClusterManager MetricsSessions Runtime
begin

text \<open>
  The control plane's service layer (\<open>internal/controlplane/service\<close>): it puts the cluster manager,
  the metrics sessions, the statistics of a cluster and the log listeners behind one object.  Each
  method is a definition on the \<open>service\<close> record, in the order of its critical sections.

  The nodes are reached through the \<open>NodeOperator\<close> interface, here a record of functions on a
  world \<open>'w\<close> of nodes: a call may change the world and answers or fails.  A pointer to a node the
  manager returned is read where the code reads it, so that an update in between is seen.  The
  goroutine that samples the tracked keys is the entry of \<open>svc_samplers\<close> under the number of its
  context, and \<open>sampler_tick\<close> is one turn of it.

  Shown: the invariant that ties samplers to active sessions and bounds what the service keeps;
  the timeline events of the gossip protocol read back exactly; a convergence check is agreement
  of all nodes on all tracked keys, and waiting for it ends.
\<close>

section \<open>Data\<close>

record 'w node_operator =
  no_StopNode :: "string \<Rightarrow> int \<Rightarrow> 'w \<Rightarrow> 'w \<times> string option"
  no_Ping :: "string \<Rightarrow> int \<Rightarrow> 'w \<Rightarrow> 'w \<times> string option"
  no_ExecuteAction :: "string \<Rightarrow> int \<Rightarrow> action_request \<Rightarrow> 'w \<Rightarrow> 'w \<times> (string + action_response)"
  no_SwapProtocol :: "string \<Rightarrow> int \<Rightarrow> string \<Rightarrow> string \<Rightarrow> string \<Rightarrow> u64 \<Rightarrow> 'w \<Rightarrow> 'w \<times> string option"

text \<open>
  The protobuf functions of this side.  Their errors are dropped, so \<open>kw_put\<close> and \<open>kw_get\<close> are the bytes
  left after the call, and \<open>kw_response\<close> the message left after it.
\<close>

record kv_wire =
  kw_put :: "string \<Rightarrow> string \<Rightarrow> string"
  kw_get :: "string \<Rightarrow> string"
  kw_response :: "string \<Rightarrow> kv_get_response"

record log_request =
  lg_NodeId :: string
  lg_ClusterId :: string
  lg_Level :: string
  lg_Message :: string
  lg_Timestamp :: int

record log_chan =
  ch_buf :: "log_request option list"
  ch_closed :: bool

record service =
  svc_cluster :: manager
  svc_chans :: "(nat, log_chan) gomap"
  svc_logListeners :: "(nat, unit) gomap"
  svc_metrics :: session_manager
  svc_metricsLoops :: "(string, nat) gomap"
  svc_samplers :: "(nat, string \<times> int) gomap"
  svc_totalRPCs :: "(string, u64) gomap"
  svc_totalWrites :: "(string, u64) gomap"
  svc_recentKeys :: "(string, string list) gomap"
  svc_sessionBaselines :: "(string, u64 \<times> u64) gomap"

record kv_get_result =
  kr_Value :: string
  kr_Version :: int
  kr_Origin :: string
  kr_HasMetadata :: bool

datatype service_error =
  IdRequired
| FromManager manager_error
| FromSessions session_error
| FromNode string
| CheckFailed string string service_error
| KeyNotFound

definition NewClusterService :: "manager \<Rightarrow> service" where
  "NewClusterService m = \<lparr>svc_cluster = m, svc_chans = [], svc_logListeners = [], svc_metrics = NewSessionManager,
     svc_metricsLoops = [], svc_samplers = [], svc_totalRPCs = [], svc_totalWrites = [], svc_recentKeys = [],
     svc_sessionBaselines = []\<rparr>"

text \<open>An identity no entry of the map has: \<open>make(chan)\<close> and \<open>context.WithCancel\<close> give a new object.\<close>

definition fresh_id :: "(nat, 'a) gomap \<Rightarrow> nat" where
  "fresh_id m = (if m = [] then 0 else Suc (Max (set (gm_keys m))))"

lemma fresh_id_new: "map_of m (fresh_id m) = None"
proof (cases "map_of m (fresh_id m)")
  case (Some v)
  then have "fresh_id m \<in> set (gm_keys m)" by (auto simp: set_gm_keys)
  then have "fresh_id m \<le> Max (set (gm_keys m))" by simp
  then show ?thesis using Some by (cases m) (simp_all add: fresh_id_def)
qed

section \<open>Life-cycle events\<close>

definition blank_event :: timeline_event where
  "blank_event = \<lparr>te_Time = 0, te_NodeID = [], te_Key = [], te_Value = [], te_Version = 0, te_Origin = [], te_Source = [],
     te_EventType = [], te_Round = 0, te_LWWTimestamp = 0\<rparr>"

definition RecordLifecycleEvent :: "int \<Rightarrow> string \<Rightarrow> string \<Rightarrow> string \<Rightarrow> string \<Rightarrow> service \<Rightarrow> service" where
  "RecordLifecycleEvent now clusterID nodeID eventType details s =
     (if \<not> IsActive clusterID (svc_metrics s) then s
      else s\<lparr>svc_metrics := fst (RecordTimelineEvent clusterID ''__CLUSTER__'' now
        (blank_event\<lparr>te_NodeID := nodeID, te_EventType := eventType, te_Value := details, te_Key := ''__CLUSTER__''\<rparr>) (svc_metrics s))\<rparr>)"

section \<open>Keys and values\<close>

definition ExecuteKVGetObserved ::
  "'w node_operator \<Rightarrow> kv_wire \<Rightarrow> string \<Rightarrow> string \<Rightarrow> string \<Rightarrow> service \<Rightarrow> 'w \<Rightarrow> 'w \<times> (service_error + kv_get_result \<times> bool)" where
  "ExecuteKVGetObserved nc wire clusterID nodeID key s w =
     (let none = \<lparr>kr_Value = [], kr_Version = 0, kr_Origin = [], kr_HasMetadata = False\<rparr> in
      case GetNode clusterID nodeID (svc_cluster s) of
        Inl e \<Rightarrow> (w, Inl (FromManager e))
      | Inr n \<Rightarrow> (case no_ExecuteAction nc (cn_Address n) (cn_Port n) \<lparr>ar_Action = KV_GET, ar_Payload = kw_get wire key\<rparr> w of
          (w', Inl e) \<Rightarrow> (w', Inl (FromNode e))
        | (w', Inr resp) \<Rightarrow>
            if \<not> as_Success resp then (w', Inr (none, False))
            else let out = kw_response wire (as_Payload resp)
                 in (w', Inr (\<lparr>kr_Value = gr_Value out, kr_Version = gr_Version out, kr_Origin = gr_Origin out,
                              kr_HasMetadata = gr_HasMetadata out\<rparr>, True))))"

definition ExecuteKVGet ::
  "'w node_operator \<Rightarrow> kv_wire \<Rightarrow> string \<Rightarrow> string \<Rightarrow> string \<Rightarrow> service \<Rightarrow> 'w \<Rightarrow> 'w \<times> (service_error + kv_get_result)" where
  "ExecuteKVGet nc wire clusterID nodeID key s w =
     (case ExecuteKVGetObserved nc wire clusterID nodeID key s w of
        (w', Inl e) \<Rightarrow> (w', Inl e)
      | (w', Inr (res, found)) \<Rightarrow> (w', if \<not> found then Inl KeyNotFound else Inr res))"

text \<open>The statistics part of a put; a key seen before keeps its place.\<close>

definition count_write :: "string \<Rightarrow> string \<Rightarrow> service \<Rightarrow> service" where
  "count_write clusterID key s =
     (let s = s\<lparr>svc_totalWrites := gm_put clusterID (gm_getd 0 (svc_totalWrites s) clusterID + 1) (svc_totalWrites s)\<rparr>;
          recent = gm_getd [] (svc_recentKeys s) clusterID
      in if key \<in> set recent then s
         else let l = key # recent; l = (if length l > 10 then take 10 l else l)
              in s\<lparr>svc_recentKeys := gm_put clusterID l (svc_recentKeys s)\<rparr>)"

definition ExecuteKVPut ::
  "'w node_operator \<Rightarrow> kv_wire \<Rightarrow> string \<Rightarrow> string \<Rightarrow> string \<Rightarrow> string \<Rightarrow> service \<Rightarrow> 'w \<Rightarrow> (service \<times> 'w) \<times> service_error option" where
  "ExecuteKVPut nc wire clusterID nodeID key value s w = (case GetNode clusterID nodeID (svc_cluster s) of
     Inl e \<Rightarrow> ((s, w), Some (FromManager e))
   | Inr n \<Rightarrow> (case no_ExecuteAction nc (cn_Address n) (cn_Port n) \<lparr>ar_Action = KV_PUT, ar_Payload = kw_put wire key value\<rparr> w of
       (w', Inl e) \<Rightarrow> ((s, w'), Some (FromNode e))
     | (w', Inr resp) \<Rightarrow> if \<not> as_Success resp then ((s, w'), None) else ((count_write clusterID key s, w'), None)))"

section \<open>Sampling\<close>

definition observed_state :: "kv_get_result \<times> bool \<Rightarrow> node_state" where
  "observed_state = (\<lambda>(res, found).
     if found then \<lparr>st_Exists = True, st_Value = kr_Value res, st_Version = kr_Version res, st_Origin = kr_Origin res,
                    st_HasMetadata = kr_HasMetadata res\<rparr>
     else zero_state)"

text \<open>The inner loop over the nodes; \<open>None\<close> is \<open>keyFailed\<close>.\<close>

fun sample_nodes ::
  "'w node_operator \<Rightarrow> kv_wire \<Rightarrow> service \<Rightarrow> string \<Rightarrow> string \<Rightarrow> cluster_node list \<Rightarrow> (string, node_state) gomap \<Rightarrow> 'w
    \<Rightarrow> 'w \<times> (string, node_state) gomap option" where
  "sample_nodes nc wire s clusterID key [] nodeStates w = (w, Some nodeStates)"
| "sample_nodes nc wire s clusterID key (n # ns) nodeStates w =
     (case ExecuteKVGetObserved nc wire clusterID (cn_ID n) key s w of
        (w', Inl _) \<Rightarrow> (w', None)
      | (w', Inr r) \<Rightarrow> sample_nodes nc wire s clusterID key ns (gm_put (cn_ID n) (observed_state r) nodeStates) w')"

definition sample_key ::
  "'w node_operator \<Rightarrow> kv_wire \<Rightarrow> int \<Rightarrow> string \<Rightarrow> cluster_node list \<Rightarrow> string \<Rightarrow> service \<times> 'w \<Rightarrow> service \<times> 'w" where
  "sample_key nc wire now clusterID nodes key = (\<lambda>(s, w).
     case sample_nodes nc wire s clusterID key nodes [] w of
       (w', None) \<Rightarrow> (s, w')
     | (w', Some nodeStates) \<Rightarrow> (s\<lparr>svc_metrics := fst (RecordSnapshot clusterID key now nodeStates (svc_metrics s))\<rparr>, w'))"

definition sampleAllTrackedKeys :: "'w node_operator \<Rightarrow> kv_wire \<Rightarrow> int \<Rightarrow> string \<Rightarrow> service \<times> 'w \<Rightarrow> service \<times> 'w" where
  "sampleAllTrackedKeys nc wire now clusterID = (\<lambda>(s, w).
     if \<not> IsActive clusterID (svc_metrics s) then (s, w)
     else case GetSession clusterID (svc_metrics s) of
       Inl _ \<Rightarrow> (s, w)
     | Inr session \<Rightarrow>
         if length (sv_TrackedKeys session) = 0 then (s, w)
         else case GetNodes clusterID (svc_cluster s) of
           Inl _ \<Rightarrow> (s, w)
         | Inr nodes \<Rightarrow>
             if length nodes = 0 then (s, w)
             else fold (sample_key nc wire now clusterID nodes) (sv_TrackedKeys session) (s, w))"

text \<open>One turn of a sampler: nothing once its context is cancelled.\<close>

definition sampler_tick :: "'w node_operator \<Rightarrow> kv_wire \<Rightarrow> int \<Rightarrow> nat \<Rightarrow> service \<times> 'w \<Rightarrow> service \<times> 'w" where
  "sampler_tick nc wire now ctx = (\<lambda>(s, w). case map_of (svc_samplers s) ctx of
     None \<Rightarrow> (s, w)
   | Some (clusterID, _) \<Rightarrow> sampleAllTrackedKeys nc wire now clusterID (s, w))"

section \<open>Metrics sessions\<close>

text \<open>
  The methods that start and stop a session are not under one lock: each is a sequence of critical
  sections, the definitions \<open>session_Start\<close>, \<open>start_baseline\<close> (\<open>statsMu\<close>) and \<open>start_loop\<close> (\<open>metricsMu\<close>, with the sampler
  that is spawned right after) of a start, \<open>cancel_loop\<close> (\<open>metricsMu\<close>), \<open>stats_since_baseline\<close> with \<open>drop_baseline\<close>
  (\<open>statsMu\<close>), \<open>UpdateSessionStats\<close> and \<open>session_Stop\<close> of a stop.  \<open>StartMetricsSession\<close> and \<open>StopMetricsSession\<close> are
  the calls that run alone; theory \<open>Sections\<close> interleaves the sections of all goroutines.
\<close>

definition start_baseline :: "string \<Rightarrow> service \<Rightarrow> service" where
  "start_baseline clusterID s = s\<lparr>svc_sessionBaselines := gm_put clusterID
     (gm_getd 0 (svc_totalRPCs s) clusterID, gm_getd 0 (svc_totalWrites s) clusterID) (svc_sessionBaselines s)\<rparr>"

definition start_loop :: "string \<Rightarrow> int \<Rightarrow> service \<Rightarrow> service" where
  "start_loop clusterID interval s =
     (let ctx = fresh_id (svc_samplers s)
      in s\<lparr>svc_metricsLoops := gm_put clusterID ctx (svc_metricsLoops s),
           svc_samplers := gm_put ctx (clusterID, interval) (svc_samplers s)\<rparr>)"

definition StartMetricsSession :: "int \<Rightarrow> string \<Rightarrow> int \<Rightarrow> service \<Rightarrow> service \<times> service_error option" where
  "StartMetricsSession now clusterID0 interval0 s =
     (let clusterID = trim_space clusterID0 in
      if clusterID = [] then (s, Some IdRequired)
      else let interval = (if interval0 \<le> 0 then 1000000000 else interval0) in
        case GetCluster clusterID (svc_cluster s) of
          Inl e \<Rightarrow> (s, Some (FromManager e))
        | Inr _ \<Rightarrow> (case session_Start clusterID now (svc_metrics s) of
            (_, Some e) \<Rightarrow> (s, Some (FromSessions e))
          | (ms, None) \<Rightarrow> (start_loop clusterID interval (start_baseline clusterID (s\<lparr>svc_metrics := ms\<rparr>)), None)))"

definition StartMetricsSessionIfInactive :: "int \<Rightarrow> string \<Rightarrow> int \<Rightarrow> service \<Rightarrow> service \<times> (service_error + bool)" where
  "StartMetricsSessionIfInactive now clusterID interval s =
     (if IsActive clusterID (svc_metrics s) then (s, Inr False)
      else case StartMetricsSession now clusterID interval s of
        (s', Some e) \<Rightarrow> (s', Inl e) | (s', None) \<Rightarrow> (s', Inr True))"

record metrics_snapshot =
  mx_isActive :: bool
  mx_clusterId :: string
  mx_startedAt :: int
  mx_stoppedAt :: "int option"
  mx_trackedKeys :: "string list"
  mx_results :: "(string, metrics_result) gomap"
  mx_clusterStats :: session_stats

text \<open>What happened in a cluster since the baseline of its session; a missing baseline is zero.\<close>

definition stats_since_baseline :: "string \<Rightarrow> service \<Rightarrow> session_stats" where
  "stats_since_baseline clusterID s =
     (let baseline = gm_getd (0, 0) (svc_sessionBaselines s) clusterID
      in \<lparr>ss_TotalRPCs = gm_getd 0 (svc_totalRPCs s) clusterID - fst baseline,
          ss_TotalWrites = gm_getd 0 (svc_totalWrites s) clusterID - snd baseline,
          ss_RecentKeys = gm_getd [] (svc_recentKeys s) clusterID\<rparr>)"

definition GetMetricsSnapshot :: "string \<Rightarrow> service \<Rightarrow> service_error + metrics_snapshot" where
  "GetMetricsSnapshot clusterID0 s =
     (let clusterID = trim_space clusterID0 in
      case GetSession clusterID (svc_metrics s) of
        Inl e \<Rightarrow> Inl (FromSessions e)
      | Inr snap \<Rightarrow> (case ComputeAllResults clusterID (svc_metrics s) of
          Inl e \<Rightarrow> Inl (FromSessions e)
        | Inr results \<Rightarrow> Inr \<lparr>mx_isActive = IsActive clusterID (svc_metrics s), mx_clusterId = clusterID,
            mx_startedAt = sv_StartedAt snap, mx_stoppedAt = sv_StoppedAt snap, mx_trackedKeys = sv_TrackedKeys snap,
            mx_results = results, mx_clusterStats = stats_since_baseline clusterID s\<rparr>))"

definition GetMetricsHistory :: "string \<Rightarrow> service \<Rightarrow> metrics_snapshot list" where
  "GetMetricsHistory clusterID0 s =
     (let clusterID = trim_space clusterID0; history = GetHistory clusterID (svc_metrics s)
      in concat (map (\<lambda>i. case ComputeResultsBySessionID clusterID (int i) (svc_metrics s) of
           Inl _ \<Rightarrow> []
         | Inr results \<Rightarrow> let snap = history ! i in
             [\<lparr>mx_isActive = (sv_StoppedAt snap = None), mx_clusterId = sv_ClusterID snap, mx_startedAt = sv_StartedAt snap,
               mx_stoppedAt = sv_StoppedAt snap, mx_trackedKeys = sv_TrackedKeys snap, mx_results = results,
               mx_clusterStats = sv_Stats snap\<rparr>]) [0..<length history]))"

definition cancel_loop :: "string \<Rightarrow> service \<Rightarrow> service" where
  "cancel_loop clusterID s = (case map_of (svc_metricsLoops s) clusterID of
     None \<Rightarrow> s
   | Some ctx \<Rightarrow> s\<lparr>svc_samplers := gm_del ctx (svc_samplers s), svc_metricsLoops := gm_del clusterID (svc_metricsLoops s)\<rparr>)"

definition drop_baseline :: "string \<Rightarrow> service \<Rightarrow> service" where
  "drop_baseline clusterID s = s\<lparr>svc_sessionBaselines := gm_del clusterID (svc_sessionBaselines s)\<rparr>"

declare start_baseline_def [simp] start_loop_def [simp] drop_baseline_def [simp]

text \<open>\<open>t1\<close> is the clock at the final sample, \<open>t2\<close> at the stop.\<close>

definition StopMetricsSession ::
  "'w node_operator \<Rightarrow> kv_wire \<Rightarrow> int \<Rightarrow> int \<Rightarrow> string \<Rightarrow> service \<times> 'w \<Rightarrow> (service \<times> 'w) \<times> (service_error + metrics_snapshot)" where
  "StopMetricsSession nc wire t1 t2 clusterID0 sw =
     (let clusterID = trim_space clusterID0 in
      case sampleAllTrackedKeys nc wire t1 clusterID sw of (s, w) \<Rightarrow>
        let s = cancel_loop clusterID s;
            finalStats = stats_since_baseline clusterID s;
            s = drop_baseline clusterID s;
            s = s\<lparr>svc_metrics := UpdateSessionStats clusterID finalStats (svc_metrics s)\<rparr>
        in case session_Stop clusterID t2 (svc_metrics s) of
             (_, Some e) \<Rightarrow> ((s, w), Inl (FromSessions e))
           | (ms, None) \<Rightarrow> let s = s\<lparr>svc_metrics := ms\<rparr> in ((s, w), GetMetricsSnapshot clusterID s))"

definition StopMetricsSessionIfActive :: "'w node_operator \<Rightarrow> kv_wire \<Rightarrow> int \<Rightarrow> int \<Rightarrow> string \<Rightarrow> service \<times> 'w \<Rightarrow> service \<times> 'w" where
  "StopMetricsSessionIfActive nc wire t1 t2 clusterID sw =
     (if IsActive clusterID (svc_metrics (fst sw)) then fst (StopMetricsSession nc wire t1 t2 clusterID sw) else sw)"

definition AddMetricsWatchKey :: "string \<Rightarrow> string \<Rightarrow> service \<Rightarrow> service \<times> service_error option" where
  "AddMetricsWatchKey clusterID key s = (case TrackKey clusterID key (svc_metrics s) of
     (ms, e) \<Rightarrow> (s\<lparr>svc_metrics := ms\<rparr>, map_option FromSessions e))"

definition RecordWriteKeyForMetrics :: "string \<Rightarrow> string \<Rightarrow> service \<Rightarrow> service" where
  "RecordWriteKeyForMetrics clusterID key s =
     (if IsActive clusterID (svc_metrics s) then s\<lparr>svc_metrics := fst (TrackKey clusterID key (svc_metrics s))\<rparr> else s)"

section \<open>Convergence\<close>

text \<open>The loop over the nodes for one key; \<open>first\<close> is the state of the first node once it is set.\<close>

fun check_nodes ::
  "'w node_operator \<Rightarrow> kv_wire \<Rightarrow> service \<Rightarrow> string \<Rightarrow> string \<Rightarrow> cluster_node list \<Rightarrow> node_state option \<Rightarrow> 'w
    \<Rightarrow> 'w \<times> (service_error + bool)" where
  "check_nodes nc wire s clusterID key [] first w = (w, Inr True)"
| "check_nodes nc wire s clusterID key (n # ns) first w =
     (case ExecuteKVGetObserved nc wire clusterID (cn_ID n) key s w of
        (w', Inl e) \<Rightarrow> (w', Inl (CheckFailed (cn_ID n) key e))
      | (w', Inr r) \<Rightarrow>
          let state = observed_state r in
          case first of
            None \<Rightarrow> if \<not> st_Exists state then (w', Inr False) else check_nodes nc wire s clusterID key ns (Some state) w'
          | Some f \<Rightarrow> if state \<noteq> f then (w', Inr False) else check_nodes nc wire s clusterID key ns first w')"

fun check_keys ::
  "'w node_operator \<Rightarrow> kv_wire \<Rightarrow> service \<Rightarrow> string \<Rightarrow> cluster_node list \<Rightarrow> string list \<Rightarrow> 'w \<Rightarrow> 'w \<times> (service_error + bool)" where
  "check_keys nc wire s clusterID nodes [] w = (w, Inr True)"
| "check_keys nc wire s clusterID nodes (k # ks) w =
     (case check_nodes nc wire s clusterID k nodes None w of
        (w', Inr True) \<Rightarrow> check_keys nc wire s clusterID nodes ks w'
      | res \<Rightarrow> res)"

definition IsClusterConverged :: "'w node_operator \<Rightarrow> kv_wire \<Rightarrow> string \<Rightarrow> service \<Rightarrow> 'w \<Rightarrow> 'w \<times> (service_error + bool)" where
  "IsClusterConverged nc wire clusterID s w = (case GetSession clusterID (svc_metrics s) of
     Inl e \<Rightarrow> (w, Inl (FromSessions e))
   | Inr session \<Rightarrow>
       if length (sv_TrackedKeys session) = 0 then (w, Inr True)
       else case GetNodes clusterID (svc_cluster s) of
         Inl e \<Rightarrow> (w, Inl (FromManager e))
       | Inr nodes \<Rightarrow>
           if length nodes = 0 then (w, Inr False)
           else check_keys nc wire s clusterID nodes (sv_TrackedKeys session) w)"

text \<open>
  The waiting loop.  \<open>clock i\<close> is the reading of the clock before round \<open>i\<close>, and \<open>env i\<close> what the rest of
  the program does to service and nodes while the round sleeps.
\<close>

partial_function (option) wait_loop ::
  "'w node_operator \<Rightarrow> kv_wire \<Rightarrow> (nat \<Rightarrow> int) \<Rightarrow> (nat \<Rightarrow> service \<times> 'w \<Rightarrow> service \<times> 'w) \<Rightarrow> string \<Rightarrow> int \<Rightarrow> int \<Rightarrow> nat \<Rightarrow> service \<times> 'w
    \<Rightarrow> ((service \<times> 'w) \<times> bool) option" where
  [code]: "wait_loop nc wire clock env clusterID start timeout i sw =
     (if time_sub (clock i) start < timeout then
        (case IsClusterConverged nc wire clusterID (fst sw) (snd sw) of (w, res) \<Rightarrow>
           if res = Inr True then Some ((fst sw, w), True)
           else wait_loop nc wire clock env clusterID start timeout (i + 1) (env i (fst sw, w)))
      else Some (sw, False))"

definition WaitForConvergence ::
  "'w node_operator \<Rightarrow> kv_wire \<Rightarrow> int \<Rightarrow> (nat \<Rightarrow> int) \<Rightarrow> (nat \<Rightarrow> service \<times> 'w \<Rightarrow> service \<times> 'w) \<Rightarrow> string \<Rightarrow> int \<Rightarrow> service \<times> 'w
    \<Rightarrow> ((service \<times> 'w) \<times> bool) option" where
  "WaitForConvergence nc wire start clock env clusterID timeout sw = wait_loop nc wire clock env clusterID start timeout 0 sw"

section \<open>Logs\<close>

text \<open>\<open>strconv.ParseUint\<close> with its error dropped: 0 on a syntax error, the largest value out of range.\<close>

definition parse_u64 :: "string \<Rightarrow> u64" where
  "parse_u64 t = (case parse_uint t of Inl ErrSyntax \<Rightarrow> 0 | Inl ErrRange \<Rightarrow> - 1 | Inr n \<Rightarrow> word_of_nat n)"

definition handleTimelineLog :: "int \<Rightarrow> log_request \<Rightarrow> service \<Rightarrow> service" where
  "handleTimelineLog now req s =
     (let raw = trim_prefix (lg_Message req) ''TL_EVENT:''; parts = split_on CHR ''|'' raw in
      if length parts < 6 then s
      else
        let version = fst (parse_int (parts ! 3));
            rnd = (if length parts > 6 then parse_u64 (parts ! 6) else 0);
            lwwTs = (if length parts > 7 then fst (parse_int (parts ! 7)) else 0);
            event = \<lparr>te_Time = 0, te_NodeID = lg_NodeId req, te_Key = parts ! 1, te_Value = parts ! 2, te_Version = version,
              te_Origin = parts ! 4, te_Source = parts ! 5, te_EventType = parts ! 0, te_Round = rnd, te_LWWTimestamp = lwwTs\<rparr>;
            ts = (if lg_Timestamp req > 0 then lg_Timestamp req * 1000000 else now)
        in s\<lparr>svc_metrics := fst (RecordTimelineEvent (lg_ClusterId req) (parts ! 1) ts event (svc_metrics s))\<rparr>)"

text \<open>
  The non-blocking send to every listener: a full channel (100 entries) misses the message.  A nil
  request is forwarded as such.
\<close>

definition offer :: "log_request option \<Rightarrow> log_chan \<Rightarrow> log_chan" where
  "offer req ch = (if length (ch_buf ch) < 100 then ch\<lparr>ch_buf := ch_buf ch @ [req]\<rparr> else ch)"

definition send_listeners :: "log_request option \<Rightarrow> service \<Rightarrow> service" where
  "send_listeners req s = s\<lparr>svc_chans :=
     map (\<lambda>(i, ch). (i, if i \<in> set (gm_keys (svc_logListeners s)) then offer req ch else ch)) (svc_chans s)\<rparr>"

definition count_rpc :: "string \<Rightarrow> service \<Rightarrow> service" where
  "count_rpc clusterID s = s\<lparr>svc_totalRPCs := gm_put clusterID (gm_getd 0 (svc_totalRPCs s) clusterID + 1) (svc_totalRPCs s)\<rparr>"

declare count_rpc_def [simp]

definition BroadcastLog :: "int \<Rightarrow> log_request option \<Rightarrow> service \<Rightarrow> service" where
  "BroadcastLog now req s =
     (let s = (case req of
           None \<Rightarrow> s
         | Some r \<Rightarrow>
             let s = (if contains_str (lg_Message r) ''TRACE:SEND:'' then count_rpc (lg_ClusterId r) s else s)
             in if has_prefix (lg_Message r) ''TL_EVENT:'' then handleTimelineLog now r s else s)
      in send_listeners req s)"

definition SubscribeLogs :: "service \<Rightarrow> service \<times> nat" where
  "SubscribeLogs s =
     (let ch = fresh_id (svc_chans s)
      in (s\<lparr>svc_chans := gm_put ch \<lparr>ch_buf = [], ch_closed = False\<rparr> (svc_chans s),
            svc_logListeners := gm_put ch () (svc_logListeners s)\<rparr>, ch))"

text \<open>\<open>None\<close> is the panic of closing a closed (or nil) channel.\<close>

definition UnsubscribeLogs :: "nat \<Rightarrow> service \<Rightarrow> service option" where
  "UnsubscribeLogs ch s = (case map_of (svc_chans s) ch of
     None \<Rightarrow> None
   | Some c \<Rightarrow>
       if ch_closed c then None
       else Some (s\<lparr>svc_logListeners := gm_del ch (svc_logListeners s),
                    svc_chans := gm_put ch (c\<lparr>ch_closed := True\<rparr>) (svc_chans s)\<rparr>))"

text \<open>A listener takes the oldest message of its channel.\<close>

definition receive_log :: "nat \<Rightarrow> service \<Rightarrow> service \<times> log_request option option" where
  "receive_log ch s = (case map_of (svc_chans s) ch of
     None \<Rightarrow> (s, None)
   | Some c \<Rightarrow> (case ch_buf c of
       [] \<Rightarrow> (s, None)
     | r # rs \<Rightarrow> (s\<lparr>svc_chans := gm_put ch (c\<lparr>ch_buf := rs\<rparr>) (svc_chans s)\<rparr>, Some r)))"

section \<open>Clusters and nodes\<close>

definition on_manager :: "(manager \<Rightarrow> manager \<times> manager_error option) \<Rightarrow> service \<Rightarrow> service \<times> service_error option" where
  "on_manager f s = (case f (svc_cluster s) of (m, e) \<Rightarrow> (s\<lparr>svc_cluster := m\<rparr>, map_option FromManager e))"

definition service_CreateCluster :: "int \<Rightarrow> string \<Rightarrow> string \<Rightarrow> service \<Rightarrow> service \<times> service_error option" where
  "service_CreateCluster now clusterID protocol s =
     (case on_manager (CreateCluster clusterID protocol) s of (s, err) \<Rightarrow>
        (if err = None
         then RecordLifecycleEvent now clusterID ''SYSTEM'' ''CLUSTER_CREATE'' (''new cluster created with protocol: '' @ protocol) s
         else s, err))"

definition service_RemoveCluster :: "string \<Rightarrow> service \<Rightarrow> service \<times> service_error option" where
  "service_RemoveCluster clusterID s = on_manager (RemoveCluster clusterID) s"

definition service_GetNodes :: "string \<Rightarrow> service \<Rightarrow> manager_error + cluster_node list" where
  "service_GetNodes clusterID s = GetNodes clusterID (svc_cluster s)"

definition service_GetPeers :: "string \<Rightarrow> service \<Rightarrow> manager_error + cluster_node list" where
  "service_GetPeers clusterID s = GetNodes clusterID (svc_cluster s)"

definition GetClusterProtocol :: "string \<Rightarrow> service \<Rightarrow> service_error + string" where
  "GetClusterProtocol clusterID s = (case GetCluster clusterID (svc_cluster s) of
     Inl e \<Rightarrow> Inl (FromManager e)
   | Inr c \<Rightarrow> if cl_Protocol c = [] then Inr ''gossip'' else Inr (cl_Protocol c))"

text \<open>Every node is asked to change; what it answers is not looked at.\<close>

definition SetClusterProtocol :: "'w node_operator \<Rightarrow> string \<Rightarrow> string \<Rightarrow> service \<times> 'w \<Rightarrow> (service \<times> 'w) \<times> service_error option" where
  "SetClusterProtocol nc clusterID protocolKey0 = (\<lambda>(s, w).
     let protocolKey = to_lower (trim_space protocolKey0) in
     case GetNodes clusterID (svc_cluster s) of
       Inl e \<Rightarrow> ((s, w), Some (FromManager e))
     | Inr nodes \<Rightarrow>
         let w = fold (\<lambda>n w. fst (no_SwapProtocol nc (cn_Address n) (cn_Port n) clusterID (cn_ID n) protocolKey 0 w)) nodes w
         in case on_manager (SwapProtocol clusterID protocolKey) s of (s, e) \<Rightarrow> ((s, w), e))"

definition service_Heartbeat :: "int \<Rightarrow> string \<Rightarrow> string \<Rightarrow> service \<Rightarrow> service \<times> service_error option" where
  "service_Heartbeat now clusterID nodeID s = on_manager (manager_Heartbeat now clusterID nodeID) s"

text \<open>
  \<open>oldNode\<close> is a pointer to the manager's own node, which the manager updates in place: the fields
  compared after the call are read through it then.
\<close>

definition service_SetFaultParams :: "int \<Rightarrow> string \<Rightarrow> string \<Rightarrow> fault_state \<Rightarrow> service \<Rightarrow> service \<times> service_error option" where
  "service_SetFaultParams now clusterID nodeID fault s =
     (let oldNode = GetNode clusterID nodeID (svc_cluster s) in
      case on_manager (manager_SetFaultParams clusterID nodeID fault) s of
        (s, Some e) \<Rightarrow> (s, Some e)
      | (s, None) \<Rightarrow>
          (case oldNode of
             Inl _ \<Rightarrow> (s, None)
           | Inr n0 \<Rightarrow>
               let old = (case GetNode clusterID nodeID (svc_cluster s) of Inr n \<Rightarrow> cn_Fault n | Inl _ \<Rightarrow> cn_Fault n0);
                   s = (if \<not> fs_Crashed old \<and> fs_Crashed fault then RecordLifecycleEvent now clusterID nodeID ''CRASH'' ''node crashed'' s
                        else if fs_Crashed old \<and> \<not> fs_Crashed fault then RecordLifecycleEvent now clusterID nodeID ''RECOVER'' ''node recovered'' s
                        else s);
                   s = (if length (fs_Partition old) < length (fs_Partition fault)
                        then RecordLifecycleEvent now clusterID nodeID ''PARTITION'' ''new network partition applied'' s
                        else if length (fs_Partition old) > length (fs_Partition fault)
                        then RecordLifecycleEvent now clusterID nodeID ''HEAL'' ''network partition healed'' s
                        else s)
               in (s, None)))"

text \<open>The getters of the nil-able parts of the request give zero values.\<close>

record capabilities_report =
  cr_ClusterId :: string
  cr_NodeId :: string
  cr_ActiveProtocol :: "(string \<times> u64) option"
  cr_Actions :: "node_action_capabilities option"
  cr_ReportedAt :: int

definition ReportNodeCapabilities :: "capabilities_report \<Rightarrow> service \<Rightarrow> service \<times> service_error option" where
  "ReportNodeCapabilities req s =
     (let (key, epoch) = (case cr_ActiveProtocol req of None \<Rightarrow> ([], 0) | Some a \<Rightarrow> a);
          actions = (case cr_Actions req of None \<Rightarrow> \<lparr>ac_KVPut = False, ac_KVGet = False, ac_KVDelete = False\<rparr> | Some a \<Rightarrow> a)
      in on_manager (SetNodeCapabilities (cr_ClusterId req) (cr_NodeId req) key epoch actions (cr_ReportedAt req)) s)"

definition service_RemoveNodeC :: "string \<Rightarrow> string \<Rightarrow> service \<Rightarrow> service \<times> service_error option" where
  "service_RemoveNodeC clusterID nodeID s = on_manager (RemoveNode clusterID nodeID) s"

text \<open>The error of \<open>GetNode\<close> is dropped: for an unknown node the nil pointer is dereferenced, a panic (\<open>None\<close>).\<close>

definition service_RemoveNode :: "'w node_operator \<Rightarrow> string \<Rightarrow> string \<Rightarrow> service \<times> 'w \<Rightarrow> ((service \<times> 'w) \<times> service_error option) option" where
  "service_RemoveNode nc clusterID nodeID = (\<lambda>(s, w). case GetNode clusterID nodeID (svc_cluster s) of
     Inl _ \<Rightarrow> None
   | Inr n \<Rightarrow>
       let w = fst (no_StopNode nc (cn_Address n) (cn_Port n) w)
       in case on_manager (RemoveNode clusterID nodeID) s of (s, e) \<Rightarrow> Some ((s, w), e))"

definition service_RegisterNode :: "'w node_operator \<Rightarrow> int \<Rightarrow> int \<Rightarrow> string \<Rightarrow> string \<Rightarrow> string \<Rightarrow> int \<Rightarrow> service \<times> 'w \<Rightarrow> service \<times> 'w" where
  "service_RegisterNode nc t1 t2 clusterID nodeID host port = (\<lambda>(s, w).
     let w = fst (no_Ping nc host port w);
         s = s\<lparr>svc_cluster := fst (RegisterNode t1 clusterID nodeID host port (svc_cluster s))\<rparr>
     in (RecordLifecycleEvent t2 clusterID nodeID ''NODE_JOIN'' (''node joined cluster at '' @ host @ '':'' @ show_int port) s, w))"

end
