(* ===== verification/ServiceSteps.thy ===== *)
theory ServiceSteps
  imports Service
begin

text \<open>
  The service as a transition system for calls made one after the other: its methods are the steps, and the
  invariant ties its parts together.  Theory \<open>Sections\<close> has the weaker invariant for calls that overlap.
\<close>

section \<open>Active sessions\<close>

definition live :: "string \<Rightarrow> session_manager \<Rightarrow> bool" where
  "live c m \<longleftrightarrow> gm_getd [] m c \<noteq> [] \<and> ms_StoppedAt (last (gm_getd [] m c)) = None"

lemma IsActive_live: "IsActive c m = live (trim_space c) m"
  by (simp add: IsActive_def live_def Let_def)

text \<open>A change of the sessions that starts and stops none.\<close>

definition neutral :: "session_manager \<Rightarrow> session_manager \<Rightarrow> bool" where
  "neutral m m' \<longleftrightarrow> (sessions_ok m \<longrightarrow> sessions_ok m') \<and> (\<forall>c. live c m' = live c m)"

lemma neutral_refl [simp]: "neutral m m"
  by (simp add: neutral_def)

lemma neutral_trans: "neutral a b \<Longrightarrow> neutral b c \<Longrightarrow> neutral a c"
  by (simp add: neutral_def)

lemma live_upd:
  assumes "gm_getd [] m c \<noteq> []" "\<And>s. ms_StoppedAt (f s) = ms_StoppedAt s"
  shows "live c' (gm_put c (upd_last f (gm_getd [] m c)) m) = live c' m"
  using assms by (auto simp: live_def last_upd)

lemma neutral_event: "neutral m (fst (RecordTimelineEvent c k t e m))"
proof -
  have "live c' (fst (RecordTimelineEvent c k t e m)) = live c' m" for c'
    by (auto simp: RecordTimelineEvent_def Let_def active_session_Inr add_event_def intro!: live_upd split: sum.split)
  then show ?thesis using session_step_ok [of m "DoEvent c k t e"] by (simp add: neutral_def)
qed

lemma neutral_snapshot: "neutral m (fst (RecordSnapshot c k t ns m))"
proof -
  have "live c' (fst (RecordSnapshot c k t ns m)) = live c' m" for c'
    by (auto simp: RecordSnapshot_def Let_def active_session_Inr add_snapshot_def intro!: live_upd split: sum.split)
  then show ?thesis using session_step_ok [of m "DoSnapshot c k t ns"] by (simp add: neutral_def)
qed

lemma neutral_track: "neutral m (fst (TrackKey c k m))"
proof -
  have "live c' (fst (TrackKey c k m)) = live c' m" for c'
    by (auto simp: TrackKey_def Let_def active_session_Inr intro!: live_upd split: sum.split)
  then show ?thesis using session_step_ok [of m "DoTrack c k"] by (simp add: neutral_def)
qed

lemma neutral_stats: "neutral m (UpdateSessionStats c st m)"
proof -
  have "live c' (UpdateSessionStats c st m) = live c' m" for c'
    by (auto simp: UpdateSessionStats_def Let_def intro!: live_upd)
  then show ?thesis using session_step_ok [of m "DoStats c st"] by (simp add: neutral_def)
qed

lemmas neutral_ops = neutral_event neutral_snapshot neutral_track neutral_stats

lemma live_Start:
  assumes "session_Start c now m = (m', None)"
  shows "live c' m' \<longleftrightarrow> c' = trim_space c \<or> live c' m" "\<not> live (trim_space c) m" "trim_space c \<noteq> []"
  using assms by (auto simp: session_Start_def Let_def live_def new_session_def split: if_splits)

lemma live_Stop:
  assumes "session_Stop c now m = (m', None)"
  shows "live c' m' \<longleftrightarrow> c' \<noteq> trim_space c \<and> live c' m" "live (trim_space c) m"
  using assms by (auto simp: session_Stop_def Let_def live_def last_upd split: if_splits)

lemma Stop_error:
  assumes "session_Stop c now m = (m', Some e)"
  shows "trim_space c = [] \<or> \<not> live (trim_space c) m"
  using assms by (auto simp: session_Stop_def Let_def live_def split: if_splits)

section \<open>The invariant\<close>

text \<open>
  The samplers that run are those of the registered loops, one for each active session.  The keys
  shown as recent are at most ten, without repetition; a channel holds at most its capacity, and
  the listeners are open channels.
\<close>

definition loops_ok :: "(string, nat) gomap \<Rightarrow> (nat, string \<times> int) gomap \<Rightarrow> session_manager \<Rightarrow> bool" where
  "loops_ok loops samplers m \<longleftrightarrow> gm_wf loops \<and> gm_wf samplers \<and> map_of loops [] = None
     \<and> dom (map_of loops) = {c. live c m}
     \<and> {(c, ctx). map_of loops c = Some ctx} = {(c, ctx). ctx \<in> dom (map_of samplers) \<and> fst (the (map_of samplers ctx)) = c}"

definition chans_ok :: "(nat, log_chan) gomap \<Rightarrow> (nat, unit) gomap \<Rightarrow> bool" where
  "chans_ok chans listeners \<longleftrightarrow> gm_wf chans \<and> list_all (\<lambda>(i, ch). length (ch_buf ch) \<le> 100) chans
     \<and> (\<forall>i. map_of listeners i \<noteq> None \<longrightarrow> (\<exists>ch. map_of chans i = Some ch \<and> \<not> ch_closed ch))"

definition recent_ok :: "string \<times> string list \<Rightarrow> bool" where
  "recent_ok = (\<lambda>(c, l). length l \<le> 10 \<and> distinct l)"

definition service_ok :: "service \<Rightarrow> bool" where
  "service_ok s \<longleftrightarrow> manager_ok (svc_cluster s) \<and> sessions_ok (svc_metrics s)
     \<and> loops_ok (svc_metricsLoops s) (svc_samplers s) (svc_metrics s)
     \<and> chans_ok (svc_chans s) (svc_logListeners s) \<and> list_all recent_ok (svc_recentKeys s)"

lemma loops_neutral: "loops_ok l sa m \<Longrightarrow> neutral m m' \<Longrightarrow> loops_ok l sa m'"
  by (simp add: loops_ok_def neutral_def)

lemma service_ok_new: "manager_ok m \<Longrightarrow> service_ok (NewClusterService m)"
  by (simp add: service_ok_def loops_ok_def chans_ok_def NewClusterService_def NewSessionManager_def sessions_ok_def live_def)

text \<open>The invariant looks at a few fields only.\<close>

lemma service_ok_cluster [inv_intros]: "service_ok s \<Longrightarrow> manager_ok m \<Longrightarrow> service_ok (s\<lparr>svc_cluster := m\<rparr>)"
  by (simp add: service_ok_def)

lemma service_ok_metrics [inv_intros]: "service_ok s \<Longrightarrow> neutral (svc_metrics s) m \<Longrightarrow> service_ok (s\<lparr>svc_metrics := m\<rparr>)"
  using loops_neutral [of "svc_metricsLoops s" "svc_samplers s"] by (auto simp: service_ok_def neutral_def)

lemma service_ok_counts [inv_intros]:
  "service_ok s \<Longrightarrow> service_ok (s\<lparr>svc_totalRPCs := x\<rparr>)" "service_ok s \<Longrightarrow> service_ok (s\<lparr>svc_totalWrites := x\<rparr>)"
  "service_ok s \<Longrightarrow> service_ok (s\<lparr>svc_sessionBaselines := y\<rparr>)"
  by (simp_all add: service_ok_def)

lemma service_ok_manager:
  assumes "service_ok s" "\<And>m. manager_ok m \<Longrightarrow> manager_ok (fst (f m))"
  shows "service_ok (fst (on_manager f s))"
proof -
  have "manager_ok (fst (f (svc_cluster s)))" using assms by (simp add: service_ok_def)
  then show ?thesis using assms(1) by (auto simp: on_manager_def intro: inv_intros split: prod.splits)
qed

section \<open>Steps that only record\<close>

text \<open>The result differs from the start in its sessions, which start and stop nothing.\<close>

definition records_only :: "service \<Rightarrow> service \<Rightarrow> bool" where
  "records_only s s' \<longleftrightarrow> (\<exists>m. s' = s\<lparr>svc_metrics := m\<rparr> \<and> neutral (svc_metrics s) m)"

lemma records_only_ok: "records_only s s' \<Longrightarrow> service_ok s \<Longrightarrow> service_ok s'"
  by (auto simp: records_only_def intro: inv_intros)

lemma records_only_refl [simp]: "records_only s s"
  by (auto simp: records_only_def intro: exI [of _ "svc_metrics s"])

lemma records_only_metrics: "neutral (svc_metrics s) m \<Longrightarrow> records_only s (s\<lparr>svc_metrics := m\<rparr>)"
  by (auto simp: records_only_def)

lemma records_only_trans: "records_only a b \<Longrightarrow> records_only b c \<Longrightarrow> records_only a c"
  using neutral_trans by (fastforce simp: records_only_def)

lemma records_only_cluster: "records_only s s' \<Longrightarrow> svc_cluster s' = svc_cluster s"
  by (auto simp: records_only_def)

lemma records_lifecycle: "records_only s (RecordLifecycleEvent now c n ty d s)"
  by (simp add: RecordLifecycleEvent_def records_only_metrics neutral_ops)

lemma records_timeline: "records_only s (handleTimelineLog now req s)"
  by (simp add: handleTimelineLog_def Let_def records_only_metrics neutral_ops)

lemma records_sample_key: "records_only (fst sw) (fst (sample_key nc wire now c nodes k sw))"
  by (cases sw) (auto simp: sample_key_def records_only_metrics neutral_ops split: prod.splits option.splits)

lemma records_sample: "records_only (fst sw) (fst (sampleAllTrackedKeys nc wire now c sw))"
proof -
  have "records_only (fst sw0) (fst (fold (sample_key nc wire now c nodes) ks sw0))" for nodes ks and sw0 :: "service \<times> 'a"
  proof (induction ks arbitrary: sw0)
    case (Cons k ks)
    show ?case using records_only_trans [OF records_sample_key Cons.IH, of sw0 nc wire now c nodes k] by simp
  qed simp
  from this [of "(fst sw, snd sw)"] show ?thesis
    by (auto simp: sampleAllTrackedKeys_def split: prod.splits sum.splits)
qed

lemma records_track: "records_only s (fst (AddMetricsWatchKey c k s))" "records_only s (RecordWriteKeyForMetrics c k s)"
proof -
  have "fst (AddMetricsWatchKey c k s) = s\<lparr>svc_metrics := fst (TrackKey c k (svc_metrics s))\<rparr>"
    by (simp add: AddMetricsWatchKey_def split: prod.split)
  then show "records_only s (fst (AddMetricsWatchKey c k s))" by (simp add: records_only_metrics neutral_ops)
  show "records_only s (RecordWriteKeyForMetrics c k s)"
    by (simp add: RecordWriteKeyForMetrics_def records_only_metrics neutral_ops)
qed

section \<open>Each method keeps the invariant\<close>

lemma loops_start:
  assumes "loops_ok l sa m" "map_of sa ctx = None" "c \<noteq> []" "\<not> live c m" "\<And>c'. live c' m' \<longleftrightarrow> c' = c \<or> live c' m"
  shows "loops_ok (gm_put c ctx l) (gm_put ctx (c, iv) sa) m'"
proof -
  have g: "map_of l c' = Some x \<longleftrightarrow> x \<in> dom (map_of sa) \<and> fst (the (map_of sa x)) = c'" for c' x
    using assms(1) unfolding loops_ok_def by blast
  have "c \<notin> dom (map_of l)" using assms(1,4) unfolding loops_ok_def by blast
  then have "\<not> (x \<in> dom (map_of sa) \<and> fst (the (map_of sa x)) = c)" for x using g [of c x] by auto
  then have "(map_of (gm_put c ctx l) c' = Some x) =
      (x \<in> dom (map_of (gm_put ctx (c, iv) sa)) \<and> fst (the (map_of (gm_put ctx (c, iv) sa) x)) = c')" for c' x
    using g [of c' x] assms(2) by (cases "c' = c"; cases "x = ctx") auto
  moreover have "dom (map_of (gm_put c ctx l)) = {c. live c m'}"
    using assms(1,5) by (auto simp: loops_ok_def dom_put simp del: map_of_put)
  ultimately show ?thesis using assms(1,3) by (auto simp: loops_ok_def simp del: dom_fun_upd)
qed

lemma loops_stop:
  assumes "loops_ok l sa m" "map_of l c = Some ctx" "\<And>c'. live c' m' \<longleftrightarrow> c' \<noteq> c \<and> live c' m"
  shows "loops_ok (gm_del c l) (gm_del ctx sa) m'"
proof -
  have g: "map_of l c' = Some x \<longleftrightarrow> x \<in> dom (map_of sa) \<and> fst (the (map_of sa x)) = c'" for c' x
    using assms(1) unfolding loops_ok_def by blast
  have "(map_of (gm_del c l) c' = Some x) = (x \<in> dom (map_of (gm_del ctx sa)) \<and> fst (the (map_of (gm_del ctx sa) x)) = c')" for c' x
    using g [of c' x] g [of c ctx] assms(2) by (cases "c' = c"; cases "x = ctx") auto
  moreover have "dom (map_of (gm_del c l)) = {c. live c m'}"
    using assms(1,3) by (auto simp: loops_ok_def)
  ultimately show ?thesis using assms(1) by (auto simp: loops_ok_def)
qed

lemma Start_service_ok:
  assumes "service_ok s"
  shows "service_ok (fst (StartMetricsSession now c iv s))"
proof (cases "snd (StartMetricsSession now c iv s)")
  case None
  define cid where "cid = trim_space c"
  obtain m where m: "session_Start cid now (svc_metrics s) = (m, None)"
    using None by (auto simp: StartMetricsSession_def Let_def cid_def split: if_splits sum.splits prod.splits option.splits)
  note start = live_Start [OF m, unfolded cid_def trim_space_idem, folded cid_def]
  let ?ctx = "fresh_id (svc_samplers s)"
  obtain s1 where s1: "fst (StartMetricsSession now c iv s) = s1" "svc_metrics s1 = m" "svc_cluster s1 = svc_cluster s"
      "svc_metricsLoops s1 = gm_put cid ?ctx (svc_metricsLoops s)"
      "svc_samplers s1 = gm_put ?ctx (cid, if iv \<le> 0 then 1000000000 else iv) (svc_samplers s)"
      "svc_chans s1 = svc_chans s" "svc_logListeners s1 = svc_logListeners s" "svc_recentKeys s1 = svc_recentKeys s"
    using None m by (auto simp: StartMetricsSession_def Let_def cid_def split: if_splits sum.splits prod.splits option.splits)
  have "sessions_ok m" using Start_ok [of "svc_metrics s" cid now] assms m by (simp add: service_ok_def)
  moreover have "loops_ok (svc_metricsLoops s1) (svc_samplers s1) m"
    using assms start fresh_id_new [of "svc_samplers s"] unfolding service_ok_def s1 by (intro loops_start) auto
  ultimately show ?thesis using assms s1 by (simp add: service_ok_def)
qed (use assms in \<open>auto simp: StartMetricsSession_def Let_def split: if_splits sum.splits prod.splits option.splits\<close>)

lemma Stop_service_ok:
  assumes "service_ok (fst sw)"
  shows "service_ok (fst (fst (StopMetricsSession nc wire t1 t2 c0 sw)))"
proof -
  define c where "c = trim_space c0"
  obtain s w where sw: "sampleAllTrackedKeys nc wire t1 c sw = (s, w)" by force
  have ok: "service_ok s" using records_only_ok [OF records_sample assms, of nc wire t1 c] sw by simp
  let ?st = "\<lambda>s. stats_since_baseline c s"
  define s1 where "s1 = cancel_loop c s"
  define m where "m = UpdateSessionStats c (?st s1) (svc_metrics s)"
  have m1: "svc_metrics s1 = svc_metrics s" by (auto simp: s1_def cancel_loop_def split: option.splits)
  have n: "neutral (svc_metrics s) m" by (simp add: m_def neutral_ops)
  have rest: "manager_ok (svc_cluster s1)" "sessions_ok m" "chans_ok (svc_chans s1) (svc_logListeners s1)" "list_all recent_ok (svc_recentKeys s1)"
    using ok n by (auto simp: s1_def cancel_loop_def service_ok_def neutral_def split: option.splits)
  have l: "loops_ok (svc_metricsLoops s) (svc_samplers s) m" using ok n by (auto simp: service_ok_def intro: loops_neutral)
  obtain m' e where stop: "session_Stop c t2 m = (m', e)" by force
  have res: "fst (fst (StopMetricsSession nc wire t1 t2 c0 sw)) =
      s1\<lparr>svc_sessionBaselines := gm_del c (svc_sessionBaselines s1), svc_metrics := (if e = None then m' else m)\<rparr>"
    using sw stop unfolding StopMetricsSession_def Let_def c_def [symmetric]
    by (cases e) (simp_all add: m_def m1 s1_def [symmetric])
  show ?thesis
  proof (cases e)
    case None
    have lv: "live c' m' \<longleftrightarrow> c' \<noteq> c \<and> live c' m" "live c m" for c'
      using live_Stop [OF stop [unfolded None]] by (auto simp: c_def trim_space_idem)
    then obtain ctx where ctx: "map_of (svc_metricsLoops s) c = Some ctx" using l unfolding loops_ok_def by blast
    have "sessions_ok m'" using session_step_ok [of m "DoStop c t2"] rest(2) stop by simp
    moreover have "loops_ok (svc_metricsLoops s1) (svc_samplers s1) m'"
      using loops_stop [OF l ctx lv(1)] ctx by (simp add: s1_def cancel_loop_def)
    ultimately show ?thesis using rest None by (simp add: res service_ok_def)
  next
    case (Some x)
    have "c = [] \<or> \<not> live c m" using Stop_error [OF stop [unfolded Some]] by (simp add: c_def trim_space_idem)
    then have "map_of (svc_metricsLoops s) c = None" using l unfolding loops_ok_def by blast
    then show ?thesis using l rest Some by (simp add: res service_ok_def s1_def cancel_loop_def)
  qed
qed

text \<open>
  The recent keys and the log channels are independent of the rest: the sections that work on them
  leave manager, sessions and samplers alone.
\<close>

definition logs_ok :: "service \<Rightarrow> bool" where
  "logs_ok s \<longleftrightarrow> chans_ok (svc_chans s) (svc_logListeners s) \<and> list_all recent_ok (svc_recentKeys s)"

definition same_rest :: "service \<Rightarrow> service \<Rightarrow> bool" where
  "same_rest s s' \<longleftrightarrow> svc_cluster s' = svc_cluster s \<and> svc_metrics s' = svc_metrics s
     \<and> svc_metricsLoops s' = svc_metricsLoops s \<and> svc_samplers s' = svc_samplers s"

lemma service_ok_rest: "service_ok s \<Longrightarrow> same_rest s s' \<Longrightarrow> (logs_ok s \<Longrightarrow> logs_ok s') \<Longrightarrow> service_ok s'"
  by (simp add: service_ok_def same_rest_def logs_ok_def)

lemma chans_put:
  assumes "chans_ok chans ls" "length (ch_buf ch) \<le> 100" "map_of ls i \<noteq> None \<Longrightarrow> \<not> ch_closed ch"
  shows "chans_ok (gm_put i ch chans) ls"
  using assms by (auto simp: chans_ok_def intro!: list_all_put)

lemma chans_get:
  assumes "chans_ok chans ls" "map_of chans i = Some ch"
  shows "length (ch_buf ch) \<le> 100" "map_of ls i \<noteq> None \<Longrightarrow> \<not> ch_closed ch"
  using assms list_all_map_of [of "\<lambda>(i, ch). length (ch_buf ch) \<le> 100" chans i ch] unfolding chans_ok_def by auto

lemma chans_map:
  assumes "chans_ok chans ls" "\<And>i ch. length (ch_buf ch) \<le> 100 \<Longrightarrow> length (ch_buf (f i ch)) \<le> 100" "\<And>i ch. ch_closed (f i ch) = ch_closed ch"
  shows "chans_ok (map (\<lambda>(i, ch). (i, f i ch)) chans) ls"
proof -
  have "list_all (\<lambda>(i, ch). length (ch_buf ch) \<le> 100) (map (\<lambda>(i, ch). (i, f i ch)) chans)"
    using assms(1,2) unfolding chans_ok_def by (auto simp: list_all_iff)
  moreover have "\<exists>ch. map_of (map (\<lambda>(i, ch). (i, f i ch)) chans) i = Some ch \<and> \<not> ch_closed ch" if "map_of ls i \<noteq> None" for i
    using assms(1,3) that unfolding chans_ok_def map_of_map_snd by fastforce
  ultimately show ?thesis using assms(1) unfolding chans_ok_def by simp
qed

lemma count_write_logs: "logs_ok s \<Longrightarrow> logs_ok (count_write c k s)"
proof -
  assume ok: "logs_ok s"
  let ?r = "gm_getd [] (svc_recentKeys s) c"
  have "list_all recent_ok (svc_recentKeys s)" using ok by (simp add: logs_ok_def)
  then have "recent_ok (c, ?r)"
    using list_all_map_of [of recent_ok "svc_recentKeys s" c]
    by (cases "map_of (svc_recentKeys s) c") (simp_all add: gm_getd_def recent_ok_def)
  then have "k \<notin> set ?r \<Longrightarrow> recent_ok (c, if length (k # ?r) > 10 then take 10 (k # ?r) else k # ?r)"
    by (auto simp: recent_ok_def dest: in_set_takeD)
  then show "logs_ok (count_write c k s)"
    using ok by (auto simp: count_write_def Let_def logs_ok_def intro!: list_all_put)
qed

lemma send_listeners_logs: "logs_ok s \<Longrightarrow> logs_ok (send_listeners req s)"
  using chans_map [of "svc_chans s" "svc_logListeners s" "\<lambda>i ch. if i \<in> set (gm_keys (svc_logListeners s)) then offer req ch else ch"]
  by (auto simp: logs_ok_def send_listeners_def offer_def)

lemma Subscribe_logs: "logs_ok s \<Longrightarrow> logs_ok (fst (SubscribeLogs s))"
  by (auto simp: SubscribeLogs_def Let_def logs_ok_def chans_ok_def intro!: list_all_put)

lemma Unsubscribe_logs:
  assumes "logs_ok s" "UnsubscribeLogs ch s = Some s'"
  shows "logs_ok s'"
proof -
  obtain c where c: "map_of (svc_chans s) ch = Some c" "s' = s\<lparr>svc_logListeners := gm_del ch (svc_logListeners s),
      svc_chans := gm_put ch (c\<lparr>ch_closed := True\<rparr>) (svc_chans s)\<rparr>"
    using assms(2) by (auto simp: UnsubscribeLogs_def split: option.splits if_splits)
  have ok: "chans_ok (svc_chans s) (svc_logListeners s)" using assms(1) by (simp add: logs_ok_def)
  then have "chans_ok (svc_chans s) (gm_del ch (svc_logListeners s))" by (simp add: chans_ok_def)
  from chans_put [OF this, of "c\<lparr>ch_closed := True\<rparr>" ch] show ?thesis
    using assms(1) chans_get(1) [OF ok c(1)] by (simp add: logs_ok_def c(2))
qed

lemma receive_logs:
  assumes "logs_ok s"
  shows "logs_ok (fst (receive_log ch s))"
proof -
  have ok: "chans_ok (svc_chans s) (svc_logListeners s)" using assms by (simp add: logs_ok_def)
  have "chans_ok (gm_put ch (c\<lparr>ch_buf := rs\<rparr>) (svc_chans s)) (svc_logListeners s)"
    if "map_of (svc_chans s) ch = Some c" "ch_buf c = r # rs" for c r rs
    using chans_get [OF ok that(1)] that(2) by (intro chans_put [OF ok]) auto
  then show ?thesis using assms by (auto simp: receive_log_def logs_ok_def split: option.splits list.splits)
qed

lemma logs_rest:
  "same_rest s (count_write c k s)" "same_rest s (send_listeners req s)" "same_rest s (fst (SubscribeLogs s))"
  "UnsubscribeLogs ch s = Some s' \<Longrightarrow> same_rest s s'" "same_rest s (fst (receive_log ch s))"
  by (auto simp: same_rest_def count_write_def send_listeners_def SubscribeLogs_def UnsubscribeLogs_def receive_log_def Let_def
      split: option.splits list.splits if_splits)

lemma count_write_ok: "service_ok s \<Longrightarrow> service_ok (count_write c k s)"
  by (rule service_ok_rest [OF _ logs_rest(1) count_write_logs])

lemma send_listeners_ok: "service_ok s \<Longrightarrow> service_ok (send_listeners req s)"
  by (rule service_ok_rest [OF _ logs_rest(2) send_listeners_logs])

lemma Subscribe_ok: "service_ok s \<Longrightarrow> service_ok (fst (SubscribeLogs s))"
  by (rule service_ok_rest [OF _ logs_rest(3) Subscribe_logs])

lemma Unsubscribe_ok: "service_ok s \<Longrightarrow> UnsubscribeLogs ch s = Some s' \<Longrightarrow> service_ok s'"
  by (rule service_ok_rest [OF _ logs_rest(4) Unsubscribe_logs])

lemma receive_ok: "service_ok s \<Longrightarrow> service_ok (fst (receive_log ch s))"
  by (rule service_ok_rest [OF _ logs_rest(5) receive_logs])

lemma BroadcastLog_ok: "service_ok s \<Longrightarrow> service_ok (BroadcastLog now req s)"
  by (auto simp: BroadcastLog_def Let_def intro!: send_listeners_ok records_only_ok [OF records_timeline] inv_intros split: option.split)

lemma SetFault_service_ok: "service_ok s \<Longrightarrow> service_ok (fst (service_SetFaultParams now c n f s))"
  using service_ok_manager [of s "manager_SetFaultParams c n f"] SetFaultParams_ok
  by (auto simp: service_SetFaultParams_def Let_def intro!: records_only_ok [OF records_lifecycle] split: prod.splits option.splits sum.splits)

section \<open>The service as a transition system\<close>

datatype service_op =
  SStart int string int
| SStartIf int string int
| SStop int int string
| SStopIf int int string
| SWatch string string
| SWrote string string
| SSample int nat
| SPut string string string string
| SLog int "log_request option"
| SSubscribe
| SUnsubscribe nat
| SReceive nat
| SCreate int string string
| SRemoveCluster string
| SProtocol string string
| SHeartbeat int string string
| SFault int string string fault_state
| SCapabilities capabilities_report
| SRemoveNodeC string string
| SRemoveNode string string
| SRegister int int string string string int
| SCleanup "string \<Rightarrow> string \<Rightarrow> int" int

text \<open>One call that runs alone.  A panicking call leaves the state it stopped in.\<close>

fun service_step :: "'w node_operator \<Rightarrow> kv_wire \<Rightarrow> service_op \<Rightarrow> service \<times> 'w \<Rightarrow> service \<times> 'w" where
  "service_step nc wire (SStart now c iv) (s, w) = (fst (StartMetricsSession now c iv s), w)"
| "service_step nc wire (SStartIf now c iv) (s, w) = (fst (StartMetricsSessionIfInactive now c iv s), w)"
| "service_step nc wire (SStop t1 t2 c) (s, w) = fst (StopMetricsSession nc wire t1 t2 c (s, w))"
| "service_step nc wire (SStopIf t1 t2 c) (s, w) = StopMetricsSessionIfActive nc wire t1 t2 c (s, w)"
| "service_step nc wire (SWatch c k) (s, w) = (fst (AddMetricsWatchKey c k s), w)"
| "service_step nc wire (SWrote c k) (s, w) = (RecordWriteKeyForMetrics c k s, w)"
| "service_step nc wire (SSample now ctx) (s, w) = sampler_tick nc wire now ctx (s, w)"
| "service_step nc wire (SPut c n k v) (s, w) = fst (ExecuteKVPut nc wire c n k v s w)"
| "service_step nc wire (SLog now req) (s, w) = (BroadcastLog now req s, w)"
| "service_step nc wire SSubscribe (s, w) = (fst (SubscribeLogs s), w)"
| "service_step nc wire (SUnsubscribe ch) (s, w) = (case UnsubscribeLogs ch s of None \<Rightarrow> (s, w) | Some s' \<Rightarrow> (s', w))"
| "service_step nc wire (SReceive ch) (s, w) = (fst (receive_log ch s), w)"
| "service_step nc wire (SCreate now c p) (s, w) = (fst (service_CreateCluster now c p s), w)"
| "service_step nc wire (SRemoveCluster c) (s, w) = (fst (service_RemoveCluster c s), w)"
| "service_step nc wire (SProtocol c p) (s, w) = fst (SetClusterProtocol nc c p (s, w))"
| "service_step nc wire (SHeartbeat now c n) (s, w) = (fst (service_Heartbeat now c n s), w)"
| "service_step nc wire (SFault now c n f) (s, w) = (fst (service_SetFaultParams now c n f s), w)"
| "service_step nc wire (SCapabilities r) (s, w) = (fst (ReportNodeCapabilities r s), w)"
| "service_step nc wire (SRemoveNodeC c n) (s, w) = (fst (service_RemoveNodeC c n s), w)"
| "service_step nc wire (SRemoveNode c n) (s, w) = (case service_RemoveNode nc c n (s, w) of None \<Rightarrow> (s, w) | Some (sw, _) \<Rightarrow> sw)"
| "service_step nc wire (SRegister t1 t2 c n h p) (s, w) = service_RegisterNode nc t1 t2 c n h p (s, w)"
| "service_step nc wire (SCleanup clock t) (s, w) = (s\<lparr>svc_cluster := Cleanup clock t (svc_cluster s)\<rparr>, w)"

lemma service_step_ok:
  assumes "service_ok (fst sw)"
  shows "service_ok (fst (service_step nc wire x sw))"
proof -
  obtain s w where sw: "sw = (s, w)" by (cases sw)
  have ok: "service_ok s" using assms sw by simp
  note man = service_ok_manager [OF ok]
  show ?thesis
  proof (cases x)
    case (SStart now c iv)
    then show ?thesis using Start_service_ok [OF ok] by (simp add: sw)
  next
    case (SStartIf now c iv)
    then show ?thesis using Start_service_ok [OF ok, of now c iv] ok
      by (auto simp: sw StartMetricsSessionIfInactive_def split: prod.splits option.splits)
  next
    case (SStop t1 t2 c)
    then show ?thesis using Stop_service_ok [of sw nc wire t1 t2 c] assms by (simp add: sw)
  next
    case (SStopIf t1 t2 c)
    then show ?thesis using Stop_service_ok [of sw nc wire t1 t2 c] assms by (simp add: sw StopMetricsSessionIfActive_def)
  next
    case (SSample now ctx)
    then show ?thesis using ok records_only_ok [OF records_sample, of sw nc wire now]
      by (auto simp: sw sampler_tick_def split: option.splits)
  next
    case (SPut c n k v)
    then show ?thesis using ok count_write_ok [OF ok]
      by (auto simp: sw ExecuteKVPut_def split: sum.splits prod.splits)
  next
    case (SCreate now c p)
    then show ?thesis using man [of "CreateCluster c p"] records_only_ok [OF records_lifecycle] CreateCluster_ok
      by (auto simp: sw service_CreateCluster_def split: prod.splits)
  next
    case (SProtocol c p)
    then show ?thesis using ok man [of "SwapProtocol c (to_lower (trim_space p))"] SwapProtocol_ok
      by (auto simp: sw SetClusterProtocol_def Let_def split: prod.splits sum.splits)
  next
    case (SRemoveNode c n)
    then show ?thesis using ok man [of "RemoveNode c n"] RemoveNode_ok
      by (auto simp: sw service_RemoveNode_def Let_def split: prod.splits sum.splits)
  next
    case (SRegister t1 t2 c n h p)
    have "manager_ok (svc_cluster s)" using ok by (simp add: service_ok_def)
    then have "service_ok (s\<lparr>svc_cluster := fst (RegisterNode t1 c n h p (svc_cluster s))\<rparr>)"
      by (intro service_ok_cluster [OF ok] RegisterNode_ok)
    then show ?thesis using SRegister by (simp add: sw service_RegisterNode_def records_only_ok [OF records_lifecycle])
  next
    case (SCapabilities r)
    then show ?thesis by (auto simp: sw ReportNodeCapabilities_def Let_def intro!: man SetNodeCapabilities_ok split: prod.split)
  next
    case (SCleanup clock t)
    then show ?thesis using ok Cleanup_ok by (auto simp: sw service_ok_def)
  next
    case (SUnsubscribe ch)
    then show ?thesis using ok Unsubscribe_ok [OF ok] by (simp add: sw split: option.split)
  qed (use ok in \<open>auto simp: sw service_RemoveCluster_def service_Heartbeat_def service_RemoveNodeC_def
        intro!: man records_only_ok [OF records_track(1)] records_only_ok [OF records_track(2)] BroadcastLog_ok Subscribe_ok
          receive_ok SetFault_service_ok RemoveCluster_ok Heartbeat_ok RemoveNode_ok\<close>)
qed

interpretation svc: locked_component "service_step nc wire" "\<lambda>sw. service_ok (fst sw)" for nc wire
  by unfold_locales (rule service_step_ok)

text \<open>
  The service's invariant.  Whatever calls are made one after the other, and whatever the nodes do and
  answer, the manager and the sessions stay consistent; exactly the clusters with an active session
  have a running sampler, one each; the recent keys of a cluster are at most ten and distinct; and no
  log channel exceeds its capacity or is still a listener once closed.
\<close>

theorem service_invariant:
  "service_ok (fst (fold (service_step nc wire) ops (NewClusterService (NewManager ns), w)))"
  using service_ok_new [OF mgr.run_inv, of "NewManager ns" "[]"] by (intro svc.run_inv) (simp add: NewManager_def manager_ok_def)

end
