(* ===== verification/Logger.thy ===== *)
theory Logger
  imports GoStrings
begin

text \<open>
  The node's logger (\<open>internal/node/runtime/logger.go\<close>) for the calls the protocols make: they hand
  their finished text to \<open>Printf\<close> as the format, with no arguments (\<open>gossip.go\<close>).  \<open>fmt.Sprintf\<close> still reads the text as
  a format: \<open>directive\<close> is what it does with the text after a percent sign when there are no arguments, in the order of the
  loop of the \<open>fmt\<close> package: flags, an argument index, a width, a precision, an index again, and the verb.
  Texts are bytes; a verb that is not an ASCII character is decoded as UTF-8.

  Shown: a text without percent signs is printed and reported as it is.
\<close>

section \<open>Formatting without arguments\<close>

text \<open>A number of at most seven digits or so; a larger one swallows the rest of the format.\<close>

fun parse_num :: "nat \<Rightarrow> bool \<Rightarrow> string \<Rightarrow> bool \<times> string" where
  "parse_num num isnum [] = (isnum, [])"
| "parse_num num isnum (c # cs) = (case digit_val c of
     None \<Rightarrow> (isnum, c # cs)
   | Some d \<Rightarrow> if num > 1000000 then (False, []) else parse_num (num * 10 + d) True cs)"

text \<open>An argument index in brackets: the rest, whether it is well formed, and whether there was one, which is then out of range.\<close>

definition arg_number :: "string \<Rightarrow> string \<times> bool \<times> bool" where
  "arg_number cs = (case cs of
     [] \<Rightarrow> (cs, False, False)
   | c # cs' \<Rightarrow>
       if c \<noteq> CHR ''['' then (cs, False, False)
       else if length cs < 3 then (cs', False, True)
       else case cut_at CHR '']'' cs' of
         None \<Rightarrow> (cs', False, True)
       | Some (inside, after) \<Rightarrow> (after, parse_num 0 False inside = (True, []), True))"

definition byte_in :: "nat \<Rightarrow> nat \<Rightarrow> char \<Rightarrow> bool" where
  "byte_in lo hi c \<longleftrightarrow> lo \<le> (of_char c :: nat) \<and> (of_char c :: nat) \<le> hi"

text \<open>The bytes of the character a text begins with, if they are valid UTF-8.\<close>

definition rune_size :: "string \<Rightarrow> nat option" where
  "rune_size cs = (case cs of
     [] \<Rightarrow> None
   | a # cs \<Rightarrow>
       if byte_in 0 127 a then Some 1
       else case cs of
         [] \<Rightarrow> None
       | b # cs \<Rightarrow>
           if byte_in 194 223 a then (if byte_in 128 191 b then Some 2 else None)
           else case cs of
             [] \<Rightarrow> None
           | c # cs \<Rightarrow>
               if byte_in 224 239 a
               then (if byte_in (if byte_in 224 224 a then 160 else 128) (if byte_in 237 237 a then 159 else 191) b \<and> byte_in 128 191 c
                     then Some 3 else None)
               else case cs of
                 [] \<Rightarrow> None
               | d # _ \<Rightarrow>
                   if byte_in 240 244 a \<and> byte_in (if byte_in 240 240 a then 144 else 128) (if byte_in 244 244 a then 143 else 191) b
                      \<and> byte_in 128 191 c \<and> byte_in 128 191 d
                   then Some 4 else None)"

text \<open>The verb as it is written back and the rest; an invalid byte becomes the replacement character.\<close>

definition take_verb :: "string \<Rightarrow> (string \<times> string) option" where
  "take_verb cs = (if cs = [] then None
     else case rune_size cs of
       Some n \<Rightarrow> Some (take n cs, drop n cs)
     | None \<Rightarrow> Some ([CHR 0xEF, CHR 0xBF, CHR 0xBD], tl cs))"

definition directive :: "string \<Rightarrow> string \<times> string" where
  "directive cs =
     (case arg_number (dropWhile (\<lambda>c. c \<in> set ''#0+- '') cs) of (cs, idx, bad) \<Rightarrow>
      case (if cs \<noteq> [] \<and> hd cs = CHR ''*'' then (''%!(BADWIDTH)'', tl cs, False, bad)
            else case parse_num 0 False cs of (present, cs) \<Rightarrow> ([], cs, idx, bad \<or> idx \<and> present)) of (w, cs, idx, bad) \<Rightarrow>
      case (if cs \<noteq> [] \<and> hd cs = CHR ''.''
            then (case arg_number (tl cs) of (cs, idx', bad') \<Rightarrow>
                    if cs \<noteq> [] \<and> hd cs = CHR ''*'' then (''%!(BADPREC)'', tl cs, False, bad \<or> idx \<or> bad')
                    else ([], snd (parse_num 0 False cs), idx', bad \<or> idx \<or> bad'))
            else ([], cs, idx, bad)) of (p, cs, idx, bad) \<Rightarrow>
      case (if idx then (cs, bad) else case arg_number cs of (cs, _, bad') \<Rightarrow> (cs, bad \<or> bad')) of (cs, bad) \<Rightarrow>
      case take_verb cs of
        None \<Rightarrow> (w @ p @ ''%!(NOVERB)'', [])
      | Some (verb, rest) \<Rightarrow>
          (w @ p @ (if verb = ''%'' then ''%'' else ''%!'' @ verb @ (if bad then ''(BADINDEX)'' else ''(MISSING)'')), rest))"

lemma parse_num_length: "length (snd (parse_num n b cs)) \<le> length cs"
  by (induction n b cs rule: parse_num.induct) (auto split: option.split)

lemma cut_at_length: "cut_at c s = Some (a, b) \<Longrightarrow> length b \<le> length s"
  using length_dropWhile_le [of "\<lambda>x. x \<noteq> c" s] by (auto simp: cut_at_def split: if_splits)

lemma arg_number_length: "length (fst (arg_number cs)) \<le> length cs"
  by (auto simp: arg_number_def dest: cut_at_length split: list.split option.split)

lemma rune_size_pos: "rune_size cs = Some n \<Longrightarrow> 0 < n"
  by (auto simp: rune_size_def split: list.splits if_splits)

lemma take_verb_length: "take_verb cs = Some (v, rest) \<Longrightarrow> length rest \<le> length cs"
  by (auto simp: take_verb_def split: if_splits option.splits)

lemma directive_length: "length (snd (directive cs)) \<le> length cs"
proof -
  let ?f = "dropWhile (\<lambda>c. c \<in> set ''#0+- '') cs"
  obtain c1 idx1 bad1 where a1: "arg_number ?f = (c1, idx1, bad1)" by (metis prod_cases3)
  have l1: "length c1 \<le> length cs"
    using arg_number_length [of ?f] length_dropWhile_le [of "\<lambda>c. c \<in> set ''#0+- ''" cs] a1 by simp
  obtain w c2 idx2 bad2 where a2: "(if c1 \<noteq> [] \<and> hd c1 = CHR ''*'' then (''%!(BADWIDTH)'', tl c1, False, bad1)
      else case parse_num 0 False c1 of (present, cs) \<Rightarrow> ([], cs, idx1, bad1 \<or> idx1 \<and> present)) = (w, c2, idx2, bad2)"
    by (rule prod_cases4)
  have l2: "length c2 \<le> length cs"
    using a2 l1 parse_num_length [of 0 False c1] by (auto split: if_splits prod.splits)
  obtain p c3 idx3 bad3 where a3: "(if c2 \<noteq> [] \<and> hd c2 = CHR ''.''
      then (case arg_number (tl c2) of (cs, idx', bad') \<Rightarrow>
              if cs \<noteq> [] \<and> hd cs = CHR ''*'' then (''%!(BADPREC)'', tl cs, False, bad2 \<or> idx2 \<or> bad')
              else ([], snd (parse_num 0 False cs), idx', bad2 \<or> idx2 \<or> bad'))
      else ([], c2, idx2, bad2)) = (p, c3, idx3, bad3)"
    by (rule prod_cases4)
  have "length (snd (parse_num 0 False (fst (arg_number (tl c2))))) \<le> length cs" "length (fst (arg_number (tl c2))) \<le> length cs"
    using l2 parse_num_length [of 0 False "fst (arg_number (tl c2))"] arg_number_length [of "tl c2"] by simp_all
  then have l3: "length c3 \<le> length cs" using a3 l2 by (auto split: if_splits prod.splits)
  obtain c4 bad4 where a4: "(if idx3 then (c3, bad3) else case arg_number c3 of (cs, _, bad') \<Rightarrow> (cs, bad3 \<or> bad')) = (c4, bad4)" by force
  have l4: "length c4 \<le> length cs" using a4 l3 arg_number_length [of c3] by (auto split: if_splits prod.splits)
  show ?thesis
    unfolding directive_def a1 prod.case a2 a3 a4
    using take_verb_length [of c4] l4 by (fastforce split: option.split prod.split)
qed

function Sprintf :: "string \<Rightarrow> string" where
  "Sprintf [] = []"
| "Sprintf (c # cs) = (if c \<noteq> CHR ''%'' then c # Sprintf cs else fst (directive cs) @ Sprintf (snd (directive cs)))"
  by pat_completeness auto
termination
  by (relation "measure length") (simp_all add: directive_length le_imp_less_Suc)

lemma Sprintf_plain: "CHR ''%'' \<notin> set s \<Longrightarrow> Sprintf s = s"
  by (induction s) auto

section \<open>The logger\<close>

text \<open>What \<open>Printf\<close> prints, and the line it reports when there is a control plane session, without a newline at its end.\<close>

definition Logger_Printf :: "string \<Rightarrow> bool \<Rightarrow> string \<Rightarrow> string \<times> string option" where
  "Logger_Printf prefix has_cp format =
     (let msg = Sprintf format in
      (if prefix \<noteq> [] then ''['' @ prefix @ ''] '' @ msg @ [CHR 0x0A]
       else if msg \<noteq> [] \<and> last msg \<noteq> CHR 0x0A then msg @ [CHR 0x0A] else msg,
       if has_cp then Some (if msg \<noteq> [] \<and> last msg = CHR 0x0A then butlast msg else msg) else None))"

lemma Printf_plain:
  "CHR ''%'' \<notin> set s \<Longrightarrow> s = [] \<or> last s \<noteq> CHR 0x0A \<Longrightarrow> snd (Logger_Printf prefix True s) = Some s"
  by (auto simp: Logger_Printf_def Let_def Sprintf_plain)

text \<open>A percent sign does not survive the logger.\<close>

lemma Printf_mangles: "snd (Logger_Printf prefix True ''50% off'') = Some ''50%!o(MISSING)ff''"
  by (simp add: Logger_Printf_def) code_simp

end
