(* ===== verification/ServiceSpec.thy ===== *)
theory ServiceSpec
  imports ServiceSteps Logger
begin

text \<open>
  What the service's methods mean: timeline lines read back, the statistics of a session, the
  waiting loop, and the cases in which a method does less than its caller may expect.
\<close>

section \<open>Timeline events\<close>

lemma parse_u64_show: "0 \<le> n \<Longrightarrow> n < 2 ^ 64 \<Longrightarrow> parse_u64 (show_int n) = word_of_int n"
proof -
  assume n: "0 \<le> n" "n < 2 ^ 64"
  then have "nat n < 2 ^ 64" by simp
  from parse_uint_show [OF this] show ?thesis using n by (simp add: parse_u64_def show_int_def of_nat_nat)
qed

lemma timeline_split:
  assumes "\<forall>x \<in> set [ty, k, v, orig, src]. CHR ''|'' \<notin> set x"
  shows "split_on CHR ''|'' (trim_prefix (timeline_text ty k v ver orig src rnd ts) ''TL_EVENT:'') =
     [ty, k, v, show_int ver, orig, src, show_int rnd, show_int ts]"
proof -
  let ?xs = "[ty, k, v, show_int ver, orig, src, show_int rnd, show_int ts]"
  have "timeline_text ty k v ver orig src rnd ts = ''TL_EVENT:'' @ join_with [CHR ''|''] ?xs"
    by (simp add: timeline_text_def)
  then have "trim_prefix (timeline_text ty k v ver orig src rnd ts) ''TL_EVENT:'' = join_with [CHR ''|''] ?xs"
    by (simp only: trim_prefix_append)
  moreover have "split_on CHR ''|'' (join_with [CHR ''|''] ?xs) = ?xs"
    using assms by (intro split_join) (auto simp: show_int_notin)
  ultimately show ?thesis by simp
qed

lemma handle_timeline:
  assumes "lg_Message req = timeline_text ty k v ver orig src rnd ts"
    and "\<forall>x \<in> set [ty, k, v, orig, src]. CHR ''|'' \<notin> set x"
    and "i64_min \<le> ver" "ver \<le> i64_max" "i64_min \<le> ts" "ts \<le> i64_max" "0 \<le> rnd" "rnd < 2 ^ 64"
  shows "svc_metrics (handleTimelineLog now req s) = fst (RecordTimelineEvent (lg_ClusterId req) k
      (if lg_Timestamp req > 0 then lg_Timestamp req * 1000000 else now)
      \<lparr>te_Time = 0, te_NodeID = lg_NodeId req, te_Key = k, te_Value = v, te_Version = ver, te_Origin = orig, te_Source = src,
       te_EventType = ty, te_Round = word_of_int rnd, te_LWWTimestamp = ts\<rparr> (svc_metrics s))"
  unfolding handleTimelineLog_def assms(1) timeline_split [OF assms(2)] Let_def
  using assms(3-) by (simp add: parse_int_show parse_u64_show)

lemma send_listeners_metrics: "svc_metrics (send_listeners req s) = svc_metrics s"
  by (simp add: send_listeners_def)

text \<open>A timeline text without percent signs passes the logger unchanged.\<close>

lemma show_int_last: "last (show_int i) \<noteq> CHR 0x0A"
proof -
  have w: "is_word (show_int i)" by simp
  have "last (show_int i) \<in> set (show_int i)" by (rule last_in_set) simp
  then have "\<not> is_space (last (show_int i))" by (rule is_wordD [OF w])
  then show ?thesis by (auto simp: is_space_def)
qed

lemma timeline_printed:
  assumes "\<forall>x \<in> set [ty, k, v, orig, src]. CHR ''%'' \<notin> set x"
  shows "snd (Logger_Printf prefix True (timeline_text ty k v ver orig src rnd ts)) = Some (timeline_text ty k v ver orig src rnd ts)"
proof (rule Printf_plain)
  show "CHR ''%'' \<notin> set (timeline_text ty k v ver orig src rnd ts)"
    using assms show_int_notin(5) by (auto simp: timeline_text_def)
  show "timeline_text ty k v ver orig src rnd ts = [] \<or> last (timeline_text ty k v ver orig src rnd ts) \<noteq> CHR 0x0A"
    using show_int_last by (simp add: timeline_text_def)
qed

text \<open>
  C32: A write or merge that a gossip node logs appears in the metrics as it happened, under these conditions.  A
  line that \<open>emitTimelineEvent\<close> hands to the node's logger is formatted by \<open>Printf\<close> and reported; the control plane receives the report,
  with a positive time stamp, while a session of the cluster it names is active; none of the texts in the line contains the
  separator \<open>|\<close> or a percent sign (which \<open>Printf\<close> would take for a verb); and the numbers are in the range of their types.
  Then the timeline of the key grows by exactly one event, with the node's key, value, version, origin, source, type, round
  and time stamp.
\<close>

theorem timeline_line_recorded:
  assumes "line \<in> set (emitTimelineEvent g rnd ty k v ver orig src ts)"
    and "snd (Logger_Printf prefix True line) = Some (lg_Message req)"
    and "\<forall>x \<in> set [ty, k, v, orig, src]. CHR ''|'' \<notin> set x \<and> CHR ''%'' \<notin> set x"
    and "i64_min \<le> ver" "ver \<le> i64_max" "i64_min \<le> ts" "ts \<le> i64_max" "0 \<le> rnd" "rnd < 2 ^ 64"
    and "running (trim_space (lg_ClusterId req)) start (svc_metrics s)" "lg_Timestamp req > 0"
  shows "gm_getd [] (ms_timeline (last (gm_getd [] (svc_metrics (BroadcastLog now (Some req) s)) (trim_space (lg_ClusterId req))))) (trim_space k) =
     gm_getd [] (ms_timeline (last (gm_getd [] (svc_metrics s) (trim_space (lg_ClusterId req))))) (trim_space k)
       @ [\<lparr>te_Time = max 0 (time_sub (lg_Timestamp req * 1000000) start), te_NodeID = lg_NodeId req, te_Key = k, te_Value = v,
           te_Version = ver, te_Origin = orig, te_Source = src, te_EventType = ty, te_Round = word_of_int rnd, te_LWWTimestamp = ts\<rparr>]"
proof -
  let ?e = "\<lparr>te_Time = 0, te_NodeID = lg_NodeId req, te_Key = k, te_Value = v, te_Version = ver, te_Origin = orig, te_Source = src,
       te_EventType = ty, te_Round = word_of_int rnd, te_LWWTimestamp = ts\<rparr>"
  let ?t = "lg_Timestamp req * 1000000"
  have "line = timeline_text ty k v ver orig src rnd ts" using assms(1) by (simp add: emitTimelineEvent_def split: if_splits)
  then have msg: "lg_Message req = timeline_text ty k v ver orig src rnd ts"
    using timeline_printed [of ty k v orig src prefix ver rnd ts] assms(2,3) by simp
  have sep: "\<forall>x \<in> set [ty, k, v, orig, src]. CHR ''|'' \<notin> set x" using assms(3) by simp
  have pre: "has_prefix (lg_Message req) ''TL_EVENT:''" by (simp add: msg timeline_text_def has_prefix_def)
  have "svc_metrics (BroadcastLog now (Some req) s) = fst (RecordTimelineEvent (lg_ClusterId req) k ?t ?e (svc_metrics s))"
    using pre handle_timeline [OF msg sep assms(4-9)] assms(11) by (simp add: BroadcastLog_def Let_def send_listeners_metrics)
  then have "svc_metrics (BroadcastLog now (Some req) s) = session_step (DoEvent (lg_ClusterId req) k ?t ?e) (svc_metrics s)" by simp
  moreover have "events_in (trim_space (lg_ClusterId req)) (trim_space k) start (DoEvent (lg_ClusterId req) k ?t ?e) =
      [?e\<lparr>te_Time := max 0 (time_sub ?t start)\<rparr>]"
    by (simp add: rel_time_def Let_def max_def)
  ultimately show ?thesis
    using step_records [OF assms(10), of "DoEvent (lg_ClusterId req) k ?t ?e" "trim_space k"] by simp
qed

definition demo_service :: service where
  "demo_service = fst (StartMetricsSession 100 ''c'' 0 (NewClusterService (fst (CreateCluster ''c'' [] (NewManager [])))))"

definition demo_line :: log_request where
  "demo_line = \<lparr>lg_NodeId = ''n1'', lg_ClusterId = ''c'', lg_Level = ''INFO'',
     lg_Message = timeline_text ''WRITE'' ''k'' ''v'' 1 ''n1'' ''n1'' 7 7, lg_Timestamp = 5\<rparr>"

lemma demo_running: "running ''c'' 100 (svc_metrics demo_service)"
proof -
  have c: "trim_space ''c'' = ''c''" by (rule trim_space_word) (simp add: is_word_def is_space_def)
  show ?thesis
    by (simp add: demo_service_def StartMetricsSession_def Let_def c GetCluster_def NewClusterService_def NewManager_def CreateCluster_def
        cluster_protocol_name_def to_lower_def session_Start_def NewSessionManager_def running_def new_session_def)
qed

theorem timeline_line_recorded_witness:
  "map te_Version (gm_getd [] (ms_timeline (last (gm_getd [] (svc_metrics (BroadcastLog 0 (Some demo_line) demo_service)) ''c''))) ''k'') = [1]"
proof -
  have tr: "trim_space ''c'' = ''c''" "trim_space ''k'' = ''k''" by (rule trim_space_word, simp add: is_word_def is_space_def)+
  have old: "gm_getd [] (ms_timeline (last (gm_getd [] (svc_metrics demo_service) ''c''))) ''k'' = []"
    by (simp add: demo_service_def StartMetricsSession_def Let_def tr GetCluster_def NewClusterService_def NewManager_def CreateCluster_def
        cluster_protocol_name_def to_lower_def session_Start_def NewSessionManager_def new_session_def)
  have cl: "trim_space (lg_ClusterId demo_line) = ''c''" by (simp add: demo_line_def tr)
  have run: "running (trim_space (lg_ClusterId demo_line)) 100 (svc_metrics demo_service)" using demo_running by (simp add: cl)
  let ?g = "gossip_SetLogger (gossip_Start ''n1'' NewGossipProtocol)"
  have emit: "timeline_text ''WRITE'' ''k'' ''v'' 1 ''n1'' ''n1'' 7 7 \<in> set (emitTimelineEvent ?g 7 ''WRITE'' ''k'' ''v'' 1 ''n1'' ''n1'' 7)"
    by (simp add: emitTimelineEvent_def gossip_SetLogger_def)
  have line: "snd (Logger_Printf ''node'' True (timeline_text ''WRITE'' ''k'' ''v'' 1 ''n1'' ''n1'' 7 7)) = Some (lg_Message demo_line)"
    by (subst timeline_printed) (simp_all add: demo_line_def)
  show ?thesis
    using timeline_line_recorded [OF emit line _ _ _ _ _ _ _ run, of 0]
    unfolding cl tr by (simp add: old) (simp add: demo_line_def i64_min_def i64_max_def)
qed

section \<open>Fault changes\<close>

lemma SetFault_reread:
  assumes "on_manager (manager_SetFaultParams c n f) s = (s', None)" "GetNode c n (svc_cluster s) = Inr n0"
  shows "\<exists>n'. GetNode c n (svc_cluster s') = Inr n' \<and> cn_Fault n' = f"
  using assms
  by (auto simp: on_manager_def manager_SetFaultParams_def GetNode_Inr set_node_def set_cluster_def Let_def split: option.splits prod.splits)

text \<open>
  Changing the faults of a node records no life-cycle event.  The node the change is compared with
  is the manager's own, updated in place before the comparison, so crash, recovery, partition and
  healing are never seen as changes: whatever the fault and the state, the sessions stay as they are.
\<close>

theorem fault_changes_unrecorded: "svc_metrics (fst (service_SetFaultParams now c n f s)) = svc_metrics s"
proof -
  obtain s1 e where m: "on_manager (manager_SetFaultParams c n f) s = (s1, e)" by force
  have ms: "svc_metrics s1 = svc_metrics s" using m by (auto simp: on_manager_def split: prod.splits)
  show ?thesis
  proof (cases e)
    case None
    show ?thesis
    proof (cases "GetNode c n (svc_cluster s)")
      case (Inr n0)
      obtain n' where n': "GetNode c n (svc_cluster s1) = Inr n'" "cn_Fault n' = f"
        using SetFault_reread [OF m [unfolded None] Inr] by blast
      show ?thesis using m None Inr n' ms by (simp add: service_SetFaultParams_def)
    qed (use m None ms in \<open>simp add: service_SetFaultParams_def\<close>)
  qed (use m ms in \<open>simp add: service_SetFaultParams_def\<close>)
qed

section \<open>Waiting for convergence\<close>

text \<open>The states in which the rounds of the waiting loop check, and the outcome of a check.\<close>

primrec wait_state :: "'w node_operator \<Rightarrow> kv_wire \<Rightarrow> (nat \<Rightarrow> service \<times> 'w \<Rightarrow> service \<times> 'w) \<Rightarrow> string \<Rightarrow> service \<times> 'w \<Rightarrow> nat \<Rightarrow> service \<times> 'w" where
  "wait_state nc wire env c sw 0 = sw"
| "wait_state nc wire env c sw (Suc i) =
     (let st = wait_state nc wire env c sw i in env i (fst st, fst (IsClusterConverged nc wire c (fst st) (snd st))))"

definition converged_at :: "'w node_operator \<Rightarrow> kv_wire \<Rightarrow> (nat \<Rightarrow> service \<times> 'w \<Rightarrow> service \<times> 'w) \<Rightarrow> string \<Rightarrow> service \<times> 'w \<Rightarrow> nat \<Rightarrow> bool" where
  "converged_at nc wire env c sw i \<longleftrightarrow>
     (let st = wait_state nc wire env c sw i in snd (IsClusterConverged nc wire c (fst st) (snd st)) = Inr True)"

lemma time_sub_less: "b \<le> a \<Longrightarrow> t \<le> i64_max \<Longrightarrow> time_sub a b < t \<longleftrightarrow> a - b < t"
  by (auto simp: time_sub_def i64_min_def)

lemma clock_grows: "(\<And>i. clock i + (d :: int) \<le> clock (Suc i)) \<Longrightarrow> clock i + d * int j \<le> clock (i + j)"
proof (induction j)
  case (Suc j)
  have "clock i + d * int j \<le> clock (i + j)" by (rule Suc.IH) (rule Suc.prems)
  then show ?case using Suc.prems [of "i + j"] by (simp add: algebra_simps)
qed simp

lemma wait_loop_run:
  assumes "\<And>i. clock i + 1000000000 \<le> clock (Suc i)" "start \<le> clock 0" "timeout \<le> i64_max"
  shows "\<exists>sw'. wait_loop nc wire clock env c start timeout i (wait_state nc wire env c sw i) =
     Some (sw', \<exists>j \<ge> i. clock j - start < timeout \<and> converged_at nc wire env c sw j)"
proof (induction "nat (timeout + start - clock i)" arbitrary: i rule: less_induct)
  case less
  let ?st = "wait_state nc wire env c sw i"
  let ?ok = "\<lambda>j. clock j - start < timeout \<and> converged_at nc wire env c sw j"
  have mono: "clock i \<le> clock j" if "i \<le> j" for j
    using clock_grows [of clock 1000000000 i "j - i"] assms(1) that by simp
  have "start \<le> clock i" using clock_grows [of clock 1000000000 0 i] assms(1,2) by simp
  then have t: "time_sub (clock i) start < timeout \<longleftrightarrow> clock i - start < timeout" using assms(3) by (rule time_sub_less)
  obtain w res where chk: "IsClusterConverged nc wire c (fst ?st) (snd ?st) = (w, res)" by force
  have conv: "converged_at nc wire env c sw i \<longleftrightarrow> res = Inr True" by (simp add: converged_at_def chk)
  consider (out) "\<not> clock i - start < timeout" | (yes) "clock i - start < timeout" "res = Inr True"
    | (no) "clock i - start < timeout" "res \<noteq> Inr True" by blast
  then show ?case
  proof cases
    case out
    then have "\<not> ?ok j" if "i \<le> j" for j using mono [OF that] by auto
    then have "(\<exists>j \<ge> i. ?ok j) = False" by blast
    then show ?thesis using out t by (simp add: wait_loop.simps [of _ _ _ _ _ _ _ i])
  next
    case yes
    then have "(\<exists>j \<ge> i. ?ok j) = True" using conv by blast
    then show ?thesis using yes t chk by (simp add: wait_loop.simps [of _ _ _ _ _ _ _ i])
  next
    case no
    have next_st: "wait_state nc wire env c sw (Suc i) = env i (fst ?st, w)" by (simp add: chk)
    have "nat (timeout + start - clock (Suc i)) < nat (timeout + start - clock i)" using assms(1) [of i] no(1) by simp
    from less [OF this] obtain sw' where
      IH: "wait_loop nc wire clock env c start timeout (Suc i) (env i (fst ?st, w)) = Some (sw', \<exists>j \<ge> Suc i. ?ok j)"
      unfolding next_st by blast
    have "(\<exists>j \<ge> i. ?ok j) = (\<exists>j \<ge> Suc i. ?ok j)" using conv no(2) by (metis Suc_leD le_antisym not_less_eq_eq)
    then show ?thesis using no t chk IH by (simp add: wait_loop.simps [of _ _ _ _ _ _ _ i])
  qed
qed

definition demo_operator :: "unit node_operator" where
  "demo_operator = \<lparr>no_StopNode = (\<lambda>_ _ w. (w, None)), no_Ping = (\<lambda>_ _ w. (w, None)),
     no_ExecuteAction = (\<lambda>_ _ _ w. (w, Inr (success []))), no_SwapProtocol = (\<lambda>_ _ _ _ _ _ w. (w, None))\<rparr>"

definition demo_wire :: kv_wire where
  "demo_wire = \<lparr>kw_put = (\<lambda>k v. k @ ''='' @ v), kw_get = (\<lambda>k. k),
     kw_response = (\<lambda>b. \<lparr>gr_Value = b, gr_Version = 1, gr_Origin = ''n1'', gr_HasMetadata = True\<rparr>)\<rparr>"

text \<open>
  C27: Waiting for convergence ends, with the right answer.  If the clock is not behind the start and every
  sleep lasts at least its second, the loop returns, and it returns true exactly if one of the checks
  it makes before the time is up finds the cluster converged, whatever the rest of the system does
  between the checks.
\<close>

theorem wait_for_convergence_ends:
  assumes "\<forall>i. clock i + 1000000000 \<le> clock (Suc i)" "start \<le> clock 0" "timeout \<le> i64_max"
  shows "\<exists>sw'. WaitForConvergence nc wire start clock env c timeout sw =
     Some (sw', \<exists>i. clock i - start < timeout \<and> converged_at nc wire env c sw i)"
  using wait_loop_run [of clock start timeout nc wire env c 0 sw] assms by (simp add: WaitForConvergence_def)

theorem wait_for_convergence_ends_witness:
  "\<exists>sw'. WaitForConvergence demo_operator demo_wire 0 (\<lambda>i. int i * 1000000000) (\<lambda>_. id) ''c'' 3000000000 (demo_service, ()) = Some (sw', True)"
proof -
  have c: "trim_space ''c'' = ''c''" by (rule trim_space_word) (simp add: is_word_def is_space_def)
  have "IsClusterConverged demo_operator demo_wire ''c'' demo_service () = ((), Inr True)"
    by (simp add: IsClusterConverged_def GetSession_def Let_def c demo_service_def StartMetricsSession_def GetCluster_def
        NewClusterService_def NewManager_def CreateCluster_def cluster_protocol_name_def to_lower_def session_Start_def
        NewSessionManager_def new_session_def session_view_def gm_keys_def)
  then have "converged_at demo_operator demo_wire (\<lambda>_. id) ''c'' (demo_service, ()) 0" by (simp add: converged_at_def)
  then have "(\<exists>i. int i * 1000000000 - 0 < 3000000000 \<and> converged_at demo_operator demo_wire (\<lambda>_. id) ''c'' (demo_service, ()) i) = True"
    by (intro eqTrueI exI [of _ 0]) simp
  then show ?thesis
    using wait_for_convergence_ends [of "\<lambda>i. int i * 1000000000" 0 3000000000 demo_operator demo_wire "\<lambda>_. id" "''c''" "(demo_service, ())"]
    by (simp add: i64_max_def)
qed

section \<open>Stopping a session\<close>

lemma sample_fields:
  assumes "sampleAllTrackedKeys nc wire t c (s, w) = (s1, w1)"
  shows "stats_since_baseline c' s1 = stats_since_baseline c' s" "svc_totalRPCs s1 = svc_totalRPCs s"
    "svc_totalWrites s1 = svc_totalWrites s" "svc_recentKeys s1 = svc_recentKeys s" "svc_sessionBaselines s1 = svc_sessionBaselines s"
  using records_sample [of "(s, w)" nc wire t c] assms by (auto simp: records_only_def stats_since_baseline_def Let_def)

lemma cancel_fields:
  "stats_since_baseline c (cancel_loop c s) = stats_since_baseline c s" "svc_totalRPCs (cancel_loop c s) = svc_totalRPCs s"
  "svc_totalWrites (cancel_loop c s) = svc_totalWrites s" "svc_recentKeys (cancel_loop c s) = svc_recentKeys s"
  "svc_metrics (cancel_loop c s) = svc_metrics s" "svc_sessionBaselines (cancel_loop c s) = svc_sessionBaselines s"
  by (auto simp: cancel_loop_def stats_since_baseline_def split: option.splits)

definition lifetime_stats :: "string \<Rightarrow> service \<Rightarrow> session_stats" where
  "lifetime_stats c s = \<lparr>ss_TotalRPCs = gm_getd 0 (svc_totalRPCs s) c, ss_TotalWrites = gm_getd 0 (svc_totalWrites s) c,
     ss_RecentKeys = gm_getd [] (svc_recentKeys s) c\<rparr>"

lemma stop_shape:
  assumes "StopMetricsSession nc wire t1 t2 c (s, w) = ((s', w'), res)" "trim_space c = c" "c \<noteq> []" "gm_getd [] (svc_metrics s) c \<noteq> []"
  shows "\<exists>h. h \<noteq> [] \<and> (ms_StoppedAt (last h) = None \<longleftrightarrow> live c (svc_metrics s))
    \<and> gm_getd [] (svc_metrics s') c = upd_last (if live c (svc_metrics s) then (\<lambda>x. x\<lparr>ms_Stats := stats_since_baseline c s, ms_StoppedAt := Some t2\<rparr>)
         else (\<lambda>x. x\<lparr>ms_Stats := stats_since_baseline c s\<rparr>)) h
    \<and> res = (if live c (svc_metrics s) then GetMetricsSnapshot c s' else Inl (FromSessions (AlreadyStopped c)))
    \<and> stats_since_baseline c s' = lifetime_stats c s \<and> lifetime_stats c s' = lifetime_stats c s"
proof -
  obtain s1 w1 where s1: "sampleAllTrackedKeys nc wire t1 c (s, w) = (s1, w1)" by force
  note f = sample_fields [OF s1] cancel_fields
  define h where "h = gm_getd [] (svc_metrics s1) c"
  have "neutral (svc_metrics s) (svc_metrics s1)" using records_sample [of "(s, w)" nc wire t1 c] s1 by (auto simp: records_only_def)
  then have lv: "live c (svc_metrics s1) = live c (svc_metrics s)" by (simp add: neutral_def)
  have ne: "h \<noteq> []"
  proof (cases "live c (svc_metrics s)")
    case True
    then show ?thesis using lv by (simp add: live_def h_def)
  next
    case False
    then have "s1 = s" using s1 by (simp add: sampleAllTrackedKeys_def IsActive_live assms(2))
    then show ?thesis using assms(4) by (simp add: h_def)
  qed
  define m where "m = UpdateSessionStats c (stats_since_baseline c s) (svc_metrics s1)"
  have m: "gm_getd [] m c = upd_last (\<lambda>x. x\<lparr>ms_Stats := stats_since_baseline c s\<rparr>) h"
    using ne by (simp add: m_def UpdateSessionStats_def h_def Let_def)
  have stopped: "ms_StoppedAt (last h) = None \<longleftrightarrow> live c (svc_metrics s)" using lv ne by (simp add: live_def h_def)
  have stop: "session_Stop c t2 m = (if live c (svc_metrics s) then (gm_put c (upd_last (\<lambda>x. x\<lparr>ms_Stats := stats_since_baseline c s, ms_StoppedAt := Some t2\<rparr>) h) m, None)
      else (m, Some (AlreadyStopped c)))"
    using ne stopped assms(2,3) by (simp add: session_Stop_def m last_upd) (simp add: upd_last_def)
  have "((s', w'), res) = (let s2 = (cancel_loop c s1)\<lparr>svc_sessionBaselines := gm_del c (svc_sessionBaselines s1),
      svc_metrics := fst (session_Stop c t2 m)\<rparr>
      in ((s2, w1), if live c (svc_metrics s) then GetMetricsSnapshot c s2 else Inl (FromSessions (AlreadyStopped c))))"
    using assms(1) s1 stop unfolding StopMetricsSession_def assms(2) by (auto simp: f Let_def m_def split: if_splits)
  then show ?thesis using ne stopped
    by (intro exI [of _ h]) (auto simp: stop m lifetime_stats_def stats_since_baseline_def Let_def f(2-4) cancel_fields)
qed

text \<open>
  Stopping a session seals what happened during it, and reports something else.  For a cluster with
  sessions the stored statistics of the last one become those since its start; but the reply of the
  stop itself, made after the baseline is dropped, carries the totals since the control plane started;
  and a second stop, although refused, overwrites the sealed statistics with these totals.
\<close>

theorem stop_seals_statistics:
  assumes "StopMetricsSession nc wire t1 t2 c (s, w) = ((s', w'), Inr x)" "trim_space c = c" "c \<noteq> []" "live c (svc_metrics s)"
    and "StopMetricsSession nc wire t3 t4 c (s', w') = ((s'', w''), res)"
  shows "ms_Stats (last (gm_getd [] (svc_metrics s') c)) = stats_since_baseline c s
    \<and> mx_clusterStats x = lifetime_stats c s \<and> mx_stoppedAt x = Some t2 \<and> \<not> mx_isActive x
    \<and> res = Inl (FromSessions (AlreadyStopped c))
    \<and> ms_Stats (last (gm_getd [] (svc_metrics s'') c)) = lifetime_stats c s"
proof -
  have "gm_getd [] (svc_metrics s) c \<noteq> []" using assms(4) by (simp add: live_def)
  from stop_shape [OF assms(1-3) this] assms(4) obtain h where h: "h \<noteq> []"
    "gm_getd [] (svc_metrics s') c = upd_last (\<lambda>x. x\<lparr>ms_Stats := stats_since_baseline c s, ms_StoppedAt := Some t2\<rparr>) h"
    "GetMetricsSnapshot c s' = Inr x" "stats_since_baseline c s' = lifetime_stats c s" by auto
  have "gm_getd [] (svc_metrics s') c \<noteq> []" "\<not> live c (svc_metrics s')" by (simp_all add: h(2) live_def last_upd)
  from stop_shape [OF assms(5,2,3) this(1)] this(2) obtain h' where
    "gm_getd [] (svc_metrics s'') c = upd_last (\<lambda>x. x\<lparr>ms_Stats := stats_since_baseline c s'\<rparr>) h'"
    "res = Inl (FromSessions (AlreadyStopped c))" by auto
  moreover have "mx_clusterStats x = lifetime_stats c s \<and> mx_stoppedAt x = Some t2 \<and> \<not> mx_isActive x"
    using h(3) by (auto simp: GetMetricsSnapshot_def GetSession_def Let_def assms(2) IsActive_live live_def h last_upd session_view_def split: sum.splits if_splits)
  ultimately show ?thesis by (simp add: h(2,4) last_upd)
qed

theorem stop_seals_statistics_witness:
  "\<exists>s' x. StopMetricsSession demo_operator demo_wire 200 200 ''c'' (demo_service, ()) = ((s', ()), Inr x)
     \<and> mx_stoppedAt x = Some 200 \<and> \<not> mx_isActive x"
proof -
  have c: "trim_space ''c'' = ''c''" by (rule trim_space_word) (simp add: is_word_def is_space_def)
  have lv: "live ''c'' (svc_metrics demo_service)" using demo_running by (simp add: running_def live_def)
  obtain s' w' res where st: "StopMetricsSession demo_operator demo_wire 200 200 ''c'' (demo_service, ()) = ((s', w'), res)" by (metis prod.collapse)
  have "gm_getd [] (svc_metrics demo_service) ''c'' \<noteq> []" using lv by (simp add: live_def)
  from stop_shape [OF st c _ this] lv have res: "res = GetMetricsSnapshot ''c'' s'" "gm_getd [] (svc_metrics s') ''c'' \<noteq> []"
    by (auto simp: upd_last_def)
  then obtain x where x: "res = Inr x" by (simp add: GetMetricsSnapshot_def GetSession_def ComputeAllResults_def c Let_def)
  obtain s'' w'' res' where "StopMetricsSession demo_operator demo_wire 300 300 ''c'' (s', w') = ((s'', w''), res')" by (metis prod.collapse)
  from stop_seals_statistics [OF st [unfolded x] c _ lv this] st x show ?thesis by auto
qed

section \<open>What a session counts\<close>

definition put_accepted :: "'w node_operator \<Rightarrow> kv_wire \<Rightarrow> string \<Rightarrow> string \<Rightarrow> string \<Rightarrow> string \<Rightarrow> service \<Rightarrow> 'w \<Rightarrow> bool" where
  "put_accepted nc wire c n k v s w = (case GetNode c n (svc_cluster s) of
     Inl _ \<Rightarrow> False
   | Inr nd \<Rightarrow> (case snd (no_ExecuteAction nc (cn_Address nd) (cn_Port nd) \<lparr>ar_Action = KV_PUT, ar_Payload = kw_put wire k v\<rparr> w) of
       Inl _ \<Rightarrow> False | Inr resp \<Rightarrow> as_Success resp))"

text \<open>The sends traced and the writes accepted for a cluster in one step.\<close>

fun step_rpcs :: "string \<Rightarrow> service_op \<Rightarrow> nat" where
  "step_rpcs c (SLog now (Some r)) = (if lg_ClusterId r = c \<and> contains_str (lg_Message r) ''TRACE:SEND:'' then 1 else 0)"
| "step_rpcs c _ = 0"

fun step_writes :: "'w node_operator \<Rightarrow> kv_wire \<Rightarrow> string \<Rightarrow> service_op \<Rightarrow> service \<times> 'w \<Rightarrow> nat" where
  "step_writes nc wire c (SPut c' n k v) (s, w) = (if c' = c \<and> put_accepted nc wire c' n k v s w then 1 else 0)"
| "step_writes nc wire c _ _ = 0"

primrec run_writes :: "'w node_operator \<Rightarrow> kv_wire \<Rightarrow> string \<Rightarrow> service_op list \<Rightarrow> service \<times> 'w \<Rightarrow> nat" where
  "run_writes nc wire c [] sw = 0"
| "run_writes nc wire c (x # xs) sw = step_writes nc wire c x sw + run_writes nc wire c xs (service_step nc wire x sw)"

fun same_session :: "string \<Rightarrow> service_op \<Rightarrow> bool" where
  "same_session c (SStart _ ci _) = (trim_space ci \<noteq> c)"
| "same_session c (SStartIf _ ci _) = (trim_space ci \<noteq> c)"
| "same_session c (SStop _ _ ci) = (trim_space ci \<noteq> c)"
| "same_session c (SStopIf _ _ ci) = (trim_space ci \<noteq> c)"
| "same_session c _ = True"

text \<open>The counters of a service: totals, and the baseline of one cluster.\<close>

abbreviation counters :: "string \<Rightarrow> service \<Rightarrow> u64 \<times> u64 \<times> (u64 \<times> u64)" where
  "counters c s \<equiv> (gm_getd 0 (svc_totalRPCs s) c, gm_getd 0 (svc_totalWrites s) c, gm_getd (0, 0) (svc_sessionBaselines s) c)"

lemma counters_records: "records_only s s' \<Longrightarrow> counters c s' = counters c s"
  by (auto simp: records_only_def)

lemma counters_manager: "counters c (fst (on_manager f s)) = counters c s"
  by (simp add: on_manager_def split: prod.splits)

lemma counters_Start: "trim_space ci \<noteq> c \<Longrightarrow> counters c (fst (StartMetricsSession now ci iv s)) = counters c s"
  by (simp add: StartMetricsSession_def Let_def split: sum.split prod.split option.split)

lemma counters_Stop:
  assumes "trim_space ci \<noteq> c"
  shows "counters c (fst (fst (StopMetricsSession nc wire t1 t2 ci sw))) = counters c (fst sw)"
proof -
  obtain s w where sw: "sw = (s, w)" by force
  obtain s1 w1 where s1: "sampleAllTrackedKeys nc wire t1 (trim_space ci) (s, w) = (s1, w1)" by force
  show ?thesis using assms sample_fields [OF s1] s1
    by (simp add: sw StopMetricsSession_def Let_def cancel_fields split: prod.split option.split)
qed

lemma counters_recording:
  "counters c (RecordLifecycleEvent now ci n ty d s) = counters c s" "counters c (handleTimelineLog now r s) = counters c s"
  "counters c (fst (AddMetricsWatchKey ci k s)) = counters c s" "counters c (RecordWriteKeyForMetrics ci k s) = counters c s"
  "counters c (fst (sampleAllTrackedKeys nc wire now ci sw)) = counters c (fst sw)"
  by (rule counters_records, rule records_lifecycle records_timeline records_track records_sample)+

lemma counters_log:
  "counters c (BroadcastLog now req s) =
     (gm_getd 0 (svc_totalRPCs s) c + of_nat (step_rpcs c (SLog now req)), snd (counters c s))"
proof (cases req)
  case (Some r)
  let ?s = "s\<lparr>svc_totalRPCs := gm_put (lg_ClusterId r) (gm_getd 0 (svc_totalRPCs s) (lg_ClusterId r) + 1) (svc_totalRPCs s)\<rparr>"
  have send: "counters c (send_listeners req x) = counters c x" for x by (simp add: send_listeners_def)
  show ?thesis unfolding Some BroadcastLog_def Let_def option.case send [unfolded Some]
    using counters_recording(2) [where c = c] by (cases "lg_ClusterId r = c") simp_all
qed (simp add: BroadcastLog_def send_listeners_def)

lemma counters_put:
  "counters c (fst (fst (ExecuteKVPut nc wire ci n k v s w))) =
     (gm_getd 0 (svc_totalRPCs s) c, gm_getd 0 (svc_totalWrites s) c + of_nat (step_writes nc wire c (SPut ci n k v) (s, w)),
      gm_getd (0, 0) (svc_sessionBaselines s) c)"
  by (auto simp: ExecuteKVPut_def put_accepted_def count_write_def Let_def split: sum.splits prod.splits)

lemma counters_fault: "counters c (fst (service_SetFaultParams now ci n f s)) = counters c s"
  using counters_manager [where c = c and f = "manager_SetFaultParams ci n f" and s = s] counters_recording(1) [where c = c]
  by (cases "on_manager (manager_SetFaultParams ci n f) s")
     (simp add: service_SetFaultParams_def Let_def split: option.split sum.split)

lemma counters_step:
  assumes "same_session c x"
  shows "counters c (fst (service_step nc wire x sw)) =
    (gm_getd 0 (svc_totalRPCs (fst sw)) c + of_nat (step_rpcs c x), gm_getd 0 (svc_totalWrites (fst sw)) c + of_nat (step_writes nc wire c x sw),
     gm_getd (0, 0) (svc_sessionBaselines (fst sw)) c)"
proof -
  obtain s w where sw: "sw = (s, w)" by force
  note life = counters_recording(1) [where c = c]
  show ?thesis
  proof (cases x)
    case (SStart now ci iv)
    then show ?thesis using assms counters_Start [where c = c and ci = ci and now = now and iv = iv and s = s] by (simp add: sw)
  next
    case (SStartIf now ci iv)
    then show ?thesis using assms counters_Start [where c = c and ci = ci and now = now and iv = iv and s = s]
      by (cases "StartMetricsSession now ci iv s") (simp add: sw StartMetricsSessionIfInactive_def split: option.split)
  next
    case (SStop t1 t2 ci)
    then show ?thesis using assms counters_Stop [where c = c and ci = ci and sw = "(s, w)"] by (simp add: sw)
  next
    case (SStopIf t1 t2 ci)
    then show ?thesis using assms counters_Stop [where c = c and ci = ci and sw = "(s, w)"] by (simp add: sw StopMetricsSessionIfActive_def)
  next
    case (SSample now ctx)
    then show ?thesis using counters_recording(5) [where c = c and sw = "(s, w)"]
      by (simp add: sw sampler_tick_def split: option.splits)
  next
    case (SPut ci n k v)
    then show ?thesis using counters_put [where c = c and s = s and w = w] by (simp add: sw)
  next
    case (SLog now req)
    then show ?thesis using counters_log [where c = c and s = s] by (simp add: sw)
  next
    case (SCreate now ci p)
    then show ?thesis using counters_manager [where c = c and f = "CreateCluster ci p" and s = s] life
      by (cases "on_manager (CreateCluster ci p) s") (simp add: sw service_CreateCluster_def)
  next
    case (SProtocol ci p)
    then show ?thesis using counters_manager [where c = c and f = "SwapProtocol ci (to_lower (trim_space p))" and s = s]
      by (cases "on_manager (SwapProtocol ci (to_lower (trim_space p))) s") (simp add: sw SetClusterProtocol_def Let_def split: sum.split)
  next
    case (SFault now ci n f)
    then show ?thesis using counters_fault [where c = c and s = s] by (simp add: sw)
  next
    case (SRemoveNode ci n)
    then show ?thesis using counters_manager [where c = c and f = "RemoveNode ci n" and s = s]
      by (cases "on_manager (RemoveNode ci n) s") (simp add: sw service_RemoveNode_def Let_def split: sum.split)
  next
    case (SUnsubscribe ch)
    then show ?thesis by (simp add: sw UnsubscribeLogs_def split: option.split)
  next
    case (SReceive ch)
    then show ?thesis by (simp add: sw receive_log_def split: option.split list.split)
  next
    case (SWatch ci k)
    then show ?thesis using counters_recording(3) [where c = c and s = s] by (simp add: sw)
  next
    case (SWrote ci k)
    then show ?thesis using counters_recording(4) [where c = c and s = s] by (simp add: sw)
  next
    case (SCapabilities r)
    then show ?thesis using counters_manager [where c = c and s = s] by (simp add: sw ReportNodeCapabilities_def Let_def split: prod.split)
  next
    case (SRegister t1 t2 ci n h p)
    then show ?thesis using life by (simp add: sw service_RegisterNode_def Let_def)
  qed (use counters_manager [where c = c and s = s] in \<open>simp_all add: sw SubscribeLogs_def Let_def service_RemoveCluster_def service_Heartbeat_def service_RemoveNodeC_def\<close>)
qed

lemma counters_run:
  assumes "list_all (same_session c) ops"
  shows "counters c (fst (fold (service_step nc wire) ops sw)) =
    (gm_getd 0 (svc_totalRPCs (fst sw)) c + of_nat (sum_list (map (step_rpcs c) ops)),
     gm_getd 0 (svc_totalWrites (fst sw)) c + of_nat (run_writes nc wire c ops sw), gm_getd (0, 0) (svc_sessionBaselines (fst sw)) c)"
  using assms
proof (induction ops arbitrary: sw)
  case (Cons x xs)
  show ?case using Cons.IH [of "service_step nc wire x sw"] counters_step [of c x nc wire sw] Cons.prems
    by (simp add: add.assoc)
qed simp

text \<open>
  The statistics of a session count what happened in it.  From the start of a session on, and for any
  calls that neither start nor stop a session of the cluster, the sends and writes reported for it are
  the number of trace lines of that cluster and of puts its nodes accepted since the start, modulo
  \<open>2^64\<close>.
\<close>

theorem session_counts:
  assumes "StartMetricsSession now c iv s = (s0, None)" "trim_space c = c" "list_all (same_session c) ops"
    and "fold (service_step nc wire) ops (s0, w) = (s1, w1)"
  shows "ss_TotalRPCs (stats_since_baseline c s1) = of_nat (sum_list (map (step_rpcs c) ops))
    \<and> ss_TotalWrites (stats_since_baseline c s1) = of_nat (run_writes nc wire c ops (s0, w))"
proof -
  have "counters c s0 = (gm_getd 0 (svc_totalRPCs s) c, gm_getd 0 (svc_totalWrites s) c,
      (gm_getd 0 (svc_totalRPCs s) c, gm_getd 0 (svc_totalWrites s) c))"
    using assms(1,2) by (auto simp: StartMetricsSession_def Let_def split: sum.splits prod.splits option.splits if_splits)
  then show ?thesis using counters_run [OF assms(3), of nc wire "(s0, w)"] assms(4)
    by (simp add: stats_since_baseline_def Let_def)
qed

theorem session_counts_witness:
  "ss_TotalRPCs (stats_since_baseline ''c'' (fst (fold (service_step demo_operator demo_wire)
     [SLog 0 (Some \<lparr>lg_NodeId = ''n'', lg_ClusterId = ''c'', lg_Level = [], lg_Message = ''TRACE:SEND:x'', lg_Timestamp = 0\<rparr>), SSubscribe]
     (demo_service, ())))) = 1"
proof -
  let ?s = "NewClusterService (fst (CreateCluster ''c'' [] (NewManager [])))"
  let ?ops = "[SLog 0 (Some \<lparr>lg_NodeId = ''n'', lg_ClusterId = ''c'', lg_Level = [], lg_Message = ''TRACE:SEND:x'', lg_Timestamp = 0\<rparr>), SSubscribe]"
  have c: "trim_space ''c'' = ''c''" by (rule trim_space_word) (simp add: is_word_def is_space_def)
  have "snd (StartMetricsSession 100 ''c'' 0 ?s) = None"
    by (simp add: StartMetricsSession_def Let_def c GetCluster_def NewClusterService_def NewManager_def CreateCluster_def
        cluster_protocol_name_def to_lower_def session_Start_def NewSessionManager_def)
  then have st: "StartMetricsSession 100 ''c'' 0 ?s = (demo_service, None)"
    by (metis demo_service_def prod.collapse)
  show ?thesis
    using session_counts [OF st c _ prod.collapse [symmetric], of ?ops demo_operator demo_wire "()"] by (simp add: has_prefix_def)
qed

end
