(* ===== verification/ServiceNodes.thy ===== *)
theory ServiceNodes
  imports ServiceSpec NodeServer
begin

text \<open>
  The service on top of the nodes.  The locale \<open>kv_nodes\<close> is the contract the service's reads and
  writes rely on: a node that is up answers a get with what it stores, and stores what it is asked
  to put.  The gRPC client of the control plane (\<open>internal/controlplane/rpc/node_client.go\<close>)
  calling the handlers and the reactor of modelled nodes keeps this contract, which gives the
  end-to-end behaviour of put, get, sampling and the convergence check.
\<close>

section \<open>The contract\<close>

definition get_request :: "kv_wire \<Rightarrow> string \<Rightarrow> action_request" where
  "get_request wire k = \<lparr>ar_Action = KV_GET, ar_Payload = kw_get wire k\<rparr>"

definition put_request :: "kv_wire \<Rightarrow> string \<Rightarrow> string \<Rightarrow> action_request" where
  "put_request wire k v = \<lparr>ar_Action = KV_PUT, ar_Payload = kw_put wire k v\<rparr>"

text \<open>A reply to a get as the service reads it.\<close>

definition reply_state :: "kv_wire \<Rightarrow> action_response \<Rightarrow> node_state" where
  "reply_state wire resp =
     (if as_Success resp
      then let out = kw_response wire (as_Payload resp)
           in \<lparr>st_Exists = True, st_Value = gr_Value out, st_Version = gr_Version out, st_Origin = gr_Origin out, st_HasMetadata = gr_HasMetadata out\<rparr>
      else zero_state)"

locale kv_nodes =
  fixes exec :: "string \<Rightarrow> int \<Rightarrow> action_request \<Rightarrow> 'w \<Rightarrow> 'w \<times> (string + action_response)"
    and wire :: kv_wire
    and valid :: "string \<Rightarrow> bool"
    and up :: "'w \<Rightarrow> string \<Rightarrow> int \<Rightarrow> bool"
    and stored :: "'w \<Rightarrow> string \<Rightarrow> int \<Rightarrow> string \<Rightarrow> node_state"
  assumes get_answer: "up w h p \<Longrightarrow> valid k \<Longrightarrow>
      \<exists>w' resp. exec h p (get_request wire k) w = (w', Inr resp) \<and> up w' = up w \<and> stored w' = stored w
        \<and> reply_state wire resp = stored w h p k"
    and put_answer: "up w h p \<Longrightarrow> valid k \<Longrightarrow> valid v \<Longrightarrow>
      \<exists>w' resp. exec h p (put_request wire k v) w = (w', Inr resp) \<and> as_Success resp \<and> up w' = up w
        \<and> st_Exists (stored w' h p k) \<and> st_Value (stored w' h p k) = v
        \<and> (\<forall>h' p' k'. (h', p', k') \<noteq> (h, p, k) \<longrightarrow> stored w' h' p' k' = stored w h' p' k')"
begin

definition node_up :: "'w \<Rightarrow> cluster_node \<Rightarrow> bool" where
  "node_up w n \<longleftrightarrow> up w (cn_Address n) (cn_Port n)"

definition holds :: "'w \<Rightarrow> string \<Rightarrow> cluster_node \<Rightarrow> node_state" where
  "holds w k n = stored w (cn_Address n) (cn_Port n) k"

lemma observed_get:
  assumes "no_ExecuteAction nc = exec" "GetNode c i (svc_cluster s) = Inr n" "node_up w n" "valid k"
  shows "\<exists>w' r. ExecuteKVGetObserved nc wire c i k s w = (w', Inr r) \<and> up w' = up w \<and> stored w' = stored w
    \<and> observed_state r = holds w k n"
proof -
  obtain w' resp where a: "exec (cn_Address n) (cn_Port n) (get_request wire k) w = (w', Inr resp)" "up w' = up w" "stored w' = stored w"
      "reply_state wire resp = holds w k n"
    using get_answer [of w "cn_Address n" "cn_Port n" k] assms(3,4) unfolding node_up_def holds_def by blast
  have "\<exists>r. ExecuteKVGetObserved nc wire c i k s w = (w', Inr r) \<and> observed_state r = reply_state wire resp"
    using a(1) assms(1,2)
    by (cases "as_Success resp") (auto simp: ExecuteKVGetObserved_def get_request_def reply_state_def observed_state_def Let_def)
  then show ?thesis using a by auto
qed

lemma put_then_get:
  assumes "no_ExecuteAction nc = exec" "GetNode c i (svc_cluster s) = Inr n" "node_up w n" "valid k" "valid v"
  shows "\<exists>w' w'' r. ExecuteKVPut nc wire c i k v s w = ((count_write c k s, w'), None)
    \<and> ExecuteKVGet nc wire c i k (count_write c k s) w' = (w'', Inr r) \<and> kr_Value r = v \<and> node_up w'' n"
proof -
  obtain w' resp where put: "exec (cn_Address n) (cn_Port n) (put_request wire k v) w = (w', Inr resp)" "as_Success resp" "up w' = up w"
      "st_Exists (holds w' k n)" "st_Value (holds w' k n) = v"
    using put_answer [of w "cn_Address n" "cn_Port n" k v] assms(3-5) by (auto simp: node_up_def holds_def)
  have up: "node_up w' n" using assms(3) put(3) by (simp add: node_up_def)
  have "svc_cluster (count_write c k s) = svc_cluster s" by (simp add: count_write_def Let_def)
  then have "GetNode c i (svc_cluster (count_write c k s)) = Inr n" using assms(2) by simp
  from observed_get [OF assms(1) this up assms(4)] obtain w'' res found where
    get: "ExecuteKVGetObserved nc wire c i k (count_write c k s) w' = (w'', Inr (res, found))" "up w'' = up w'"
      "observed_state (res, found) = holds w' k n" by auto
  have "found" using get(3) put(4) by (auto simp: observed_state_def zero_state_def split: if_splits)
  then have "ExecuteKVGet nc wire c i k (count_write c k s) w' = (w'', Inr res)" "kr_Value res = v"
    using get(1) put(5) arg_cong [OF get(3), of st_Value] by (simp_all add: ExecuteKVGet_def observed_state_def)
  moreover have "ExecuteKVPut nc wire c i k v s w = ((count_write c k s, w'), None)"
    using put assms(1,2) by (simp add: ExecuteKVPut_def put_request_def)
  ultimately show ?thesis using get(2) up by (auto simp: node_up_def)
qed

text \<open>A list of nodes of the cluster, as the service gets it, all of them up.\<close>

definition reachable_nodes :: "string \<Rightarrow> service \<Rightarrow> 'w \<Rightarrow> cluster_node list \<Rightarrow> bool" where
  "reachable_nodes c s w ns \<longleftrightarrow> (\<forall>n \<in> set ns. GetNode c (cn_ID n) (svc_cluster s) = Inr n \<and> node_up w n)"

lemma reachable_same: "up w' = up w \<Longrightarrow> reachable_nodes c s w' ns = reachable_nodes c s w ns"
  by (simp add: reachable_nodes_def node_up_def)

lemma check_nodes_spec:
  assumes "no_ExecuteAction nc = exec" "reachable_nodes c s w ns" "valid k"
  shows "\<exists>w'. check_nodes nc wire s c k ns first w = (w', Inr (case first of
       None \<Rightarrow> ns = [] \<or> (st_Exists (holds w k (hd ns)) \<and> (\<forall>n \<in> set ns. holds w k n = holds w k (hd ns)))
     | Some f \<Rightarrow> \<forall>n \<in> set ns. holds w k n = f)) \<and> up w' = up w \<and> stored w' = stored w"
  using assms(2)
proof (induction ns arbitrary: first w)
  case (Cons n ns)
  have n: "GetNode c (cn_ID n) (svc_cluster s) = Inr n" "node_up w n" using Cons.prems by (simp_all add: reachable_nodes_def)
  obtain w1 r where get: "ExecuteKVGetObserved nc wire c (cn_ID n) k s w = (w1, Inr r)" "up w1 = up w" "stored w1 = stored w"
      "observed_state r = holds w k n"
    using observed_get [OF assms(1) n assms(3)] by blast
  have "reachable_nodes c s w1 ns" using Cons.prems get(2) by (simp add: reachable_nodes_def node_up_def)
  note IH = Cons.IH [OF this]
  have h: "holds w1 = holds w" using get(3) by (simp add: holds_def fun_eq_iff)
  show ?case using IH [of "Some (holds w k n)"] get h by (cases first) (auto simp: Let_def)
qed (simp split: option.split)

lemma check_keys_spec:
  assumes "no_ExecuteAction nc = exec" "reachable_nodes c s w ns" "\<forall>k \<in> set ks. valid k" "ns \<noteq> []"
  shows "\<exists>w'. check_keys nc wire s c ns ks w = (w', Inr (\<forall>k \<in> set ks. \<exists>st. st_Exists st \<and> (\<forall>n \<in> set ns. holds w k n = st)))
    \<and> up w' = up w \<and> stored w' = stored w"
  using assms(2,3)
proof (induction ks arbitrary: w)
  case (Cons k ks)
  let ?agree = "\<lambda>k. \<exists>st. st_Exists st \<and> (\<forall>n \<in> set ns. holds w k n = st)"
  have one: "?agree k \<longleftrightarrow> st_Exists (holds w k (hd ns)) \<and> (\<forall>n \<in> set ns. holds w k n = holds w k (hd ns))" for k
    using assms(4) by (metis list.set_sel(1))
  have "valid k" using Cons.prems(2) by simp
  from check_nodes_spec [OF assms(1) Cons.prems(1) this, of None]
  obtain w1 where c1: "check_nodes nc wire s c k ns None w = (w1, Inr (?agree k))" "up w1 = up w" "stored w1 = stored w"
    unfolding one using assms(4) by (simp only: option.case simp_thms) blast
  have h: "holds w1 = holds w" using c1(3) by (simp add: holds_def fun_eq_iff)
  have "reachable_nodes c s w1 ns" using Cons.prems(1) reachable_same [OF c1(2)] by simp
  moreover have "\<forall>k \<in> set ks. valid k" using Cons.prems(2) by simp
  ultimately obtain w2 where
    c2: "check_keys nc wire s c ns ks w1 = (w2, Inr (\<forall>k \<in> set ks. ?agree k))" "up w2 = up w" "stored w2 = stored w"
    using Cons.IH [of w1] unfolding h c1(2,3) by blast
  show ?case
  proof (cases "?agree k")
    case True
    have "check_keys nc wire s c ns (k # ks) w = (w2, Inr (\<forall>k \<in> set (k # ks). ?agree k))" using True c1(1) c2(1) by simp
    then show ?thesis using c2 by blast
  next
    case False
    have no: "?agree k = False" "(\<forall>k \<in> set (k # ks). ?agree k) = False" using False by auto
    have "check_nodes nc wire s c k ns None w = (w1, Inr False)" using c1(1) unfolding no(1) .
    then have "check_keys nc wire s c ns (k # ks) w = (w1, Inr False)" by simp
    then show ?thesis unfolding no(2) using c1 by blast
  qed
qed simp

lemma converged_iff:
  assumes "no_ExecuteAction nc = exec" "GetSession c (svc_metrics s) = Inr session" "GetNodes c (svc_cluster s) = Inr ns"
    and "reachable_nodes c s w ns" "\<forall>k \<in> set (sv_TrackedKeys session). valid k"
  shows "\<exists>w'. IsClusterConverged nc wire c s w = (w', Inr (sv_TrackedKeys session = [] \<or>
    ns \<noteq> [] \<and> (\<forall>k \<in> set (sv_TrackedKeys session). \<exists>st. st_Exists st \<and> (\<forall>n \<in> set ns. holds w k n = st))))"
proof (cases "ns = [] \<or> sv_TrackedKeys session = []")
  case False
  then show ?thesis using check_keys_spec [OF assms(1,4,5)] assms(2,3) by (auto simp: IsClusterConverged_def)
qed (use assms in \<open>auto simp: IsClusterConverged_def\<close>)

lemma sample_nodes_spec:
  assumes "no_ExecuteAction nc = exec" "reachable_nodes c s w ns" "valid k"
  shows "\<exists>w'. sample_nodes nc wire s c k ns st w = (w', Some (fold (\<lambda>n. gm_put (cn_ID n) (holds w k n)) ns st))
    \<and> up w' = up w \<and> stored w' = stored w"
  using assms(2)
proof (induction ns arbitrary: w st)
  case (Cons n ns)
  have n: "GetNode c (cn_ID n) (svc_cluster s) = Inr n" "node_up w n" using Cons.prems by (simp_all add: reachable_nodes_def)
  obtain w1 r where get: "ExecuteKVGetObserved nc wire c (cn_ID n) k s w = (w1, Inr r)" "up w1 = up w" "stored w1 = stored w"
      "observed_state r = holds w k n"
    using observed_get [OF assms(1) n assms(3)] by blast
  have "reachable_nodes c s w1 ns" using Cons.prems get(2) by (simp add: reachable_nodes_def node_up_def)
  moreover have "holds w1 = holds w" using get(3) by (simp add: holds_def fun_eq_iff)
  ultimately show ?case using Cons.IH [of w1 "gm_put (cn_ID n) (holds w k n) st"] get by simp
qed simp

end

section \<open>The client and the nodes\<close>

text \<open>
  The nodes by the address they listen on.  Call number \<open>i\<close> gets through or not (\<open>ci_reach\<close>), and
  \<open>ci_reactor\<close> is what its reactor sees of the outside.
\<close>

record call_input =
  ci_reach :: bool
  ci_reactor :: reactor_input

record node_world =
  nw_nodes :: "(string \<times> int, runtime) gomap"
  nw_calls :: nat

text \<open>The reactor works off the queue; the output of the last event is the reply of the last request.\<close>

fun drain :: "reactor_input \<Rightarrow> runtime_event list \<Rightarrow> runtime \<Rightarrow> reactor_output \<Rightarrow> (runtime \<times> reactor_output) option" where
  "drain inp [] r out = Some (r, out)"
| "drain inp (ev # evs) r out = (case reactor_step inp ev r of None \<Rightarrow> None | Some (r', out') \<Rightarrow> drain inp evs r' out')"

definition settle :: "reactor_input \<Rightarrow> runtime \<Rightarrow> (runtime \<times> reactor_output) option" where
  "settle inp r = drain inp (r_events r) (r\<lparr>r_events := []\<rparr>) quiet_output"

definition counted :: "node_world \<Rightarrow> node_world" where
  "counted w = w\<lparr>nw_calls := nw_calls w + 1\<rparr>"

definition set_runtime :: "string \<Rightarrow> int \<Rightarrow> runtime \<Rightarrow> node_world \<Rightarrow> node_world" where
  "set_runtime h p r w = w\<lparr>nw_nodes := gm_put (h, p) r (nw_nodes w)\<rparr>"

text \<open>The node a call reaches, if any.\<close>

definition dialled :: "(nat \<Rightarrow> call_input) \<Rightarrow> string \<Rightarrow> int \<Rightarrow> node_world \<Rightarrow> runtime option" where
  "dialled inps h p w = (if ci_reach (inps (nw_calls w)) then map_of (nw_nodes w) (h, p) else None)"

definition client_StopNode :: "(nat \<Rightarrow> call_input) \<Rightarrow> string \<Rightarrow> int \<Rightarrow> node_world \<Rightarrow> node_world \<times> string option" where
  "client_StopNode inps h p w = (case dialled inps h p w of
     None \<Rightarrow> (counted w, Some ''StopNode RPC failed: unavailable'')
   | Some r \<Rightarrow> (set_runtime h p (server_StopNode r) (counted w), None))"

definition client_Ping :: "(nat \<Rightarrow> call_input) \<Rightarrow> string \<Rightarrow> int \<Rightarrow> node_world \<Rightarrow> node_world \<times> string option" where
  "client_Ping inps h p w = (case dialled inps h p w of
     None \<Rightarrow> (counted w, Some ''unavailable'')
   | Some r \<Rightarrow> (counted w, case server_Ping r of Inl e \<Rightarrow> Some e | Inr _ \<Rightarrow> None))"

text \<open>A node whose reactor panics is gone.\<close>

definition client_ExecuteAction :: "(nat \<Rightarrow> call_input) \<Rightarrow> string \<Rightarrow> int \<Rightarrow> action_request \<Rightarrow> node_world \<Rightarrow> node_world \<times> (string + action_response)" where
  "client_ExecuteAction inps h p req w = (case dialled inps h p w of
     None \<Rightarrow> (counted w, Inl ''unavailable'')
   | Some r \<Rightarrow> (case server_ExecuteAction (Some req) r of
       (r', Inl e) \<Rightarrow> (set_runtime h p r' (counted w), Inl e)
     | (r', Inr (Some resp)) \<Rightarrow> (set_runtime h p r' (counted w), Inr resp)
     | (r', Inr None) \<Rightarrow> (case settle (ci_reactor (inps (nw_calls w))) r' of
         None \<Rightarrow> ((counted w)\<lparr>nw_nodes := gm_del (h, p) (nw_nodes w)\<rparr>, Inl ''unavailable'')
       | Some (r'', out) \<Rightarrow> (set_runtime h p r'' (counted w),
           case out_response out of Some resp \<Rightarrow> Inr resp | None \<Rightarrow> Inl ''unavailable''))))"

definition client_SwapProtocol ::
  "(nat \<Rightarrow> call_input) \<Rightarrow> string \<Rightarrow> int \<Rightarrow> string \<Rightarrow> string \<Rightarrow> string \<Rightarrow> u64 \<Rightarrow> node_world \<Rightarrow> node_world \<times> string option" where
  "client_SwapProtocol inps h p clusterID nodeID protocolKey epoch w = (case dialled inps h p w of
     None \<Rightarrow> (counted w, Some ''ChangeProtocol RPC failed: unavailable'')
   | Some r \<Rightarrow>
       let answer = (case settle (ci_reactor (inps (nw_calls w))) (SendProtocolSwapEvent protocolKey r) of
             None \<Rightarrow> None | Some (r', out) \<Rightarrow> Some (r', out_swap out))
       in case server_ChangeProtocol (Some (Some protocolKey)) (case answer of Some (_, Some e) \<Rightarrow> e | _ \<Rightarrow> None) r of
            (_, Inl e) \<Rightarrow> (counted w, Some (''ChangeProtocol RPC failed: '' @ e))
          | (r', Inr reply) \<Rightarrow>
              if r_events r' = r_events r then (counted w, if cr_Done reply then None else Some (''ChangeProtocol rejected: '' @ cr_Message reply))
              else (case answer of
                None \<Rightarrow> ((counted w)\<lparr>nw_nodes := gm_del (h, p) (nw_nodes w)\<rparr>, Some ''ChangeProtocol RPC failed: unavailable'')
              | Some (r'', _) \<Rightarrow> (set_runtime h p r'' (counted w),
                  if cr_Done reply then None else Some (''ChangeProtocol rejected: '' @ cr_Message reply))))"

definition node_client :: "(nat \<Rightarrow> call_input) \<Rightarrow> node_world node_operator" where
  "node_client inps = \<lparr>no_StopNode = client_StopNode inps, no_Ping = client_Ping inps,
     no_ExecuteAction = client_ExecuteAction inps, no_SwapProtocol = client_SwapProtocol inps\<rparr>"

section \<open>The client keeps the contract\<close>

text \<open>What the protobuf library is relied on for: on well-formed texts both sides agree.\<close>

definition codec_ok :: "(nat \<Rightarrow> call_input) \<Rightarrow> kv_wire \<Rightarrow> (string \<Rightarrow> bool) \<Rightarrow> bool" where
  "codec_ok inps wire valid \<longleftrightarrow> (\<forall>i.
     (\<forall>k v. valid k \<longrightarrow> valid v \<longrightarrow> pb_unmarshal_put (in_pb (ci_reactor (inps i))) (kw_put wire k v) = Some (k, v))
   \<and> (\<forall>k. valid k \<longrightarrow> pb_unmarshal_get (in_pb (ci_reactor (inps i))) (kw_get wire k) = Some k)
   \<and> (\<forall>resp. valid (gr_Value resp) \<longrightarrow> valid (gr_Origin resp) \<longrightarrow> i64_min \<le> gr_Version resp \<longrightarrow> gr_Version resp \<le> i64_max \<longrightarrow>
        (\<exists>b. pb_marshal_get_response (in_pb (ci_reactor (inps i))) resp = Some b \<and> kw_response wire b = resp)))"

text \<open>What a gossip store shows of a key.\<close>

definition store_view :: "gossip \<Rightarrow> string \<Rightarrow> node_state" where
  "store_view g k = (case map_of (g_store g) k of
     None \<Rightarrow> zero_state
   | Some v \<Rightarrow>
       if v_Version v > 0 \<or> v_Origin v \<noteq> []
       then \<lparr>st_Exists = True, st_Value = v_Data v, st_Version = v_Version v, st_Origin = v_Origin v, st_HasMetadata = True\<rparr>
       else \<lparr>st_Exists = True, st_Value = v_Data v, st_Version = 0, st_Origin = [], st_HasMetadata = False\<rparr>)"

definition valid_store :: "(string \<Rightarrow> bool) \<Rightarrow> gossip \<Rightarrow> bool" where
  "valid_store valid g \<longleftrightarrow> valid [] \<and> valid (g_nodeID g)
     \<and> (\<forall>k v. map_of (g_store g) k = Some v \<longrightarrow> valid (v_Data v) \<and> valid (v_Origin v) \<and> i64_min \<le> v_Version v \<and> v_Version v \<le> i64_max)"

text \<open>A node that serves: reachable, not crashed, running gossip, its queue worked off.\<close>

definition serving :: "(string \<Rightarrow> bool) \<Rightarrow> runtime option \<Rightarrow> bool" where
  "serving valid r = (case r of None \<Rightarrow> False | Some r \<Rightarrow> \<not> engine_down (r_fault r) \<and> r_events r = []
     \<and> (case r_proto r of Some (PGossip g) \<Rightarrow> valid_store valid g | _ \<Rightarrow> False))"

definition world_up :: "(nat \<Rightarrow> call_input) \<Rightarrow> (string \<Rightarrow> bool) \<Rightarrow> node_world \<Rightarrow> string \<Rightarrow> int \<Rightarrow> bool" where
  "world_up inps valid w h p \<longleftrightarrow> (\<forall>i \<ge> nw_calls w. ci_reach (inps i)) \<and> serving valid (map_of (nw_nodes w) (h, p))"

definition world_stored :: "node_world \<Rightarrow> string \<Rightarrow> int \<Rightarrow> string \<Rightarrow> node_state" where
  "world_stored w h p k = (case map_of (nw_nodes w) (h, p) of
     Some r \<Rightarrow> (case r_proto r of Some (PGossip g) \<Rightarrow> store_view g k | _ \<Rightarrow> zero_state) | None \<Rightarrow> zero_state)"

lemma settle_action:
  "r_events r = [] \<Longrightarrow> settle inp (r\<lparr>r_events := [EventAction (Some req)]\<rparr>) =
     (case handleActionEvent (in_pb inp) (in_clock inp) (Some req) r of
        (r', resp, evs) \<Rightarrow> Some (r', quiet_output\<lparr>out_response := Some resp, out_log := evs\<rparr>))"
proof -
  assume "r_events r = []"
  then have "r\<lparr>r_events := []\<rparr> = r" by (cases r) simp
  then show ?thesis by (simp add: settle_def reactor_step_def split: prod.split)
qed

lemma execute_serving:
  assumes "dialled inps h p w = Some r" "\<not> engine_down (r_fault r)" "r_events r = []"
    and "handleActionEvent (in_pb (ci_reactor (inps (nw_calls w)))) (in_clock (ci_reactor (inps (nw_calls w)))) (Some req) r = (r', resp, evs)"
  shows "client_ExecuteAction inps h p req w = (set_runtime h p r' (counted w), Inr resp)"
  using assms settle_action [OF assms(3), of "ci_reactor (inps (nw_calls w))" req]
  by (simp add: client_ExecuteAction_def server_ExecuteAction_def runtime_tick_gate ExecuteAction_def)

lemma world_put:
  assumes "world_up inps valid w h p" "serving valid (Some r')"
  shows "world_up inps valid (set_runtime h p r' (counted w)) = world_up inps valid w"
    and "world_stored (set_runtime h p r' (counted w)) h' p' k =
      (if (h', p') = (h, p) then (case r_proto r' of Some (PGossip g) \<Rightarrow> store_view g k | _ \<Rightarrow> zero_state) else world_stored w h' p' k)"
proof -
  have "(\<forall>i \<ge> nw_calls w + 1. ci_reach (inps i)) = (\<forall>i \<ge> nw_calls w. ci_reach (inps i))"
    using assms(1) unfolding world_up_def by (metis add_leD1)
  then show "world_up inps valid (set_runtime h p r' (counted w)) = world_up inps valid w"
    using assms by (auto simp: world_up_def set_runtime_def counted_def fun_eq_iff)
qed (simp add: world_stored_def set_runtime_def counted_def)

lemma serving_node:
  assumes "world_up inps valid w h p"
  obtains r g where "dialled inps h p w = Some r" "\<not> engine_down (r_fault r)" "r_events r = []" "r_proto r = Some (PGossip g)"
    "valid_store valid g" "world_stored w h p = store_view g" "map_of (nw_nodes w) (h, p) = Some r"
proof -
  have "ci_reach (inps (nw_calls w))" using assms by (simp add: world_up_def)
  then show thesis using assms that
    by (auto simp: world_up_def serving_def dialled_def world_stored_def fun_eq_iff split: option.splits proto.splits)
qed

lemma codec_response:
  assumes "codec_ok inps wire valid" "valid (gr_Value resp)" "valid (gr_Origin resp)" "i64_min \<le> gr_Version resp" "gr_Version resp \<le> i64_max"
  shows "\<exists>b. pb_marshal_get_response (in_pb (ci_reactor (inps i))) resp = Some b \<and> kw_response wire b = resp"
  using assms unfolding codec_ok_def by blast

lemma handle_get:
  assumes "codec_ok inps wire valid" "valid k" "r_proto r = Some (PGossip g)" "valid_store valid g"
  shows "\<exists>resp. handleActionEvent (in_pb (ci_reactor (inps i))) clock (Some (get_request wire k)) r = (r, resp, [])
    \<and> reply_state wire resp = store_view g k"
proof -
  let ?pb = "in_pb (ci_reactor (inps i))"
  have k: "pb_unmarshal_get ?pb (kw_get wire k) = Some k" using assms(1,2) by (simp add: codec_ok_def)
  show ?thesis
  proof (cases "map_of (g_store g) k")
    case None
    then show ?thesis using k assms(3)
      by (simp add: handleActionEvent_def get_request_def GetActionWithMetadata_def gossip_GetWithMetadata_def fail_def reply_state_def store_view_def)
  next
    case (Some v)
    define resp where "resp = (if v_Version v > 0 \<or> v_Origin v \<noteq> []
      then \<lparr>gr_Value = v_Data v, gr_Version = v_Version v, gr_Origin = v_Origin v, gr_HasMetadata = True\<rparr>
      else \<lparr>gr_Value = v_Data v, gr_Version = 0, gr_Origin = [], gr_HasMetadata = False\<rparr>)"
    have "valid (gr_Value resp)" "valid (gr_Origin resp)" "i64_min \<le> gr_Version resp" "gr_Version resp \<le> i64_max"
      using assms(4) Some by (auto simp: resp_def valid_store_def i64_min_def i64_max_def)
    then obtain b where b: "pb_marshal_get_response ?pb resp = Some b" "kw_response wire b = resp"
      using codec_response [OF assms(1)] by blast
    have "handleActionEvent ?pb clock (Some (get_request wire k)) r = (r, success b, [])"
      using k assms(3) Some b(1)
      by (cases "v_Version v > 0 \<or> v_Origin v \<noteq> []")
         (simp_all add: handleActionEvent_def get_request_def GetActionWithMetadata_def gossip_GetWithMetadata_def resp_def)
    moreover have "reply_state wire (success b) = store_view g k"
      using b(2) Some by (simp add: resp_def reply_state_def success_def store_view_def)
    ultimately show ?thesis by blast
  qed
qed

lemma handle_put:
  assumes "codec_ok inps wire valid" "valid k" "valid v" "r_proto r = Some (PGossip g)" "valid_store valid g"
  shows "\<exists>g' evs. handleActionEvent (in_pb (ci_reactor (inps i))) clock (Some (put_request wire k v)) r = (r\<lparr>r_proto := Some (PGossip g')\<rparr>, success [], evs)
    \<and> valid_store valid g' \<and> st_Exists (store_view g' k) \<and> st_Value (store_view g' k) = v
    \<and> (\<forall>k'. k' \<noteq> k \<longrightarrow> store_view g' k' = store_view g k')"
proof -
  obtain g' evs where p: "gossip_Put clock k v g = (g', evs)" by force
  have st: "map_of (g_store g') = (map_of (g_store g))(k \<mapsto> put_value (clock 0) k v g)" using Put_store [of clock k v g] p by simp
  have node: "g_nodeID g' = g_nodeID g" using p by (auto simp: gossip_Put_def Let_def)
  have "i64_min \<le> v_Version (put_value (clock 0) k v g)" "v_Version (put_value (clock 0) k v g) \<le> i64_max"
    using wrap64_range by (auto simp: put_value_fields i64_min_def i64_max_def split: option.split)
  then have "valid_store valid g'" using assms(3,5) by (auto simp: valid_store_def st node put_value_fields(1,2))
  moreover have "handleActionEvent (in_pb (ci_reactor (inps i))) clock (Some (put_request wire k v)) r = (r\<lparr>r_proto := Some (PGossip g')\<rparr>, success [], evs)"
    using assms(1-4) p by (simp add: handleActionEvent_def put_request_def PutAction_def codec_ok_def)
  moreover have "st_Exists (store_view g' k)" "st_Value (store_view g' k) = v" "\<forall>k'. k' \<noteq> k \<longrightarrow> store_view g' k' = store_view g k'"
    by (simp_all add: store_view_def st put_value_fields(1))
  ultimately show ?thesis by blast
qed

lemma client_contract:
  assumes "codec_ok inps wire valid"
  shows "kv_nodes (client_ExecuteAction inps) wire valid (world_up inps valid) world_stored"
proof
  fix w h p k
  assume up: "world_up inps valid w h p" and k: "valid k"
  obtain r g where n: "dialled inps h p w = Some r" "\<not> engine_down (r_fault r)" "r_events r = []" "r_proto r = Some (PGossip g)"
    "valid_store valid g" "world_stored w h p = store_view g" "map_of (nw_nodes w) (h, p) = Some r" by (rule serving_node [OF up])
  have s: "serving valid (Some r)" using n by (simp add: serving_def)
  show "\<exists>w' resp. client_ExecuteAction inps h p (get_request wire k) w = (w', Inr resp) \<and> world_up inps valid w' = world_up inps valid w
      \<and> world_stored w' = world_stored w \<and> reply_state wire resp = world_stored w h p k"
  proof -
    obtain resp where get: "handleActionEvent (in_pb (ci_reactor (inps (nw_calls w)))) (in_clock (ci_reactor (inps (nw_calls w)))) (Some (get_request wire k)) r = (r, resp, [])"
        "reply_state wire resp = store_view g k" using handle_get [OF assms k n(4,5)] by blast
    let ?w = "set_runtime h p r (counted w)"
    have "world_stored ?w h' p' k' = world_stored w h' p' k'" for h' p' k' using world_put(2) [OF up s, of h' p' k'] n by auto
    then have "world_stored ?w = world_stored w" by (simp add: fun_eq_iff)
    then show ?thesis using execute_serving [OF n(1-3) get(1)] world_put(1) [OF up s] get(2) n(6) by auto
  qed
  fix v
  assume v: "valid v"
  show "\<exists>w' resp. client_ExecuteAction inps h p (put_request wire k v) w = (w', Inr resp) \<and> as_Success resp \<and> world_up inps valid w' = world_up inps valid w
      \<and> st_Exists (world_stored w' h p k) \<and> st_Value (world_stored w' h p k) = v
      \<and> (\<forall>h' p' k'. (h', p', k') \<noteq> (h, p, k) \<longrightarrow> world_stored w' h' p' k' = world_stored w h' p' k')"
  proof -
    obtain g' evs where put: "handleActionEvent (in_pb (ci_reactor (inps (nw_calls w)))) (in_clock (ci_reactor (inps (nw_calls w)))) (Some (put_request wire k v)) r
        = (r\<lparr>r_proto := Some (PGossip g')\<rparr>, success [], evs)" "valid_store valid g'" "st_Exists (store_view g' k)" "st_Value (store_view g' k) = v"
        "\<forall>k'. k' \<noteq> k \<longrightarrow> store_view g' k' = store_view g k'"
      using handle_put [OF assms k v n(4,5)] by blast
    let ?r = "r\<lparr>r_proto := Some (PGossip g')\<rparr>"
    have s': "serving valid (Some ?r)" using n put(2) by (simp add: serving_def)
    note wp = world_put [OF up s']
    have "world_stored (set_runtime h p ?r (counted w)) h' p' k' = world_stored w h' p' k'" if "(h', p', k') \<noteq> (h, p, k)" for h' p' k'
      using that wp(2) [of h' p' k'] put(5) n(6) by (cases "(h', p') = (h, p)") auto
    then show ?thesis using execute_serving [OF n(1-3) put(1)] wp(1) wp(2) [of h p k] put(3,4) by (auto simp: success_def)
  qed
qed

locale node_calls =
  fixes inps :: "nat \<Rightarrow> call_input" and wire :: kv_wire and valid :: "string \<Rightarrow> bool"
  assumes codec: "codec_ok inps wire valid"

sublocale node_calls \<subseteq> kv_nodes "client_ExecuteAction inps" wire valid "world_up inps valid" world_stored
  by (rule client_contract [OF codec])

section \<open>A codec for the witnesses\<close>

definition kv_text :: "string \<Rightarrow> bool" where
  "kv_text t \<longleftrightarrow> CHR ''='' \<notin> set t \<and> CHR ''|'' \<notin> set t"

definition plain_wire :: kv_wire where
  "plain_wire = \<lparr>kw_put = (\<lambda>k v. k @ CHR ''='' # v), kw_get = (\<lambda>k. k),
     kw_response = (\<lambda>b. case split_on CHR ''|'' b of
       [v, ver, orig, meta] \<Rightarrow> \<lparr>gr_Value = v, gr_Version = fst (parse_int ver), gr_Origin = orig, gr_HasMetadata = (meta = ''true'')\<rparr>
     | _ \<Rightarrow> \<lparr>gr_Value = [], gr_Version = 0, gr_Origin = [], gr_HasMetadata = False\<rparr>)\<rparr>"

definition plain_inputs :: "nat \<Rightarrow> call_input" where
  "plain_inputs i = \<lparr>ci_reach = True, ci_reactor = demo_input\<lparr>in_pb := \<lparr>pb_unmarshal_put = cut_at CHR ''='', pb_unmarshal_get = Some,
     pb_marshal_get_response = (\<lambda>r. Some (join_with [CHR ''|''] [gr_Value r, show_int (gr_Version r), gr_Origin r, show_bool (gr_HasMetadata r)]))\<rparr>\<rparr>\<rparr>"

interpretation plain_nodes: node_calls plain_inputs plain_wire kv_text
proof
  have "kw_response plain_wire (join_with [CHR ''|''] [gr_Value r, show_int (gr_Version r), gr_Origin r, show_bool (gr_HasMetadata r)]) = r"
    if "kv_text (gr_Value r)" "kv_text (gr_Origin r)" "i64_min \<le> gr_Version r" "gr_Version r \<le> i64_max" for r
  proof -
    let ?xs = "[gr_Value r, show_int (gr_Version r), gr_Origin r, show_bool (gr_HasMetadata r)]"
    have "split_on CHR ''|'' (join_with [CHR ''|''] ?xs) = ?xs"
      using that by (intro split_join) (auto simp: kv_text_def show_int_notin show_bool_def)
    then show ?thesis using that by (cases "gr_HasMetadata r") (simp_all add: plain_wire_def parse_int_show show_bool_def)
  qed
  moreover have "kw_put plain_wire = (\<lambda>k v. k @ CHR ''='' # v)" "kw_get plain_wire = (\<lambda>k. k)" by (simp_all add: plain_wire_def)
  moreover have "in_pb (ci_reactor (plain_inputs i)) = \<lparr>pb_unmarshal_put = cut_at CHR ''='', pb_unmarshal_get = Some,
     pb_marshal_get_response = (\<lambda>r. Some (join_with [CHR ''|''] [gr_Value r, show_int (gr_Version r), gr_Origin r, show_bool (gr_HasMetadata r)]))\<rparr>" for i
    by (simp add: plain_inputs_def)
  ultimately show "codec_ok plain_inputs plain_wire kv_text" unfolding codec_ok_def by (simp add: kv_text_def del: join_with.simps)
qed

definition plain_world :: node_world where
  "plain_world = \<lparr>nw_nodes = [((''h1'', 8001), demo_runtime)], nw_calls = 0\<rparr>"

lemma plain_world_up: "world_up plain_inputs kv_text plain_world ''h1'' 8001"
proof -
  have "r_events demo_runtime = []"
    by (simp add: demo_runtime_def applyProtocolSwap_def Load_factories runtime_New_def Let_def)
  moreover have "valid_store kv_text (gossip_Start ''n1'' (gossip_SetLogger (gossip_SetPeerDiscoveryCallback (gossip_SetPeers [''n2'', ''n3''] NewGossipProtocol))))"
    by (simp add: valid_store_def gossip_Start_def gossip_SetLogger_def gossip_SetPeerDiscoveryCallback_def gossip_SetPeers_def NewGossipProtocol_def kv_text_def Let_def)
  ultimately show ?thesis
    by (simp add: world_up_def serving_def plain_world_def plain_inputs_def demo_runtime_simps engine_down_def NewEngine_def IsCrashed_def)
qed

definition plain_service :: service where
  "plain_service = demo_service\<lparr>svc_cluster := fst (RegisterNode 0 ''c'' ''n1'' ''h1'' 8001 (svc_cluster demo_service))\<rparr>"

lemma plain_node: "GetNode ''c'' ''n1'' (svc_cluster plain_service) = Inr (fresh_node ''n1'' ''h1'' 8001 0)"
  by (simp add: plain_service_def GetNode_nodes_of RegisterNode_nodes)

section \<open>End to end\<close>

text \<open>
  C11: A value put through the control plane reads back through it.  If a registered node is reachable,
  not crashed and runs gossip, putting a key on it succeeds and is counted, and getting the key from it
  next returns the value that was put.
\<close>

theorem control_put_get:
  assumes "codec_ok inps wire valid" "GetNode c i (svc_cluster s) = Inr n" "world_up inps valid w (cn_Address n) (cn_Port n)"
    and "valid k" "valid v"
  shows "\<exists>w' w'' r. ExecuteKVPut (node_client inps) wire c i k v s w = ((count_write c k s, w'), None)
    \<and> ExecuteKVGet (node_client inps) wire c i k (count_write c k s) w' = (w'', Inr r) \<and> kr_Value r = v"
proof -
  note kv = client_contract [OF assms(1)]
  show ?thesis
    using kv_nodes.put_then_get [OF kv _ assms(2) _ assms(4,5), of "node_client inps" w] assms(3)
    by (auto simp: kv_nodes.node_up_def [OF kv] node_client_def)
qed

theorem control_put_get_witness:
  "\<exists>w' w'' r. ExecuteKVPut (node_client plain_inputs) plain_wire ''c'' ''n1'' ''k'' ''v'' plain_service plain_world
       = ((count_write ''c'' ''k'' plain_service, w'), None)
     \<and> ExecuteKVGet (node_client plain_inputs) plain_wire ''c'' ''n1'' ''k'' (count_write ''c'' ''k'' plain_service) w' = (w'', Inr r)
     \<and> kr_Value r = ''v''"
  using plain_world_up by (intro control_put_get [OF plain_nodes.codec plain_node]) (simp_all add: fresh_node_def kv_text_def)

lemma cluster_reachable:
  assumes "codec_ok inps wire valid" "service_ok s" "GetNodes c (svc_cluster s) = Inr ns"
    and "\<forall>n \<in> set ns. world_up inps valid w (cn_Address n) (cn_Port n)"
  shows "kv_nodes.reachable_nodes (world_up inps valid) c s w ns"
proof -
  note kv = client_contract [OF assms(1)]
  have ok: "manager_ok (svc_cluster s)" using assms(2) by (simp add: service_ok_def)
  have ns: "ns = map snd (nodes_of c (svc_cluster s))"
    using assms(3) by (auto simp: GetNodes_def nodes_of_def split: option.splits)
  have "GetNode c (cn_ID n) (svc_cluster s) = Inr n" if "n \<in> set ns" for n
  proof -
    have "\<exists>j. map_of (nodes_of c (svc_cluster s)) j = Some n"
      using that gm_values [OF nodes_of_ok(1) [OF ok, of c], of n] unfolding ns by (rule iffD1 [rotated])
    then obtain j where j: "map_of (nodes_of c (svc_cluster s)) j = Some n" by (rule exE)
    then have "node_ok (j, n)" by (rule list_all_map_of [OF nodes_of_ok(2) [OF ok]])
    then show ?thesis using j by (simp add: GetNode_nodes_of node_ok_def)
  qed
  then show ?thesis using assms(4) by (simp add: kv_nodes.reachable_nodes_def [OF kv] kv_nodes.node_up_def [OF kv])
qed

lemma convergence_value:
  assumes "codec_ok inps wire valid" "service_ok s" "GetSession c (svc_metrics s) = Inr session" "GetNodes c (svc_cluster s) = Inr ns"
    and "\<forall>n \<in> set ns. world_up inps valid w (cn_Address n) (cn_Port n)" "\<forall>k \<in> set (sv_TrackedKeys session). valid k"
  shows "\<exists>w'. IsClusterConverged (node_client inps) wire c s w = (w', Inr (sv_TrackedKeys session = [] \<or>
    ns \<noteq> [] \<and> (\<forall>k \<in> set (sv_TrackedKeys session). \<exists>st. st_Exists st \<and> (\<forall>n \<in> set ns. world_stored w (cn_Address n) (cn_Port n) k = st))))"
proof -
  note kv = client_contract [OF assms(1)]
  show ?thesis
    using kv_nodes.converged_iff [OF kv _ assms(3,4) cluster_reachable [OF assms(1,2,4,5)] assms(6), of "node_client inps"]
    unfolding kv_nodes.holds_def [OF kv] by (simp add: node_client_def)
qed

text \<open>
  C26: The convergence check is agreement.  When all nodes of the cluster serve, the check answers, and it
  answers yes exactly if no key is tracked, or the cluster has nodes and for every tracked key all of
  them hold the same existing value, version and origin.
\<close>

theorem convergence_check_exact:
  assumes "codec_ok inps wire valid" "service_ok s" "GetSession c (svc_metrics s) = Inr session" "GetNodes c (svc_cluster s) = Inr ns"
    and "\<forall>n \<in> set ns. world_up inps valid w (cn_Address n) (cn_Port n)" "\<forall>k \<in> set (sv_TrackedKeys session). valid k"
  shows "snd (IsClusterConverged (node_client inps) wire c s w) = Inr (sv_TrackedKeys session = [] \<or>
    ns \<noteq> [] \<and> (\<forall>k \<in> set (sv_TrackedKeys session). \<exists>st. st_Exists st \<and> (\<forall>n \<in> set ns. world_stored w (cn_Address n) (cn_Port n) k = st)))"
  using convergence_value [OF assms] by auto

lemma plain_service_ok: "service_ok plain_service"
proof -
  have m: "manager_ok (fst (CreateCluster ''c'' [] (NewManager [])))" by (rule CreateCluster_ok) (simp add: NewManager_def manager_ok_def)
  have d: "service_ok demo_service" unfolding demo_service_def by (rule Start_service_ok [OF service_ok_new [OF m]])
  then have "manager_ok (svc_cluster demo_service)" by (simp add: service_ok_def)
  then show ?thesis unfolding plain_service_def by (intro service_ok_cluster [OF d] RegisterNode_ok)
qed

lemma plain_trim: "trim_space ''c'' = ''c''" "trim_space ''k'' = ''k''" "trim_space ''__CLUSTER__'' = ''__CLUSTER__''"
  by (rule trim_space_word, simp add: is_word_def is_space_def)+

lemma gm_keys_single: "gm_keys (gm_put k v []) = [k]"
  by (simp add: gm_keys_def gm_put_def)

lemma plain_nodes_list: "GetNodes ''c'' (svc_cluster plain_service) = Inr [fresh_node ''n1'' ''h1'' 8001 0]"
  by (simp add: plain_service_def GetNodes_def RegisterNode_def demo_service_def StartMetricsSession_def Let_def plain_trim GetCluster_def
      NewClusterService_def NewManager_def CreateCluster_def cluster_protocol_name_def to_lower_def session_Start_def NewSessionManager_def
      set_cluster_def gm_put_def)

lemma plain_live: "live ''c'' (svc_metrics plain_service)"
  using demo_running by (simp add: plain_service_def running_def live_def)

text \<open>Recording for a key makes it a tracked key of the session.\<close>

lemma event_tracked:
  assumes "live c m" "trim_space c = c"
  shows "\<exists>session. GetSession c (fst (RecordTimelineEvent c k t e m)) = Inr session \<and> trim_space k \<in> set (sv_TrackedKeys session)"
proof -
  obtain s where s: "active_session c m = Inr s" using assms(1) by (auto simp: live_def active_session_Inr)
  then show ?thesis using assms
    by (simp add: RecordTimelineEvent_def GetSession_def Let_def upd_last_def session_view_def add_event_def set_gm_keys live_def)
qed

theorem convergence_check_exact_witness:
  "snd (IsClusterConverged (node_client plain_inputs) plain_wire ''c'' (fst (AddMetricsWatchKey ''c'' ''k'' plain_service)) plain_world) = Inr False"
proof -
  let ?s = "fst (AddMetricsWatchKey ''c'' ''k'' plain_service)"
  have cl: "svc_cluster ?s = svc_cluster plain_service" using records_only_cluster [OF records_track(1)] by blast
  have h: "gm_getd [] (svc_metrics plain_service) ''c'' = [new_session ''c'' 100]"
    by (simp add: plain_service_def demo_service_def StartMetricsSession_def Let_def plain_trim GetCluster_def
      NewClusterService_def NewManager_def CreateCluster_def cluster_protocol_name_def to_lower_def session_Start_def NewSessionManager_def)
  then have "\<exists>session. GetSession ''c'' (svc_metrics ?s) = Inr session \<and> sv_TrackedKeys session = [''k'']"
    by (simp add: AddMetricsWatchKey_def TrackKey_def active_session_def GetSession_def Let_def plain_trim upd_last_def session_view_def
        new_session_def gm_keys_single)
  then obtain session where session: "GetSession ''c'' (svc_metrics ?s) = Inr session" "sv_TrackedKeys session = [''k'']" by blast
  have "world_stored plain_world ''h1'' 8001 ''k'' = zero_state"
    by (simp add: world_stored_def plain_world_def demo_runtime_simps store_view_def gossip_Start_def gossip_SetLogger_def
        gossip_SetPeerDiscoveryCallback_def gossip_SetPeers_def NewGossipProtocol_def Let_def)
  then show ?thesis
    using convergence_check_exact [OF plain_nodes.codec records_only_ok [OF records_track(1) plain_service_ok] session(1), of "[fresh_node ''n1'' ''h1'' 8001 0]" plain_world]
      plain_world_up plain_nodes_list
    by (simp add: cl session(2)) (simp add: fresh_node_def kv_text_def zero_state_def)
qed

text \<open>
  A node that joins during a session blocks convergence.  Its life-cycle event makes \<open>__CLUSTER__\<close> a tracked
  key of the session; no client writes this key, so while some node of the cluster does not hold it the
  check answers no, however well the nodes agree on the data.
\<close>

theorem join_blocks_convergence:
  assumes "codec_ok inps wire valid" "service_ok s" "live c (svc_metrics s)" "trim_space c = c"
    and "service_RegisterNode (node_client inps) t1 t2 c i h p (s, w0) = (s1, w)"
    and "GetNodes c (svc_cluster s1) = Inr ns" "\<forall>n \<in> set ns. world_up inps valid w (cn_Address n) (cn_Port n)"
    and "\<forall>session. GetSession c (svc_metrics s1) = Inr session \<longrightarrow> (\<forall>k \<in> set (sv_TrackedKeys session). valid k)"
    and "n \<in> set ns" "\<not> st_Exists (world_stored w (cn_Address n) (cn_Port n) ''__CLUSTER__'')"
  shows "snd (IsClusterConverged (node_client inps) wire c s1 w) = Inr False"
proof -
  have "service_ok (fst (service_step (node_client inps) wire (SRegister t1 t2 c i h p) (s, w0)))"
    by (rule service_step_ok) (simp add: assms(2))
  then have ok: "service_ok s1" using assms(5) by simp
  have "svc_metrics s1 = fst (RecordTimelineEvent c ''__CLUSTER__'' t2 (blank_event\<lparr>te_NodeID := i, te_EventType := ''NODE_JOIN'',
      te_Value := ''node joined cluster at '' @ h @ '':'' @ show_int p, te_Key := ''__CLUSTER__''\<rparr>) (svc_metrics s))"
    using assms(3-5) by (auto simp: service_RegisterNode_def RecordLifecycleEvent_def IsActive_live Let_def)
  then obtain session where session: "GetSession c (svc_metrics s1) = Inr session" "''__CLUSTER__'' \<in> set (sv_TrackedKeys session)"
    using event_tracked [OF assms(3,4), of "''__CLUSTER__''"] plain_trim(3) by metis
  have "\<forall>k \<in> set (sv_TrackedKeys session). valid k" using assms(8) session(1) by blast
  note val = convergence_value [OF assms(1) ok session(1) assms(6,7) this]
  have "\<not> (\<exists>st. st_Exists st \<and> (\<forall>n \<in> set ns. world_stored w (cn_Address n) (cn_Port n) ''__CLUSTER__'' = st))"
    using assms(9,10) by metis
  then have no: "(sv_TrackedKeys session = [] \<or> ns \<noteq> [] \<and> (\<forall>k \<in> set (sv_TrackedKeys session). \<exists>st. st_Exists st
      \<and> (\<forall>n \<in> set ns. world_stored w (cn_Address n) (cn_Port n) k = st))) = False" using session(2) by auto
  show ?thesis using val unfolding no by auto
qed

theorem join_blocks_convergence_witness:
  "\<exists>s1. service_RegisterNode (node_client plain_inputs) 1 2 ''c'' ''n1'' ''h1'' 8001 (plain_service, plain_world) = (s1, counted plain_world)
     \<and> snd (IsClusterConverged (node_client plain_inputs) plain_wire ''c'' s1 (counted plain_world)) = Inr False"
proof -
  obtain s1 w1 where r: "service_RegisterNode (node_client plain_inputs) 1 2 ''c'' ''n1'' ''h1'' 8001 (plain_service, plain_world) = (s1, w1)" by force
  have w1: "w1 = counted plain_world"
    using r by (simp add: service_RegisterNode_def Let_def node_client_def client_Ping_def split: option.splits)
  have ns: "GetNodes ''c'' (svc_cluster s1) = Inr [fresh_node ''n1'' ''h1'' 8001 1]"
  proof -
    have "svc_cluster s1 = fst (RegisterNode 1 ''c'' ''n1'' ''h1'' 8001 (svc_cluster plain_service))"
      using r records_only_cluster [OF records_lifecycle] by (auto simp: service_RegisterNode_def Let_def)
    then have n1: "nodes_of ''c'' (svc_cluster s1) = gm_put ''n1'' (fresh_node ''n1'' ''h1'' 8001 1) (nodes_of ''c'' (svc_cluster plain_service))"
      by (simp add: RegisterNode_nodes)
    have "nodes_of ''c'' (svc_cluster plain_service) = [(''n1'', fresh_node ''n1'' ''h1'' 8001 0)]"
      by (simp add: plain_service_def RegisterNode_def set_cluster_def nodes_of_def demo_service_def StartMetricsSession_def Let_def plain_trim GetCluster_def
          NewClusterService_def NewManager_def CreateCluster_def cluster_protocol_name_def to_lower_def session_Start_def NewSessionManager_def gm_put_def)
    with n1 have "nodes_of ''c'' (svc_cluster s1) = [(''n1'', fresh_node ''n1'' ''h1'' 8001 1)]" by (simp add: gm_put_def)
    then show ?thesis by (cases "map_of (m_clusters (svc_cluster s1)) ''c''") (auto simp: nodes_of_def GetNodes_def)
  qed
  have up: "world_up plain_inputs kv_text (counted plain_world) ''h1'' 8001"
    using plain_world_up by (simp add: world_up_def counted_def plain_inputs_def)
  have st: "\<not> st_Exists (world_stored (counted plain_world) ''h1'' 8001 ''__CLUSTER__'')"
    by (simp add: world_stored_def counted_def plain_world_def demo_runtime_simps store_view_def gossip_Start_def gossip_SetLogger_def
        gossip_SetPeerDiscoveryCallback_def gossip_SetPeers_def NewGossipProtocol_def Let_def zero_state_def)
  have h: "gm_getd [] (svc_metrics plain_service) ''c'' = [new_session ''c'' 100]"
    by (simp add: plain_service_def demo_service_def StartMetricsSession_def Let_def plain_trim GetCluster_def
      NewClusterService_def NewManager_def CreateCluster_def cluster_protocol_name_def to_lower_def session_Start_def NewSessionManager_def)
  have "gm_getd [] (svc_metrics s1) ''c'' \<noteq> [] \<and> sv_TrackedKeys (session_view (last (gm_getd [] (svc_metrics s1) ''c''))) = [''__CLUSTER__'']"
    using r h plain_live
    by (auto simp: service_RegisterNode_def RecordLifecycleEvent_def IsActive_live plain_trim Let_def RecordTimelineEvent_def active_session_def
        upd_last_def session_view_def add_event_def new_session_def gm_keys_single live_def)
  then have "\<forall>session. GetSession ''c'' (svc_metrics s1) = Inr session \<longrightarrow> (\<forall>k \<in> set (sv_TrackedKeys session). kv_text k)"
    by (auto simp: GetSession_def plain_trim kv_text_def Let_def)
  from join_blocks_convergence [OF plain_nodes.codec plain_service_ok plain_live plain_trim(1) r ns _ this, of "fresh_node ''n1'' ''h1'' 8001 1"]
  show ?thesis using r up st unfolding w1 by (simp add: fresh_node_def)
qed

text \<open>
  A refused put is reported as done.  A node that runs the baseline protocol, or none, refuses to store
  keys; the service answers without an error, counts nothing, and the nodes are as before.
\<close>

theorem refused_put_unreported:
  assumes "codec_ok inps wire valid" "GetNode c i (svc_cluster s) = Inr n" "valid k" "valid v"
    and "ci_reach (inps (nw_calls w))" "map_of (nw_nodes w) (cn_Address n, cn_Port n) = Some r"
    and "\<not> engine_down (r_fault r)" "r_events r = []" "\<forall>g. r_proto r \<noteq> Some (PGossip g)"
  shows "\<exists>w'. ExecuteKVPut (node_client inps) wire c i k v s w = ((s, w'), None) \<and> map_of (nw_nodes w') = map_of (nw_nodes w)"
proof -
  have "handleActionEvent (in_pb (ci_reactor (inps (nw_calls w)))) clock (Some (put_request wire k v)) r = (r, fail ''kv_write not supported by protocol'', [])" for clock
    using assms(1,3,4,9) by (auto simp: handleActionEvent_def put_request_def PutAction_def codec_ok_def split: option.splits proto.splits)
  note ref = this
  have "dialled inps (cn_Address n) (cn_Port n) w = Some r" using assms(5,6) by (simp add: dialled_def)
  from execute_serving [OF this assms(7,8) ref]
  have "client_ExecuteAction inps (cn_Address n) (cn_Port n) (put_request wire k v) w =
      (set_runtime (cn_Address n) (cn_Port n) r (counted w), Inr (fail ''kv_write not supported by protocol''))" .
  moreover have "map_of (nw_nodes (set_runtime (cn_Address n) (cn_Port n) r (counted w))) = map_of (nw_nodes w)"
    using assms(6) by (auto simp: set_runtime_def counted_def)
  ultimately show ?thesis using assms(2) by (simp add: ExecuteKVPut_def node_client_def put_request_def fail_def)
qed

theorem refused_put_unreported_witness:
  "\<exists>w'. ExecuteKVPut (node_client plain_inputs) plain_wire ''c'' ''n1'' ''k'' ''v'' plain_service
     (plain_world\<lparr>nw_nodes := [((''h1'', 8001), demo_runtime\<lparr>r_proto := None\<rparr>)]\<rparr>) = ((plain_service, w'), None)"
proof -
  have "r_events demo_runtime = []"
    by (simp add: demo_runtime_def applyProtocolSwap_def Load_factories runtime_New_def Let_def)
  then show ?thesis
    using refused_put_unreported [OF plain_nodes.codec plain_node, of "''k''" "''v''"
        "plain_world\<lparr>nw_nodes := [((''h1'', 8001), demo_runtime\<lparr>r_proto := None\<rparr>)]\<rparr>" "demo_runtime\<lparr>r_proto := None\<rparr>"]
    by (auto simp: kv_text_def plain_inputs_def fresh_node_def demo_runtime_simps engine_down_def NewEngine_def IsCrashed_def)
qed

end
