(* ===== verification/ControlRPC.thy ===== *)
theory ControlRPC
  imports ServiceNodes
begin

text \<open>
  The two ends of the wire between control plane and nodes: the gRPC server the nodes call
  (\<open>internal/controlplane/rpc/server.go\<close>) and the session through which the manager forwards
  fault parameters (\<open>internal/controlplane/session/node.go\<close>).  \<open>register_call\<close> and \<open>peers_call\<close> are the handlers as the node's
  session calls them, with the request it builds.

  Shown: the topology a node builds from the control plane's answer is the cluster's; what fault
  parameters do at the node they are sent to; and what becomes of a cluster created for \<open>raft\<close>.
\<close>

section \<open>The server\<close>

definition rpc_RegisterNode ::
  "'w node_operator \<Rightarrow> int \<Rightarrow> int \<Rightarrow> string \<Rightarrow> string \<Rightarrow> string \<Rightarrow> int \<Rightarrow> service \<times> 'w \<Rightarrow> (service \<times> 'w) \<times> register_reply" where
  "rpc_RegisterNode nc t1 t2 clusterID nodeID address port sw =
     (let sw' = service_RegisterNode nc t1 t2 clusterID nodeID address port sw in
      case GetClusterProtocol clusterID (fst sw') of
        Inl e \<Rightarrow> (sw', \<lparr>rr_success = False, rr_message = ''cluster not found'', rr_assigned = None\<rparr>)
      | Inr protocolName \<Rightarrow> (sw', \<lparr>rr_success = True, rr_message = ''node registered'', rr_assigned = Some protocolName\<rparr>))"

text \<open>The handlers as the functions of the request that a node's session calls.\<close>

definition register_call ::
  "'w node_operator \<Rightarrow> int \<Rightarrow> int \<Rightarrow> register_request \<Rightarrow> service \<times> 'w \<Rightarrow> (service \<times> 'w) \<times> register_reply option" where
  "register_call nc t1 t2 req sw =
     (case rpc_RegisterNode nc t1 t2 (rg_ClusterId req) (rg_NodeId req) (rg_Address req) (rg_Port req) sw of
        (sw', reply) \<Rightarrow> (sw', Some reply))"

definition rpc_GetPeers :: "string \<Rightarrow> service \<Rightarrow> manager_error + node_info list" where
  "rpc_GetPeers clusterID s = (case service_GetPeers clusterID s of
     Inl e \<Rightarrow> Inl e
   | Inr nodes \<Rightarrow> Inr (map (\<lambda>n. \<lparr>ni_Id = cn_ID n, ni_Address = cn_Address n, ni_Port = word_of_int (cn_Port n)\<rparr>) nodes))"

definition peers_call :: "service \<Rightarrow> string \<Rightarrow> node_info list option" where
  "peers_call s clusterID = (case rpc_GetPeers clusterID s of Inl e \<Rightarrow> None | Inr peers \<Rightarrow> Some peers)"

definition rpc_Heartbeat :: "int \<Rightarrow> string \<Rightarrow> string \<Rightarrow> service \<Rightarrow> service \<times> bool \<times> service_error option" where
  "rpc_Heartbeat now clusterID nodeID s = (case service_Heartbeat now clusterID nodeID s of
     (s', Some e) \<Rightarrow> (s', False, Some e) | (s', None) \<Rightarrow> (s', True, None))"

definition rpc_ReportLog :: "int \<Rightarrow> log_request \<Rightarrow> service \<Rightarrow> service \<times> bool" where
  "rpc_ReportLog now req s = (BroadcastLog now (Some req) s, True)"

definition rpc_ReportNodeCapabilities :: "capabilities_report \<Rightarrow> service \<Rightarrow> service \<times> bool \<times> service_error option" where
  "rpc_ReportNodeCapabilities req s = (case ReportNodeCapabilities req s of
     (s', Some e) \<Rightarrow> (s', False, Some e) | (s', None) \<Rightarrow> (s', True, None))"

section \<open>Forwarding faults\<close>

definition forward_SetFaultParams ::
  "(nat \<Rightarrow> call_input) \<Rightarrow> string \<Rightarrow> int \<Rightarrow> string \<Rightarrow> fault_state \<Rightarrow> node_world \<Rightarrow> node_world \<times> string option" where
  "forward_SetFaultParams inps host port nodeID params w = (case dialled inps host port w of
     None \<Rightarrow> (counted w, Some ''SetFaultParams RPC failed'')
   | Some r \<Rightarrow>
       (case server_SetFaultParams (Some \<lparr>fr_NodeId = nodeID, fr_Crashed = fs_Crashed params, fr_DropRate = fs_DropRate params,
                fr_DelayMs = to_int32 (fs_DelayMs params), fr_Partition = fs_Partition params\<rparr>) r of
          (r', FaultApplied) \<Rightarrow> (set_runtime host port r' (counted w), None)
        | (r', _) \<Rightarrow> (set_runtime host port r' (counted w), Some ''SetFaultParams rejected'')))"

text \<open>
  C31: Fault parameters sent to a node take effect there, within the width of the wire.  A node that is
  reached under its own name with a drop rate between 0 and 1 installs crash state, drop rate and
  partition as sent, for the peers it knows exactly the listed ones, and as delay the low 32 bits of the one
  asked for: a delay of \<open>2^32\<close> milliseconds becomes none, and one whose truncation is negative is
  rejected and changes nothing at the node.
\<close>

theorem faults_take_effect:
  assumes "dialled inps h p w = Some r" "r_fault r = Some e" "nc_ID (r_config r) = i"
    and "\<not> f64_lt (fs_DropRate f) (Fin 0)" "\<not> f64_lt (Fin 1) (fs_DropRate f)"
    and "forward_SetFaultParams inps h p i f w = (w', err)"
  shows "(0 \<le> to_int32 (fs_DelayMs f) \<longrightarrow> err = None \<and> (\<exists>e'. map_of (nw_nodes w') (h, p) = Some (r\<lparr>r_fault := Some e'\<rparr>)
       \<and> e_crashed e' = fs_Crashed f \<and> e_dropRate e' = fs_DropRate f \<and> e_delayMs e' = to_int32 (fs_DelayMs f)
       \<and> (\<forall>q. IsPartitioned q e' \<longleftrightarrow> (q \<in> set (fs_Partition f) \<and> q \<noteq> [] \<and> q \<noteq> i)
            \<or> (IsPartitioned q e \<and> q \<notin> p_ID ` set (nc_Peers (r_config r))))))
    \<and> (to_int32 (fs_DelayMs f) < 0 \<longrightarrow> err \<noteq> None \<and> map_of (nw_nodes w') = map_of (nw_nodes w))"
proof -
  let ?fr = "\<lparr>fr_NodeId = i, fr_Crashed = fs_Crashed f, fr_DropRate = fs_DropRate f,
     fr_DelayMs = to_int32 (fs_DelayMs f), fr_Partition = fs_Partition f\<rparr>"
  obtain r' er where rt: "runtime_SetFaultParams (Some ?fr) r = (r', er)" by force
  have node: "map_of (nw_nodes w) (h, p) = Some r" using assms(1) by (simp add: dialled_def split: if_splits)
  have w': "w' = set_runtime h p r' (counted w)" "err = None \<longleftrightarrow> er = None"
    using assms(1,6) rt by (auto simp: forward_SetFaultParams_def server_SetFaultParams_def split: option.splits)
  have er: "er = None \<longleftrightarrow> 0 \<le> to_int32 (fs_DelayMs f)"
    using rt assms(2-5) by (auto simp: runtime_SetFaultParams_def Let_def split: if_splits)
  note eff = fault_params_effect [OF rt assms(2)]
  show ?thesis
  proof (cases "0 \<le> to_int32 (fs_DelayMs f)")
    case True
    then obtain e' where "r' = r\<lparr>r_fault := Some e'\<rparr>" "e_crashed e' = fs_Crashed f" "e_dropRate e' = fs_DropRate f"
      "e_delayMs e' = to_int32 (fs_DelayMs f)"
      "\<forall>q. IsPartitioned q e' \<longleftrightarrow> (q \<in> set (fs_Partition f) \<and> q \<noteq> [] \<and> q \<noteq> i) \<or> (IsPartitioned q e \<and> q \<notin> p_ID ` set (nc_Peers (r_config r)))"
      using eff er assms(3) by auto
    then show ?thesis using True er w' by (auto simp: set_runtime_def)
  next
    case False
    then have "r' = r" "er \<noteq> None" using eff er by auto
    then show ?thesis using False w' node by (auto simp: set_runtime_def counted_def)
  qed
qed

theorem faults_take_effect_witness:
  "snd (forward_SetFaultParams plain_inputs ''h1'' 8001 ''n1'' (DefaultFaultState\<lparr>fs_DelayMs := 2 ^ 31\<rparr>) plain_world) \<noteq> None"
proof -
  let ?f = "DefaultFaultState\<lparr>fs_DelayMs := 2 ^ 31\<rparr>"
  have d: "dialled plain_inputs ''h1'' 8001 plain_world = Some demo_runtime" by (simp add: dialled_def plain_inputs_def plain_world_def)
  have "to_int32 (fs_DelayMs ?f) < 0" by (simp add: to_int32_def)
  then show ?thesis
    using faults_take_effect [OF d demo_runtime_simps(2) _ _ _ prod.collapse [symmetric], of "''n1''" ?f]
    by (simp add: demo_runtime_simps demo_config_def DefaultFaultState_def)
qed

section \<open>Topology\<close>

definition node_peer :: "cluster_node \<Rightarrow> peer" where
  "node_peer n = \<lparr>p_ID = cn_ID n, p_Host = (if trim_space (cn_Address n) = [] then ''localhost'' else trim_space (cn_Address n)),
     p_Port = cn_Port n mod 2 ^ 32\<rparr>"

lemma config_from_nodes:
  "nc_Peers (config_SetPeers (map Some (map (\<lambda>n. \<lparr>ni_Id = cn_ID n, ni_Address = cn_Address n, ni_Port = word_of_int (cn_Port n)\<rparr>) ns)) cfg)
     = map node_peer (filter (\<lambda>n. cn_ID n \<noteq> nc_ID cfg) ns)"
  by (induction ns) (auto simp: config_SetPeers_def List.map_filter_def Let_def uint_word_of_int node_peer_def)

lemma fetched_peers:
  assumes "manager_ok (svc_cluster s)" "rpc_GetPeers c s = Inr peers" "getPeersFromControlplane (Inr peers) r = (r', err)"
  shows "err = None \<and> distinct (map p_ID (nc_Peers (r_config r')))
    \<and> set (nc_Peers (r_config r')) = {node_peer n | n i. GetNode c i (svc_cluster s) = Inr n \<and> i \<noteq> nc_ID (r_config r)}"
proof -
  let ?ns = "nodes_of c (svc_cluster s)" and ?me = "nc_ID (r_config r)"
  note ok = nodes_of_ok [OF assms(1), of c]
  have peers: "peers = map (\<lambda>n. \<lparr>ni_Id = cn_ID n, ni_Address = cn_Address n, ni_Port = word_of_int (cn_Port n)\<rparr>) (map snd ?ns)"
    using assms(2) by (auto simp: rpc_GetPeers_def service_GetPeers_def GetNodes_def nodes_of_def split: option.splits sum.splits)
  have r': "err = None" "nc_Peers (r_config r') = nc_Peers (config_SetPeers (map Some peers) (r_config r))"
    using assms(3) by (auto simp: getPeersFromControlplane_def applyPeersTopology_def Let_def)
  have cfg: "nc_Peers (config_SetPeers (map Some peers) (r_config r)) = map node_peer (filter (\<lambda>n. cn_ID n \<noteq> ?me) (map snd ?ns))"
    unfolding peers by (rule config_from_nodes)
  have "distinct (map cn_ID (filter (\<lambda>n. cn_ID n \<noteq> ?me) (map snd ?ns)))"
    using node_values_distinct(2) [OF ok] by (rule distinct_map_filter)
  then have "distinct (map p_ID (nc_Peers (r_config r')))" by (simp add: r'(2) cfg comp_def node_peer_def)
  moreover have "n \<in> set (filter (\<lambda>n. cn_ID n \<noteq> ?me) (map snd ?ns)) \<longleftrightarrow> (\<exists>i. GetNode c i (svc_cluster s) = Inr n \<and> i \<noteq> ?me)" for n
    using gm_values [OF ok(1), of n] list_all_map_of [OF ok(2)] by (auto simp: GetNode_nodes_of node_ok_def)
  then have "set (nc_Peers (r_config r')) = {node_peer n | n i. GetNode c i (svc_cluster s) = Inr n \<and> i \<noteq> ?me}"
    unfolding r'(2) cfg set_map by (auto simp: image_def)
  ultimately show ?thesis using r'(1) by simp
qed

text \<open>
  A node that fetches its peers knows its cluster.  Applying the control plane's answer, the node's
  configured peers are the registered nodes of the cluster except itself, each once, under the address
  the control plane has for it (\<open>localhost\<close> for a blank one) and with the low 32 bits of its port.
\<close>

theorem fetched_peers_are_the_cluster:
  assumes "service_ok s" "rpc_GetPeers c s = Inr peers" "getPeersFromControlplane (Inr peers) r = (r', err)"
  shows "err = None \<and> distinct (map p_ID (nc_Peers (r_config r')))
    \<and> set (nc_Peers (r_config r')) = {node_peer n | n i. GetNode c i (svc_cluster s) = Inr n \<and> i \<noteq> nc_ID (r_config r)}"
  using fetched_peers [OF _ assms(2,3)] assms(1) by (simp add: service_ok_def)

theorem fetched_peers_are_the_cluster_witness:
  "\<exists>peers r'. rpc_GetPeers ''c'' plain_service = Inr peers \<and> getPeersFromControlplane (Inr peers) (demo_runtime\<lparr>r_config := demo_config\<lparr>nc_ID := ''n9''\<rparr>\<rparr>) = (r', None)
     \<and> set (nc_Peers (r_config r')) = {\<lparr>p_ID = ''n1'', p_Host = ''h1'', p_Port = 8001\<rparr>}"
proof -
  let ?r = "demo_runtime\<lparr>r_config := demo_config\<lparr>nc_ID := ''n9''\<rparr>\<rparr>"
  obtain peers where peers: "rpc_GetPeers ''c'' plain_service = Inr peers" by (simp add: rpc_GetPeers_def service_GetPeers_def plain_nodes_list)
  obtain r' err where r': "getPeersFromControlplane (Inr peers) ?r = (r', err)" by force
  have node: "GetNode ''c'' i (svc_cluster plain_service) = Inr n \<longleftrightarrow> i = ''n1'' \<and> n = fresh_node ''n1'' ''h1'' 8001 0" for i n
  proof -
    have "nodes_of ''c'' (svc_cluster plain_service) = [(''n1'', fresh_node ''n1'' ''h1'' 8001 0)]"
      by (simp add: plain_service_def RegisterNode_def set_cluster_def nodes_of_def demo_service_def StartMetricsSession_def Let_def plain_trim GetCluster_def
          NewClusterService_def NewManager_def CreateCluster_def cluster_protocol_name_def to_lower_def session_Start_def NewSessionManager_def gm_put_def)
    then show ?thesis by (auto simp: GetNode_nodes_of)
  qed
  have "trim_space ''h1'' = ''h1''" by (rule trim_space_word) (simp add: is_word_def is_space_def)
  then have "{node_peer n | n i. GetNode ''c'' i (svc_cluster plain_service) = Inr n \<and> i \<noteq> ''n9''} = {\<lparr>p_ID = ''n1'', p_Host = ''h1'', p_Port = 8001\<rparr>}"
    by (auto simp: node node_peer_def fresh_node_def)
  then show ?thesis using fetched_peers_are_the_cluster [OF plain_service_ok peers r'] peers r' by auto
qed

section \<open>A protocol no node has\<close>

lemma CreateCluster_raft:
  "map_of (m_clusters m) c = None \<Longrightarrow> CreateCluster c ''raft'' m =
     (m\<lparr>m_clusters := gm_put c \<lparr>cl_ID = c, cl_Protocol = ''raft'', cl_Nodes = []\<rparr> (m_clusters m)\<rparr>, None)"
proof -
  have "to_lower ''raft'' = ''raft''" by code_simp
  moreover have "trim_space ''raft'' = ''raft''" by (rule trim_space_word) (simp add: is_word_def is_space_def)
  ultimately show "map_of (m_clusters m) c = None \<Longrightarrow> ?thesis" by (simp add: CreateCluster_def cluster_protocol_name_def)
qed

lemma register_keeps_protocol:
  "map_of (m_clusters m) c = Some cl \<Longrightarrow>
     \<exists>cl'. map_of (m_clusters (fst (RegisterNode now c n a p m))) c = Some cl' \<and> cl_Protocol cl' = cl_Protocol cl"
  by (simp add: RegisterNode_def set_cluster_def Let_def)

text \<open>
  A cluster can be created for a protocol that no node can run.  Creating a cluster for \<open>raft\<close>
  succeeds, a node that registers in it is told to run \<open>raft\<close> and accepts the assignment, and then fails
  to load it.
\<close>

theorem raft_cluster_unusable:
  assumes "map_of (m_clusters (svc_cluster s)) c = None" "service_CreateCluster now c ''raft'' s = (s1, err)"
    and "rpc_RegisterNode nc t1 t2 c i h p (s1, w) = (sw, reply)"
  shows "err = None \<and> reply = \<lparr>rr_success = True, rr_message = ''node registered'', rr_assigned = Some ''raft''\<rparr>
    \<and> snd (snd (Establish True (\<lambda>_ w. (w, Some reply)) cs ())) = Inr ''raft'' \<and> snd (applyProtocolSwap ''raft'' r) \<noteq> None"
proof -
  have s1: "err = None" "\<exists>cl. map_of (m_clusters (svc_cluster s1)) c = Some cl \<and> cl_Protocol cl = ''raft''"
    using assms(1,2) CreateCluster_raft [OF assms(1)] records_only_cluster [OF records_lifecycle]
    by (auto simp: service_CreateCluster_def on_manager_def)
  then obtain cl where cl: "map_of (m_clusters (svc_cluster s1)) c = Some cl" "cl_Protocol cl = ''raft''" by blast
  have "svc_cluster (fst (service_RegisterNode nc t1 t2 c i h p (s1, w))) = fst (RegisterNode t1 c i h p (svc_cluster s1))"
    using records_only_cluster [OF records_lifecycle] by (simp add: service_RegisterNode_def Let_def)
  then have "GetClusterProtocol c (fst (service_RegisterNode nc t1 t2 c i h p (s1, w))) = Inr ''raft''"
    using register_keeps_protocol [OF cl(1), of t1 i h p] cl(2) by (auto simp: GetClusterProtocol_def GetCluster_def)
  then have "reply = \<lparr>rr_success = True, rr_message = ''node registered'', rr_assigned = Some ''raft''\<rparr>"
    using assms(3) by (simp add: rpc_RegisterNode_def Let_def)
  moreover have "snd (applyProtocolSwap ''raft'' r) \<noteq> None" by (simp add: applyProtocolSwap_def Load_factories(3))
  ultimately show ?thesis using s1(1) by (simp add: Establish_def cp_connect_def)
qed

theorem raft_cluster_unusable_witness:
  "snd (rpc_RegisterNode demo_operator 1 2 ''x'' ''n'' ''h'' 1 (fst (service_CreateCluster 0 ''x'' ''raft'' (NewClusterService (NewManager []))), ()))
     = \<lparr>rr_success = True, rr_message = ''node registered'', rr_assigned = Some ''raft''\<rparr>"
proof -
  have "map_of (m_clusters (svc_cluster (NewClusterService (NewManager [])))) ''x'' = None" by (simp add: NewClusterService_def NewManager_def)
  from raft_cluster_unusable [OF this prod.collapse [symmetric] prod.collapse [symmetric], THEN conjunct2, THEN conjunct1] show ?thesis .
qed

end
