(* ===== verification/Actor.thy ===== *)
theory Actor
  imports ServiceSpec Experiment
begin

text \<open>
  The actor of the control plane (\<open>internal/controlplane/actor.go\<close>): one goroutine takes commands from
  a channel and answers each before the next.  \<open>actor_step\<close> is one turn of its loop, with one definition
  per case; \<open>None\<close> is a panic.  The node processes it starts are records of what was run; starting and
  killing a process, the clock, loading a file and joining paths are inputs.  A hypothesis run is a
  goroutine of its own, recorded when it is started and modelled by \<open>executeHypothesis\<close>.

  Shown: the bookkeeping of processes, what killing a cluster removes, that partitions are recorded on
  both sides, and that a hypothesis run ends and leaves no session active.
\<close>

section \<open>Data\<close>

record actor_options =
  ao_ProjectRoot :: string
  ao_DefaultCPHost :: string
  ao_DefaultCPPort :: int
  ao_NodeBinaryPath :: string

text \<open>A started process: its id, its directory and its arguments.\<close>

record process =
  pr_Pid :: int
  pr_Dir :: string
  pr_Args :: "string list"

record hypothesis =
  hy_Name :: string
  hy_ClusterID :: string
  hy_Path :: string
  hy_Batches :: "command_batch list"
  hy_TrackedKeys :: "string list"

record actor =
  a_service :: service
  a_options :: actor_options
  a_nodeProcs :: "(string, process) gomap"
  a_nodeMeta :: "(string, string) gomap"
  a_hypotheses :: "hypothesis list"

datatype kill_result = KillDone | KillNoProcess | KillFailed string

record actor_input =
  ai_clock :: "nat \<Rightarrow> int"
  ai_spawn :: "string \<Rightarrow> string list \<Rightarrow> string + int"
  ai_kill :: "int \<Rightarrow> kill_result"
  ai_load :: "string \<Rightarrow> experiment_error + experiment_spec"
  ai_join :: "string \<Rightarrow> string \<Rightarrow> string"

datatype actor_error =
  FromService service_error
| ProcessRunning string string
| ProcessNotRunning string
| ProcessAmbiguous string "string list"
| SpawnFailed string
| StopFailed string string
| KillClusterID
| NoProcesses string
| PathRequired
| LoadFailed experiment_error
| HypothesisClusterID
| CompileError experiment_error

record managed_node_process =
  mp_NodeID :: string
  mp_ClusterID :: string
  mp_PID :: int

datatype reply =
  RNil
| RStarted bool string
| RStopped string
| RProcesses "managed_node_process list"
| RNodes "cluster_node list"
| RClusters "(string \<times> string \<times> cluster_node list) list"
| ROk
| RSymmetric
| RValue string "(int \<times> string) option"
| RKilled string nat
| RMetricsStarted string int
| RSnapshot metrics_snapshot
| RHistory "metrics_snapshot list"
| RHypothesis string string string string nat
| RHelp "string list"

type_synonym 'w turn = "(actor \<times> 'w) \<times> (actor_error + reply)"

definition NewActor :: "service \<Rightarrow> actor_options \<Rightarrow> actor" where
  "NewActor s opts = \<lparr>a_service = s, a_options = opts, a_nodeProcs = [], a_nodeMeta = [], a_hypotheses = []\<rparr>"

definition on_service :: "(service \<Rightarrow> service \<times> service_error option) \<Rightarrow> actor \<Rightarrow> actor \<times> actor_error option" where
  "on_service f a = (case f (a_service a) of (s, e) \<Rightarrow> (a\<lparr>a_service := s\<rparr>, map_option FromService e))"

section \<open>Processes\<close>

definition managedProcessKey :: "string \<Rightarrow> string \<Rightarrow> string" where
  "managedProcessKey clusterID nodeID = clusterID @ ''::'' @ nodeID"

definition parseManagedProcessKey :: "string \<Rightarrow> string \<times> string" where
  "parseManagedProcessKey key = (case cut_str ''::'' key of None \<Rightarrow> ([], key) | Some parts \<Rightarrow> parts)"

text \<open>The error of \<open>killProcessTree\<close>; a process group that is gone is killed.\<close>

definition killProcessTree :: "actor_input \<Rightarrow> process \<Rightarrow> string option" where
  "killProcessTree inp p =
     (if pr_Pid p \<le> 0 then Some ''invalid process id''
      else case ai_kill inp (pr_Pid p) of KillDone \<Rightarrow> None | KillNoProcess \<Rightarrow> None | KillFailed e \<Rightarrow> Some e)"

definition findManagedProcessByNodeIDLocked :: "string \<Rightarrow> actor \<Rightarrow> actor_error + string \<times> process" where
  "findManagedProcessByNodeIDLocked nodeID a =
     (case filter (\<lambda>key. snd (parseManagedProcessKey key) = nodeID) (gm_keys (a_nodeProcs a)) of
        [] \<Rightarrow> Inl (ProcessNotRunning nodeID)
      | [key] \<Rightarrow> (case map_of (a_nodeProcs a) key of None \<Rightarrow> Inl (ProcessNotRunning nodeID) | Some p \<Rightarrow> Inr (key, p))
      | keys \<Rightarrow> Inl (ProcessAmbiguous nodeID (map (gm_getd [] (a_nodeMeta a)) keys)))"

definition forget_process :: "string \<Rightarrow> actor \<Rightarrow> actor" where
  "forget_process key a = a\<lparr>a_nodeProcs := gm_del key (a_nodeProcs a), a_nodeMeta := gm_del key (a_nodeMeta a)\<rparr>"

definition first_of :: "string list \<Rightarrow> string" where
  "first_of xs = (case filter (\<lambda>x. x \<noteq> []) xs of [] \<Rightarrow> [] | x # _ \<Rightarrow> x)"

definition start_args :: "string \<Rightarrow> actor_options \<Rightarrow> command \<Rightarrow> string list" where
  "start_args clusterID opts cmd =
     (let cpHost = first_of [cmd_CPHost cmd, ao_DefaultCPHost opts, ''localhost''];
          cpPort = (if cmd_CPPort cmd = 0 then ao_DefaultCPPort opts else cmd_CPPort cmd);
          cpPort = (if cpPort = 0 then 9000 else cpPort);
          host = (if cmd_Host cmd = [] then ''localhost'' else cmd_Host cmd)
      in [''-id'', cmd_NodeID cmd, ''-port'', show_int (cmd_Port cmd), ''-cluster-id'', clusterID, ''-host'', host,
          ''-cp-host'', cpHost, ''-cp-port'', show_int cpPort]
         @ (if cmd_PeersCSV cmd \<noteq> [] then [''-peers'', cmd_PeersCSV cmd] else []))"

definition newNodeProcess :: "string list \<Rightarrow> string list" where
  "newNodeProcess nodeArgs = [''go'', ''run'', ''./cmd/node''] @ nodeArgs"

definition startNodeProcess :: "actor_input \<Rightarrow> command \<Rightarrow> actor \<Rightarrow> actor \<times> actor_error option" where
  "startNodeProcess inp cmd a =
     (let clusterID = (if cmd_ClusterID cmd = [] then ''default'' else cmd_ClusterID cmd);
          procKey = managedProcessKey clusterID (cmd_NodeID cmd) in
      if map_of (a_nodeProcs a) procKey \<noteq> None then (a, Some (ProcessRunning (cmd_NodeID cmd) clusterID))
      else
        let projectRoot = first_of [cmd_ProjectRoot cmd, ao_ProjectRoot (a_options a), ''.''];
            args = newNodeProcess (start_args clusterID (a_options a) cmd)
        in case ai_spawn inp projectRoot args of
             Inl e \<Rightarrow> (a, Some (SpawnFailed (cmd_NodeID cmd)))
           | Inr pid \<Rightarrow> (a\<lparr>a_nodeProcs := gm_put procKey \<lparr>pr_Pid = pid, pr_Dir = projectRoot, pr_Args = args\<rparr> (a_nodeProcs a),
                           a_nodeMeta := gm_put procKey clusterID (a_nodeMeta a)\<rparr>, None))"

text \<open>The goroutine that waits for a process removes it when it exits.\<close>

definition process_exit :: "string \<Rightarrow> actor \<Rightarrow> actor" where
  "process_exit key a = forget_process key a"

definition stop_node :: "actor_input \<Rightarrow> command \<Rightarrow> actor \<Rightarrow> actor \<times> (actor_error + reply)" where
  "stop_node inp cmd a = (case findManagedProcessByNodeIDLocked (cmd_NodeID cmd) a of
     Inl e \<Rightarrow> (a, Inl e)
   | Inr (key, proc) \<Rightarrow> (case killProcessTree inp proc of
       Some e \<Rightarrow> (a, Inl (StopFailed (cmd_NodeID cmd) e))
     | None \<Rightarrow> (forget_process key a, Inr (RStopped (cmd_NodeID cmd)))))"

definition list_processes :: "actor \<Rightarrow> managed_node_process list" where
  "list_processes a = map (\<lambda>(key, proc). case parseManagedProcessKey key of (clusterID, nodeID) \<Rightarrow>
     \<lparr>mp_NodeID = nodeID, mp_ClusterID = (if clusterID = [] then gm_getd [] (a_nodeMeta a) key else clusterID), mp_PID = pr_Pid proc\<rparr>)
     (a_nodeProcs a)"

text \<open>The loop that kills; on a failure the number stopped so far and the node's name.\<close>

fun kill_all :: "actor_input \<Rightarrow> (string \<times> process) list \<Rightarrow> nat \<Rightarrow> (nat \<times> string \<times> string) + nat" where
  "kill_all inp [] stopped = Inr stopped"
| "kill_all inp ((key, proc) # ps) stopped = (case killProcessTree inp proc of
     Some e \<Rightarrow> Inl (stopped, snd (parseManagedProcessKey key), e)
   | None \<Rightarrow> kill_all inp ps (stopped + 1))"

definition drop_cluster :: "string \<Rightarrow> actor \<Rightarrow> actor \<times> actor_error option" where
  "drop_cluster clusterID a = (case GetCluster clusterID (svc_cluster (a_service a)) of
     Inl _ \<Rightarrow> (a, None) | Inr _ \<Rightarrow> on_service (service_RemoveCluster clusterID) a)"

definition killCluster :: "'w node_operator \<Rightarrow> kv_wire \<Rightarrow> actor_input \<Rightarrow> string \<Rightarrow> actor \<times> 'w \<Rightarrow> (actor \<times> 'w) \<times> (actor_error + nat)" where
  "killCluster nc wire inp clusterID0 = (\<lambda>(a, w).
     let clusterID = trim_space clusterID0 in
     if clusterID = [] then ((a, w), Inl KillClusterID)
     else case StopMetricsSessionIfActive nc wire (ai_clock inp 0) (ai_clock inp 1) clusterID (a_service a, w) of (s, w) \<Rightarrow>
       let a = a\<lparr>a_service := s\<rparr>;
           toKill = filter (\<lambda>(key, _). gm_getd [] (a_nodeMeta a) key = clusterID) (a_nodeProcs a)
       in case kill_all inp toKill 0 of
            Inl (stopped, nodeID, e) \<Rightarrow> ((a, w), Inl (StopFailed nodeID e))
          | Inr stopped \<Rightarrow>
              (case drop_cluster clusterID (fold (\<lambda>(key, _). forget_process key) toKill a) of
                 (a, Some e) \<Rightarrow> ((a, w), Inl e)
               | (a, None) \<Rightarrow> ((a, w), if stopped = 0 then Inl (NoProcesses clusterID) else Inr stopped)))"

text \<open>Stopping the actor: every process is killed, failures are only logged.\<close>

definition stopAllManagedNodeProcesses :: "actor \<Rightarrow> actor" where
  "stopAllManagedNodeProcesses a = fold (\<lambda>(key, _). forget_process key) (a_nodeProcs a) a"

section \<open>Faults\<close>

text \<open>
  The cases that change one field of a node's fault: the fault is copied, changed and set.
\<close>

definition change_fault :: "int \<Rightarrow> string \<Rightarrow> string \<Rightarrow> (fault_state \<Rightarrow> fault_state) \<Rightarrow> actor \<Rightarrow> actor \<times> actor_error option" where
  "change_fault now clusterID nodeID f a = (case GetNode clusterID nodeID (svc_cluster (a_service a)) of
     Inl e \<Rightarrow> (a, Some (FromService (FromManager e)))
   | Inr n \<Rightarrow> on_service (service_SetFaultParams now clusterID nodeID (f (cn_Fault n))) a)"

fun partition_next :: "string \<Rightarrow> bool \<Rightarrow> string list \<Rightarrow> string list" where
  "partition_next other enabled [] = []"
| "partition_next other enabled (p # ps) =
     (if p = other then (if enabled then p # partition_next other enabled ps else partition_next other enabled ps)
      else p # partition_next other enabled ps)"

definition updateNodePartition :: "int \<Rightarrow> string \<Rightarrow> string \<Rightarrow> string \<Rightarrow> bool \<Rightarrow> actor \<Rightarrow> actor \<times> actor_error option" where
  "updateNodePartition now clusterID targetNodeID otherPeerID enabled a =
     change_fault now clusterID targetNodeID (\<lambda>fault. fault\<lparr>fs_Partition :=
       partition_next otherPeerID enabled (fs_Partition fault)
         @ (if enabled \<and> otherPeerID \<notin> set (fs_Partition fault) then [otherPeerID] else [])\<rparr>) a"

definition set_partition :: "actor_input \<Rightarrow> command \<Rightarrow> actor \<Rightarrow> actor \<times> (actor_error + reply)" where
  "set_partition inp cmd a =
     (case updateNodePartition (ai_clock inp 0) (cmd_ClusterID cmd) (cmd_NodeID cmd) (cmd_PeerID cmd) (cmd_Enabled cmd) a of
        (a, Some e) \<Rightarrow> (a, Inl e)
      | (a, None) \<Rightarrow>
          (fst (updateNodePartition (ai_clock inp 1) (cmd_ClusterID cmd) (cmd_PeerID cmd) (cmd_NodeID cmd) (cmd_Enabled cmd) a), Inr RSymmetric))"

section \<open>Hypotheses\<close>

definition write_keys_step :: "timeline_step \<Rightarrow> string list \<Rightarrow> string list" where
  "write_keys_step st keys =
     (if trim_space (tst_Action st) \<noteq> ''write'' then keys
      else let key = trim_space (tst_Key st) in
        if key = [] then keys else if key \<in> set keys then keys else keys @ [key])"

definition collectHypothesisWriteKeys :: "experiment_spec option \<Rightarrow> string list" where
  "collectHypothesisWriteKeys e = (case e of None \<Rightarrow> [] | Some e \<Rightarrow> fold write_keys_step (x_Timeline e) [])"

definition runHypothesis :: "actor_input \<Rightarrow> command \<Rightarrow> actor \<Rightarrow> actor \<times> (actor_error + reply)" where
  "runHypothesis inp cmd a =
     (let relOrAbsPath = trim_space (cmd_FilePath cmd) in
      if relOrAbsPath = [] then (a, Inl PathRequired)
      else
        let projectRoot = first_of [trim_space (cmd_ProjectRoot cmd), trim_space (ao_ProjectRoot (a_options a)), ''.''];
            absPath = (if has_prefix relOrAbsPath ''/'' then relOrAbsPath else ai_join inp projectRoot relOrAbsPath)
        in case ai_load inp absPath of
             Inl e \<Rightarrow> (a, Inl (LoadFailed e))
           | Inr e \<Rightarrow>
               let clusterID = trim_space (cc_ID (x_Cluster e)) in
               if clusterID = [] then (a, Inl HypothesisClusterID)
               else case Compile (Some e) \<lparr>co_ClusterID = clusterID, co_ControlPlaneHost = ao_DefaultCPHost (a_options a),
                      co_ControlPlanePort = ao_DefaultCPPort (a_options a)\<rparr> of
                 Inl er \<Rightarrow> (a, Inl (CompileError er))
               | Inr batches \<Rightarrow>
                   (a\<lparr>a_hypotheses := a_hypotheses a @ [\<lparr>hy_Name = x_Name e, hy_ClusterID = clusterID, hy_Path = absPath,
                        hy_Batches = batches, hy_TrackedKeys = collectHypothesisWriteKeys (Some e)\<rparr>]\<rparr>,
                    Inr (RHypothesis (x_Name e) clusterID relOrAbsPath absPath (length batches))))"

section \<open>One command\<close>

definition with_error :: "reply \<Rightarrow> actor \<times> actor_error option \<Rightarrow> 'w \<Rightarrow> ('w turn) option" where
  "with_error r res w = Some ((fst res, w), case snd res of Some e \<Rightarrow> Inl e | None \<Rightarrow> Inr r)"

definition list_clusters :: "actor \<Rightarrow> (string \<times> string \<times> cluster_node list) list" where
  "list_clusters a = concat (map (\<lambda>i. case service_GetNodes i (a_service a) of
     Inl _ \<Rightarrow> []
   | Inr nodes \<Rightarrow> [(i, (case GetCluster i (svc_cluster (a_service a)) of Inl _ \<Rightarrow> [] | Inr c \<Rightarrow> cl_Protocol c), nodes)])
   (GetClusters (svc_cluster (a_service a))))"

definition kv_put :: "'w node_operator \<Rightarrow> kv_wire \<Rightarrow> command \<Rightarrow> actor \<times> 'w \<Rightarrow> 'w turn" where
  "kv_put nc wire cmd = (\<lambda>(a, w).
     case ExecuteKVPut nc wire (cmd_ClusterID cmd) (cmd_NodeID cmd) (cmd_Key cmd) (cmd_Value cmd) (a_service a) w of
       ((s', w'), Some e) \<Rightarrow> ((a\<lparr>a_service := s'\<rparr>, w'), Inl (FromService e))
     | ((s', w'), None) \<Rightarrow> ((a\<lparr>a_service := RecordWriteKeyForMetrics (cmd_ClusterID cmd) (cmd_Key cmd) s'\<rparr>, w'), Inr ROk))"

definition kv_get :: "'w node_operator \<Rightarrow> kv_wire \<Rightarrow> command \<Rightarrow> actor \<times> 'w \<Rightarrow> 'w turn" where
  "kv_get nc wire cmd = (\<lambda>(a, w).
     case ExecuteKVGet nc wire (cmd_ClusterID cmd) (cmd_NodeID cmd) (cmd_Key cmd) (a_service a) w of
       (w', Inl e) \<Rightarrow> ((a, w'), Inl (FromService e))
     | (w', Inr r) \<Rightarrow> ((a, w'), Inr (RValue (kr_Value r) (if kr_HasMetadata r then Some (kr_Version r, kr_Origin r) else None))))"

definition metrics_start :: "actor_input \<Rightarrow> command \<Rightarrow> actor \<times> 'w \<Rightarrow> 'w turn" where
  "metrics_start inp cmd = (\<lambda>(a, w).
     case StartMetricsSessionIfInactive (ai_clock inp 0) (cmd_ClusterID cmd) (wrap64 (cmd_IntervalMs cmd * 1000000)) (a_service a) of
       (s', Inl e) \<Rightarrow> ((a\<lparr>a_service := s'\<rparr>, w), Inl (FromService e))
     | (s', Inr _) \<Rightarrow> ((a\<lparr>a_service := s'\<rparr>, w),
         Inr (RMetricsStarted (cmd_ClusterID cmd) (if cmd_IntervalMs cmd \<le> 0 then 1000 else cmd_IntervalMs cmd))))"

definition metrics_stop :: "'w node_operator \<Rightarrow> kv_wire \<Rightarrow> actor_input \<Rightarrow> command \<Rightarrow> actor \<times> 'w \<Rightarrow> 'w turn" where
  "metrics_stop nc wire inp cmd = (\<lambda>(a, w).
     case StopMetricsSession nc wire (ai_clock inp 0) (ai_clock inp 1) (cmd_ClusterID cmd) (a_service a, w) of
       ((s', w'), Inl e) \<Rightarrow> ((a\<lparr>a_service := s'\<rparr>, w'), Inl (FromService e))
     | ((s', w'), Inr x) \<Rightarrow> ((a\<lparr>a_service := s'\<rparr>, w'), Inr (RSnapshot x)))"

text \<open>The cases of the loop.\<close>

definition help_lines :: "string list" where
  "help_lines =
  [''start-node <node-id> <port> [--cluster-id <id>] [--host <host>] [--peers <csv>] [--cp-host <host>] [--cp-port <port>]'',
   ''stop-node <node-id>'',
   ''list-node-procs'',
   ''new-cluster <cluster-id> [--protocol <gossip|raft>] (default: gossip)'',
   ''add-node <cluster-id> <node-id> <host> <port>'',
   ''remove-node <cluster-id> <node-id>'',
   ''list-nodes <cluster-id>'',
   ''list-clusters'',
   ''set-protocol <cluster-id> <gossip|raft>'',
   ''kill-cluster <cluster-id>'',
   ''kv-put <cluster-id> <node-id> <key> <value>'',
   ''kv-get <cluster-id> <node-id> <key>'',
   ''run-hypothesis <relative-experiment-path>'',
   ''metrics-start <cluster-id> [interval-ms]'',
   ''metrics-watch-key <cluster-id> <key>'',
   ''metrics-show <cluster-id>'',
   ''metrics-stop <cluster-id>'',
   ''set-fault <cluster-id> <node-id> <crashed:true|false> <drop-rate:0..1> <delay-ms:int> [partition-csv]'',
   ''fault-crash <cluster-id> <node-id>'',
   ''fault-recover <cluster-id> <node-id>'',
   ''fault-drop <cluster-id> <node-id> <drop-rate:0..1>'',
   ''fault-delay <cluster-id> <node-id> <delay-ms:int>'',
   ''fault-partition <cluster-id> <node-id> <peer-id> <enabled:true|false>'',
   ''help'']"

definition actor_step :: "'w node_operator \<Rightarrow> kv_wire \<Rightarrow> actor_input \<Rightarrow> command \<Rightarrow> actor \<times> 'w \<Rightarrow> ('w turn) option" where
  "actor_step nc wire inp cmd = (\<lambda>(a, w).
     let s = a_service a; now = ai_clock inp 0; c = cmd_ClusterID cmd; n = cmd_NodeID cmd in
     case cmd_Type cmd of
       CmdCreateCluster \<Rightarrow> with_error RNil (on_service (service_CreateCluster now c (cmd_Protocol cmd)) a) w
     | CmdStartNodeProcess \<Rightarrow> with_error (RStarted True n) (startNodeProcess inp cmd a) w
     | CmdStopNodeProcess \<Rightarrow> (case stop_node inp cmd a of (a', r) \<Rightarrow> Some ((a', w), r))
     | CmdListNodeProcesses \<Rightarrow> Some ((a, w), Inr (RProcesses (list_processes a)))
     | CmdAddNode \<Rightarrow> (case service_RegisterNode nc now (ai_clock inp 1) c n (cmd_Host cmd) (cmd_Port cmd) (s, w) of
         (s', w') \<Rightarrow> Some ((a\<lparr>a_service := s'\<rparr>, w'), Inr RNil))
     | CmdRemoveNode \<Rightarrow> (case service_RemoveNode nc c n (s, w) of
         None \<Rightarrow> None
       | Some ((s', w'), e) \<Rightarrow> with_error RNil (a\<lparr>a_service := s'\<rparr>, map_option FromService e) w')
     | CmdListNodes \<Rightarrow> Some ((a, w), case service_GetNodes c s of Inl e \<Rightarrow> Inl (FromService (FromManager e)) | Inr ns \<Rightarrow> Inr (RNodes ns))
     | CmdListClusters \<Rightarrow> Some ((a, w), Inr (RClusters (list_clusters a)))
     | CmdSetFaultParams \<Rightarrow> with_error ROk (on_service (service_SetFaultParams now c n
         \<lparr>fs_Crashed = cmd_Crashed cmd, fs_DropRate = cmd_DropRate cmd, fs_DelayMs = cmd_DelayMs cmd, fs_Partition = cmd_Partition cmd\<rparr>) a) w
     | CmdCrashNode \<Rightarrow> with_error ROk (change_fault now c n (\<lambda>f. f\<lparr>fs_Crashed := True\<rparr>) a) w
     | CmdRecoverNode \<Rightarrow> with_error ROk (change_fault now c n (\<lambda>f. f\<lparr>fs_Crashed := False\<rparr>) a) w
     | CmdSetDropRate \<Rightarrow> with_error ROk (change_fault now c n (\<lambda>f. f\<lparr>fs_DropRate := cmd_DropRate cmd\<rparr>) a) w
     | CmdSetDelay \<Rightarrow> with_error ROk (change_fault now c n (\<lambda>f. f\<lparr>fs_DelayMs := cmd_DelayMs cmd\<rparr>) a) w
     | CmdSetPartition \<Rightarrow> (case set_partition inp cmd a of (a', r) \<Rightarrow> Some ((a', w), r))
     | CmdKVPut \<Rightarrow> Some (kv_put nc wire cmd (a, w))
     | CmdKVGet \<Rightarrow> Some (kv_get nc wire cmd (a, w))
     | CmdSetClusterProtocol \<Rightarrow> (case SetClusterProtocol nc c (cmd_Protocol cmd) (s, w) of
         ((s', w'), e) \<Rightarrow> with_error ROk (a\<lparr>a_service := s'\<rparr>, map_option FromService e) w')
     | CmdKillCluster \<Rightarrow> (case killCluster nc wire inp c (a, w) of
         (aw, Inl e) \<Rightarrow> Some (aw, Inl e) | (aw, Inr stopped) \<Rightarrow> Some (aw, Inr (RKilled c stopped)))
     | CmdMetricsStart \<Rightarrow> Some (metrics_start inp cmd (a, w))
     | CmdMetricsStop \<Rightarrow> Some (metrics_stop nc wire inp cmd (a, w))
     | CmdMetricsWatchKey \<Rightarrow> with_error ROk (on_service (AddMetricsWatchKey c (cmd_Key cmd)) a) w
     | CmdLogLifecycleEvent \<Rightarrow>
         Some ((a\<lparr>a_service := RecordLifecycleEvent now c n (cmd_EventType cmd) (cmd_Value cmd) s\<rparr>, w), Inr ROk)
     | CmdMetricsShow \<Rightarrow> Some ((a, w), case GetMetricsSnapshot c s of Inl e \<Rightarrow> Inl (FromService e) | Inr x \<Rightarrow> Inr (RSnapshot x))
     | CmdMetricsHistory \<Rightarrow> Some ((a, w), Inr (RHistory (GetMetricsHistory c s)))
     | CmdRunHypothesis \<Rightarrow> (case runHypothesis inp cmd a of (a', r) \<Rightarrow> Some ((a', w), r))
     | CmdHelp \<Rightarrow> Some ((a, w), Inr (RHelp help_lines)))"

section \<open>Texts\<close>

datatype runtime_error = ParseFailed parse_error | CommandFailed actor_error

text \<open>A blank text has no reply: \<open>Inr None\<close>.\<close>

definition ExecuteRuntimeCommand ::
  "'w node_operator \<Rightarrow> kv_wire \<Rightarrow> float_parser \<Rightarrow> actor_input \<Rightarrow> string \<Rightarrow> actor \<times> 'w \<Rightarrow> ((actor \<times> 'w) \<times> (runtime_error + reply option)) option" where
  "ExecuteRuntimeCommand nc wire pf inp raw aw = (case runtime_command pf raw of
     None \<Rightarrow> Some (aw, Inr None)
   | Some (Inl e) \<Rightarrow> Some (aw, Inl (ParseFailed e))
   | Some (Inr cmd) \<Rightarrow> (case actor_step nc wire inp cmd aw of
       None \<Rightarrow> None
     | Some (aw', Inl e) \<Rightarrow> Some (aw', Inl (CommandFailed e))
     | Some (aw', Inr r) \<Rightarrow> Some (aw', Inr (Some r))))"

section \<open>A hypothesis run\<close>

fun watch_keys :: "string \<Rightarrow> string list \<Rightarrow> service \<Rightarrow> service \<times> bool" where
  "watch_keys clusterID [] s = (s, True)"
| "watch_keys clusterID (k # ks) s = (case AddMetricsWatchKey clusterID k s of
     (s', Some _) \<Rightarrow> (s', False) | (s', None) \<Rightarrow> watch_keys clusterID ks s')"

text \<open>The flags of the run: metrics started, keys registered.\<close>

definition batch_metrics :: "int \<Rightarrow> hypothesis \<Rightarrow> bool \<times> bool \<Rightarrow> service \<Rightarrow> (bool \<times> bool) \<times> service" where
  "batch_metrics now h flags s = (case flags of (metricsStarted, watchRegistered) \<Rightarrow>
     case (if metricsStarted then (metricsStarted, s)
           else case StartMetricsSessionIfInactive now (hy_ClusterID h) 1000000000 s of
             (s, Inl _) \<Rightarrow> (False, s)
           | (s, Inr startedNow) \<Rightarrow> (startedNow \<or> IsActive (hy_ClusterID h) (svc_metrics s), s)) of
       (metricsStarted, s) \<Rightarrow>
         if metricsStarted \<and> \<not> watchRegistered
         then (case watch_keys (hy_ClusterID h) (hy_TrackedKeys h) s of (s, allWatched) \<Rightarrow> ((metricsStarted, allWatched), s))
         else ((metricsStarted, watchRegistered), s))"

text \<open>
  \<open>env i j\<close> is what the rest of the program does before command \<open>j\<close> of batch \<open>i\<close> (before the batch for
  \<open>j = 0\<close>), and \<open>inp i j\<close> its input.  The flag says whether all commands went through.
\<close>

type_synonym 'w between = "nat \<Rightarrow> nat \<Rightarrow> actor \<times> 'w \<Rightarrow> actor \<times> 'w"

fun run_commands ::
  "'w node_operator \<Rightarrow> kv_wire \<Rightarrow> float_parser \<Rightarrow> (nat \<Rightarrow> actor_input) \<Rightarrow> (nat \<Rightarrow> actor \<times> 'w \<Rightarrow> actor \<times> 'w) \<Rightarrow> nat \<Rightarrow> string list
    \<Rightarrow> actor \<times> 'w \<Rightarrow> ((actor \<times> 'w) \<times> bool) option" where
  "run_commands nc wire pf inp env j [] aw = Some (aw, True)"
| "run_commands nc wire pf inp env j (raw # raws) aw =
     (if has_prefix (trim_space raw) ''run-hypothesis'' \<or> has_prefix (trim_space raw) ''run-experiment''
      then run_commands nc wire pf inp env (j + 1) raws aw
      else case ExecuteRuntimeCommand nc wire pf (inp j) raw (env j aw) of
        None \<Rightarrow> None
      | Some (aw', Inl _) \<Rightarrow> Some (aw', False)
      | Some (aw', Inr _) \<Rightarrow> run_commands nc wire pf inp env (j + 1) raws aw')"

fun run_batches ::
  "'w node_operator \<Rightarrow> kv_wire \<Rightarrow> float_parser \<Rightarrow> (nat \<Rightarrow> nat \<Rightarrow> actor_input) \<Rightarrow> 'w between \<Rightarrow> hypothesis \<Rightarrow> nat \<Rightarrow> command_batch list
    \<Rightarrow> bool \<times> bool \<Rightarrow> actor \<times> 'w \<Rightarrow> ((actor \<times> 'w) \<times> bool \<times> bool) option" where
  "run_batches nc wire pf inp env h i [] flags aw = Some (aw, fst flags, True)"
| "run_batches nc wire pf inp env h i (b # bs) flags aw =
     (let (a, w) = env i 0 aw;
          (flags', s) = batch_metrics (ai_clock (inp i 0) 0) h flags (a_service a)
      in case run_commands nc wire pf (inp i) (env i) 1 (bt_Commands b) (a\<lparr>a_service := s\<rparr>, w) of
           None \<Rightarrow> None
         | Some (aw', False) \<Rightarrow> Some (aw', fst flags', False)
         | Some (aw', True) \<Rightarrow> run_batches nc wire pf inp env h (i + 1) bs flags' aw')"

text \<open>
  The deferred end: the clock of the wait, what the rest of the program does during it and during the
  settling time, and the times of the final sample and stop.
\<close>

record 'w ending =
  fi_start :: int
  fi_clock :: "nat \<Rightarrow> int"
  fi_env :: "nat \<Rightarrow> service \<times> 'w \<Rightarrow> service \<times> 'w"
  fi_settle :: "service \<times> 'w \<Rightarrow> service \<times> 'w"
  fi_sample :: int
  fi_stop :: int

definition finish_hypothesis ::
  "'w node_operator \<Rightarrow> kv_wire \<Rightarrow> 'w ending \<Rightarrow> hypothesis \<Rightarrow> bool \<Rightarrow> bool \<Rightarrow> actor \<times> 'w \<Rightarrow> (actor \<times> 'w) option" where
  "finish_hypothesis nc wire fin h metricsStarted completed = (\<lambda>(a, w).
     if \<not> metricsStarted then Some (a, w)
     else case (if completed
          then (case WaitForConvergence nc wire (fi_start fin) (fi_clock fin) (fi_env fin) (hy_ClusterID h) 15000000000 (a_service a, w) of
                 None \<Rightarrow> None
               | Some (sw, converged) \<Rightarrow> Some (if converged then sw else fi_settle fin sw))
          else Some (a_service a, w)) of
       None \<Rightarrow> None
     | Some sw \<Rightarrow> (case StopMetricsSession nc wire (fi_sample fin) (fi_stop fin) (hy_ClusterID h) sw of
         ((s, w), _) \<Rightarrow> Some (a\<lparr>a_service := s\<rparr>, w)))"

definition executeHypothesis ::
  "'w node_operator \<Rightarrow> kv_wire \<Rightarrow> float_parser \<Rightarrow> (nat \<Rightarrow> nat \<Rightarrow> actor_input) \<Rightarrow> 'w between \<Rightarrow> 'w ending \<Rightarrow> hypothesis
    \<Rightarrow> actor \<times> 'w \<Rightarrow> (actor \<times> 'w) option" where
  "executeHypothesis nc wire pf inp env fin h aw =
     (case run_batches nc wire pf inp env h 0 (hy_Batches h) (False, False) aw of
        None \<Rightarrow> None
      | Some (aw', metricsStarted, completed) \<Rightarrow> finish_hypothesis nc wire fin h metricsStarted completed aw')"

end
