(* ===== verification/ActorSpec.thy ===== *)
theory ActorSpec
  imports Actor
begin

text \<open>
  What the actor's commands do, turn by turn: an invariant for turns that nothing overlaps, the names of managed
  processes, killing a cluster, and partitions on both sides.  Theory \<open>Sections\<close> has the turns that
  overlap with other goroutines.
\<close>

section \<open>Process names\<close>

lemma cut_str_acc_here: "CHR '':'' \<notin> set c \<Longrightarrow> cut_str_acc ''::'' acc (c @ ''::'' @ n) = Some (rev acc @ c, n)"
  by (induction c arbitrary: acc) (auto simp: has_prefix_def)

lemma parse_process_key: "CHR '':'' \<notin> set c \<Longrightarrow> parseManagedProcessKey (managedProcessKey c n) = (c, n)"
  using cut_str_acc_here [of c "[]" n] by (simp add: parseManagedProcessKey_def managedProcessKey_def cut_str_def)

section \<open>The invariant\<close>

text \<open>Every managed process is recorded with the cluster its key begins with.\<close>

definition procs_ok :: "(string, process) gomap \<Rightarrow> (string, string) gomap \<Rightarrow> bool" where
  "procs_ok procs meta \<longleftrightarrow> gm_wf procs \<and> gm_wf meta \<and> dom (map_of procs) = dom (map_of meta)
     \<and> (\<forall>k c. map_of meta k = Some c \<longrightarrow> c \<noteq> [] \<and> (\<exists>n. k = managedProcessKey c n))"

definition actor_ok :: "actor \<Rightarrow> bool" where
  "actor_ok a \<longleftrightarrow> service_ok (a_service a) \<and> procs_ok (a_nodeProcs a) (a_nodeMeta a)"

lemma procs_put: "procs_ok procs meta \<Longrightarrow> c \<noteq> [] \<Longrightarrow> procs_ok (gm_put (managedProcessKey c n) p procs) (gm_put (managedProcessKey c n) c meta)"
  by (auto simp: procs_ok_def)

lemma procs_del: "procs_ok procs meta \<Longrightarrow> procs_ok (gm_del k procs) (gm_del k meta)"
  by (auto simp: procs_ok_def split: if_splits)

lemma actor_ok_service [inv_intros]: "actor_ok a \<Longrightarrow> service_ok s \<Longrightarrow> actor_ok (a\<lparr>a_service := s\<rparr>)"
  by (simp add: actor_ok_def)

lemma actor_ok_serviceD: "actor_ok a \<Longrightarrow> service_ok (a_service a)"
  by (simp add: actor_ok_def)

lemma forget_ok [inv_intros]: "actor_ok a \<Longrightarrow> actor_ok (forget_process k a)"
  by (simp add: actor_ok_def forget_process_def procs_del)

lemma forget_all_ok: "actor_ok a \<Longrightarrow> actor_ok (fold (\<lambda>(key, _). forget_process key) ps a)"
  by (rule fold_invariant) (auto intro: inv_intros)

lemma on_service_ok: "actor_ok a \<Longrightarrow> (\<And>s. service_ok s \<Longrightarrow> service_ok (fst (f s))) \<Longrightarrow> actor_ok (fst (on_service f a))"
  by (auto simp: on_service_def actor_ok_def split: prod.split dest: meta_spec [of _ "a_service a"])

lemma change_fault_ok: "actor_ok a \<Longrightarrow> actor_ok (fst (change_fault now c n f a))"
  by (auto simp: change_fault_def intro!: on_service_ok SetFault_service_ok split: sum.split)

lemma set_partition_ok:
  assumes "actor_ok a"
  shows "actor_ok (fst (set_partition inp cmd a))"
proof -
  have step: "actor_ok x \<Longrightarrow> actor_ok (fst (updateNodePartition now c t q b x))" for x now c t q b
    unfolding updateNodePartition_def by (rule change_fault_ok)
  obtain a1 e where u: "updateNodePartition (ai_clock inp 0) (cmd_ClusterID cmd) (cmd_NodeID cmd) (cmd_PeerID cmd) (cmd_Enabled cmd) a = (a1, e)" by force
  have "actor_ok a1" using step [OF assms, of "ai_clock inp 0" "cmd_ClusterID cmd" "cmd_NodeID cmd" "cmd_PeerID cmd" "cmd_Enabled cmd"] u by simp
  then show ?thesis using step by (cases e) (simp_all add: set_partition_def u)
qed

lemma start_process_ok: "actor_ok a \<Longrightarrow> actor_ok (fst (startNodeProcess inp cmd a))"
  by (auto simp: startNodeProcess_def Let_def actor_ok_def intro!: procs_put split: sum.split)

lemma StopIf_ok: "service_ok (fst sw) \<Longrightarrow> service_ok (fst (StopMetricsSessionIfActive nc wire t1 t2 c sw))"
  by (simp add: StopMetricsSessionIfActive_def Stop_service_ok)

lemma service_step_ops_ok:
  assumes "service_ok s"
  shows "service_ok (fst (service_CreateCluster now c p s))" "service_ok (fst (service_RemoveCluster c s))"
    "service_ok (fst (service_RegisterNode nc t1 t2 c n h port (s, w)))"
    "service_RemoveNode nc c n (s, w) = Some ((s', w'), e) \<Longrightarrow> service_ok s'"
    "service_ok (fst (fst (ExecuteKVPut nc wire c n k v s w)))" "service_ok (fst (fst (SetClusterProtocol nc c p (s, w))))"
    "service_ok (fst (StartMetricsSessionIfInactive now c iv s))" "service_ok (fst (AddMetricsWatchKey c k s))"
    "service_ok (RecordLifecycleEvent now c n ty d s)" "service_ok (RecordWriteKeyForMetrics c k s)"
proof -
  note step = service_step_ok [of "(s, w)" nc wire, simplified, OF assms]
  show "service_ok (fst (service_CreateCluster now c p s))" using step [of "SCreate now c p"] by simp
  show "service_ok (fst (service_RemoveCluster c s))" using step [of "SRemoveCluster c"] by simp
  show "service_ok (fst (service_RegisterNode nc t1 t2 c n h port (s, w)))" using step [of "SRegister t1 t2 c n h port"] by simp
  show "service_RemoveNode nc c n (s, w) = Some ((s', w'), e) \<Longrightarrow> service_ok s'" using step [of "SRemoveNode c n"] by simp
  show "service_ok (fst (fst (ExecuteKVPut nc wire c n k v s w)))" using step [of "SPut c n k v"] by simp
  show "service_ok (fst (fst (SetClusterProtocol nc c p (s, w))))" using step [of "SProtocol c p"] by simp
  show "service_ok (fst (StartMetricsSessionIfInactive now c iv s))" using step [of "SStartIf now c iv"] by simp
  show "service_ok (fst (AddMetricsWatchKey c k s))" using step [of "SWatch c k"] by simp
  show "service_ok (RecordWriteKeyForMetrics c k s)" using step [of "SWrote c k"] by simp
  show "service_ok (RecordLifecycleEvent now c n ty d s)" by (rule records_only_ok [OF records_lifecycle assms])
qed

lemma kill_cluster_ok:
  assumes "actor_ok (fst aw)"
  shows "actor_ok (fst (fst (killCluster nc wire inp c0 aw)))"
proof (cases "trim_space c0 = []")
  case False
  obtain a w where aw: "aw = (a, w)" by force
  define c where "c = trim_space c0"
  obtain s1 w1 where st: "StopMetricsSessionIfActive nc wire (ai_clock inp 0) (ai_clock inp 1) c (a_service a, w) = (s1, w1)" by force
  have ok: "actor_ok (a\<lparr>a_service := s1\<rparr>)"
    using assms StopIf_ok [of "(a_service a, w)" nc wire "ai_clock inp 0" "ai_clock inp 1" c] st by (auto simp: aw actor_ok_def)
  let ?f = "\<lambda>ps. fold (\<lambda>(key, _). forget_process key) ps (a\<lparr>a_service := s1\<rparr>)"
  have f: "actor_ok (?f ps)" for ps by (rule forget_all_ok [OF ok])
  define ps where "ps = filter (\<lambda>(key, _). gm_getd [] (a_nodeMeta a) key = c) (a_nodeProcs a)"
  obtain a2 e where d: "drop_cluster c (?f ps) = (a2, e)" by force
  have "actor_ok (fst (drop_cluster c (?f ps)))"
    using f [of ps] by (auto simp: drop_cluster_def intro!: on_service_ok service_step_ops_ok(2) split: sum.split)
  then have "actor_ok a2" using d by simp
  then show ?thesis using ok False st d
    by (cases "kill_all inp ps 0"; cases e) (simp_all add: killCluster_def aw c_def [symmetric] ps_def [symmetric] Let_def split: prod.split)
qed (use assms in \<open>cases aw, simp add: killCluster_def\<close>)

lemma actor_step_ok:
  assumes "actor_ok (fst aw)" "actor_step nc wire inp cmd aw = Some (aw', r)"
  shows "actor_ok (fst aw')"
proof -
  obtain a w where aw: "aw = (a, w)" by force
  have ok: "actor_ok a" and s: "service_ok (a_service a)" using assms(1) by (simp_all add: aw actor_ok_def)
  note ops = service_step_ops_ok [OF s]
  note step = assms(2) [unfolded aw actor_step_def kv_put_def kv_get_def metrics_start_def metrics_stop_def Let_def]
  show ?thesis
  proof (cases "cmd_Type cmd")
    case CmdKillCluster
    then show ?thesis using step kill_cluster_ok [of "(a, w)" nc wire inp "cmd_ClusterID cmd"] ok by (auto split: prod.splits sum.splits)
  next
    case CmdMetricsStop
    then show ?thesis using step Stop_service_ok [of "(a_service a, w)" nc wire "ai_clock inp 0" "ai_clock inp 1" "cmd_ClusterID cmd"] ok s
      by (auto intro: inv_intros split: prod.splits sum.splits)
  next
    case CmdSetPartition
    then show ?thesis using step set_partition_ok [OF ok, of inp cmd] by (auto split: prod.splits)
  next
    case CmdKVPut
    have "service_ok s' \<Longrightarrow> actor_ok (a\<lparr>a_service := RecordWriteKeyForMetrics c k s'\<rparr>)" for s' c k
      using ok service_step_ops_ok(10) by (auto intro: inv_intros)
    then show ?thesis using CmdKVPut step ok ops(5) [of nc wire "cmd_ClusterID cmd" "cmd_NodeID cmd" "cmd_Key cmd" "cmd_Value cmd" w]
      by (auto intro: inv_intros split: prod.splits option.splits)
  next
    case CmdSetClusterProtocol
    then show ?thesis using step ok ops(6) [of nc "cmd_ClusterID cmd" "cmd_Protocol cmd" w] by (auto simp: with_error_def intro: inv_intros split: prod.splits)
  next
    case CmdMetricsStart
    then show ?thesis using step ok ops(7) [of "ai_clock inp 0" "cmd_ClusterID cmd" "wrap64 (cmd_IntervalMs cmd * 1000000)"]
      by (auto intro: inv_intros split: prod.splits sum.splits)
  next
    case CmdAddNode
    then show ?thesis using step ok ops(3) [of nc "ai_clock inp 0" "ai_clock inp 1" "cmd_ClusterID cmd" "cmd_NodeID cmd" "cmd_Host cmd" "cmd_Port cmd" w]
      by (auto intro: inv_intros split: prod.splits)
  next
    case CmdRemoveNode
    then show ?thesis using step ok by (auto simp: with_error_def intro!: actor_ok_service dest: service_step_ops_ok(4) [OF s] split: prod.splits option.splits)
  next
    case CmdStopNodeProcess
    then show ?thesis using step ok by (auto simp: stop_node_def intro: inv_intros split: prod.splits option.splits sum.splits)
  next
    case CmdRunHypothesis
    then show ?thesis using step ok by (auto simp: runHypothesis_def Let_def actor_ok_def split: prod.splits sum.splits if_splits)
  qed (use step ok s in \<open>auto simp: with_error_def intro!: on_service_ok change_fault_ok start_process_ok SetFault_service_ok
      service_step_ops_ok(1) service_step_ops_ok(8) service_step_ops_ok(9) actor_ok_service split: prod.splits sum.splits\<close>)
qed

lemma actor_ok_new: "service_ok s \<Longrightarrow> actor_ok (NewActor s opts)"
  by (simp add: actor_ok_def NewActor_def procs_ok_def)

lemma step_panics:
  "actor_step nc wire inp cmd (a, w) = None \<longleftrightarrow>
     cmd_Type cmd = CmdRemoveNode \<and> (\<nexists>n. GetNode (cmd_ClusterID cmd) (cmd_NodeID cmd) (svc_cluster (a_service a)) = Inr n)"
proof (cases "cmd_Type cmd = CmdRemoveNode")
  case True
  then show ?thesis
    by (auto simp: actor_step_def service_RemoveNode_def with_error_def Let_def split: sum.splits prod.splits option.splits)
next
  case False
  then show ?thesis
    by (cases "cmd_Type cmd") (simp_all add: actor_step_def kv_put_def kv_get_def metrics_start_def metrics_stop_def with_error_def Let_def split: prod.split sum.split option.split)
qed

text \<open>
  C30: Which command brings the control plane down.  A turn of the actor panics exactly if the command is to
  remove a node that its cluster does not have, or from a cluster that does not exist.
\<close>

theorem actor_panics_iff:
  "actor_step nc wire inp cmd (a, w) = None \<longleftrightarrow>
     cmd_Type cmd = CmdRemoveNode \<and> (\<nexists>n. GetNode (cmd_ClusterID cmd) (cmd_NodeID cmd) (svc_cluster (a_service a)) = Inr n)"
  by (rule step_panics)

section \<open>Faults\<close>

lemma GetNode_set_node:
  "map_of (m_clusters m) c = Some cl \<Longrightarrow>
     GetNode c' j (set_node c cl n nd m) = (if c' = c \<and> j = n then Inr nd else GetNode c' j m)"
  by (auto simp: GetNode_def set_node_def set_cluster_def)

lemma service_fault_cluster:
  "svc_cluster (fst (service_SetFaultParams now c n f s)) = fst (manager_SetFaultParams c n f (svc_cluster s))
     \<and> snd (service_SetFaultParams now c n f s) = map_option FromManager (snd (manager_SetFaultParams c n f (svc_cluster s)))"
proof -
  obtain m e where m: "manager_SetFaultParams c n f (svc_cluster s) = (m, e)" by force
  have l: "svc_cluster (RecordLifecycleEvent now c n ty d x) = svc_cluster x" for ty d x
    by (rule records_only_cluster [OF records_lifecycle])
  show ?thesis by (cases e) (simp_all add: service_SetFaultParams_def on_manager_def m Let_def l split: sum.split)
qed

definition forwards :: "actor \<Rightarrow> bool" where
  "forwards a \<longleftrightarrow> (case m_ns (svc_cluster (a_service a)) of None \<Rightarrow> True | Some ns \<Rightarrow> \<forall>h p i f. ns h p i f = None)"

abbreviation node_at :: "actor \<Rightarrow> string \<Rightarrow> string \<Rightarrow> manager_error + cluster_node" where
  "node_at a c i \<equiv> GetNode c i (svc_cluster (a_service a))"

lemma change_fault_effect:
  assumes "node_at a c n = Inr nd" "forwards a" "change_fault now c n f a = (a', e)"
  shows "e = None" "forwards a'"
    "node_at a' c' j = (if c' = c \<and> j = n then Inr (nd\<lparr>cn_Fault := f (cn_Fault nd),
       cn_Status := (if fs_Crashed (f (cn_Fault nd)) then ''crashed'' else ''active'')\<rparr>) else node_at a c' j)"
proof -
  let ?m = "svc_cluster (a_service a)" and ?f = "f (cn_Fault nd)"
  obtain cl where cl: "map_of (m_clusters ?m) c = Some cl" "map_of (cl_Nodes cl) n = Some nd" using assms(1) by (auto simp: GetNode_Inr)
  have man: "manager_SetFaultParams c n ?f ?m =
      (set_node c cl n (nd\<lparr>cn_Fault := ?f, cn_Status := (if fs_Crashed ?f then ''crashed'' else ''active'')\<rparr>) ?m, None)"
    using cl assms(2) by (auto simp: manager_SetFaultParams_def Let_def forwards_def split: option.splits)
  have a': "svc_cluster (a_service a') = fst (manager_SetFaultParams c n ?f ?m)" "e = None"
    using assms(1,3) service_fault_cluster [of now c n ?f "a_service a"] man
    by (auto simp: change_fault_def on_service_def split: prod.splits)
  show "e = None" by (fact a'(2))
  show "forwards a'" using assms(2) by (simp add: forwards_def a'(1) man) (simp add: set_node_def set_cluster_def)
  show "node_at a' c' j = (if c' = c \<and> j = n then Inr (nd\<lparr>cn_Fault := ?f, cn_Status := (if fs_Crashed ?f then ''crashed'' else ''active'')\<rparr>)
      else node_at a c' j)"
    unfolding a'(1) man fst_conv by (rule GetNode_set_node [OF cl(1)])
qed

lemma partition_next_set: "set (partition_next q en ps) = (if en then set ps else set ps - {q})"
  by (induction ps) auto

lemma partition_updated:
  "set (partition_next q en ps @ (if en \<and> q \<notin> set ps then [q] else [])) = (if en then insert q (set ps) else set ps - {q})"
  by (auto simp: partition_next_set)

text \<open>
  C29: Partitions are symmetric.  If both nodes of the command are registered and the nodes accept their fault
  parameters, cutting the link records each node in the partition of the other, and healing it removes both
  entries; the other faults of the two nodes and all other nodes stay as they are.
\<close>

theorem partition_symmetric:
  assumes "node_at a c x = Inr nx" "node_at a c y = Inr ny" "x \<noteq> y" "forwards a"
    and "set_partition inp (cmd\<lparr>cmd_ClusterID := c, cmd_NodeID := x, cmd_PeerID := y, cmd_Enabled := en\<rparr>) a = (a', r)"
  shows "r = Inr RSymmetric
    \<and> (\<exists>nx' ny'. node_at a' c x = Inr nx' \<and> node_at a' c y = Inr ny'
         \<and> set (fs_Partition (cn_Fault nx')) = (if en then insert y (set (fs_Partition (cn_Fault nx))) else set (fs_Partition (cn_Fault nx)) - {y})
         \<and> set (fs_Partition (cn_Fault ny')) = (if en then insert x (set (fs_Partition (cn_Fault ny))) else set (fs_Partition (cn_Fault ny)) - {x})
         \<and> (cn_Fault nx')\<lparr>fs_Partition := []\<rparr> = (cn_Fault nx)\<lparr>fs_Partition := []\<rparr> \<and> (cn_Fault ny')\<lparr>fs_Partition := []\<rparr> = (cn_Fault ny)\<lparr>fs_Partition := []\<rparr>)
    \<and> (\<forall>c' j. (c', j) \<notin> {(c, x), (c, y)} \<longrightarrow> node_at a' c' j = node_at a c' j)"
proof -
  let ?upd = "\<lambda>q f. f\<lparr>fs_Partition := partition_next q en (fs_Partition f) @ (if en \<and> q \<notin> set (fs_Partition f) then [q] else [])\<rparr>"
  obtain a1 e1 where 1: "change_fault (ai_clock inp 0) c x (?upd y) a = (a1, e1)" by force
  note c1 = change_fault_effect [OF assms(1,4) 1]
  have y1: "node_at a1 c y = Inr ny" using c1(3) [of c y] assms(2,3) by simp
  obtain a2 e2 where 2: "change_fault (ai_clock inp 1) c y (?upd x) a1 = (a2, e2)" by force
  note c2 = change_fault_effect [OF y1 c1(2) 2]
  have res: "a' = a2" "r = Inr RSymmetric"
    using assms(5) 1 2 c1(1) by (simp_all add: set_partition_def updateNodePartition_def)
  have one: "set (fs_Partition (?upd q f)) = (if en then insert q (set (fs_Partition f)) else set (fs_Partition f) - {q})" for q f
    by (rule trans [OF arg_cong [where f = set] partition_updated]) simp
  obtain nx' where nx: "node_at a2 c x = Inr nx'" "cn_Fault nx' = ?upd y (cn_Fault nx)"
    using c2(3) [of c x] c1(3) [of c x] assms(3) by simp
  obtain ny' where ny: "node_at a2 c y = Inr ny'" "cn_Fault ny' = ?upd x (cn_Fault ny)" using c2(3) [of c y] by simp
  have "set (fs_Partition (cn_Fault nx')) = (if en then insert y (set (fs_Partition (cn_Fault nx))) else set (fs_Partition (cn_Fault nx)) - {y})"
    "set (fs_Partition (cn_Fault ny')) = (if en then insert x (set (fs_Partition (cn_Fault ny))) else set (fs_Partition (cn_Fault ny)) - {x})"
    unfolding nx(2) ny(2) by (rule one)+
  moreover have "(cn_Fault nx')\<lparr>fs_Partition := []\<rparr> = (cn_Fault nx)\<lparr>fs_Partition := []\<rparr>" "(cn_Fault ny')\<lparr>fs_Partition := []\<rparr> = (cn_Fault ny)\<lparr>fs_Partition := []\<rparr>"
    unfolding nx(2) ny(2) by simp_all
  moreover have "node_at a2 c' j = node_at a c' j" if "(c', j) \<notin> {(c, x), (c, y)}" for c' j
    using that c2(3) [of c' j] c1(3) [of c' j] by auto
  ultimately show ?thesis unfolding res(1) using nx(1) ny(1) res(2) by blast
qed

definition pair_actor :: actor where
  "pair_actor = NewActor (NewClusterService (fst (RegisterNode 0 ''c'' ''y'' ''h'' 2 (fst (RegisterNode 0 ''c'' ''x'' ''h'' 1 (NewManager []))))))
     \<lparr>ao_ProjectRoot = [], ao_DefaultCPHost = [], ao_DefaultCPPort = 0, ao_NodeBinaryPath = []\<rparr>"

definition idle_input :: actor_input where
  "idle_input = \<lparr>ai_clock = int, ai_spawn = (\<lambda>_ _. Inr 7), ai_kill = (\<lambda>_. KillDone), ai_load = (\<lambda>_. Inl NilExperiment), ai_join = (\<lambda>a b. a @ ''/'' @ b)\<rparr>"

lemma pair_nodes: "node_at pair_actor ''c'' ''x'' = Inr (fresh_node ''x'' ''h'' 1 0)" "node_at pair_actor ''c'' ''y'' = Inr (fresh_node ''y'' ''h'' 2 0)"
  "forwards pair_actor"
  by (simp_all add: pair_actor_def NewActor_def NewClusterService_def GetNode_nodes_of RegisterNode_nodes forwards_def)
     (simp add: RegisterNode_def NewManager_def set_cluster_def Let_def)

theorem partition_symmetric_witness:
  "\<exists>nx'. node_at (fst (set_partition idle_input ((NewCommand CmdSetPartition)\<lparr>cmd_ClusterID := ''c'', cmd_NodeID := ''x'', cmd_PeerID := ''y'', cmd_Enabled := True\<rparr>) pair_actor))
       ''c'' ''x'' = Inr nx' \<and> set (fs_Partition (cn_Fault nx')) = {''y''}"
  using partition_symmetric [OF pair_nodes(1,2) _ pair_nodes(3) prod.collapse [symmetric], where inp = idle_input and cmd = "NewCommand CmdSetPartition" and en = True]
  by (auto simp: fresh_node_def DefaultFaultState_def)

section \<open>Killing a cluster\<close>

lemma stop_live:
  assumes "trim_space c \<noteq> []" "StopMetricsSession nc wire t1 t2 c (s, w) = ((s', w'), res)"
  shows "live c' (svc_metrics s') \<longleftrightarrow> c' \<noteq> trim_space c \<and> live c' (svc_metrics s)" "svc_cluster s' = svc_cluster s"
proof -
  obtain s1 w1 where s1: "sampleAllTrackedKeys nc wire t1 (trim_space c) (s, w) = (s1, w1)" by force
  have rec: "records_only s s1" using records_sample [of "(s, w)" nc wire t1 "trim_space c"] s1 by simp
  have cl: "svc_cluster (cancel_loop k x) = svc_cluster x" for k x by (simp add: cancel_loop_def split: option.split)
  define m where "m = UpdateSessionStats (trim_space c) (stats_since_baseline (trim_space c) (cancel_loop (trim_space c) s1)) (svc_metrics s1)"
  have m: "live x m = live x (svc_metrics s)" for x
    using neutral_stats [of "svc_metrics s1"] rec by (auto simp: m_def neutral_def records_only_def)
  obtain m' e where st: "session_Stop (trim_space c) t2 m = (m', e)" by force
  have st': "\<exists>b. svc_metrics s' = (if e = None then m' else m) \<and> svc_cluster s' = svc_cluster (cancel_loop (trim_space c) s1)"
    using assms(2) s1 st by (cases e) (auto simp: StopMetricsSession_def Let_def m_def cancel_fields)
  show "svc_cluster s' = svc_cluster s" using st' by (simp add: cl records_only_cluster [OF rec])
  show "live c' (svc_metrics s') \<longleftrightarrow> c' \<noteq> trim_space c \<and> live c' (svc_metrics s)"
  proof (cases e)
    case None
    then show ?thesis using live_Stop [OF st [unfolded None]] st' by (simp add: trim_space_idem m)
  next
    case (Some er)
    then show ?thesis using Stop_error [OF st [unfolded Some]] st' assms(1) by (auto simp: trim_space_idem m)
  qed
qed

lemma stop_if_live:
  assumes "trim_space c = c" "c \<noteq> []" "StopMetricsSessionIfActive nc wire t1 t2 c (s, w) = (s', w')"
  shows "live c' (svc_metrics s') \<longleftrightarrow> c' \<noteq> c \<and> live c' (svc_metrics s)" "svc_cluster s' = svc_cluster s"
proof -
  have "(live c' (svc_metrics s') \<longleftrightarrow> c' \<noteq> c \<and> live c' (svc_metrics s)) \<and> svc_cluster s' = svc_cluster s"
  proof (cases "IsActive c (svc_metrics s)")
    case True
    then obtain res where "StopMetricsSession nc wire t1 t2 c (s, w) = ((s', w'), res)"
      using assms(3) by (cases "StopMetricsSession nc wire t1 t2 c (s, w)") (simp add: StopMetricsSessionIfActive_def)
    from stop_live [OF _ this] show ?thesis using assms(1,2) by simp
  next
    case False
    then show ?thesis using assms by (auto simp: StopMetricsSessionIfActive_def IsActive_live)
  qed
  then show "live c' (svc_metrics s') \<longleftrightarrow> c' \<noteq> c \<and> live c' (svc_metrics s)" "svc_cluster s' = svc_cluster s" by blast+
qed

lemma forget_all_map:
  "map_of (a_nodeProcs (fold (\<lambda>(key, _). forget_process key) ps a)) k = (if k \<in> fst ` set ps then None else map_of (a_nodeProcs a) k)"
  "map_of (a_nodeMeta (fold (\<lambda>(key, _). forget_process key) ps a)) k = (if k \<in> fst ` set ps then None else map_of (a_nodeMeta a) k)"
  "a_service (fold (\<lambda>(key, _). forget_process key) ps a) = a_service a"
  by (induction ps arbitrary: a) (auto simp: forget_process_def)

definition kills :: "actor_input \<Rightarrow> actor \<Rightarrow> bool" where
  "kills inp a \<longleftrightarrow> (\<forall>(key, p) \<in> set (a_nodeProcs a). killProcessTree inp p = None)"

lemma kill_all_done: "\<forall>(key, p) \<in> set ps. killProcessTree inp p = None \<Longrightarrow> kill_all inp ps n = Inr (n + length ps)"
  by (induction ps arbitrary: n) auto

lemma drop_cluster_done:
  "drop_cluster c a = (a', e) \<Longrightarrow> e = None \<and> svc_metrics (a_service a') = svc_metrics (a_service a) \<and> a_nodeProcs a' = a_nodeProcs a
     \<and> a_nodeMeta a' = a_nodeMeta a
     \<and> GetCluster c' (svc_cluster (a_service a')) = (if c' = c then Inl ClusterNotFound else GetCluster c' (svc_cluster (a_service a)))"
  by (auto simp: drop_cluster_def GetCluster_def on_service_def service_RemoveCluster_def on_manager_def RemoveCluster_def split: option.splits if_splits)

lemma to_kill:
  assumes "procs_ok procs meta" "c \<noteq> []"
  defines "ps \<equiv> filter (\<lambda>(key, _). gm_getd [] meta key = c) procs"
  shows "fst ` set ps = {k. map_of meta k = Some c}" "length ps = card {k. map_of meta k = Some c}"
proof -
  have wf: "gm_wf procs" and dom: "dom (map_of procs) = dom (map_of meta)" using assms(1) by (simp_all add: procs_ok_def)
  have iff: "gm_getd [] meta k = c \<longleftrightarrow> map_of meta k = Some c" for k using assms(2) by (auto simp: gm_getd_def split: option.splits)
  have "fst ` set ps = fst ` set procs \<inter> {k. map_of meta k = Some c}" by (force simp: ps_def iff)
  also have "fst ` set procs = dom (map_of meta)" using dom by (simp add: dom_map_of_conv_image_fst)
  finally show keys: "fst ` set ps = {k. map_of meta k = Some c}" by blast
  have "distinct (map fst ps)" using gm_wf_filter [OF wf] by (simp add: ps_def gm_wf_def)
  from distinct_card [OF this] show "length ps = card {k. map_of meta k = Some c}" by (simp add: keys)
qed

text \<open>
  C28: Killing a cluster removes exactly its processes.  If the processes can be killed, the processes recorded
  for the cluster and the cluster itself are gone afterwards, its session is stopped, and all other
  processes, clusters and sessions are as before.  The reply is the number of processes killed, but an
  error if the cluster had none, although it was removed.
\<close>

theorem kill_cluster_exact:
  assumes "actor_ok a" "kills inp a" "trim_space c = c" "c \<noteq> []" "killCluster nc wire inp c (a, w) = ((a', w'), r)"
  shows "(\<forall>k. map_of (a_nodeProcs a') k = (if map_of (a_nodeMeta a) k = Some c then None else map_of (a_nodeProcs a) k))
    \<and> (\<forall>k. map_of (a_nodeMeta a') k = (if map_of (a_nodeMeta a) k = Some c then None else map_of (a_nodeMeta a) k))
    \<and> (\<forall>c'. GetCluster c' (svc_cluster (a_service a')) = (if c' = c then Inl ClusterNotFound else GetCluster c' (svc_cluster (a_service a))))
    \<and> (\<forall>c'. live c' (svc_metrics (a_service a')) \<longleftrightarrow> c' \<noteq> c \<and> live c' (svc_metrics (a_service a)))
    \<and> r = (if (\<exists>k. map_of (a_nodeMeta a) k = Some c) then Inr (card {k. map_of (a_nodeMeta a) k = Some c}) else Inl (NoProcesses c))"
proof -
  obtain s1 w1 where st: "StopMetricsSessionIfActive nc wire (ai_clock inp 0) (ai_clock inp 1) c (a_service a, w) = (s1, w1)" by force
  define ps where "ps = filter (\<lambda>(key, _). gm_getd [] (a_nodeMeta a) key = c) (a_nodeProcs a)"
  have p: "procs_ok (a_nodeProcs a) (a_nodeMeta a)" using assms(1) by (simp add: actor_ok_def)
  note tk = to_kill [OF p assms(4), folded ps_def]
  have all: "kill_all inp ps 0 = Inr (length ps)" using kill_all_done [of ps inp 0] assms(2) by (auto simp: kills_def ps_def)
  let ?b = "fold (\<lambda>(key, _). forget_process key) ps (a\<lparr>a_service := s1\<rparr>)"
  obtain a2 e where d: "drop_cluster c ?b = (a2, e)" by force
  note dd = drop_cluster_done [OF d]
  have r: "a' = a2 \<and> r = (if length ps = 0 then Inl (NoProcesses c) else Inr (length ps))"
    using assms(3-5) st d dd all by (simp add: killCluster_def ps_def [symmetric] Let_def)
  have fin: "finite {k. map_of (a_nodeMeta a) k = Some c}" by (rule finite_subset [OF _ finite_dom_map_of [of "a_nodeMeta a"]]) auto
  have "length ps = 0 \<longleftrightarrow> (\<nexists>k. map_of (a_nodeMeta a) k = Some c)" unfolding tk(2) card_0_eq [OF fin] by auto
  then have "r = (if (\<exists>k. map_of (a_nodeMeta a) k = Some c) then Inr (card {k. map_of (a_nodeMeta a) k = Some c}) else Inl (NoProcesses c))"
    using r by (simp add: tk(2))
  then show ?thesis using r dd stop_if_live [OF assms(3,4) st] by (simp add: forget_all_map tk(1))
qed

theorem kill_cluster_exact_witness:
  "snd (killCluster demo_operator demo_wire idle_input ''c'' (pair_actor, ())) = Inl (NoProcesses ''c'')
   \<and> GetCluster ''c'' (svc_cluster (a_service (fst (fst (killCluster demo_operator demo_wire idle_input ''c'' (pair_actor, ())))))) = Inl ClusterNotFound"
proof -
  have c: "trim_space ''c'' = ''c''" by (rule trim_space_word) (simp add: is_word_def is_space_def)
  have m: "manager_ok (NewManager [])" by (simp add: NewManager_def manager_ok_def)
  have "actor_ok pair_actor"
    unfolding pair_actor_def by (intro actor_ok_new service_ok_new manager_step_ok [of _ "DoRegisterNode t c n h p" for t c n h p, simplified] m)
  moreover have "kills idle_input pair_actor" by (simp add: kills_def pair_actor_def NewActor_def)
  moreover obtain a' w' r where k: "killCluster demo_operator demo_wire idle_input ''c'' (pair_actor, ()) = ((a', w'), r)" by (metis prod.collapse)
  moreover have "a_nodeMeta pair_actor = []" by (simp add: pair_actor_def NewActor_def)
  ultimately show ?thesis using kill_cluster_exact [of pair_actor idle_input "''c''" demo_operator demo_wire "()" a' w' r] c by simp
qed

section \<open>A process that exits late\<close>

lemma find_one:
  assumes "findManagedProcessByNodeIDLocked n a = Inr (key, p)" "k \<in> set (gm_keys (a_nodeProcs a))"
  shows "snd (parseManagedProcessKey k) \<noteq> n \<or> k = key"
proof -
  have "filter (\<lambda>key. snd (parseManagedProcessKey key) = n) (gm_keys (a_nodeProcs a)) = [key]"
    using assms(1) by (auto simp: findManagedProcessByNodeIDLocked_def split: list.splits option.splits)
  then have "set (filter (\<lambda>key. snd (parseManagedProcessKey key) = n) (gm_keys (a_nodeProcs a))) = {key}" by simp
  then show ?thesis using assms(2) by auto
qed

text \<open>
  A process that exits late orphans its successor.  Stopping a node and starting it again leaves two
  waiting goroutines for one name.  When the old process is reaped after the start, its goroutine deletes
  the entry of the new process: the new process runs on, and can no longer be stopped by its name.
\<close>

theorem late_exit_orphans:
  assumes "stop_node inp1 cmd a = (a1, Inr r)" "startNodeProcess inp2 cmd a1 = (a2, None)" "cmd_ClusterID cmd \<noteq> []"
  defines "key \<equiv> managedProcessKey (cmd_ClusterID cmd) (cmd_NodeID cmd)"
  shows "(\<exists>p. map_of (a_nodeProcs a2) key = Some p) \<and> map_of (a_nodeProcs (process_exit key a2)) key = None
    \<and> stop_node inp3 cmd (process_exit key a2) = (process_exit key a2, Inl (ProcessNotRunning (cmd_NodeID cmd)))"
proof -
  obtain k p where k: "findManagedProcessByNodeIDLocked (cmd_NodeID cmd) a = Inr (k, p)" "a1 = forget_process k a"
    using assms(1) by (auto simp: stop_node_def split: sum.splits option.splits)
  obtain p' where p': "a_nodeProcs a2 = gm_put key p' (a_nodeProcs a1)"
    using assms(2,3) by (auto simp: startNodeProcess_def Let_def key_def split: if_splits sum.splits)
  have none: "snd (parseManagedProcessKey x) \<noteq> cmd_NodeID cmd" if "x \<in> set (gm_keys (a_nodeProcs (process_exit key a2)))" for x
  proof -
    have "x \<in> set (gm_keys (a_nodeProcs a))" "x \<noteq> k"
      using that by (auto simp: process_exit_def forget_process_def p' k(2) set_gm_keys split: if_splits)
    then show ?thesis using find_one [OF k(1)] by blast
  qed
  then have "findManagedProcessByNodeIDLocked (cmd_NodeID cmd) (process_exit key a2) = Inl (ProcessNotRunning (cmd_NodeID cmd))"
    by (simp add: findManagedProcessByNodeIDLocked_def filter_empty_conv split: list.split)
  then show ?thesis by (simp add: stop_node_def p' process_exit_def forget_process_def)
qed

definition node_command :: command where
  "node_command = (NewCommand CmdStartNodeProcess)\<lparr>cmd_ClusterID := ''c'', cmd_NodeID := ''x''\<rparr>"

theorem late_exit_orphans_witness:
  "\<exists>a1 a2. stop_node idle_input node_command (fst (startNodeProcess idle_input node_command pair_actor)) = (a1, Inr (RStopped ''x''))
     \<and> startNodeProcess idle_input node_command a1 = (a2, None)
     \<and> snd (stop_node idle_input node_command (process_exit ''c::x'' a2)) = Inl (ProcessNotRunning ''x'')"
proof -
  have c: "cmd_ClusterID node_command = ''c''" "cmd_NodeID node_command = ''x''" by (simp_all add: node_command_def)
  have key: "managedProcessKey ''c'' ''x'' = ''c::x''" by (simp add: managedProcessKey_def)
  have parse: "parseManagedProcessKey ''c::x'' = (''c'', ''x'')" using parse_process_key [of "''c''" "''x''"] by (simp add: key)
  have e: "a_nodeProcs pair_actor = []" by (simp add: pair_actor_def NewActor_def)
  obtain p m where s1: "fst (startNodeProcess idle_input node_command pair_actor) = pair_actor\<lparr>a_nodeProcs := [(''c::x'', p)], a_nodeMeta := m\<rparr>" "pr_Pid p = 7"
    using e by (simp add: startNodeProcess_def Let_def c key idle_input_def gm_put_def)
  obtain a1 where a1: "stop_node idle_input node_command (pair_actor\<lparr>a_nodeProcs := [(''c::x'', p)], a_nodeMeta := m\<rparr>) = (a1, Inr (RStopped ''x''))"
    "a_nodeProcs a1 = []"
    using s1(2) by (simp add: stop_node_def findManagedProcessByNodeIDLocked_def c gm_keys_def parse killProcessTree_def idle_input_def forget_process_def gm_del_def)
  obtain a2 where a2: "startNodeProcess idle_input node_command a1 = (a2, None)"
    using a1(2) by (simp add: startNodeProcess_def Let_def c idle_input_def)
  from late_exit_orphans [OF a1(1) a2, of idle_input] show ?thesis using s1(1) a1(1) a2 by (simp add: c key)
qed

end
