(* ===== verification/Hypothesis.thy ===== *)
theory Hypothesis
  imports ActorSpec
begin

text \<open>
  A hypothesis run from its file to its end: the commands a compiled hypothesis consists of never bring the
  control plane down, the run returns, and a session it started or found is stopped when it does.
\<close>

section \<open>The first word of a text\<close>

lemma fields_acc_spaces: "list_all is_space t \<Longrightarrow> fields_acc acc (s @ t) = fields_acc acc s"
proof (induction s arbitrary: acc)
  case Nil
  have "fields_acc [] t = []" if "list_all is_space t" for t using that by (induction t) auto
  then show ?case using Nil by (cases t) auto
qed auto

lemma fields_trim: "str_fields (trim_space s) = str_fields s"
proof -
  have l: "fields_acc [] (dropWhile is_space s) = fields_acc [] s" for s by (induction s) auto
  have u: "trim_right u @ rev (takeWhile is_space (rev u)) = u" for u
    by (metis rev_append rev_rev_ident takeWhile_dropWhile_id trim_right_def)
  have "list_all is_space (rev (takeWhile is_space (rev u)))" for u by (auto simp: list_all_iff dest: set_takeWhileD)
  from fields_acc_spaces [OF this, of "[]"] have "fields_acc [] u = fields_acc [] (trim_right u)" for u by (metis u)
  then show ?thesis by (simp add: str_fields_def trim_space_def trim_left_def l)
qed

lemma trim_not_Nil: "is_word n \<Longrightarrow> trim_space (n @ s) \<noteq> []"
  by (auto simp: trim_space_eq_Nil is_word_def list_all_iff) (cases n, auto)

text \<open>A text that begins with the name of a command, other than \<open>cp\<close>, is that command.\<close>

lemma runtime_named:
  assumes "is_word n" "n \<noteq> ''cp''"
  shows "runtime_command pf (n @ '' '' @ rest) = Some (parse_parts pf n (str_fields rest))"
proof -
  have "str_fields (n @ '' '' @ rest) = n # str_fields rest" using fields_word_space [OF assms(1)] by (simp add: is_space_def)
  then show ?thesis using assms trim_not_Nil [OF assms(1)] by (simp add: runtime_command_def Let_def Parse_def fields_trim)
qed

lemma runtime_cp_named:
  assumes "is_word n"
  shows "runtime_command pf (''cp '' @ n @ '' '' @ rest) = Some (parse_parts pf n (str_fields rest))"
proof -
  have cp: "is_word ''cp''" by (simp add: word_simps)
  let ?u = "n @ '' '' @ rest"
  obtain x where x: "x \<in> set (rev ?u)" "\<not> is_space x" using assms by (cases n) (auto simp: is_word_def)
  have "dropWhile is_space (rev (''cp '' @ ?u)) = dropWhile is_space (rev ?u) @ rev ''cp ''"
    unfolding rev_append [of "''cp ''"] using x by (rule dropWhile_append1)
  then have "trim_right (''cp '' @ ?u) = ''cp '' @ trim_right ?u" by (simp add: trim_right_def)
  moreover have "trim_left (''cp '' @ ?u) = ''cp '' @ ?u" by (simp add: trim_left_def is_space_def)
  ultimately have t: "trim_space (''cp '' @ ?u) = ''cp'' @ CHR '' '' # trim_right ?u" by (simp add: trim_space_def)
  have "trim_space (CHR '' '' # trim_right ?u) = trim_space ?u"
  proof -
    have "trim_left ?u = ?u" using assms trim_left_word by simp
    moreover have "trim_left (CHR '' '' # y) = trim_left y" for y by (simp add: trim_left_def is_space_def)
    ultimately show ?thesis using trim_space_idem [of ?u] by (simp add: trim_space_def)
  qed
  moreover have "str_fields (''cp'' @ CHR '' '' # x) = ''cp'' # str_fields x" for x
    using fields_word_space [OF cp] by (simp add: is_space_def)
  moreover have "str_fields ?u = n # str_fields rest" using fields_word_space [OF assms] by (simp add: is_space_def)
  ultimately show ?thesis
    using trim_not_Nil [OF assms, of "'' '' @ rest"] trim_prefix_append [of "''cp''" "CHR '' '' # trim_right ?u"]
    by (simp only: runtime_command_def Let_def t) (simp add: Parse_def fields_trim)
qed

section \<open>What a compiled hypothesis runs\<close>

definition harmless :: "float_parser \<Rightarrow> string \<Rightarrow> bool" where
  "harmless pf raw \<longleftrightarrow> (case runtime_command pf raw of Some (Inr cmd) \<Rightarrow> cmd_Type cmd \<noteq> CmdRemoveNode | _ \<Rightarrow> True)"

lemma start_options_type: "start_options opts cmd = Inr cmd' \<Longrightarrow> cmd_Type cmd' = cmd_Type cmd"
proof (induction opts cmd rule: start_options.induct)
  case (2 arg rest cmd)
  obtain f v rest' cmd1 where f: "start_option arg = Some f" "rest = v # rest'" "f v cmd = Inr cmd1" "start_options rest' cmd1 = Inr cmd'"
    using 2(2) by (auto split: option.splits list.splits sum.splits)
  have "cmd_Type cmd1 = cmd_Type cmd" using f(1,3) by (auto simp: start_option_def split: if_splits sum.splits)
  then show ?case using 2(1) [OF f(1,2,3,4)] by simp
qed simp

lemma compiled_types:
  "parse_start_node args = Inr cmd \<Longrightarrow> cmd_Type cmd = CmdStartNodeProcess"
  "parse_new_cluster args = Inr cmd \<Longrightarrow> cmd_Type cmd = CmdCreateCluster"
  "parse_log_lifecycle args = Inr cmd \<Longrightarrow> cmd_Type cmd = CmdLogLifecycleEvent"
  "parse_metrics_start args = Inr cmd \<Longrightarrow> cmd_Type cmd = CmdMetricsStart"
  "parse_fault_partition args = Inr cmd \<Longrightarrow> cmd_Type cmd = CmdSetPartition"
  "parse_kv_put args = Inr cmd \<Longrightarrow> cmd_Type cmd = CmdKVPut"
  "parse_kv_get args = Inr cmd \<Longrightarrow> cmd_Type cmd = CmdKVGet"
  by (auto simp: parse_start_node_def parse_new_cluster_def parse_log_lifecycle_def parse_metrics_start_def parse_fault_partition_def
      parse_kv_put_def parse_kv_get_def dest!: start_options_type split: list.splits sum.splits option.splits if_splits)

lemma harmless_named:
  "n \<in> {''start-node'', ''log-lifecycle'', ''metrics-start'', ''fault-partition'', ''kv-put'', ''kv-get''} \<Longrightarrow> harmless pf (n @ '' '' @ rest)"
  "harmless pf (''cp '' @ ''new-cluster'' @ '' '' @ rest)"
proof -
  have w: "is_word n" "n \<noteq> ''cp''" if "n \<in> {''start-node'', ''log-lifecycle'', ''metrics-start'', ''fault-partition'', ''kv-put'', ''kv-get''}"
    using that by (auto simp: word_simps)
  show "harmless pf (n @ '' '' @ rest)" if "n \<in> {''start-node'', ''log-lifecycle'', ''metrics-start'', ''fault-partition'', ''kv-put'', ''kv-get''}"
    using that runtime_named [OF w [OF that], of pf rest]
    by (auto simp: harmless_def parse_parts_name dest!: compiled_types split: sum.split)
  have "is_word ''new-cluster''" by (simp add: word_simps)
  from runtime_cp_named [OF this] show "harmless pf (''cp '' @ ''new-cluster'' @ '' '' @ rest)"
    by (auto simp: harmless_def parse_parts_name dest!: compiled_types split: sum.split)
qed

lemmas harmless_texts = harmless_named(1) [of "''start-node''", simplified] harmless_named(1) [of "''log-lifecycle''", simplified]
  harmless_named(1) [of "''metrics-start''", simplified] harmless_named(1) [of "''fault-partition''", simplified]
  harmless_named(1) [of "''kv-put''", simplified] harmless_named(1) [of "''kv-get''", simplified] harmless_named(2) [simplified]

lemma partition_loop_harmless: "partition_loop c en cfg ps = Inr cs \<Longrightarrow> raw \<in> set cs \<Longrightarrow> harmless pf raw"
  by (induction ps arbitrary: cs) (auto simp: partition_text_def harmless_texts split: sum.splits)

lemma compileCommands_harmless:
  assumes "compileCommands c host port cfg st = Inr cs" "raw \<in> set cs"
  shows "harmless pf raw"
proof -
  have start: "harmless pf x" if "x \<in> set (compileStartClusterCommands c host port cfg)" for x
    using that by (auto simp: compileStartClusterCommands_def start_node_text_def harmless_texts split: option.splits)
  have part: "harmless pf x" if "compilePartitionCommands c g en cfg = Inr ds" "x \<in> set ds" for g en ds x
    using that partition_loop_harmless by (auto simp: compilePartitionCommands_def split: if_splits)
  show ?thesis using assms start part
    by (auto simp: compileCommands_def Let_def harmless_texts split: if_splits sum.splits)
qed

lemma compiled_harmless:
  assumes "Compile (Some e) opts = Inr batches" "b \<in> set batches" "raw \<in> set (bt_Commands b)"
  shows "harmless pf raw"
proof -
  obtain f where f: "compile_steps f (x_Timeline e) = Inr batches" "\<And>s cs. f s = Inr cs \<Longrightarrow> raw \<in> set cs \<Longrightarrow> harmless pf raw"
    using assms(1) compileCommands_harmless by (fastforce simp: Compile_def Let_def split: option.splits sum.splits)
  have "length batches = length (x_Timeline e)" using compile_steps_times [OF f(1)] by (metis length_map)
  then show ?thesis using compile_steps_times [OF f(1)] f(2) assms(2,3) by (metis in_set_conv_nth)
qed

section \<open>The run ends\<close>

lemma harmless_returns:
  assumes "harmless pf raw"
  obtains aw' r where "ExecuteRuntimeCommand nc wire pf inp raw aw = Some (aw', r)"
proof -
  have "actor_step nc wire inp cmd aw \<noteq> None" if "runtime_command pf raw = Some (Inr cmd)" for cmd
    using assms that step_panics [of nc wire inp cmd "fst aw" "snd aw"] by (simp add: harmless_def)
  then have "\<exists>aw' r. ExecuteRuntimeCommand nc wire pf inp raw aw = Some (aw', r)"
    unfolding ExecuteRuntimeCommand_def by (auto split: option.splits sum.splits)
  then show ?thesis using that by blast
qed

lemma run_commands_returns:
  "\<forall>raw \<in> set raws. harmless pf raw \<Longrightarrow> \<exists>aw' ok. run_commands nc wire pf inp env j raws aw = Some (aw', ok)"
proof (induction raws arbitrary: j aw)
  case (Cons raw raws)
  obtain aw' r where "ExecuteRuntimeCommand nc wire pf (inp j) raw (env j aw) = Some (aw', r)"
    by (rule harmless_returns [of pf raw]) (use Cons.prems in auto)
  then show ?case using Cons.IH [of "j + 1"] Cons.prems by (auto split: sum.split)
qed auto

lemma run_batches_returns:
  "\<forall>b \<in> set bs. \<forall>raw \<in> set (bt_Commands b). harmless pf raw \<Longrightarrow> \<exists>aw' ms fin. run_batches nc wire pf inp env h i bs flags aw = Some (aw', ms, fin)"
proof (induction bs arbitrary: i flags aw)
  case (Cons b bs)
  obtain a w where e: "env i 0 aw = (a, w)" by force
  obtain flags' s where m: "batch_metrics (ai_clock (inp i 0) 0) h flags (a_service a) = (flags', s)" by (rule prod.exhaust)
  obtain aw' ok where "run_commands nc wire pf (inp i) (env i) 1 (bt_Commands b) (a\<lparr>a_service := s\<rparr>, w) = Some (aw', ok)"
    using run_commands_returns [of "bt_Commands b" pf] Cons.prems by (metis list.set_intros(1))
  then show ?case using Cons.IH [of "i + 1" flags' aw'] Cons.prems e m by (cases ok) auto
qed auto

lemma finish_returns:
  assumes "\<forall>i. fi_clock fin i + 1000000000 \<le> fi_clock fin (Suc i)" "fi_start fin \<le> fi_clock fin 0" "trim_space (hy_ClusterID h) \<noteq> []"
  shows "\<exists>a' w'. finish_hypothesis nc wire fin h ms fin' aw = Some (a', w') \<and> (ms \<longrightarrow> \<not> live (trim_space (hy_ClusterID h)) (svc_metrics (a_service a')))"
proof -
  obtain a w where aw: "aw = (a, w)" by force
  obtain sw' ok where wait: "WaitForConvergence nc wire (fi_start fin) (fi_clock fin) (fi_env fin) (hy_ClusterID h) 15000000000 (a_service a, w) = Some (sw', ok)"
    using wait_loop_run [of "fi_clock fin" "fi_start fin" 15000000000 nc wire "fi_env fin" "hy_ClusterID h" 0 "(a_service a, w)"] assms(1,2)
    by (auto simp: WaitForConvergence_def i64_max_def)
  have "\<exists>s' w'. fst (StopMetricsSession nc wire t1 t2 (hy_ClusterID h) sw) = (s', w') \<and> \<not> live (trim_space (hy_ClusterID h)) (svc_metrics s')" for t1 t2 sw
    using stop_live(1) [OF assms(3)] by (metis prod.collapse)
  then have stop: "\<exists>s' w'. StopMetricsSession nc wire t1 t2 (hy_ClusterID h) sw = ((s', w'), snd (StopMetricsSession nc wire t1 t2 (hy_ClusterID h) sw))
     \<and> \<not> live (trim_space (hy_ClusterID h)) (svc_metrics s')" for t1 t2 sw by (metis prod.collapse)
  let ?sw = "if fin' then (if ok then sw' else fi_settle fin sw') else (a_service a, w)"
  obtain s' w' r where "StopMetricsSession nc wire (fi_sample fin) (fi_stop fin) (hy_ClusterID h) ?sw = ((s', w'), r)"
    "\<not> live (trim_space (hy_ClusterID h)) (svc_metrics s')" using stop by blast
  then show ?thesis using wait by (cases ms; cases fin') (simp_all add: finish_hypothesis_def aw)
qed

text \<open>
  C12: A hypothesis run comes to its end.  Whatever else the program does in between and whatever the nodes
  answer, the run of a compiled hypothesis returns if each round of the wait takes its second: its
  commands never bring the control plane down, the wait for convergence is bounded, and if the run
  started a session or found one active, no session of its cluster is active afterwards.
\<close>

theorem hypothesis_ends:
  assumes "Compile (Some e) opts = Inr (hy_Batches h)" "trim_space (hy_ClusterID h) \<noteq> []"
    and "\<forall>i. fi_clock fin i + 1000000000 \<le> fi_clock fin (Suc i)" "fi_start fin \<le> fi_clock fin 0"
  shows "\<exists>aw1 ms completed a' w'. run_batches nc wire pf inp env h 0 (hy_Batches h) (False, False) aw = Some (aw1, ms, completed)
    \<and> executeHypothesis nc wire pf inp env fin h aw = Some (a', w')
    \<and> (ms \<longrightarrow> \<not> live (trim_space (hy_ClusterID h)) (svc_metrics (a_service a')))"
proof -
  have "\<forall>b \<in> set (hy_Batches h). \<forall>raw \<in> set (bt_Commands b). harmless pf raw" using compiled_harmless [OF assms(1)] by blast
  then obtain aw1 ms completed where r: "run_batches nc wire pf inp env h 0 (hy_Batches h) (False, False) aw = Some (aw1, ms, completed)"
    using run_batches_returns by blast
  with finish_returns [OF assms(3,4,2), of nc wire ms completed aw1] show ?thesis by (simp add: executeHypothesis_def)
qed

definition slow_ending :: "unit ending" where
  "slow_ending = \<lparr>fi_start = 0, fi_clock = (\<lambda>i. int i * 1000000000), fi_env = (\<lambda>_. id), fi_settle = id, fi_sample = 0, fi_stop = 0\<rparr>"

theorem hypothesis_ends_witness:
  "\<exists>batches a' w'. Compile (Some (Normalize demo_experiment)) \<lparr>co_ClusterID = [], co_ControlPlaneHost = [], co_ControlPlanePort = 0\<rparr> = Inr batches
     \<and> executeHypothesis demo_operator demo_wire half_only (\<lambda>_ _. idle_input) (\<lambda>_ _. id) slow_ending
         \<lparr>hy_Name = ''demo'', hy_ClusterID = ''c'', hy_Path = [], hy_Batches = batches, hy_TrackedKeys = [''k'']\<rparr> (pair_actor, ()) = Some (a', w')"
proof -
  obtain bs where c: "Compile (Some (Normalize demo_experiment)) \<lparr>co_ClusterID = [], co_ControlPlaneHost = [], co_ControlPlanePort = 0\<rparr> = Inr bs"
    using demo_compiles(1) by blast
  have "\<forall>i. fi_clock slow_ending i + 1000000000 \<le> fi_clock slow_ending (Suc i)" "fi_start slow_ending \<le> fi_clock slow_ending 0"
    by (simp_all add: slow_ending_def)
  from hypothesis_ends [where h = "\<lparr>hy_Name = ''demo'', hy_ClusterID = ''c'', hy_Path = [], hy_Batches = bs, hy_TrackedKeys = [''k'']\<rparr>", OF _ _ this,
      of "Normalize demo_experiment" "\<lparr>co_ClusterID = [], co_ControlPlaneHost = [], co_ControlPlanePort = 0\<rparr>" demo_operator demo_wire half_only
        "\<lambda>_ _. idle_input" "\<lambda>_ _. id" "(pair_actor, ())"]
  show ?thesis using c by (auto simp: demo_words)
qed

end
