(* ===== verification/Rest.thy ===== *)
theory Rest
  imports Hypothesis
begin

text \<open>
  The REST interface of the control plane (\<open>internal/controlplane/rest/server.go\<close>): the routes by method
  and path segments, one definition per handler, each of which submits one command to the actor and turns
  its reply into a response.  A request body is what \<open>encoding/json\<close> reads first from it, a syntax error
  or a value; decoding into the request structs follows its rules (field names without regard to case,
  unknown fields ignored, \<open>null\<close> leaves a field alone, a later entry replaces an earlier one, a value of
  the wrong kind is an error after the other fields have been set).  A number keeps its literal.
  \<open>None\<close> as a result is a panic of the control plane.
\<close>

section \<open>JSON\<close>

datatype json = JNull | JBool bool | JNum string | JStr string | JArr "json list" | JObj "(string \<times> json) list"

type_synonym 'r setter = "json \<Rightarrow> 'r \<Rightarrow> 'r option"

definition set_string :: "(string \<Rightarrow> 'r \<Rightarrow> 'r) \<Rightarrow> 'r setter" where
  "set_string f j r = (case j of JStr s \<Rightarrow> Some (f s r) | JNull \<Rightarrow> Some r | _ \<Rightarrow> None)"

definition set_bool :: "(bool \<Rightarrow> 'r \<Rightarrow> 'r) \<Rightarrow> 'r setter" where
  "set_bool f j r = (case j of JBool b \<Rightarrow> Some (f b r) | JNull \<Rightarrow> Some r | _ \<Rightarrow> None)"

definition set_int :: "(int \<Rightarrow> 'r \<Rightarrow> 'r) \<Rightarrow> 'r setter" where
  "set_int f j r = (case j of
     JNum t \<Rightarrow> (case parse_int t of (i, None) \<Rightarrow> Some (f i r) | (_, Some _) \<Rightarrow> None)
   | JNull \<Rightarrow> Some r | _ \<Rightarrow> None)"

definition set_float :: "float_parser \<Rightarrow> (f64 \<Rightarrow> 'r \<Rightarrow> 'r) \<Rightarrow> 'r setter" where
  "set_float pf f j r = (case j of JNum t \<Rightarrow> map_option (\<lambda>x. f x r) (pf t) | JNull \<Rightarrow> Some r | _ \<Rightarrow> None)"

fun string_items :: "json list \<Rightarrow> string list option" where
  "string_items [] = Some []"
| "string_items (JStr s # js) = map_option (Cons s) (string_items js)"
| "string_items (JNull # js) = map_option (Cons []) (string_items js)"
| "string_items (_ # js) = None"

definition set_strings :: "(string list \<Rightarrow> 'r \<Rightarrow> 'r) \<Rightarrow> 'r setter" where
  "set_strings f j r = (case j of JArr js \<Rightarrow> map_option (\<lambda>xs. f xs r) (string_items js) | JNull \<Rightarrow> Some (f [] r) | _ \<Rightarrow> None)"

text \<open>The fields of a struct and the flag that no entry was of the wrong kind.\<close>

fun decode_fields :: "(string, 'r setter) gomap \<Rightarrow> (string \<times> json) list \<Rightarrow> 'r \<times> bool \<Rightarrow> 'r \<times> bool" where
  "decode_fields fm [] rb = rb"
| "decode_fields fm ((k, j) # kvs) (r, ok) = (case map_of fm (to_lower k) of
     None \<Rightarrow> decode_fields fm kvs (r, ok)
   | Some set_it \<Rightarrow> (case set_it j r of
       None \<Rightarrow> decode_fields fm kvs (r, False)
     | Some r' \<Rightarrow> decode_fields fm kvs (r', ok)))"

type_synonym json_body = "string + json"

definition decode_struct :: "(string, 'r setter) gomap \<Rightarrow> 'r \<Rightarrow> json_body \<Rightarrow> 'r \<times> bool" where
  "decode_struct fm zero body = (case body of
     Inl _ \<Rightarrow> (zero, False)
   | Inr JNull \<Rightarrow> (zero, True)
   | Inr (JObj kvs) \<Rightarrow> decode_fields fm kvs (zero, True)
   | Inr _ \<Rightarrow> (zero, False))"

section \<open>Requests and responses\<close>

text \<open>A request has its path twice, as \<open>net/url\<close> gives it: escaped (\<open>URL.EscapedPath()\<close>) and unescaped (\<open>URL.Path\<close>).\<close>

record http_request =
  hq_Method :: string
  hq_Escaped :: string
  hq_Path :: string
  hq_Body :: json_body

datatype rest_error =
  MethodNotAllowed
| InvalidPath
| NoRoute
| DecodeError
| UnknownFaultAction
| KeyRequired
| ActorError actor_error

datatype rest_body = NoBody | ErrorText rest_error | StatusOk | Json reply

record http_response =
  rs_Status :: nat
  rs_Headers :: "(string, string) gomap"
  rs_Body :: rest_body

definition enableCORS :: "(string, string) gomap" where
  "enableCORS = [(''Access-Control-Allow-Origin'', ''*''),
     (''Access-Control-Allow-Methods'', ''GET, POST, DELETE, PATCH, OPTIONS''),
     (''Access-Control-Allow-Headers'', ''Content-Type'')]"

definition http_error :: "rest_error \<Rightarrow> nat \<Rightarrow> http_response" where
  "http_error e code = \<lparr>rs_Status = code, rs_Headers = enableCORS, rs_Body = ErrorText e\<rparr>"

definition json_response :: "rest_body \<Rightarrow> http_response" where
  "json_response b = \<lparr>rs_Status = 200, rs_Headers = enableCORS @ [(''Content-Type'', ''application/json'')], rs_Body = b\<rparr>"

type_synonym 'w served = "((actor \<times> 'w) \<times> http_response) option"

text \<open>The common end of the handlers: submit, wait, answer.\<close>

definition submit_wait ::
  "'w node_operator \<Rightarrow> kv_wire \<Rightarrow> actor_input \<Rightarrow> command \<Rightarrow> nat \<Rightarrow> (reply \<Rightarrow> rest_body) \<Rightarrow> actor \<times> 'w \<Rightarrow> 'w served" where
  "submit_wait nc wire inp cmd code f aw = (case actor_step nc wire inp cmd aw of
     None \<Rightarrow> None
   | Some (aw', Inl e) \<Rightarrow> Some (aw', http_error (ActorError e) code)
   | Some (aw', Inr r) \<Rightarrow> Some (aw', json_response (f r)))"

abbreviation bad_body :: "actor \<times> 'w \<Rightarrow> 'w served" where
  "bad_body aw \<equiv> Some (aw, http_error DecodeError 400)"

section \<open>Clusters\<close>

definition getClusters :: "'w node_operator \<Rightarrow> kv_wire \<Rightarrow> actor_input \<Rightarrow> actor \<times> 'w \<Rightarrow> 'w served" where
  "getClusters nc wire inp = submit_wait nc wire inp (NewCommand CmdListClusters) 500 Json"

record create_cluster_req =
  ccr_ID :: string
  ccr_Protocol :: string

definition decode_create_cluster :: "json_body \<Rightarrow> create_cluster_req \<times> bool" where
  "decode_create_cluster = decode_struct
     [(''id'', set_string (\<lambda>s. ccr_ID_update (\<lambda>_. s))), (''protocol'', set_string (\<lambda>s. ccr_Protocol_update (\<lambda>_. s)))]
     \<lparr>ccr_ID = [], ccr_Protocol = []\<rparr>"

definition createCluster :: "'w node_operator \<Rightarrow> kv_wire \<Rightarrow> actor_input \<Rightarrow> http_request \<Rightarrow> actor \<times> 'w \<Rightarrow> 'w served" where
  "createCluster nc wire inp r aw = (case decode_create_cluster (hq_Body r) of
     (req, False) \<Rightarrow> bad_body aw
   | (req, True) \<Rightarrow> submit_wait nc wire inp ((NewCommand CmdCreateCluster)\<lparr>cmd_ClusterID := ccr_ID req, cmd_Protocol := ccr_Protocol req\<rparr>)
       400 (\<lambda>_. StatusOk) aw)"

definition HandleClusters :: "'w node_operator \<Rightarrow> kv_wire \<Rightarrow> actor_input \<Rightarrow> http_request \<Rightarrow> actor \<times> 'w \<Rightarrow> 'w served" where
  "HandleClusters nc wire inp r aw =
     (if hq_Method r = ''OPTIONS'' then Some (aw, \<lparr>rs_Status = 200, rs_Headers = enableCORS, rs_Body = NoBody\<rparr>)
      else if hq_Method r = ''GET'' then getClusters nc wire inp aw
      else if hq_Method r = ''POST'' then createCluster nc wire inp r aw
      else Some (aw, http_error MethodNotAllowed 405))"

section \<open>Nodes\<close>

record add_node_req =
  anr_NodeID :: string
  anr_Address :: string
  anr_Port :: int

definition decode_add_node :: "json_body \<Rightarrow> add_node_req \<times> bool" where
  "decode_add_node = decode_struct
     [(''node_id'', set_string (\<lambda>s. anr_NodeID_update (\<lambda>_. s))), (''address'', set_string (\<lambda>s. anr_Address_update (\<lambda>_. s))),
      (''port'', set_int (\<lambda>i. anr_Port_update (\<lambda>_. i)))]
     \<lparr>anr_NodeID = [], anr_Address = [], anr_Port = 0\<rparr>"

definition addNode :: "'w node_operator \<Rightarrow> kv_wire \<Rightarrow> actor_input \<Rightarrow> http_request \<Rightarrow> string \<Rightarrow> actor \<times> 'w \<Rightarrow> 'w served" where
  "addNode nc wire inp r clusterID aw = (case decode_add_node (hq_Body r) of
     (req, False) \<Rightarrow> bad_body aw
   | (req, True) \<Rightarrow> submit_wait nc wire inp ((NewCommand CmdAddNode)\<lparr>cmd_ClusterID := clusterID, cmd_NodeID := anr_NodeID req,
       cmd_Host := anr_Address req, cmd_Port := anr_Port req\<rparr>) 500 (\<lambda>_. StatusOk) aw)"

definition removeNode :: "'w node_operator \<Rightarrow> kv_wire \<Rightarrow> actor_input \<Rightarrow> string \<Rightarrow> string \<Rightarrow> actor \<times> 'w \<Rightarrow> 'w served" where
  "removeNode nc wire inp clusterID nodeID =
     submit_wait nc wire inp ((NewCommand CmdRemoveNode)\<lparr>cmd_ClusterID := clusterID, cmd_NodeID := nodeID\<rparr>) 500 (\<lambda>_. StatusOk)"

definition decode_set_fault :: "float_parser \<Rightarrow> json_body \<Rightarrow> fault_state \<times> bool" where
  "decode_set_fault pf = decode_struct
     [(''crashed'', set_bool (\<lambda>b. fs_Crashed_update (\<lambda>_. b))), (''drop_rate'', set_float pf (\<lambda>x. fs_DropRate_update (\<lambda>_. x))),
      (''delay_ms'', set_int (\<lambda>i. fs_DelayMs_update (\<lambda>_. i))), (''partition'', set_strings (\<lambda>xs. fs_Partition_update (\<lambda>_. xs)))]
     \<lparr>fs_Crashed = False, fs_DropRate = Fin 0, fs_DelayMs = 0, fs_Partition = []\<rparr>"

definition setFault :: "'w node_operator \<Rightarrow> kv_wire \<Rightarrow> float_parser \<Rightarrow> actor_input \<Rightarrow> http_request \<Rightarrow> string \<Rightarrow> string \<Rightarrow> actor \<times> 'w \<Rightarrow> 'w served" where
  "setFault nc wire pf inp r clusterID nodeID aw = (case decode_set_fault pf (hq_Body r) of
     (req, False) \<Rightarrow> bad_body aw
   | (req, True) \<Rightarrow> submit_wait nc wire inp ((NewCommand CmdSetFaultParams)\<lparr>cmd_ClusterID := clusterID, cmd_NodeID := nodeID,
       cmd_Crashed := fs_Crashed req, cmd_DropRate := fs_DropRate req, cmd_DelayMs := fs_DelayMs req, cmd_Partition := fs_Partition req\<rparr>)
       500 (\<lambda>_. StatusOk) aw)"

record set_partition_req =
  spr_PeerID :: string
  spr_Enabled :: bool

definition decode_drop_rate :: "float_parser \<Rightarrow> json_body \<Rightarrow> f64 \<times> bool" where
  "decode_drop_rate pf = decode_struct [(''drop_rate'', set_float pf (\<lambda>x _. x))] (Fin 0)"

definition decode_delay :: "json_body \<Rightarrow> int \<times> bool" where
  "decode_delay = decode_struct [(''delay_ms'', set_int (\<lambda>x _. x))] 0"

definition decode_partition :: "json_body \<Rightarrow> set_partition_req \<times> bool" where
  "decode_partition = decode_struct
     [(''peer_id'', set_string (\<lambda>s. spr_PeerID_update (\<lambda>_. s))), (''enabled'', set_bool (\<lambda>b. spr_Enabled_update (\<lambda>_. b)))]
     \<lparr>spr_PeerID = [], spr_Enabled = False\<rparr>"

text \<open>The command of a fault action, or the error the handler answers at once.\<close>

definition fault_command :: "float_parser \<Rightarrow> json_body \<Rightarrow> string \<Rightarrow> string \<Rightarrow> string \<Rightarrow> rest_error + command" where
  "fault_command pf body clusterID nodeID action =
     (let cmd = (\<lambda>t. (NewCommand t)\<lparr>cmd_ClusterID := clusterID, cmd_NodeID := nodeID\<rparr>) in
      if action = ''crash'' then Inr (cmd CmdCrashNode)
      else if action = ''recover'' then Inr (cmd CmdRecoverNode)
      else if action = ''drop-rate'' then
        (case decode_drop_rate pf body of (req, False) \<Rightarrow> Inl DecodeError | (req, True) \<Rightarrow> Inr ((cmd CmdSetDropRate)\<lparr>cmd_DropRate := req\<rparr>))
      else if action = ''delay'' then
        (case decode_delay body of (req, False) \<Rightarrow> Inl DecodeError | (req, True) \<Rightarrow> Inr ((cmd CmdSetDelay)\<lparr>cmd_DelayMs := req\<rparr>))
      else if action = ''partition'' then
        (case decode_partition body of (req, False) \<Rightarrow> Inl DecodeError
         | (req, True) \<Rightarrow> Inr ((cmd CmdSetPartition)\<lparr>cmd_PeerID := spr_PeerID req, cmd_Enabled := spr_Enabled req\<rparr>))
      else Inl UnknownFaultAction)"

definition handleFaultCommand ::
  "'w node_operator \<Rightarrow> kv_wire \<Rightarrow> float_parser \<Rightarrow> actor_input \<Rightarrow> http_request \<Rightarrow> string \<Rightarrow> string \<Rightarrow> string \<Rightarrow> actor \<times> 'w \<Rightarrow> 'w served" where
  "handleFaultCommand nc wire pf inp r clusterID nodeID action aw = (case fault_command pf (hq_Body r) clusterID nodeID action of
     Inl e \<Rightarrow> Some (aw, http_error e 400)
   | Inr cmd \<Rightarrow> submit_wait nc wire inp cmd 500 (\<lambda>_. StatusOk) aw)"

text \<open>The heartbeat handler answers and does nothing else.\<close>

definition rest_heartbeat :: "actor \<times> 'w \<Rightarrow> 'w served" where
  "rest_heartbeat aw = Some (aw, json_response StatusOk)"

record kv_req =
  kvr_Key :: string
  kvr_Value :: string

definition decode_kv :: "json_body \<Rightarrow> kv_req \<times> bool" where
  "decode_kv = decode_struct
     [(''key'', set_string (\<lambda>s. kvr_Key_update (\<lambda>_. s))), (''value'', set_string (\<lambda>s. kvr_Value_update (\<lambda>_. s)))]
     \<lparr>kvr_Key = [], kvr_Value = []\<rparr>"

definition handleKV :: "'w node_operator \<Rightarrow> kv_wire \<Rightarrow> actor_input \<Rightarrow> http_request \<Rightarrow> string \<Rightarrow> string \<Rightarrow> actor \<times> 'w \<Rightarrow> 'w served" where
  "handleKV nc wire inp r clusterID nodeID aw =
     (let parts = split_on CHR ''/'' (hq_Path r) in
      if hq_Method r = ''POST'' then
        (case decode_kv (hq_Body r) of
           (req, False) \<Rightarrow> bad_body aw
         | (req, True) \<Rightarrow> submit_wait nc wire inp ((NewCommand CmdKVPut)\<lparr>cmd_ClusterID := clusterID, cmd_NodeID := nodeID,
             cmd_Key := kvr_Key req, cmd_Value := kvr_Value req\<rparr>) 500 (\<lambda>_. StatusOk) aw)
      else if hq_Method r = ''GET'' then
        (if length parts < 8 then Some (aw, http_error KeyRequired 400)
         else submit_wait nc wire inp ((NewCommand CmdKVGet)\<lparr>cmd_ClusterID := clusterID, cmd_NodeID := nodeID, cmd_Key := parts ! 7\<rparr>) 404 Json aw)
      else Some (aw, http_error MethodNotAllowed 405))"

definition decode_protocol :: "json_body \<Rightarrow> string \<times> bool" where
  "decode_protocol = decode_struct [(''protocol'', set_string (\<lambda>s _. s))] []"

definition rest_swapProtocol :: "'w node_operator \<Rightarrow> kv_wire \<Rightarrow> actor_input \<Rightarrow> http_request \<Rightarrow> string \<Rightarrow> actor \<times> 'w \<Rightarrow> 'w served" where
  "rest_swapProtocol nc wire inp r clusterID aw = (case decode_protocol (hq_Body r) of
     (req, False) \<Rightarrow> bad_body aw
   | (req, True) \<Rightarrow> submit_wait nc wire inp ((NewCommand CmdSetClusterProtocol)\<lparr>cmd_ClusterID := clusterID, cmd_Protocol := req\<rparr>)
       500 (\<lambda>_. StatusOk) aw)"

section \<open>Metrics\<close>

definition decode_interval :: "json_body \<Rightarrow> int \<times> bool" where
  "decode_interval = decode_struct [(''interval_ms'', set_int (\<lambda>x _. x))] 0"

text \<open>An error of the body is ignored here.\<close>

definition rest_startMetrics :: "'w node_operator \<Rightarrow> kv_wire \<Rightarrow> actor_input \<Rightarrow> http_request \<Rightarrow> string \<Rightarrow> actor \<times> 'w \<Rightarrow> 'w served" where
  "rest_startMetrics nc wire inp r clusterID =
     submit_wait nc wire inp ((NewCommand CmdMetricsStart)\<lparr>cmd_ClusterID := clusterID, cmd_IntervalMs := fst (decode_interval (hq_Body r))\<rparr>) 400 Json"

definition rest_stopMetrics :: "'w node_operator \<Rightarrow> kv_wire \<Rightarrow> actor_input \<Rightarrow> string \<Rightarrow> actor \<times> 'w \<Rightarrow> 'w served" where
  "rest_stopMetrics nc wire inp clusterID = submit_wait nc wire inp ((NewCommand CmdMetricsStop)\<lparr>cmd_ClusterID := clusterID\<rparr>) 400 Json"

definition rest_getMetrics :: "'w node_operator \<Rightarrow> kv_wire \<Rightarrow> actor_input \<Rightarrow> string \<Rightarrow> actor \<times> 'w \<Rightarrow> 'w served" where
  "rest_getMetrics nc wire inp clusterID = submit_wait nc wire inp ((NewCommand CmdMetricsShow)\<lparr>cmd_ClusterID := clusterID\<rparr>) 400 Json"

definition decode_watch :: "json_body \<Rightarrow> string \<times> bool" where
  "decode_watch = decode_struct [(''key'', set_string (\<lambda>s _. s))] []"

definition watchMetricsKey :: "'w node_operator \<Rightarrow> kv_wire \<Rightarrow> actor_input \<Rightarrow> http_request \<Rightarrow> string \<Rightarrow> actor \<times> 'w \<Rightarrow> 'w served" where
  "watchMetricsKey nc wire inp r clusterID aw = (case decode_watch (hq_Body r) of
     (req, False) \<Rightarrow> bad_body aw
   | (req, True) \<Rightarrow> submit_wait nc wire inp ((NewCommand CmdMetricsWatchKey)\<lparr>cmd_ClusterID := clusterID, cmd_Key := req\<rparr>) 400 Json aw)"

definition rest_getMetricsHistory :: "'w node_operator \<Rightarrow> kv_wire \<Rightarrow> actor_input \<Rightarrow> string \<Rightarrow> actor \<times> 'w \<Rightarrow> 'w served" where
  "rest_getMetricsHistory nc wire inp clusterID = submit_wait nc wire inp ((NewCommand CmdMetricsHistory)\<lparr>cmd_ClusterID := clusterID\<rparr>) 400 Json"

section \<open>Streams of log entries\<close>

text \<open>
  A stream subscribes, forwards the entries of its cluster as they arrive and unsubscribes when the client
  goes away.  \<open>stream_next\<close> is one round that receives; \<open>None\<close> is the panic on a nil entry.
\<close>

definition stream_open :: "service \<Rightarrow> service \<times> nat" where
  "stream_open s = SubscribeLogs s"

definition stream_next :: "string \<Rightarrow> nat \<Rightarrow> service \<Rightarrow> (service \<times> log_request list) option" where
  "stream_next clusterID ch s = (case receive_log ch s of
     (s', None) \<Rightarrow> Some (s', [])
   | (s', Some None) \<Rightarrow> None
   | (s', Some (Some e)) \<Rightarrow> Some (s', if lg_ClusterId e = clusterID then [e] else []))"

definition stream_close :: "nat \<Rightarrow> service \<Rightarrow> service option" where
  "stream_close ch s = UnsubscribeLogs ch s"

section \<open>Routes below a cluster\<close>

text \<open>A stream opens its subscription and stays; its response is the stream itself.\<close>

definition open_stream :: "actor \<times> 'w \<Rightarrow> 'w served" where
  "open_stream = (\<lambda>(a, w). Some ((a\<lparr>a_service := fst (stream_open (a_service a))\<rparr>, w),
     \<lparr>rs_Status = 200, rs_Headers = enableCORS @ [(''Content-Type'', ''text/event-stream''), (''Cache-Control'', ''no-cache''), (''Connection'', ''keep-alive'')],
      rs_Body = NoBody\<rparr>))"

definition HandleNodes ::
  "'w node_operator \<Rightarrow> kv_wire \<Rightarrow> float_parser \<Rightarrow> actor_input \<Rightarrow> http_request \<Rightarrow> actor \<times> 'w \<Rightarrow> 'w served" where
  "HandleNodes nc wire pf inp r aw =
     (if hq_Method r = ''OPTIONS'' then Some (aw, \<lparr>rs_Status = 200, rs_Headers = enableCORS, rs_Body = NoBody\<rparr>)
      else
        let parts = split_on CHR ''/'' (hq_Path r); n = length parts; clusterID = parts ! 3; nodeID = parts ! 5; mth = hq_Method r in
        if n < 5 then Some (aw, http_error InvalidPath 400)
        else if mth = ''POST'' \<and> n = 5 then addNode nc wire inp r clusterID aw
        else if mth = ''GET'' \<and> n = 5 \<and> parts ! 4 = ''logs'' then open_stream aw
        else if mth = ''GET'' \<and> n = 5 \<and> parts ! 4 = ''metrics'' then rest_getMetrics nc wire inp clusterID aw
        else if mth = ''GET'' \<and> n = 6 \<and> parts ! 4 = ''metrics'' \<and> parts ! 5 = ''history'' then rest_getMetricsHistory nc wire inp clusterID aw
        else if mth = ''POST'' \<and> n = 6 \<and> parts ! 4 = ''metrics'' \<and> parts ! 5 = ''start'' then rest_startMetrics nc wire inp r clusterID aw
        else if mth = ''POST'' \<and> n = 6 \<and> parts ! 4 = ''metrics'' \<and> parts ! 5 = ''stop'' then rest_stopMetrics nc wire inp clusterID aw
        else if mth = ''POST'' \<and> n = 6 \<and> parts ! 4 = ''metrics'' \<and> parts ! 5 = ''watch'' then watchMetricsKey nc wire inp r clusterID aw
        else if mth = ''DELETE'' \<and> n = 6 then removeNode nc wire inp clusterID nodeID aw
        else if (mth = ''PATCH'' \<or> mth = ''POST'') \<and> n = 7 \<and> parts ! 6 = ''fault'' then setFault nc wire pf inp r clusterID nodeID aw
        else if mth = ''POST'' \<and> n = 8 \<and> parts ! 6 = ''faults'' then handleFaultCommand nc wire pf inp r clusterID nodeID (parts ! 7) aw
        else if mth = ''POST'' \<and> n = 7 \<and> parts ! 6 = ''heartbeat'' then rest_heartbeat aw
        else if mth = ''PATCH'' \<and> n = 5 \<and> parts ! 4 = ''protocol'' then rest_swapProtocol nc wire inp r clusterID aw
        else if (mth = ''POST'' \<or> mth = ''GET'') \<and> n \<ge> 7 \<and> parts ! 6 = ''kv'' then handleKV nc wire inp r clusterID nodeID aw
        else Some (aw, http_error NoRoute 400))"

end
