(* ===== verification/Sections.thy ===== *)
theory Sections
  imports ActorSpec
begin

text \<open>
  The control plane as its goroutines run it.  The actor, the RPC handlers, the samplers, the hypothesis runs,
  the cleanup loop and the goroutines that wait for processes all work on one service and one process
  table; what is atomic is not a call but a critical section: a method of the manager or of the session manager, and
  each region that \<open>service.go\<close> and \<open>actor.go\<close> put between \<open>Lock\<close> and \<open>Unlock\<close>.  Here a section with any arguments
  may run at any time, so every interleaving of calls is a sequence of sections.

  Shown: the invariant that survives all interleavings, and that every call is such a sequence.  The stronger invariant of
  calls that do not overlap (exactly the active sessions have a sampler) does not survive: the witness of the invariant
  is a start of a session overtaken by a stop.
\<close>

section \<open>Critical sections\<close>

datatype service_section =
  XManager manager_op
| XSessions session_op
| XBaseline string
| XStartLoop string int
| XCancelLoop string
| XDropBaseline string
| XCountRPC string
| XCountWrite string string
| XListeners "log_request option"
| XSubscribe
| XUnsubscribe nat
| XReceive nat

text \<open>A sampler is only ever started for a cluster with a name.\<close>

fun service_section_step :: "service_section \<Rightarrow> service \<Rightarrow> service" where
  "service_section_step (XManager op) s = s\<lparr>svc_cluster := manager_step op (svc_cluster s)\<rparr>"
| "service_section_step (XSessions op) s = s\<lparr>svc_metrics := session_step op (svc_metrics s)\<rparr>"
| "service_section_step (XBaseline c) s = start_baseline c s"
| "service_section_step (XStartLoop c iv) s = (if c = [] then s else start_loop c iv s)"
| "service_section_step (XCancelLoop c) s = cancel_loop c s"
| "service_section_step (XDropBaseline c) s = drop_baseline c s"
| "service_section_step (XCountRPC c) s = count_rpc c s"
| "service_section_step (XCountWrite c k) s = count_write c k s"
| "service_section_step (XListeners req) s = send_listeners req s"
| "service_section_step XSubscribe s = fst (SubscribeLogs s)"
| "service_section_step (XUnsubscribe ch) s = (case UnsubscribeLogs ch s of None \<Rightarrow> s | Some s' \<Rightarrow> s')"
| "service_section_step (XReceive ch) s = fst (receive_log ch s)"

datatype critical =
  XService service_section
| XProcess string string process
| XForget string
| XHypothesis hypothesis

text \<open>\<open>XProcess\<close> is the second region of \<open>startNodeProcess\<close>, after the process was started.\<close>

fun section_step :: "critical \<Rightarrow> actor \<Rightarrow> actor" where
  "section_step (XService x) a = a\<lparr>a_service := service_section_step x (a_service a)\<rparr>"
| "section_step (XProcess c n p) a = (if c = [] then a
     else a\<lparr>a_nodeProcs := gm_put (managedProcessKey c n) p (a_nodeProcs a), a_nodeMeta := gm_put (managedProcessKey c n) c (a_nodeMeta a)\<rparr>)"
| "section_step (XForget key) a = forget_process key a"
| "section_step (XHypothesis h) a = a\<lparr>a_hypotheses := a_hypotheses a @ [h]\<rparr>"

section \<open>The invariant of all interleavings\<close>

text \<open>
  Every registered loop is a sampler that runs for its cluster, so a stop cancels the sampler it finds; the
  cluster of a sampler has a name.
\<close>

definition samplers_ok :: "(string, nat) gomap \<Rightarrow> (nat, string \<times> int) gomap \<Rightarrow> bool" where
  "samplers_ok loops samplers \<longleftrightarrow> gm_wf loops \<and> gm_wf samplers
     \<and> (\<forall>c ctx. map_of loops c = Some ctx \<longrightarrow> (\<exists>iv. map_of samplers ctx = Some (c, iv)))
     \<and> (\<forall>ctx c iv. map_of samplers ctx = Some (c, iv) \<longrightarrow> c \<noteq> [])"

definition service_core :: "service \<Rightarrow> bool" where
  "service_core s \<longleftrightarrow> manager_ok (svc_cluster s) \<and> sessions_ok (svc_metrics s)
     \<and> samplers_ok (svc_metricsLoops s) (svc_samplers s)
     \<and> chans_ok (svc_chans s) (svc_logListeners s) \<and> list_all recent_ok (svc_recentKeys s)"

definition actor_core :: "actor \<Rightarrow> bool" where
  "actor_core a \<longleftrightarrow> service_core (a_service a) \<and> procs_ok (a_nodeProcs a) (a_nodeMeta a)"

lemma samplers_start:
  assumes "samplers_ok loops samplers" "c \<noteq> []" "map_of samplers ctx = None"
  shows "samplers_ok (gm_put c ctx loops) (gm_put ctx (c, iv) samplers)"
proof -
  have "\<And>c'. map_of loops c' \<noteq> Some ctx" using assms(1,3) unfolding samplers_ok_def by fastforce
  then show ?thesis using assms by (auto simp: samplers_ok_def)
qed

lemma samplers_cancel:
  assumes "samplers_ok loops samplers" "map_of loops c = Some ctx"
  shows "samplers_ok (gm_del c loops) (gm_del ctx samplers)"
proof -
  obtain iv where iv: "map_of samplers ctx = Some (c, iv)" using assms unfolding samplers_ok_def by blast
  have "\<exists>iv. map_of (gm_del ctx samplers) ctx' = Some (c', iv)" if "map_of (gm_del c loops) c' = Some ctx'" for c' ctx'
  proof -
    have c': "c' \<noteq> c" "map_of loops c' = Some ctx'" using that by (auto split: if_splits)
    then obtain iv' where "map_of samplers ctx' = Some (c', iv')" using assms(1) unfolding samplers_ok_def by blast
    then show ?thesis using iv c'(1) by (cases "ctx' = ctx") auto
  qed
  then show ?thesis using assms(1) by (auto simp: samplers_ok_def split: if_splits)
qed

lemma service_core_rest: "service_core s \<Longrightarrow> same_rest s s' \<Longrightarrow> (logs_ok s \<Longrightarrow> logs_ok s') \<Longrightarrow> service_core s'"
  by (simp add: service_core_def same_rest_def logs_ok_def)

lemma core_logs:
  "service_core s \<Longrightarrow> service_core (count_write c k s)" "service_core s \<Longrightarrow> service_core (send_listeners req s)"
  "service_core s \<Longrightarrow> service_core (fst (SubscribeLogs s))" "service_core s \<Longrightarrow> UnsubscribeLogs ch s = Some s' \<Longrightarrow> service_core s'"
  "service_core s \<Longrightarrow> service_core (fst (receive_log ch s))"
  by (rule service_core_rest [OF _ logs_rest(1) count_write_logs], assumption+)
     (rule service_core_rest [OF _ logs_rest(2) send_listeners_logs], assumption+,
      rule service_core_rest [OF _ logs_rest(3) Subscribe_logs], assumption+,
      rule service_core_rest [OF _ logs_rest(4) Unsubscribe_logs], assumption+,
      rule service_core_rest [OF _ logs_rest(5) receive_logs], assumption+)

lemma service_section_core:
  assumes "service_core s"
  shows "service_core (service_section_step x s)"
proof (cases x)
  case (XStartLoop c iv)
  then show ?thesis
    using assms samplers_start [OF _ _ fresh_id_new] by (auto simp: service_core_def Let_def)
next
  case (XCancelLoop c)
  then show ?thesis
    using assms samplers_cancel by (auto simp: service_core_def cancel_loop_def split: option.split)
next
  case (XUnsubscribe ch)
  then show ?thesis using assms core_logs(4) [OF assms] by (auto split: option.split)
next
  case (XManager op)
  then show ?thesis using assms manager_step_ok by (simp add: service_core_def)
next
  case (XSessions op)
  then show ?thesis using assms session_step_ok by (simp add: service_core_def)
next
  case (XBaseline c)
  then show ?thesis using assms by (simp add: service_core_def)
next
  case (XDropBaseline c)
  then show ?thesis using assms by (simp add: service_core_def)
next
  case (XCountRPC c)
  then show ?thesis using assms by (simp add: service_core_def)
qed (use assms core_logs in simp_all)

lemma section_core: "actor_core a \<Longrightarrow> actor_core (section_step x a)"
  using service_section_core procs_put procs_del by (cases x) (auto simp: actor_core_def forget_process_def)

interpretation cp: locked_component section_step actor_core
  by unfold_locales (rule section_core)

section \<open>Every call is a sequence of sections\<close>

definition service_runs :: "service \<Rightarrow> service \<Rightarrow> bool" where
  "service_runs s s' \<longleftrightarrow> (\<exists>xs. s' = fold service_section_step xs s)"

lemma runs_refl [simp]: "service_runs s s"
  by (auto simp: service_runs_def intro: exI [of _ "[]"])

lemma runs_step: "service_runs s (service_section_step x s)"
  by (auto simp: service_runs_def intro: exI [of _ "[x]"])

lemma runs_trans: "service_runs a b \<Longrightarrow> service_runs b c \<Longrightarrow> service_runs a c"
proof -
  assume "service_runs a b" "service_runs b c"
  then obtain xs ys where "b = fold service_section_step xs a" "c = fold service_section_step ys b"
    by (auto simp: service_runs_def)
  then have "c = fold service_section_step (xs @ ys) a" by simp
  then show "service_runs a c" unfolding service_runs_def by blast
qed

lemma runs_snoc: "service_runs a b \<Longrightarrow> service_runs a (service_section_step x b)"
  by (rule runs_trans [OF _ runs_step])

text \<open>The single sections, by the operation they perform.\<close>

lemma runs_manager: "service_runs s (s\<lparr>svc_cluster := manager_step op (svc_cluster s)\<rparr>)"
  using runs_step [of s "XManager op"] by simp

lemma runs_sessions: "service_runs s (s\<lparr>svc_metrics := session_step op (svc_metrics s)\<rparr>)"
  using runs_step [of s "XSessions op"] by simp

lemma runs_on_manager:
  assumes "\<And>m. fst (f m) = manager_step op m"
  shows "service_runs s (fst (on_manager f s))"
proof -
  have "fst (on_manager f s) = s\<lparr>svc_cluster := manager_step op (svc_cluster s)\<rparr>"
    unfolding assms [symmetric] by (simp add: on_manager_def split: prod.split)
  then show ?thesis using runs_manager by simp
qed

lemmas runs_managers =
  runs_on_manager [of _ "DoCreateCluster c p" for c p, simplified] runs_on_manager [of _ "DoRemoveCluster c" for c, simplified]
  runs_on_manager [of _ "DoSwapProtocol c p" for c p, simplified] runs_on_manager [of _ "DoRemoveNode c n" for c n, simplified]
  runs_on_manager [of _ "DoHeartbeat t c n" for t c n, simplified] runs_on_manager [of _ "DoSetFaultParams c n f" for c n f, simplified]
  runs_on_manager [of _ "DoSetNodeCapabilities c n k e a t" for c n k e a t, simplified]

lemma runs_event: "service_runs s (s\<lparr>svc_metrics := fst (RecordTimelineEvent c k t e (svc_metrics s))\<rparr>)"
  using runs_sessions [of s "DoEvent c k t e"] by simp

lemma runs_snapshot: "service_runs s (s\<lparr>svc_metrics := fst (RecordSnapshot c k t ns (svc_metrics s))\<rparr>)"
  using runs_sessions [of s "DoSnapshot c k t ns"] by simp

lemma runs_track: "service_runs s (s\<lparr>svc_metrics := fst (TrackKey c k (svc_metrics s))\<rparr>)"
  using runs_sessions [of s "DoTrack c k"] by simp

lemma runs_lifecycle: "service_runs s (RecordLifecycleEvent now c n ty d s)"
  by (simp add: RecordLifecycleEvent_def runs_event)

lemma runs_timeline: "service_runs s (handleTimelineLog now req s)"
  by (simp add: handleTimelineLog_def Let_def runs_event)

lemma runs_sample_key: "service_runs (fst sw) (fst (sample_key nc wire now c nodes k sw))"
  by (cases sw) (auto simp: sample_key_def runs_snapshot split: prod.splits option.splits)

lemma runs_sample: "service_runs (fst sw) (fst (sampleAllTrackedKeys nc wire now c sw))"
proof -
  have "service_runs (fst sw0) (fst (fold (sample_key nc wire now c nodes) ks sw0))" for nodes ks and sw0 :: "service \<times> 'a"
  proof (induction ks arbitrary: sw0)
    case (Cons k ks)
    show ?case using runs_trans [OF runs_sample_key Cons.IH, of sw0 nc wire now c nodes k] by simp
  qed simp
  from this [of "(fst sw, snd sw)"] show ?thesis
    by (auto simp: sampleAllTrackedKeys_def split: prod.splits sum.splits)
qed

lemma runs_watch: "service_runs s (fst (AddMetricsWatchKey c k s))" "service_runs s (RecordWriteKeyForMetrics c k s)"
proof -
  have "fst (AddMetricsWatchKey c k s) = s\<lparr>svc_metrics := fst (TrackKey c k (svc_metrics s))\<rparr>"
    by (simp add: AddMetricsWatchKey_def split: prod.split)
  then show "service_runs s (fst (AddMetricsWatchKey c k s))" by (simp add: runs_track)
  show "service_runs s (RecordWriteKeyForMetrics c k s)" by (simp add: RecordWriteKeyForMetrics_def runs_track)
qed

text \<open>The sections of a start and of a stop, in the order of the code.\<close>

lemma runs_Start: "service_runs s (fst (StartMetricsSession now c iv s))"
proof (cases "snd (StartMetricsSession now c iv s)")
  case None
  define cid where "cid = trim_space c"
  obtain m where m: "session_Start cid now (svc_metrics s) = (m, None)" and cid: "cid \<noteq> []"
    and r: "fst (StartMetricsSession now c iv s) =
      start_loop cid (if iv \<le> 0 then 1000000000 else iv) (start_baseline cid (s\<lparr>svc_metrics := m\<rparr>))"
    using None by (auto simp: StartMetricsSession_def Let_def cid_def simp del: start_loop_def start_baseline_def
        split: if_splits sum.splits prod.splits option.splits)
  have "fst (StartMetricsSession now c iv s) = fold service_section_step
      [XSessions (DoStart cid now), XBaseline cid, XStartLoop cid (if iv \<le> 0 then 1000000000 else iv)] s"
    using m cid by (simp add: r del: start_loop_def start_baseline_def)
  then show ?thesis unfolding service_runs_def by blast
next
  case (Some e)
  then have "fst (StartMetricsSession now c iv s) = s"
    by (auto simp: StartMetricsSession_def Let_def split: if_splits sum.splits prod.splits option.splits)
  then show ?thesis by simp
qed

lemma runs_StartIf: "service_runs s (fst (StartMetricsSessionIfInactive now c iv s))"
  using runs_Start [of s now c iv] by (auto simp: StartMetricsSessionIfInactive_def split: prod.splits option.splits)

lemma session_Stop_unchanged: "session_Stop c t m = (m', Some e) \<Longrightarrow> m' = m"
  by (auto simp: session_Stop_def Let_def split: if_splits)

lemma runs_Stop: "service_runs (fst sw) (fst (fst (StopMetricsSession nc wire t1 t2 c0 sw)))"
proof -
  define c where "c = trim_space c0"
  obtain s w where sw: "sampleAllTrackedKeys nc wire t1 c sw = (s, w)" by force
  let ?st = "stats_since_baseline c (cancel_loop c s)"
  let ?s2 = "drop_baseline c (cancel_loop c s)"
  obtain m' e where stop: "session_Stop c t2 (UpdateSessionStats c ?st (svc_metrics ?s2)) = (m', e)" by force
  have "fst (fst (StopMetricsSession nc wire t1 t2 c0 sw)) = ?s2\<lparr>svc_metrics := m'\<rparr>"
    using sw stop session_Stop_unchanged unfolding StopMetricsSession_def Let_def c_def [symmetric]
    by (cases e) (auto simp: Let_def dest!: session_Stop_unchanged)
  also have "\<dots> = fold service_section_step [XCancelLoop c, XDropBaseline c, XSessions (DoStats c ?st), XSessions (DoStop c t2)] s"
    using stop by simp
  finally have "service_runs s (fst (fst (StopMetricsSession nc wire t1 t2 c0 sw)))" unfolding service_runs_def by blast
  then show ?thesis using runs_trans [OF runs_sample [of sw nc wire t1 c]] sw by simp
qed

lemma runs_StopIf: "service_runs (fst sw) (fst (StopMetricsSessionIfActive nc wire t1 t2 c sw))"
  by (simp add: StopMetricsSessionIfActive_def runs_Stop)

lemma runs_Put: "service_runs s (fst (fst (ExecuteKVPut nc wire c n k v s w)))"
  using runs_step [of s "XCountWrite c k"] by (auto simp: ExecuteKVPut_def split: sum.splits prod.splits)

lemma runs_Broadcast: "service_runs s (BroadcastLog now req s)"
proof -
  have "service_runs s (if b then count_rpc c s else s)" for b c using runs_step [of s "XCountRPC c"] by (simp del: count_rpc_def)
  then have "service_runs s (case req of None \<Rightarrow> s | Some r \<Rightarrow>
      let s = (if contains_str (lg_Message r) ''TRACE:SEND:'' then count_rpc (lg_ClusterId r) s else s)
      in if has_prefix (lg_Message r) ''TL_EVENT:'' then handleTimelineLog now r s else s)"
    unfolding Let_def by (simp del: count_rpc_def add: runs_trans [OF _ runs_timeline] split: option.split)
  from runs_snoc [OF this, of "XListeners req"] show ?thesis by (simp add: BroadcastLog_def Let_def)
qed

lemma runs_Create: "service_runs s (fst (service_CreateCluster now c p s))"
  using runs_managers(1) [of "CreateCluster c p" c p s]
  by (auto simp: service_CreateCluster_def intro: runs_trans [OF _ runs_lifecycle] split: prod.splits)

lemma runs_Protocol: "service_runs s (fst (fst (SetClusterProtocol nc c p (s, w))))"
  using runs_managers(3) [of "SwapProtocol c (to_lower (trim_space p))" c "to_lower (trim_space p)" s]
  by (auto simp: SetClusterProtocol_def Let_def split: sum.splits prod.splits)

lemma runs_lifecycle_choice:
  "service_runs s s1 \<Longrightarrow> service_runs s (if b then RecordLifecycleEvent now c n x y s1 else if b' then RecordLifecycleEvent now c n x' y' s1 else s1)"
  by (simp add: runs_trans [OF _ runs_lifecycle])

lemma runs_Fault: "service_runs s (fst (service_SetFaultParams now c n f s))"
proof -
  obtain s1 e where m: "on_manager (manager_SetFaultParams c n f) s = (s1, e)" by force
  have s1: "service_runs s s1" using runs_managers(6) [of "manager_SetFaultParams c n f" c n f s] m by simp
  show ?thesis
  proof (cases e)
    case None
    show ?thesis
    proof (cases "GetNode c n (svc_cluster s)")
      case (Inr n0)
      show ?thesis
        unfolding service_SetFaultParams_def m None Let_def prod.case option.case Inr sum.case fst_conv
        by (intro runs_lifecycle_choice s1)
    qed (use None m s1 in \<open>simp add: service_SetFaultParams_def\<close>)
  qed (use m s1 in \<open>simp add: service_SetFaultParams_def\<close>)
qed

lemma runs_Register: "service_runs s (fst (service_RegisterNode nc t1 t2 c n h p (s, w)))"
  using runs_trans [OF runs_manager [of s "DoRegisterNode t1 c n h p"] runs_lifecycle] by (simp add: service_RegisterNode_def Let_def)

lemma runs_Remove: "service_RemoveNode nc c n (s, w) = Some ((s', w'), e) \<Longrightarrow> service_runs s s'"
  using runs_managers(4) [of "RemoveNode c n" c n s] by (auto simp: service_RemoveNode_def Let_def split: sum.splits prod.splits)

lemma runs_service_step: "service_runs s (fst (service_step nc wire x (s, w)))"
proof (cases x)
  case (SStop t1 t2 c)
  then show ?thesis using runs_Stop [of "(s, w)"] by simp
next
  case (SStopIf t1 t2 c)
  then show ?thesis using runs_StopIf [of "(s, w)"] by simp
next
  case (SSample now ctx)
  then show ?thesis using runs_sample [of "(s, w)" nc wire now] by (auto simp: sampler_tick_def split: option.split)
next
  case (SRemoveNode c n)
  then show ?thesis using runs_Remove [of nc c n s w] by (auto split: option.split)
next
  case SSubscribe
  then show ?thesis using runs_step [of s XSubscribe] by simp
next
  case (SUnsubscribe ch)
  then show ?thesis using runs_step [of s "XUnsubscribe ch"] by (auto split: option.splits)
next
  case (SReceive ch)
  then show ?thesis using runs_step [of s "XReceive ch"] by simp
next
  case (SCleanup clock t)
  then show ?thesis using runs_manager [of s "DoCleanup clock t"] by simp
next
  case (SCapabilities q)
  then show ?thesis by (auto simp: ReportNodeCapabilities_def Let_def runs_managers split: prod.split)
qed (simp_all add: runs_Start runs_StartIf runs_watch runs_Put runs_Broadcast runs_Create runs_Protocol runs_Fault runs_Register
    service_RemoveCluster_def service_Heartbeat_def service_RemoveNodeC_def runs_managers)

text \<open>The same for the actor's turns.\<close>

definition actor_runs :: "actor \<Rightarrow> actor \<Rightarrow> bool" where
  "actor_runs a a' \<longleftrightarrow> (\<exists>xs. a' = fold section_step xs a)"

lemma actor_runs_refl [simp]: "actor_runs a a"
  by (auto simp: actor_runs_def intro: exI [of _ "[]"])

lemma actor_runs_step: "actor_runs a (section_step x a)"
  by (auto simp: actor_runs_def intro: exI [of _ "[x]"])

lemma actor_runs_trans: "actor_runs a b \<Longrightarrow> actor_runs b c \<Longrightarrow> actor_runs a c"
proof -
  assume "actor_runs a b" "actor_runs b c"
  then obtain xs ys where "b = fold section_step xs a" "c = fold section_step ys b" by (auto simp: actor_runs_def)
  then have "c = fold section_step (xs @ ys) a" by simp
  then show "actor_runs a c" unfolding actor_runs_def by blast
qed

lemma actor_runs_service: "service_runs (a_service a) s \<Longrightarrow> actor_runs a (a\<lparr>a_service := s\<rparr>)"
proof -
  have "fold section_step (map XService xs) a = a\<lparr>a_service := fold service_section_step xs (a_service a)\<rparr>" for xs
    by (induction xs arbitrary: a) simp_all
  then show "service_runs (a_service a) s \<Longrightarrow> actor_runs a (a\<lparr>a_service := s\<rparr>)"
    unfolding service_runs_def actor_runs_def by metis
qed

lemma actor_runs_on_service: "(\<And>s. service_runs s (fst (f s))) \<Longrightarrow> actor_runs a (fst (on_service f a))"
  using actor_runs_service [of a] by (auto simp: on_service_def split: prod.split dest: meta_spec [of _ "a_service a"])

lemma actor_runs_fault: "actor_runs a (fst (change_fault now c n f a))"
  by (auto simp: change_fault_def intro!: actor_runs_on_service runs_Fault split: sum.split)

lemma actor_runs_partition: "actor_runs a (fst (set_partition inp cmd a))"
proof -
  have step: "actor_runs x (fst (updateNodePartition now c t q b x))" for x now c t q b
    unfolding updateNodePartition_def by (rule actor_runs_fault)
  obtain a1 e where u: "updateNodePartition (ai_clock inp 0) (cmd_ClusterID cmd) (cmd_NodeID cmd) (cmd_PeerID cmd) (cmd_Enabled cmd) a = (a1, e)" by force
  have "actor_runs a a1" using step [of a "ai_clock inp 0" "cmd_ClusterID cmd" "cmd_NodeID cmd" "cmd_PeerID cmd" "cmd_Enabled cmd"] u by simp
  then show ?thesis using actor_runs_trans [OF _ step] by (cases e) (simp_all add: set_partition_def u)
qed

lemma actor_runs_process: "actor_runs a (fst (startNodeProcess inp cmd a))"
proof -
  define c where "c = (if cmd_ClusterID cmd = [] then ''default'' else cmd_ClusterID cmd)"
  have "c \<noteq> []" by (simp add: c_def)
  then have "actor_runs a (a\<lparr>a_nodeProcs := gm_put (managedProcessKey c n) p (a_nodeProcs a),
      a_nodeMeta := gm_put (managedProcessKey c n) c (a_nodeMeta a)\<rparr>)" for n p
    using actor_runs_step [of a "XProcess c n p"] by simp
  then show ?thesis unfolding startNodeProcess_def c_def [symmetric] by (simp add: Let_def split: sum.split)
qed

lemma actor_runs_forget: "actor_runs a (forget_process key a)"
  using actor_runs_step [of a "XForget key"] by simp

lemma actor_runs_forget_all: "actor_runs a (fold (\<lambda>(key, _). forget_process key) ps a)"
proof (induction ps arbitrary: a)
  case (Cons p ps)
  show ?case using actor_runs_trans [OF actor_runs_forget Cons.IH] by (simp add: case_prod_unfold)
qed simp

lemma actor_runs_kill: "actor_runs (fst aw) (fst (fst (killCluster nc wire inp c0 aw)))"
proof (cases "trim_space c0 = []")
  case False
  obtain a w where aw: "aw = (a, w)" by force
  define c where "c = trim_space c0"
  obtain s1 w1 where st: "StopMetricsSessionIfActive nc wire (ai_clock inp 0) (ai_clock inp 1) c (a_service a, w) = (s1, w1)" by force
  have s1: "actor_runs a (a\<lparr>a_service := s1\<rparr>)"
    using actor_runs_service [OF runs_StopIf [of "(a_service a, w)" nc wire "ai_clock inp 0" "ai_clock inp 1" c, simplified]] st by simp
  define ps where "ps = filter (\<lambda>(key, _). gm_getd [] (a_nodeMeta a) key = c) (a_nodeProcs a)"
  let ?f = "fold (\<lambda>(key, _). forget_process key) ps (a\<lparr>a_service := s1\<rparr>)"
  obtain a2 e where d: "drop_cluster c ?f = (a2, e)" by force
  have "actor_runs ?f (fst (drop_cluster c ?f))"
    by (auto simp: drop_cluster_def service_RemoveCluster_def intro!: actor_runs_on_service runs_managers(2) split: sum.split)
  then have "actor_runs a a2" using d actor_runs_trans [OF actor_runs_trans [OF s1 actor_runs_forget_all]] by simp
  then show ?thesis using s1 False st d
    by (cases "kill_all inp ps 0"; cases e) (simp_all add: killCluster_def aw c_def [symmetric] ps_def [symmetric] Let_def split: prod.split)
qed (cases aw, simp add: killCluster_def)

lemma actor_runs_turn:
  assumes "actor_step nc wire inp cmd (a, w) = Some (aw', r)"
  shows "actor_runs a (fst aw')"
proof -
  note step = assms [unfolded actor_step_def kv_put_def kv_get_def metrics_start_def metrics_stop_def Let_def]
  let ?s = "a_service a" and ?c = "cmd_ClusterID cmd" and ?n = "cmd_NodeID cmd"
  show ?thesis
  proof (cases "cmd_Type cmd")
    case CmdKillCluster
    then show ?thesis using step actor_runs_kill [of "(a, w)" nc wire inp ?c] by (auto split: prod.splits sum.splits)
  next
    case CmdMetricsStop
    then show ?thesis using step actor_runs_service [OF runs_Stop [of "(?s, w)" nc wire "ai_clock inp 0" "ai_clock inp 1" ?c, simplified]]
      by (auto split: prod.splits sum.splits)
  next
    case CmdSetPartition
    then show ?thesis using step actor_runs_partition [of a inp cmd] by (auto split: prod.splits)
  next
    case CmdKVPut
    have put: "service_runs ?s (fst (fst (ExecuteKVPut nc wire ?c ?n (cmd_Key cmd) (cmd_Value cmd) ?s w)))" by (rule runs_Put)
    show ?thesis using CmdKVPut step actor_runs_service [OF put] actor_runs_service [OF runs_trans [OF put runs_watch(2)]]
      by (auto split: prod.splits option.splits)
  next
    case CmdSetClusterProtocol
    then show ?thesis using step actor_runs_service [OF runs_Protocol [of ?s nc ?c "cmd_Protocol cmd" w]] by (auto simp: with_error_def split: prod.splits)
  next
    case CmdMetricsStart
    then show ?thesis using step actor_runs_service [OF runs_StartIf [of ?s "ai_clock inp 0" ?c "wrap64 (cmd_IntervalMs cmd * 1000000)"]]
      by (auto split: prod.splits sum.splits)
  next
    case CmdAddNode
    then show ?thesis using step actor_runs_service [OF runs_Register [of ?s nc "ai_clock inp 0" "ai_clock inp 1" ?c ?n "cmd_Host cmd" "cmd_Port cmd" w]]
      by (auto split: prod.splits)
  next
    case CmdRemoveNode
    then show ?thesis using step by (auto simp: with_error_def intro!: actor_runs_service dest: runs_Remove split: prod.splits option.splits)
  next
    case CmdStopNodeProcess
    then show ?thesis using step by (auto simp: stop_node_def intro: actor_runs_forget split: prod.splits option.splits sum.splits)
  next
    case CmdRunHypothesis
    have "actor_runs a (a\<lparr>a_hypotheses := a_hypotheses a @ [h]\<rparr>)" for h using actor_runs_step [of a "XHypothesis h"] by simp
    then show ?thesis using CmdRunHypothesis step by (auto simp: runHypothesis_def Let_def split: prod.splits sum.splits if_splits)
  qed (use step in \<open>auto simp: with_error_def intro!: actor_runs_on_service actor_runs_fault actor_runs_process runs_Fault
      runs_Create runs_watch runs_lifecycle actor_runs_service split: prod.splits sum.splits\<close>)
qed

lemma runs_core: "actor_runs a a' \<Longrightarrow> actor_core a \<Longrightarrow> actor_core a'"
  by (auto simp: actor_runs_def intro: cp.run_inv)

text \<open>
  C25: The control plane keeps its books under every interleaving.  Let the actor, the RPC handlers, the samplers, the
  hypothesis runs and the other goroutines run their critical sections in any order on a fresh control plane.
  Then the manager and the sessions are consistent, every registered loop is a sampler that runs for its
  cluster, recent keys and log channels keep their bounds and no listener is closed, and every managed process is recorded together
  with the cluster it was started for, under its name.  And every turn of the actor, every exit of a process and every call on
  the service is such a sequence of sections, whatever the nodes answer.
\<close>

theorem actor_invariant:
  assumes "a = fold section_step xs (NewActor (NewClusterService (NewManager ns)) opts)"
  shows "actor_core a
    \<and> (\<forall>nc wire inp cmd w aw' r. actor_step nc wire inp cmd (a, w) = Some (aw', r) \<longrightarrow> (\<exists>ys. fst aw' = fold section_step ys a))
    \<and> (\<forall>key. \<exists>ys. process_exit key a = fold section_step ys a)
    \<and> (\<forall>nc wire x w. \<exists>ys. a\<lparr>a_service := fst (service_step nc wire x (a_service a, w))\<rparr> = fold section_step ys a)"
proof (intro conjI allI impI)
  have m: "manager_ok (NewManager ns)" by (simp add: NewManager_def manager_ok_def)
  then have "actor_core (NewActor (NewClusterService (NewManager ns)) opts)"
    by (simp add: actor_core_def service_core_def NewActor_def NewClusterService_def procs_ok_def samplers_ok_def chans_ok_def
        NewSessionManager_def sessions_ok_def)
  then show "actor_core a" unfolding assms by (rule cp.run_inv)
  show "\<exists>ys. fst aw' = fold section_step ys a" if "actor_step nc wire inp cmd (a, w) = Some (aw', r)" for nc wire inp cmd w aw' r
    using actor_runs_turn [OF that] by (simp add: actor_runs_def)
  show "\<exists>ys. process_exit key a = fold section_step ys a" for key
    using actor_runs_forget [of a key] by (simp add: actor_runs_def process_exit_def)
  show "\<exists>ys. a\<lparr>a_service := fst (service_step nc wire x (a_service a, w))\<rparr> = fold section_step ys a" for nc wire x w
    using actor_runs_service [OF runs_service_step] by (simp add: actor_runs_def)
qed

text \<open>
  A stop that overtakes a start.  A session is stopped between the moment its start has recorded it and the moment the start
  registers its loop: the sampler is started after all, for a cluster without an active session, and only a later stop ends it.
\<close>

lemma start_overtaken:
  assumes "session_Start c t1 (svc_metrics s) = (m, None)" "trim_space c = c"
    and "s' = fold service_section_step [XSessions (DoStart c t1), XBaseline c, XCancelLoop c, XDropBaseline c,
      XSessions (DoStats c st), XSessions (DoStop c t2), XStartLoop c iv] s"
  shows "\<not> live c (svc_metrics s') \<and> (\<exists>ctx. map_of (svc_metricsLoops s') c = Some ctx \<and> map_of (svc_samplers s') ctx = Some (c, iv))"
proof -
  let ?u = "UpdateSessionStats c st m"
  note start = live_Start [OF assms(1), unfolded assms(2)]
  have u: "live c ?u" using start neutral_stats [of m c st] by (simp add: neutral_def)
  obtain m2 e where stop: "session_Stop c t2 ?u = (m2, e)" by force
  have none: "e = None" using Stop_error [of c t2 ?u m2] stop u start(3) assms(2) by (cases e) auto
  have dead: "\<not> live c m2" using live_Stop(1) [OF stop [unfolded none], of c] assms(2) by simp
  have metrics: "svc_metrics (cancel_loop c x) = svc_metrics x" for x by (simp add: cancel_loop_def split: option.split)
  have "svc_metrics s' = m2" using assms(1,3) stop start(3) by (simp add: metrics Let_def)
  moreover have "\<exists>ctx. map_of (svc_metricsLoops s') c = Some ctx \<and> map_of (svc_samplers s') ctx = Some (c, iv)"
    using assms(3) start(3) by (simp add: Let_def)
  ultimately show ?thesis using dead by simp
qed

theorem actor_invariant_witness:
  "\<exists>xs. (let a = fold section_step xs (NewActor (NewClusterService (NewManager []))
         \<lparr>ao_ProjectRoot = [], ao_DefaultCPHost = [], ao_DefaultCPPort = 0, ao_NodeBinaryPath = []\<rparr>)
     in actor_core a \<and> \<not> live ''c'' (svc_metrics (a_service a)) \<and> map_of (svc_metricsLoops (a_service a)) ''c'' \<noteq> None)"
proof -
  let ?o = "\<lparr>ao_ProjectRoot = [], ao_DefaultCPHost = [], ao_DefaultCPPort = 0, ao_NodeBinaryPath = []\<rparr>"
  let ?st = "\<lparr>ss_TotalRPCs = 0, ss_TotalWrites = 0, ss_RecentKeys = []\<rparr>"
  let ?xs = "map XService [XManager (DoCreateCluster ''c'' ''gossip''), XSessions (DoStart ''c'' 1), XBaseline ''c'', XCancelLoop ''c'',
    XDropBaseline ''c'', XSessions (DoStats ''c'' ?st), XSessions (DoStop ''c'' 2), XStartLoop ''c'' 1000000000]"
  define s where "s = service_section_step (XManager (DoCreateCluster ''c'' ''gossip'')) (NewClusterService (NewManager []))"
  define s' where "s' = fold service_section_step [XSessions (DoStart ''c'' 1), XBaseline ''c'', XCancelLoop ''c'', XDropBaseline ''c'',
      XSessions (DoStats ''c'' ?st), XSessions (DoStop ''c'' 2), XStartLoop ''c'' 1000000000] s"
  have c: "trim_space ''c'' = ''c''" by (rule trim_space_word) (simp add: is_word_def is_space_def)
  have "\<exists>m. session_Start ''c'' 1 (svc_metrics s) = (m, None)"
    by (simp add: s_def NewClusterService_def NewSessionManager_def session_Start_def c Let_def)
  then obtain m where "session_Start ''c'' 1 (svc_metrics s) = (m, None)" by blast
  note over = start_overtaken [OF this c s'_def]
  let ?a = "fold section_step ?xs (NewActor (NewClusterService (NewManager [])) ?o)"
  have "a_service ?a = s'" unfolding s'_def s_def by (simp add: NewActor_def del: service_section_step.simps)
  then have "actor_core ?a \<and> \<not> live ''c'' (svc_metrics (a_service ?a)) \<and> map_of (svc_metricsLoops (a_service ?a)) ''c'' \<noteq> None"
    using over actor_invariant [OF refl, of ?xs "[]" ?o] by auto
  then show ?thesis unfolding Let_def by blast
qed

end
