(* ===== verification/RestSpec.thy ===== *)
theory RestSpec
  imports Rest Sections ControlRPC "HOL-Library.Sublist"
begin

text \<open>
  The two command interfaces of the control plane compared: the texts of the command line
  (\<open>ExecuteRuntimeCommand\<close>) and the REST routes.  Both are front ends of the actor; the locale states what
  a front end is, and its facts (the invariant is kept, what panics) are proved once for both.  Requests pass the
  multiplexer that \<open>main\<close> sets up: it redirects a path with empty or dot segments to the cleaned one and routes the others.

  Shown: the same operation has the same effect through both; which requests reach no command; which
  request brings the control plane down; and that a log stream delivers what is reported, in order.
\<close>

section \<open>Front ends\<close>

locale front_end =
  fixes nc :: "'w node_operator" and wire :: kv_wire and inp :: actor_input
    and serve :: "'op \<Rightarrow> actor \<times> 'w \<Rightarrow> ((actor \<times> 'w) \<times> 'r) option"
    and cmd_of :: "'op \<Rightarrow> command" and good :: "'op \<Rightarrow> bool" and succeeded :: "'r \<Rightarrow> bool"
  assumes runs: "good x \<Longrightarrow> (case actor_step nc wire inp (cmd_of x) aw of
      None \<Rightarrow> serve x aw = None
    | Some (aw', res) \<Rightarrow> \<exists>r. serve x aw = Some (aw', r) \<and> (succeeded r \<longleftrightarrow> \<not> isl res))"
begin

lemma panics: "good x \<Longrightarrow> serve x aw = None \<longleftrightarrow> actor_step nc wire inp (cmd_of x) aw = None"
  using runs [of x aw] by (auto split: option.splits)

lemma step: "good x \<Longrightarrow> serve x aw = Some (aw', r) \<Longrightarrow>
    \<exists>res. actor_step nc wire inp (cmd_of x) aw = Some (aw', res) \<and> (succeeded r \<longleftrightarrow> \<not> isl res)"
  using runs [of x aw] by (auto split: option.splits)

lemma keeps_invariant: "good x \<Longrightarrow> actor_core (fst aw) \<Longrightarrow> serve x aw = Some (aw', r) \<Longrightarrow> actor_core (fst aw')"
  using step [of x aw aw' r] actor_runs_turn [of nc wire inp "cmd_of x" "fst aw" "snd aw" aw'] runs_core by force

end

section \<open>Operations and their two forms\<close>

text \<open>What both interfaces offer; a rate is given by its literal.\<close>

datatype operation =
  OpClusters
| OpCreate string string
| OpAdd string string string int
| OpRemove string string
| OpFault string string bool string int "string list"
| OpCrash string string
| OpRecover string string
| OpDrop string string string
| OpDelay string string int
| OpCut string string string bool
| OpPut string string string string
| OpGet string string string
| OpProtocol string string
| OpStart string int
| OpStop string
| OpShow string
| OpWatch string string

fun op_command :: "float_parser \<Rightarrow> operation \<Rightarrow> command" where
  "op_command pf OpClusters = NewCommand CmdListClusters"
| "op_command pf (OpCreate c p) = (NewCommand CmdCreateCluster)\<lparr>cmd_ClusterID := c, cmd_Protocol := p\<rparr>"
| "op_command pf (OpAdd c n h p) = (NewCommand CmdAddNode)\<lparr>cmd_ClusterID := c, cmd_NodeID := n, cmd_Host := h, cmd_Port := p\<rparr>"
| "op_command pf (OpRemove c n) = (NewCommand CmdRemoveNode)\<lparr>cmd_ClusterID := c, cmd_NodeID := n\<rparr>"
| "op_command pf (OpFault c n b t d ps) = (NewCommand CmdSetFaultParams)\<lparr>cmd_ClusterID := c, cmd_NodeID := n, cmd_Crashed := b,
     cmd_DropRate := the (pf t), cmd_DelayMs := d, cmd_Partition := ps\<rparr>"
| "op_command pf (OpCrash c n) = (NewCommand CmdCrashNode)\<lparr>cmd_ClusterID := c, cmd_NodeID := n\<rparr>"
| "op_command pf (OpRecover c n) = (NewCommand CmdRecoverNode)\<lparr>cmd_ClusterID := c, cmd_NodeID := n\<rparr>"
| "op_command pf (OpDrop c n t) = (NewCommand CmdSetDropRate)\<lparr>cmd_ClusterID := c, cmd_NodeID := n, cmd_DropRate := the (pf t)\<rparr>"
| "op_command pf (OpDelay c n d) = (NewCommand CmdSetDelay)\<lparr>cmd_ClusterID := c, cmd_NodeID := n, cmd_DelayMs := d\<rparr>"
| "op_command pf (OpCut c n p b) = (NewCommand CmdSetPartition)\<lparr>cmd_ClusterID := c, cmd_NodeID := n, cmd_PeerID := p, cmd_Enabled := b\<rparr>"
| "op_command pf (OpPut c n k v) = (NewCommand CmdKVPut)\<lparr>cmd_ClusterID := c, cmd_NodeID := n, cmd_Key := k, cmd_Value := v\<rparr>"
| "op_command pf (OpGet c n k) = (NewCommand CmdKVGet)\<lparr>cmd_ClusterID := c, cmd_NodeID := n, cmd_Key := k\<rparr>"
| "op_command pf (OpProtocol c p) = (NewCommand CmdSetClusterProtocol)\<lparr>cmd_ClusterID := c, cmd_Protocol := p\<rparr>"
| "op_command pf (OpStart c i) = (NewCommand CmdMetricsStart)\<lparr>cmd_ClusterID := c, cmd_IntervalMs := i\<rparr>"
| "op_command pf (OpStop c) = (NewCommand CmdMetricsStop)\<lparr>cmd_ClusterID := c\<rparr>"
| "op_command pf (OpShow c) = (NewCommand CmdMetricsShow)\<lparr>cmd_ClusterID := c\<rparr>"
| "op_command pf (OpWatch c k) = (NewCommand CmdMetricsWatchKey)\<lparr>cmd_ClusterID := c, cmd_Key := k\<rparr>"

text \<open>The words of the command line.\<close>

fun cli_words :: "operation \<Rightarrow> string list" where
  "cli_words OpClusters = [''list-clusters'']"
| "cli_words (OpCreate c p) = [''new-cluster'', c, ''--protocol'', p]"
| "cli_words (OpAdd c n h p) = [''add-node'', c, n, h, show_int p]"
| "cli_words (OpRemove c n) = [''remove-node'', c, n]"
| "cli_words (OpFault c n b t d ps) = [''set-fault'', c, n, show_bool b, t, show_int d] @ (if ps = [] then [] else [join_with '','' ps])"
| "cli_words (OpCrash c n) = [''fault-crash'', c, n]"
| "cli_words (OpRecover c n) = [''fault-recover'', c, n]"
| "cli_words (OpDrop c n t) = [''fault-drop'', c, n, t]"
| "cli_words (OpDelay c n d) = [''fault-delay'', c, n, show_int d]"
| "cli_words (OpCut c n p b) = [''fault-partition'', c, n, p, show_bool b]"
| "cli_words (OpPut c n k v) = [''kv-put'', c, n, k, v]"
| "cli_words (OpGet c n k) = [''kv-get'', c, n, k]"
| "cli_words (OpProtocol c p) = [''set-protocol'', c, p]"
| "cli_words (OpStart c i) = [''metrics-start'', c, show_int i]"
| "cli_words (OpStop c) = [''metrics-stop'', c]"
| "cli_words (OpShow c) = [''metrics-show'', c]"
| "cli_words (OpWatch c k) = [''metrics-watch-key'', c, k]"

text \<open>Method, path segments below \<open>/api/clusters\<close> and body of the REST call.\<close>

fun rest_form :: "operation \<Rightarrow> string \<times> string list \<times> json" where
  "rest_form OpClusters = (''GET'', [], JNull)"
| "rest_form (OpCreate c p) = (''POST'', [], JObj [(''id'', JStr c), (''protocol'', JStr p)])"
| "rest_form (OpAdd c n h p) = (''POST'', [c, ''nodes''], JObj [(''node_id'', JStr n), (''address'', JStr h), (''port'', JNum (show_int p))])"
| "rest_form (OpRemove c n) = (''DELETE'', [c, ''nodes'', n], JNull)"
| "rest_form (OpFault c n b t d ps) = (''PATCH'', [c, ''nodes'', n, ''fault''],
     JObj [(''crashed'', JBool b), (''drop_rate'', JNum t), (''delay_ms'', JNum (show_int d)), (''partition'', JArr (map JStr ps))])"
| "rest_form (OpCrash c n) = (''POST'', [c, ''nodes'', n, ''faults'', ''crash''], JNull)"
| "rest_form (OpRecover c n) = (''POST'', [c, ''nodes'', n, ''faults'', ''recover''], JNull)"
| "rest_form (OpDrop c n t) = (''POST'', [c, ''nodes'', n, ''faults'', ''drop-rate''], JObj [(''drop_rate'', JNum t)])"
| "rest_form (OpDelay c n d) = (''POST'', [c, ''nodes'', n, ''faults'', ''delay''], JObj [(''delay_ms'', JNum (show_int d))])"
| "rest_form (OpCut c n p b) = (''POST'', [c, ''nodes'', n, ''faults'', ''partition''], JObj [(''peer_id'', JStr p), (''enabled'', JBool b)])"
| "rest_form (OpPut c n k v) = (''POST'', [c, ''nodes'', n, ''kv''], JObj [(''key'', JStr k), (''value'', JStr v)])"
| "rest_form (OpGet c n k) = (''GET'', [c, ''nodes'', n, ''kv'', k], JNull)"
| "rest_form (OpProtocol c p) = (''PATCH'', [c, ''protocol''], JObj [(''protocol'', JStr p)])"
| "rest_form (OpStart c i) = (''POST'', [c, ''metrics'', ''start''], JObj [(''interval_ms'', JNum (show_int i))])"
| "rest_form (OpStop c) = (''POST'', [c, ''metrics'', ''stop''], JNull)"
| "rest_form (OpShow c) = (''GET'', [c, ''metrics''], JNull)"
| "rest_form (OpWatch c k) = (''POST'', [c, ''metrics'', ''watch''], JObj [(''key'', JStr k)])"

text \<open>
  The request a client sends: the names are escaped in the path, and so is every character that has a
  meaning in one.
\<close>

definition hex_digit :: "nat \<Rightarrow> char" where
  "hex_digit n = (if n < 10 then char_of (48 + n) else char_of (55 + n))"

definition plain_char :: "char \<Rightarrow> bool" where
  "plain_char c \<longleftrightarrow> (let n = of_char c :: nat in 48 \<le> n \<and> n \<le> 57 \<or> 65 \<le> n \<and> n \<le> 90 \<or> 97 \<le> n \<and> n \<le> 122 \<or> n = 45 \<or> n = 95)"

definition escape_char :: "char \<Rightarrow> string" where
  "escape_char c = (if plain_char c then [c] else [CHR ''%'', hex_digit (of_char c div 16), hex_digit (of_char c mod 16)])"

definition path_escape :: "string \<Rightarrow> string" where
  "path_escape s = concat (map escape_char s)"

definition rest_request :: "operation \<Rightarrow> http_request" where
  "rest_request x = (case rest_form x of (m, segs, j) \<Rightarrow>
     \<lparr>hq_Method = m, hq_Escaped = join_with ''/'' ([] # ''api'' # ''clusters'' # map path_escape segs),
      hq_Path = join_with ''/'' ([] # ''api'' # ''clusters'' # segs), hq_Body = Inr j\<rparr>)"

section \<open>The multiplexer\<close>

text \<open>
  The routes of the HTTP server (\<open>cmd/controlplane/main.go\<close>) in a \<open>ServeMux\<close> of Go 1.24.  It works on the
  escaped path: a path that is not clean (empty or dot segments; a slash at the end is kept) is redirected to its clean form, whatever
  handler it would have, except for \<open>CONNECT\<close>; then its segments are unescaped one by one and compared with the patterns.
  Of the responses of the library itself only the status is modelled.
\<close>

definition hex_val :: "char \<Rightarrow> nat option" where
  "hex_val c = (let n = of_char c :: nat in
     if 48 \<le> n \<and> n \<le> 57 then Some (n - 48) else if 65 \<le> n \<and> n \<le> 70 then Some (n - 55)
     else if 97 \<le> n \<and> n \<le> 102 then Some (n - 87) else None)"

fun unescape :: "string \<Rightarrow> string option" where
  "unescape [] = Some []"
| "unescape (c # cs) = (if c \<noteq> CHR ''%'' then map_option (Cons c) (unescape cs)
     else case cs of
       a # b # rest \<Rightarrow> (case (hex_val a, hex_val b) of
         (Some x, Some y) \<Rightarrow> map_option (Cons (char_of (16 * x + y))) (unescape rest)
       | _ \<Rightarrow> None)
     | _ \<Rightarrow> None)"

definition path_unescape :: "string \<Rightarrow> string" where
  "path_unescape s = (case unescape s of None \<Rightarrow> s | Some t \<Rightarrow> t)"

definition clean_step :: "string \<Rightarrow> string list \<Rightarrow> string list" where
  "clean_step seg done = (if seg = [] \<or> seg = ''.'' then done else if seg = ''..'' then butlast done else done @ [seg])"

definition clean_path :: "string \<Rightarrow> string" where
  "clean_path p0 =
     (let p = (if p0 = [] \<or> hd p0 \<noteq> CHR ''/'' then CHR ''/'' # p0 else p0);
          segs = fold clean_step (split_on CHR ''/'' p) [];
          np = CHR ''/'' # join_with ''/'' segs
      in if last p = CHR ''/'' \<and> segs \<noteq> [] then np @ ''/'' else np)"

definition first_segment :: "string \<Rightarrow> string \<times> string" where
  "first_segment path = (if path = ''/'' then (''/'', [])
     else (path_unescape (takeWhile (\<lambda>c. c \<noteq> CHR ''/'') (tl path)), dropWhile (\<lambda>c. c \<noteq> CHR ''/'') (tl path)))"

datatype mux_target = MuxClusters | MuxNodes | MuxNone

text \<open>The patterns \<open>/api/clusters\<close> and \<open>/api/clusters/\<close>, of which the second takes every path below.\<close>

definition mux_route :: "string \<Rightarrow> mux_target" where
  "mux_route path = (if path = [] then MuxNone
     else case first_segment path of (seg, rest) \<Rightarrow>
       if seg \<noteq> ''api'' \<or> rest = [] then MuxNone
       else case first_segment rest of (seg, rest) \<Rightarrow>
         if seg \<noteq> ''clusters'' then MuxNone else if rest = [] then MuxClusters else MuxNodes)"

definition library_response :: "nat \<Rightarrow> http_response" where
  "library_response status = \<lparr>rs_Status = status, rs_Headers = [], rs_Body = NoBody\<rparr>"

definition http_mux :: "'w node_operator \<Rightarrow> kv_wire \<Rightarrow> float_parser \<Rightarrow> actor_input \<Rightarrow> http_request \<Rightarrow> actor \<times> 'w \<Rightarrow> 'w served" where
  "http_mux nc wire pf inp r aw =
     (if hq_Escaped r = ''*'' then Some (aw, library_response 400)
      else
        let path = (if hq_Method r = ''CONNECT'' then hq_Escaped r else clean_path (hq_Escaped r)) in
        if path \<noteq> hq_Escaped r then Some (aw, library_response 301)
        else case mux_route path of
          MuxClusters \<Rightarrow> HandleClusters nc wire inp r aw
        | MuxNodes \<Rightarrow> HandleNodes nc wire pf inp r aw
        | MuxNone \<Rightarrow> Some (aw, library_response 404))"

definition int64 :: "int \<Rightarrow> bool" where
  "int64 i \<longleftrightarrow> i64_min \<le> i \<and> i \<le> i64_max"

text \<open>Arguments that both forms can carry: names are words without slash, peers without comma.\<close>

definition name_ok :: "string \<Rightarrow> bool" where
  "name_ok s \<longleftrightarrow> is_word s \<and> CHR ''/'' \<notin> set s"

fun op_ok :: "float_parser \<Rightarrow> operation \<Rightarrow> bool" where
  "op_ok pf OpClusters = True"
| "op_ok pf (OpCreate c p) = (is_word c \<and> is_word p)"
| "op_ok pf (OpAdd c n h p) = (name_ok c \<and> is_word n \<and> is_word h \<and> int64 p)"
| "op_ok pf (OpFault c n b t d ps) = (name_ok c \<and> name_ok n \<and> is_word t \<and> pf t \<noteq> None \<and> int64 d \<and> list_all (\<lambda>p. is_word p \<and> CHR '','' \<notin> set p) ps)"
| "op_ok pf (OpDrop c n t) = (name_ok c \<and> name_ok n \<and> is_word t \<and> pf t \<noteq> None)"
| "op_ok pf (OpDelay c n d) = (name_ok c \<and> name_ok n \<and> int64 d)"
| "op_ok pf (OpCut c n p b) = (name_ok c \<and> name_ok n \<and> is_word p)"
| "op_ok pf (OpPut c n k v) = (name_ok c \<and> name_ok n \<and> is_word k \<and> is_word v)"
| "op_ok pf (OpGet c n k) = (name_ok c \<and> name_ok n \<and> name_ok k)"
| "op_ok pf (OpProtocol c p) = (name_ok c \<and> is_word p)"
| "op_ok pf (OpStart c i) = (name_ok c \<and> int64 i)"
| "op_ok pf (OpStop c) = name_ok c"
| "op_ok pf (OpShow c) = name_ok c"
| "op_ok pf (OpWatch c k) = (name_ok c \<and> is_word k)"
| "op_ok pf (OpRemove c n) = (name_ok c \<and> name_ok n)"
| "op_ok pf (OpCrash c n) = (name_ok c \<and> name_ok n)"
| "op_ok pf (OpRecover c n) = (name_ok c \<and> name_ok n)"

section \<open>The command line runs the operation\<close>

lemma cli_words_ok: "op_ok pf x \<Longrightarrow> list_all is_word (cli_words x)"
  by (cases x) (auto simp: name_ok_def is_word_name is_word_lit intro!: join_word elim: list.pred_mono_strong)

lemma cli_parses: "op_ok pf x \<Longrightarrow> parse_parts pf (hd (cli_words x)) (tl (cli_words x)) = Inr (op_command pf x)"
proof (cases x)
  case (OpFault c n b t d ps)
  assume ok: "op_ok pf x"
  have "ps \<noteq> [] \<Longrightarrow> is_word (join_with '','' ps)" "ps \<noteq> [] \<Longrightarrow> split_on CHR '','' (join_with '','' ps) = ps"
    using ok OpFault by (auto intro!: join_word split_join elim: list.pred_mono_strong simp: list_all_iff)
  then show ?thesis using ok OpFault by (auto simp: parse_parts_name parse_set_fault_def atoi_show int64_def)
qed (auto simp: parse_parts_name parse_defs parse_new_cluster_def parse_metrics_start_def atoi_show int64_def)

lemma cli_runtime: "op_ok pf x \<Longrightarrow> runtime_command pf (join_with '' '' (cli_words x)) = Some (Inr (op_command pf x))"
proof -
  assume ok: "op_ok pf x"
  obtain n ws where w: "cli_words x = n # ws" by (cases x) auto
  have "n \<noteq> ''cp''" using w by (cases x) auto
  then show ?thesis using runtime_words [of n ws pf] cli_words_ok [OF ok] cli_parses [OF ok] w by simp
qed

section \<open>The routes run the operation\<close>

text \<open>A segment that cleaning leaves alone; an escaped name is one.\<close>

definition clean_seg :: "string \<Rightarrow> bool" where
  "clean_seg s \<longleftrightarrow> s \<noteq> [] \<and> s \<noteq> ''.'' \<and> s \<noteq> ''..'' \<and> CHR ''/'' \<notin> set s"

lemma clean_fold: "list_all clean_seg segs \<Longrightarrow> fold clean_step segs acc = acc @ segs"
  by (induction segs arbitrary: acc) (auto simp: clean_seg_def clean_step_def)

lemma join_root: "segs \<noteq> [] \<Longrightarrow> join_with ''/'' ([] # segs) = CHR ''/'' # join_with ''/'' segs"
  by (cases segs) auto

lemma join_last: "segs \<noteq> [] \<Longrightarrow> last segs \<noteq> [] \<Longrightarrow> last (join_with ''/'' segs) = last (last segs) \<and> join_with ''/'' segs \<noteq> []"
proof (induction segs)
  case (Cons s ss)
  then show ?case by (cases ss) auto
qed simp

lemma clean_path_id:
  assumes "list_all clean_seg segs" "segs \<noteq> []"
  shows "clean_path (join_with ''/'' ([] # segs)) = join_with ''/'' ([] # segs)"
proof -
  let ?p = "CHR ''/'' # join_with ''/'' segs"
  have "clean_seg (last segs)" using assms by (simp add: list_all_iff)
  then have l: "last segs \<noteq> []" "CHR ''/'' \<notin> set (last segs)" by (simp_all add: clean_seg_def)
  then have "last (last segs) \<noteq> CHR ''/''" using last_in_set by metis
  then have last: "last ?p \<noteq> CHR ''/''" using join_last [OF assms(2) l(1)] by simp
  have "split_on CHR ''/'' (join_with ''/'' ([] # segs)) = [] # segs"
    using assms(1) by (intro split_join) (auto simp: list_all_iff clean_seg_def)
  then have split: "split_on CHR ''/'' ?p = [] # segs" by (simp only: join_root [OF assms(2)])
  have "fold clean_step ([] # segs) [] = segs" using clean_fold [OF assms(1), of "[]"] by (simp add: clean_step_def)
  then have "clean_path ?p = ?p" unfolding clean_path_def Let_def using last by (simp only: list.sel list.distinct split simp_thms if_False)
  then show ?thesis by (simp only: join_root [OF assms(2)])
qed

lemma hex_digit_props: "n < 16 \<Longrightarrow> hex_digit n \<noteq> CHR ''/'' \<and> hex_digit n \<noteq> CHR ''.'' \<and> hex_val (hex_digit n) = Some n"
proof -
  assume "n < 16"
  then have "n \<in> set [0..<16]" by simp
  moreover have "list_all (\<lambda>n. hex_digit n \<noteq> CHR ''/'' \<and> hex_digit n \<noteq> CHR ''.'' \<and> hex_val (hex_digit n) = Some n) [0..<16]" by code_simp
  ultimately show ?thesis unfolding list_all_iff by blast
qed

lemma escape_char_props: "escape_char c \<noteq> [] \<and> CHR ''/'' \<notin> set (escape_char c) \<and> CHR ''.'' \<notin> set (escape_char c)"
  using hex_digit_props [of "of_char c div 16"] hex_digit_props [of "of_char c mod 16"]
  by (auto simp: escape_char_def plain_char_def Let_def less_mult_imp_div_less)

lemma path_escape_clean: "s \<noteq> [] \<Longrightarrow> clean_seg (path_escape s)"
proof -
  assume "s \<noteq> []"
  then have "path_escape s \<noteq> []" using escape_char_props by (cases s) (auto simp: path_escape_def)
  moreover have "CHR ''/'' \<notin> set (path_escape s)" "CHR ''.'' \<notin> set (path_escape s)"
    using escape_char_props by (auto simp: path_escape_def)
  ultimately show ?thesis by (auto simp: clean_seg_def)
qed

text \<open>The escaped path of a request unescapes to its path.\<close>

lemma unescape_char: "unescape (escape_char c @ cs) = map_option (Cons c) (unescape cs)"
proof (cases "plain_char c")
  case True
  then have "c \<noteq> CHR ''%''" by (auto simp: plain_char_def)
  then show ?thesis using True by (simp add: escape_char_def)
next
  case False
  have "of_char c < (256 :: nat)" by simp
  then have d: "of_char c div 16 < (16 :: nat)" "of_char c mod 16 < (16 :: nat)"
    using less_mult_imp_div_less [of "of_char c" 16 16] by simp_all
  have "16 * (of_char c div 16) + of_char c mod 16 = (of_char c :: nat)" by simp
  then show ?thesis using False hex_digit_props [OF d(1)] hex_digit_props [OF d(2)] by (simp add: escape_char_def)
qed

lemma unescape_escape: "path_unescape (path_escape s) = s"
proof -
  have "unescape (path_escape s) = Some s"
    by (induction s) (simp_all add: path_escape_def unescape_char)
  then show ?thesis by (simp add: path_unescape_def)
qed

lemma mux_clusters:
  "http_mux nc wire pf inp \<lparr>hq_Method = m, hq_Escaped = join_with ''/'' [[], ''api'', ''clusters''], hq_Path = p, hq_Body = b\<rparr> aw =
     HandleClusters nc wire inp \<lparr>hq_Method = m, hq_Escaped = ''/api/clusters'', hq_Path = p, hq_Body = b\<rparr> aw"
proof -
  have "clean_path ''/api/clusters'' = ''/api/clusters''"
    using clean_path_id [of "[''api'', ''clusters'']"] by (simp add: clean_seg_def)
  then show ?thesis by (simp add: http_mux_def Let_def mux_route_def first_segment_def path_unescape_def)
qed

lemma mux_nodes:
  assumes "list_all (\<lambda>s. s \<noteq> []) segs" "segs \<noteq> []" "path = join_with ''/'' ([] # ''api'' # ''clusters'' # map path_escape segs)"
  shows "http_mux nc wire pf inp \<lparr>hq_Method = m, hq_Escaped = path, hq_Path = p, hq_Body = b\<rparr> aw =
     HandleNodes nc wire pf inp \<lparr>hq_Method = m, hq_Escaped = path, hq_Path = p, hq_Body = b\<rparr> aw"
proof -
  have "list_all clean_seg (''api'' # ''clusters'' # map path_escape segs)"
    using assms(1) path_escape_clean by (auto simp: list_all_iff clean_seg_def)
  from clean_path_id [OF this] have c: "clean_path path = path" by (simp add: assms(3))
  obtain t where t: "path = ''/api/clusters/'' @ t" using assms(2,3) by (cases segs) auto
  have "mux_route path = MuxNodes" by (simp add: t mux_route_def first_segment_def path_unescape_def)
  then show ?thesis using c t by (simp add: http_mux_def Let_def)
qed

lemma path_parts:
  "list_all (\<lambda>x. CHR ''/'' \<notin> set x) segs \<Longrightarrow>
     split_on CHR ''/'' (join_with ''/'' ([] # ''api'' # ''clusters'' # segs)) = [] # ''api'' # ''clusters'' # segs"
  by (rule split_join) (auto simp: list_all_iff)

lemma lower_names:
  "to_lower ''id'' = ''id''" "to_lower ''protocol'' = ''protocol''" "to_lower ''node_id'' = ''node_id''" "to_lower ''address'' = ''address''"
  "to_lower ''port'' = ''port''" "to_lower ''crashed'' = ''crashed''" "to_lower ''drop_rate'' = ''drop_rate''" "to_lower ''delay_ms'' = ''delay_ms''"
  "to_lower ''partition'' = ''partition''" "to_lower ''peer_id'' = ''peer_id''" "to_lower ''enabled'' = ''enabled''" "to_lower ''key'' = ''key''"
  "to_lower ''value'' = ''value''" "to_lower ''interval_ms'' = ''interval_ms''"
  by code_simp+

lemma string_items_map: "string_items (map JStr ps) = Some ps"
  by (induction ps) auto

lemmas decode_simps = decode_struct_def set_string_def set_bool_def set_int_def set_float_def set_strings_def string_items_map lower_names

lemma decode_bodies:
  "decode_create_cluster (Inr (JObj [(''id'', JStr c), (''protocol'', JStr p)])) = (\<lparr>ccr_ID = c, ccr_Protocol = p\<rparr>, True)"
  "int64 i \<Longrightarrow> decode_add_node (Inr (JObj [(''node_id'', JStr n), (''address'', JStr h), (''port'', JNum (show_int i))]))
     = (\<lparr>anr_NodeID = n, anr_Address = h, anr_Port = i\<rparr>, True)"
  "int64 i \<Longrightarrow> pf t = Some x \<Longrightarrow> decode_set_fault pf (Inr (JObj [(''crashed'', JBool b), (''drop_rate'', JNum t), (''delay_ms'', JNum (show_int i)),
     (''partition'', JArr (map JStr ps))])) = (\<lparr>fs_Crashed = b, fs_DropRate = x, fs_DelayMs = i, fs_Partition = ps\<rparr>, True)"
  "pf t = Some x \<Longrightarrow> decode_drop_rate pf (Inr (JObj [(''drop_rate'', JNum t)])) = (x, True)"
  "int64 i \<Longrightarrow> decode_delay (Inr (JObj [(''delay_ms'', JNum (show_int i))])) = (i, True)"
  "decode_partition (Inr (JObj [(''peer_id'', JStr p), (''enabled'', JBool b)])) = (\<lparr>spr_PeerID = p, spr_Enabled = b\<rparr>, True)"
  "decode_kv (Inr (JObj [(''key'', JStr k), (''value'', JStr v)])) = (\<lparr>kvr_Key = k, kvr_Value = v\<rparr>, True)"
  "decode_protocol (Inr (JObj [(''protocol'', JStr p)])) = (p, True)"
  "int64 i \<Longrightarrow> decode_interval (Inr (JObj [(''interval_ms'', JNum (show_int i))])) = (i, True)"
  "decode_watch (Inr (JObj [(''key'', JStr k)])) = (k, True)"
  by (simp_all add: decode_simps decode_create_cluster_def decode_add_node_def decode_set_fault_def decode_drop_rate_def decode_delay_def
      decode_partition_def decode_kv_def decode_protocol_def decode_interval_def decode_watch_def parse_int_show int64_def)

lemmas handler_defs = addNode_def removeNode_def setFault_def handleFaultCommand_def fault_command_def handleKV_def rest_swapProtocol_def
  rest_startMetrics_def rest_stopMetrics_def rest_getMetrics_def watchMetricsKey_def

definition submits :: "'w served \<Rightarrow> 'w node_operator \<Rightarrow> kv_wire \<Rightarrow> actor_input \<Rightarrow> command \<Rightarrow> actor \<times> 'w \<Rightarrow> bool" where
  "submits res nc wire inp cmd aw \<longleftrightarrow> (\<exists>code f. 400 \<le> code \<and> res = submit_wait nc wire inp cmd code f aw)"

lemma submits_wait [simp]: "400 \<le> code \<Longrightarrow> submits (submit_wait nc wire inp cmd code f aw) nc wire inp cmd aw"
  by (auto simp: submits_def)

lemma rest_runs:
  assumes "op_ok pf x"
  shows "submits (http_mux nc wire pf inp (rest_request x) aw) nc wire inp (op_command pf x) aw"
proof -
  obtain m segs j where f: "rest_form x = (m, segs, j)" by (cases "rest_form x") auto
  have "list_all (\<lambda>s. CHR ''/'' \<notin> set s) (fst (snd (rest_form x)))" using assms by (cases x) (auto simp: name_ok_def)
  then have "list_all (\<lambda>s. CHR ''/'' \<notin> set s) segs" by (simp add: f)
  from path_parts [OF this] obtain path where path: "path = join_with ''/'' ([] # ''api'' # ''clusters'' # segs)"
    "split_on CHR ''/'' path = [] # ''api'' # ''clusters'' # segs" by blast
  have ne: "list_all (\<lambda>s. s \<noteq> []) (fst (snd (rest_form x)))" using assms by (cases x) (auto simp: name_ok_def is_word_def)
  let ?e = "join_with ''/'' ([] # ''api'' # ''clusters'' # map path_escape segs)"
  let ?r = "\<lparr>hq_Method = m, hq_Escaped = ?e, hq_Path = path, hq_Body = Inr j\<rparr>"
  have r: "rest_request x = ?r" by (simp only: rest_request_def f path(1) case_prod_conv)
  have mux: "http_mux nc wire pf inp ?r aw = (if segs = [] then HandleClusters nc wire inp ?r aw else HandleNodes nc wire pf inp ?r aw)"
  proof (cases segs)
    case Nil
    then show ?thesis using mux_clusters [of nc wire pf inp m path "Inr j" aw] by simp
  next
    case (Cons s ss)
    then have "segs \<noteq> []" by simp
    from mux_nodes [OF _ this refl] show ?thesis using ne Cons by (simp add: f)
  qed
  have g: "m = fst (rest_form x)" "segs = fst (snd (rest_form x))" "j = snd (snd (rest_form x))" by (simp_all add: f)
  show ?thesis unfolding r mux
  proof (cases x)
    case (OpFault c n b t d ps)
    then obtain y where "pf t = Some y" using assms by auto
    then show "submits (if segs = [] then HandleClusters nc wire inp ?r aw else HandleNodes nc wire pf inp ?r aw) nc wire inp (op_command pf x) aw"
      using g assms path(2) OpFault by (simp add: HandleNodes_def Let_def setFault_def decode_bodies)
  next
    case (OpDrop c n t)
    then obtain y where "pf t = Some y" using assms by auto
    then show "submits (if segs = [] then HandleClusters nc wire inp ?r aw else HandleNodes nc wire pf inp ?r aw) nc wire inp (op_command pf x) aw"
      using g assms path(2) OpDrop by (simp add: HandleNodes_def Let_def handleFaultCommand_def fault_command_def decode_bodies)
  qed (use g assms path(2) in \<open>simp_all add: HandleNodes_def Let_def HandleClusters_def getClusters_def createCluster_def handler_defs decode_bodies\<close>)
qed

section \<open>Both are front ends\<close>

definition cli_call :: "'w node_operator \<Rightarrow> kv_wire \<Rightarrow> float_parser \<Rightarrow> actor_input \<Rightarrow> operation \<Rightarrow> actor \<times> 'w
    \<Rightarrow> ((actor \<times> 'w) \<times> (runtime_error + reply option)) option" where
  "cli_call nc wire pf inp x = ExecuteRuntimeCommand nc wire pf inp (join_with '' '' (cli_words x))"

interpretation rest: front_end nc wire inp "\<lambda>x. http_mux nc wire pf inp (rest_request x)" "op_command pf" "op_ok pf" "\<lambda>r. rs_Status r = 200"
  for nc wire inp pf
proof
  fix x aw
  assume "op_ok pf x"
  from rest_runs [OF this, of nc wire inp aw] obtain code f where "400 \<le> code"
    "http_mux nc wire pf inp (rest_request x) aw = submit_wait nc wire inp (op_command pf x) code f aw" by (auto simp: submits_def)
  then show "case actor_step nc wire inp (op_command pf x) aw of None \<Rightarrow> http_mux nc wire pf inp (rest_request x) aw = None
      | Some (aw', res) \<Rightarrow> \<exists>r. http_mux nc wire pf inp (rest_request x) aw = Some (aw', r) \<and> (rs_Status r = 200) = (\<not> isl res)"
    by (auto simp: submit_wait_def http_error_def json_response_def split: option.split sum.split)
qed

interpretation cli: front_end nc wire inp "cli_call nc wire pf inp" "op_command pf" "op_ok pf" "\<lambda>r. \<not> isl r"
  for nc wire inp pf
  by unfold_locales (auto simp: cli_call_def ExecuteRuntimeCommand_def cli_runtime split: option.split sum.split)

text \<open>
  C10: The two interfaces are one.  For every operation that both offer, with names that both can carry, the
  REST request and the text command bring the control plane from the same state to the same state, fail
  together, and bring it down together.
\<close>

theorem interfaces_agree:
  assumes "op_ok pf x"
  shows "(case http_mux nc wire pf inp (rest_request x) aw of
      None \<Rightarrow> ExecuteRuntimeCommand nc wire pf inp (join_with '' '' (cli_words x)) aw = None
    | Some (aw', r) \<Rightarrow> \<exists>res. ExecuteRuntimeCommand nc wire pf inp (join_with '' '' (cli_words x)) aw = Some (aw', res)
        \<and> (rs_Status r = 200 \<longleftrightarrow> \<not> isl res))"
  using rest.runs [OF assms, of nc wire inp aw] cli.runs [OF assms, of nc wire inp aw]
  by (auto simp: cli_call_def split: option.splits)

theorem interfaces_agree_witness:
  "\<exists>aw' r res. http_mux demo_operator demo_wire half_only idle_input (rest_request (OpCrash ''c'' ''x'')) (pair_actor, ()) = Some (aw', r)
     \<and> ExecuteRuntimeCommand demo_operator demo_wire half_only idle_input ''fault-crash c x'' (pair_actor, ()) = Some (aw', res)
     \<and> (rs_Status r = 200 \<longleftrightarrow> \<not> isl res)"
proof -
  have ok: "op_ok half_only (OpCrash ''c'' ''x'')" by (simp add: name_ok_def word_simps)
  have "actor_step demo_operator demo_wire idle_input (op_command half_only (OpCrash ''c'' ''x'')) (pair_actor, ()) \<noteq> None"
    by (simp add: step_panics)
  then have "http_mux demo_operator demo_wire half_only idle_input (rest_request (OpCrash ''c'' ''x'')) (pair_actor, ()) \<noteq> None"
    by (subst rest.panics [OF ok])
  with interfaces_agree [OF ok, of demo_operator demo_wire idle_input "(pair_actor, ())"] show ?thesis by auto
qed

section \<open>Any request\<close>

lemma submit_None:
  "submit_wait nc wire inp cmd code f (a, w) = None \<longleftrightarrow>
     cmd_Type cmd = CmdRemoveNode \<and> (\<nexists>n. GetNode (cmd_ClusterID cmd) (cmd_NodeID cmd) (svc_cluster (a_service a)) = Inr n)"
  unfolding step_panics [of nc wire inp cmd a w, symmetric] by (simp add: submit_wait_def split: option.split prod.split sum.split)

lemma submit_ok: "actor_core (fst aw) \<Longrightarrow> submit_wait nc wire inp cmd code f aw = Some (aw', r) \<Longrightarrow> actor_core (fst aw')"
  using actor_runs_turn [of nc wire inp cmd "fst aw" "snd aw"] runs_core
  by (force simp: submit_wait_def split: option.splits sum.splits)

text \<open>A call that returns and keeps the invariant.\<close>

definition safe_call :: "actor \<times> 'w \<Rightarrow> 'w served \<Rightarrow> bool" where
  "safe_call aw res \<longleftrightarrow> (\<exists>aw' r. res = Some (aw', r) \<and> (actor_core (fst aw) \<longrightarrow> actor_core (fst aw')))"

named_theorems safe_calls

lemma safe_same [safe_calls]: "safe_call aw (Some (aw, r))"
  by (simp add: safe_call_def)

lemma safe_submit [safe_calls]: "cmd_Type cmd \<noteq> CmdRemoveNode \<Longrightarrow> safe_call aw (submit_wait nc wire inp cmd code f aw)"
  using submit_None [of nc wire inp cmd code f "fst aw" "snd aw"] submit_ok [of aw nc wire inp cmd code f]
  by (cases "submit_wait nc wire inp cmd code f aw") (auto simp: safe_call_def)

lemma safe_stream [safe_calls]: "safe_call aw (open_stream aw)"
  by (cases aw) (simp add: safe_call_def open_stream_def stream_open_def actor_core_def core_logs)

lemma fault_command_type: "fault_command pf b c n x = Inr cmd \<Longrightarrow> cmd_Type cmd \<noteq> CmdRemoveNode"
  by (auto simp: fault_command_def Let_def split: if_splits prod.splits bool.splits)

lemma safe_fault_command [safe_calls]: "safe_call aw (handleFaultCommand nc wire pf inp r c n x aw)"
  unfolding handleFaultCommand_def
  by (cases "fault_command pf (hq_Body r) c n x") (simp_all add: safe_calls fault_command_type)

lemma safe_kv [safe_calls]: "safe_call aw (handleKV nc wire inp r c n aw)"
  unfolding handleKV_def Let_def
  by (cases "decode_kv (hq_Body r)"; cases "snd (decode_kv (hq_Body r))") (simp_all add: safe_calls)

lemma safe_add [safe_calls]: "safe_call aw (addNode nc wire inp r c aw)"
  unfolding addNode_def by (cases "decode_add_node (hq_Body r)"; cases "snd (decode_add_node (hq_Body r))") (simp_all add: safe_calls)

lemma safe_set_fault [safe_calls]: "safe_call aw (setFault nc wire pf inp r c n aw)"
  unfolding setFault_def by (cases "decode_set_fault pf (hq_Body r)"; cases "snd (decode_set_fault pf (hq_Body r))") (simp_all add: safe_calls)

lemma safe_swap [safe_calls]: "safe_call aw (rest_swapProtocol nc wire inp r c aw)"
  unfolding rest_swapProtocol_def by (cases "decode_protocol (hq_Body r)"; cases "snd (decode_protocol (hq_Body r))") (simp_all add: safe_calls)

lemma safe_watch [safe_calls]: "safe_call aw (watchMetricsKey nc wire inp r c aw)"
  unfolding watchMetricsKey_def by (cases "decode_watch (hq_Body r)"; cases "snd (decode_watch (hq_Body r))") (simp_all add: safe_calls)

lemma safe_create [safe_calls]: "safe_call aw (createCluster nc wire inp r aw)"
  unfolding createCluster_def
  by (cases "decode_create_cluster (hq_Body r)"; cases "snd (decode_create_cluster (hq_Body r))") (simp_all add: safe_calls)

lemma safe_plain [safe_calls]:
  "safe_call aw (getClusters nc wire inp aw)" "safe_call aw (rest_startMetrics nc wire inp r c aw)" "safe_call aw (rest_stopMetrics nc wire inp c aw)"
  "safe_call aw (rest_getMetrics nc wire inp c aw)" "safe_call aw (rest_getMetricsHistory nc wire inp c aw)" "safe_call aw (rest_heartbeat aw)"
  by (simp_all add: getClusters_def rest_startMetrics_def rest_stopMetrics_def rest_getMetrics_def rest_getMetricsHistory_def rest_heartbeat_def safe_calls)

text \<open>The one route that is not safe.\<close>

definition removal :: "http_request \<Rightarrow> (string \<times> string) option" where
  "removal r = (let parts = split_on CHR ''/'' (hq_Path r) in
     if hq_Method r = ''DELETE'' \<and> clean_path (hq_Escaped r) = hq_Escaped r \<and> mux_route (hq_Escaped r) = MuxNodes \<and> length parts = 6
     then Some (parts ! 3, parts ! 5) else None)"

lemma safe_nodes: "hq_Method r \<noteq> ''DELETE'' \<or> length (split_on CHR ''/'' (hq_Path r)) \<noteq> 6 \<Longrightarrow> safe_call aw (HandleNodes nc wire pf inp r aw)"
  unfolding HandleNodes_def Let_def by (auto simp: safe_calls)

lemma removal_None: "removal r = None \<Longrightarrow> safe_call aw (http_mux nc wire pf inp r aw)"
  unfolding http_mux_def HandleClusters_def
  by (auto simp: removal_def Let_def safe_calls intro!: safe_nodes split: if_splits mux_target.split)

lemma removal_Some:
  assumes "removal r = Some (c, n)"
  shows "http_mux nc wire pf inp r aw = removeNode nc wire inp c n aw"
proof -
  have "clean_path ''*'' \<noteq> ''*''" by (simp add: clean_path_def split_on_def Let_def clean_step_def)
  then show ?thesis using assms by (auto simp: removal_def Let_def http_mux_def HandleNodes_def split: if_splits)
qed

text \<open>
  C33: No request breaks the books, one brings the control plane down.  Whatever method, path and body a request has, the
  invariant of the control plane holds afterwards, and it answers, except for one kind of request: a \<open>DELETE\<close> whose escaped path is
  clean (any other path is answered by a redirect) and lies below \<open>/api/clusters/\<close>, and whose unescaped path has six segments, brings the
  control plane down exactly when the fourth and sixth segment do not name a registered node.  The fifth segment does not matter.
\<close>

theorem requests_safe:
  shows "(http_mux nc wire pf inp r (a, w) = None \<longleftrightarrow>
      (\<exists>c n. removal r = Some (c, n) \<and> (\<nexists>nd. GetNode c n (svc_cluster (a_service a)) = Inr nd)))
    \<and> (\<forall>aw' resp. http_mux nc wire pf inp r (a, w) = Some (aw', resp) \<and> actor_core a \<longrightarrow> actor_core (fst aw'))"
proof (cases "removal r")
  case None
  from removal_None [OF this, of "(a, w)" nc wire pf inp] None show ?thesis by (auto simp: safe_call_def)
next
  case (Some cn)
  obtain c n where r: "removal r = Some (c, n)" using Some by (cases cn) simp
  have "removeNode nc wire inp c n (a, w) = None \<longleftrightarrow> (\<nexists>nd. GetNode c n (svc_cluster (a_service a)) = Inr nd)"
    by (simp add: removeNode_def submit_None)
  moreover have "removeNode nc wire inp c n (a, w) = Some (aw', resp) \<Longrightarrow> actor_core a \<Longrightarrow> actor_core (fst aw')" for aw' resp
    using submit_ok [of "(a, w)"] by (auto simp: removeNode_def)
  ultimately show ?thesis unfolding removal_Some [OF r] by (auto simp: r)
qed

theorem requests_safe_witness:
  "http_mux demo_operator demo_wire half_only idle_input (rest_request (OpRemove ''c'' ''z'')) (pair_actor, ()) = None"
proof -
  have "clean_path ''/api/clusters/c/nodes/z'' = ''/api/clusters/c/nodes/z''"
    using clean_path_id [of "[''api'', ''clusters'', ''c'', ''nodes'', ''z'']"] by (simp add: clean_seg_def)
  moreover have "path_escape ''c'' = ''c''" "path_escape ''nodes'' = ''nodes''" "path_escape ''z'' = ''z''" by code_simp+
  ultimately have "removal (rest_request (OpRemove ''c'' ''z'')) = Some (''c'', ''z'')"
    by (simp add: removal_def rest_request_def split_on_def mux_route_def first_segment_def path_unescape_def)
  moreover have "\<nexists>nd. GetNode ''c'' ''z'' (svc_cluster (a_service pair_actor)) = Inr nd"
    by (simp add: pair_actor_def NewActor_def NewClusterService_def GetNode_nodes_of RegisterNode_nodes) (simp add: nodes_of_def NewManager_def)
  ultimately show ?thesis using requests_safe [of demo_operator demo_wire half_only idle_input _ pair_actor "()"] by blast
qed

section \<open>Log streams\<close>

text \<open>What happens to a stream: a node reports an entry, or the stream's goroutine receives.\<close>

datatype stream_event = Reported int log_request | Received

fun stream_run :: "string \<Rightarrow> nat \<Rightarrow> stream_event list \<Rightarrow> service \<times> log_request list \<Rightarrow> (service \<times> log_request list) option" where
  "stream_run c ch [] so = Some so"
| "stream_run c ch (Reported t e # es) (s, out) = stream_run c ch es (fst (rpc_ReportLog t e s), out)"
| "stream_run c ch (Received # es) (s, out) = (case stream_next c ch s of None \<Rightarrow> None | Some (s', o') \<Rightarrow> stream_run c ch es (s', out @ o'))"

fun reports :: "stream_event list \<Rightarrow> log_request list" where
  "reports [] = []"
| "reports (Reported t e # es) = e # reports es"
| "reports (Received # es) = reports es"

text \<open>The stream keeps up: fewer than 100 entries wait whenever one is reported.\<close>

fun keeps_up :: "nat \<Rightarrow> stream_event list \<Rightarrow> bool" where
  "keeps_up n [] = True"
| "keeps_up n (Reported t e # es) = (n < 100 \<and> keeps_up (n + 1) es)"
| "keeps_up n (Received # es) = keeps_up (n - 1) es"

definition waiting :: "nat \<Rightarrow> service \<Rightarrow> log_request list \<Rightarrow> bool" where
  "waiting ch s q \<longleftrightarrow> map_of (svc_chans s) ch = Some \<lparr>ch_buf = map Some q, ch_closed = False\<rparr> \<and> ch \<in> set (gm_keys (svc_logListeners s)) \<and> length q \<le> 100"

lemma waiting_open: "stream_open s = (s', ch) \<Longrightarrow> waiting ch s' []"
  by (auto simp: stream_open_def SubscribeLogs_def Let_def waiting_def set_gm_keys)

lemma map_of_mapi: "map_of (map (\<lambda>(i, x). (i, f i x)) m) k = map_option (f k) (map_of m k)"
  by (induction m) auto

lemma waiting_report:
  assumes "waiting ch s q"
  shows "waiting ch (fst (rpc_ReportLog t e s)) (if length q < 100 then q @ [e] else q)"
proof -
  define s1 where "s1 = (if contains_str (lg_Message e) ''TRACE:SEND:'' then count_rpc (lg_ClusterId e) s else s)"
  define s2 where "s2 = (if has_prefix (lg_Message e) ''TL_EVENT:'' then handleTimelineLog t e s1 else s1)"
  have b: "fst (rpc_ReportLog t e s) = send_listeners (Some e) s2"
    by (simp only: rpc_ReportLog_def BroadcastLog_def s1_def s2_def Let_def option.case fst_conv)
  have "svc_chans s1 = svc_chans s \<and> svc_logListeners s1 = svc_logListeners s" by (simp add: s1_def)
  moreover have "records_only s1 s2" by (simp add: s2_def records_timeline)
  ultimately have "svc_chans s2 = svc_chans s \<and> svc_logListeners s2 = svc_logListeners s" by (auto simp: records_only_def)
  then show ?thesis using assms unfolding b by (auto simp: waiting_def send_listeners_def map_of_mapi offer_def)
qed

lemma waiting_next:
  assumes "waiting ch s q"
  shows "\<exists>s'. stream_next c ch s = Some (s', case q of [] \<Rightarrow> [] | e # _ \<Rightarrow> if lg_ClusterId e = c then [e] else []) \<and> waiting ch s' (tl q)"
  using assms by (cases q) (auto simp: waiting_def stream_next_def receive_log_def)

lemma stream_run_delivers:
  assumes "waiting ch s q"
  shows "\<exists>s' q' taken. stream_run c ch es (s, out) = Some (s', out @ filter (\<lambda>e. lg_ClusterId e = c) taken) \<and> waiting ch s' q'
     \<and> subseq (taken @ q') (q @ reports es) \<and> (keeps_up (length q) es \<longrightarrow> taken @ q' = q @ reports es)"
  using assms
proof (induction es arbitrary: s q out)
  case Nil
  show ?case by (rule exI [of _ s], rule exI [of _ q], rule exI [of _ "[]"]) (simp add: Nil)
next
  case (Cons x es)
  show ?case
  proof (cases x)
    case (Reported t e)
    let ?q = "if length q < 100 then q @ [e] else q"
    obtain s' q' taken where IH: "stream_run c ch es (fst (rpc_ReportLog t e s), out) = Some (s', out @ filter (\<lambda>e. lg_ClusterId e = c) taken)"
      "waiting ch s' q'" "subseq (taken @ q') (?q @ reports es)" "keeps_up (length ?q) es \<longrightarrow> taken @ q' = ?q @ reports es"
      using Cons.IH [OF waiting_report [OF Cons.prems, of t e], of out] by blast
    have "subseq (?q @ reports es) (q @ reports (x # es))" by (auto simp: Reported intro: list_emb_append_mono)
    then have "subseq (taken @ q') (q @ reports (x # es))" using IH(3) subseq_order.trans by blast
    moreover have "keeps_up (length q) (x # es) \<longrightarrow> taken @ q' = q @ reports (x # es)" using IH(4) by (auto simp: Reported)
    moreover have "stream_run c ch (x # es) (s, out) = Some (s', out @ filter (\<lambda>e. lg_ClusterId e = c) taken)" using IH(1) by (simp add: Reported)
    ultimately show ?thesis using IH(2) by blast
  next
    case Received
    obtain s1 where s1: "stream_next c ch s = Some (s1, case q of [] \<Rightarrow> [] | e # _ \<Rightarrow> if lg_ClusterId e = c then [e] else [])" "waiting ch s1 (tl q)"
      using waiting_next [OF Cons.prems, of c] by blast
    let ?o = "case q of [] \<Rightarrow> [] | e # _ \<Rightarrow> if lg_ClusterId e = c then [e] else []"
    obtain s' q' taken where IH: "stream_run c ch es (s1, out @ ?o) = Some (s', (out @ ?o) @ filter (\<lambda>e. lg_ClusterId e = c) taken)"
      "waiting ch s' q'" "subseq (taken @ q') (tl q @ reports es)" "keeps_up (length (tl q)) es \<longrightarrow> taken @ q' = tl q @ reports es"
      using Cons.IH [OF s1(2), of "out @ ?o"] by blast
    define all where "all = (case q of [] \<Rightarrow> taken | e # _ \<Rightarrow> e # taken)"
    have "subseq (all @ q') (q @ reports (x # es))" "keeps_up (length q) (x # es) \<longrightarrow> all @ q' = q @ reports (x # es)"
      "stream_run c ch (x # es) (s, out) = Some (s', out @ filter (\<lambda>e. lg_ClusterId e = c) all)"
      using IH s1(1) by (auto simp: Received all_def split: list.splits)
    then show ?thesis using IH(2) by blast
  qed
qed

text \<open>
  C40: A log stream delivers in order.  From the moment a client subscribes, the entries written to its stream
  are entries of its cluster that nodes reported since, in the order of their reports and without
  repetition; and as long as fewer than 100 entries wait, none is lost: those written and those waiting
  are all that were reported.
\<close>

theorem stream_in_order:
  assumes "stream_open s = (s0, ch)"
  shows "\<exists>s' out taken q. stream_run c ch es (s0, []) = Some (s', out) \<and> out = filter (\<lambda>e. lg_ClusterId e = c) taken
     \<and> waiting ch s' q \<and> subseq (taken @ q) (reports es) \<and> (keeps_up 0 es \<longrightarrow> taken @ q = reports es)"
  using stream_run_delivers [OF waiting_open [OF assms], of c es "[]"] by auto

definition one_entry :: log_request where
  "one_entry = \<lparr>lg_NodeId = ''n'', lg_ClusterId = ''c'', lg_Level = [], lg_Message = [], lg_Timestamp = 0\<rparr>"

theorem stream_in_order_witness:
  "\<exists>s' out q. stream_run ''c'' (snd (stream_open demo_service)) [Reported 1 one_entry, Received] (fst (stream_open demo_service), []) = Some (s', out)
     \<and> waiting (snd (stream_open demo_service)) s' q \<and> out @ q = [one_entry]"
proof -
  obtain s' out taken q where r: "stream_run ''c'' (snd (stream_open demo_service)) [Reported 1 one_entry, Received] (fst (stream_open demo_service), []) = Some (s', out)"
    "out = filter (\<lambda>e. lg_ClusterId e = ''c'') taken" "waiting (snd (stream_open demo_service)) s' q" "taken @ q = [one_entry]"
    using stream_in_order [OF prod.collapse [of "stream_open demo_service", symmetric], of "''c''" "[Reported 1 one_entry, Received]"] by auto
  have "out @ q = [one_entry]" using r(2,4) by (auto simp: append_eq_Cons_conv one_entry_def)
  then show ?thesis using r(1,3) by blast
qed

end
