(* ===== verification/CommandListener.thy ===== *)
theory CommandListener
  imports Hypothesis
begin

text \<open>
  The command listener (\<open>internal/controlplane/command_listener.go\<close>): the endpoint that takes text commands,
  its authorisation, and the tables it prints.  The source reads results by reflection; a reflected value
  is a datatype here and the readers follow the source kind by kind.  The column layout of
  \<open>text/tabwriter\<close> and \<open>time.Duration.String\<close> are written out; the verbs \<open>%.2f\<close>, \<open>%v\<close>, \<open>%+v\<close>, RFC3339 times and
  error texts are arguments.  Cells with vertical tabs, form feeds or escape bytes are outside the model.
\<close>

section \<open>Text\<close>

abbreviation (input) TAB :: char where "TAB \<equiv> CHR 0x09"
abbreviation (input) NL :: char where "NL \<equiv> CHR 0x0A"

definition row :: "string list \<Rightarrow> string" where
  "row cells = join_with [TAB] cells @ [NL]"

text \<open>The width of a cell counts runes: continuation bytes do not count.\<close>

definition cell_width :: "string \<Rightarrow> nat" where
  "cell_width s = length (filter (\<lambda>c. \<not> (128 \<le> (of_char c :: nat) \<and> (of_char c :: nat) < 192)) s)"

text \<open>
  The lines around line \<open>i\<close> whose column \<open>j\<close> is terminated by a tab; the column is as wide as its widest
  cell plus the padding of two.
\<close>

definition column_block :: "string list list \<Rightarrow> nat \<Rightarrow> nat \<Rightarrow> string list list" where
  "column_block ls i j = (let has = (\<lambda>l. j + 1 < length l) in rev (takeWhile has (rev (take i ls))) @ takeWhile has (drop i ls))"

definition column_width :: "string list list \<Rightarrow> nat \<Rightarrow> nat \<Rightarrow> nat" where
  "column_width ls i j = fold max (map (\<lambda>l. cell_width (l ! j) + 2) (column_block ls i j)) 0"

definition pad_cell :: "nat \<Rightarrow> string \<Rightarrow> string" where
  "pad_cell w c = c @ replicate (w - cell_width c) CHR '' ''"

definition write_line :: "string list list \<Rightarrow> nat \<Rightarrow> string" where
  "write_line ls i = (let l = ls ! i in
     concat (map (\<lambda>j. pad_cell (column_width ls i j) (l ! j)) [0..<length l - 1]) @ (if l = [] then [] else last l))"

definition tabwrite :: "string \<Rightarrow> string" where
  "tabwrite txt = (let ls = map (split_on TAB) (split_on NL txt) in join_with [NL] (map (write_line ls) [0..<length ls]))"

text \<open>\<open>time.Duration.String\<close>: the fraction without trailing zeros, and the units.\<close>

definition frac_text :: "nat \<Rightarrow> nat \<Rightarrow> string" where
  "frac_text prec v = (let f = v mod 10 ^ prec; ds = show_nat f in
     if f = 0 then [] else CHR ''.'' # rev (dropWhile ((=) CHR ''0'') (rev (replicate (prec - length ds) CHR ''0'' @ ds))))"

definition dur_text :: "nat \<Rightarrow> string" where
  "dur_text u =
     (if u = 0 then ''0s''
      else if u < 1000 then show_nat u @ ''ns''
      else if u < 1000000 then show_nat (u div 1000) @ frac_text 3 u @ [CHR 0xC2, CHR 0xB5, CHR ''s'']
      else if u < 1000000000 then show_nat (u div 1000000) @ frac_text 6 u @ ''ms''
      else
        let s = u div 1000000000; m = s div 60; h = m div 60 in
        (if h > 0 then show_nat h @ ''h'' else []) @ (if m > 0 then show_nat (m mod 60) @ ''m'' else [])
        @ show_nat (s mod 60) @ frac_text 9 u @ ''s'')"

definition duration_String :: "int \<Rightarrow> string" where
  "duration_String d = (if d < 0 then CHR ''-'' # dur_text (nat (- d)) else dur_text (nat d))"

section \<open>Reflection\<close>

datatype rval =
  RvInvalid
| RvString string
| RvInt int
| RvUint u64
| RvBool bool
| RvFloat f64
| RvSlice "rval list"
| RvMap "(rval \<times> rval) list"
| RvStruct "(string \<times> rval) list"
| RvPtr "rval option"

record fmt_env =
  fe_rate :: "f64 \<Rightarrow> string"
  fe_time :: "int \<Rightarrow> string"
  fe_value :: "rval \<Rightarrow> string"
  fe_reply :: "reply \<Rightarrow> string"
  fe_error :: "runtime_error \<Rightarrow> string"

definition readField :: "rval \<Rightarrow> string \<Rightarrow> rval option" where
  "readField v fieldName =
     (case v of
        RvPtr None \<Rightarrow> None
      | RvPtr (Some (RvStruct fs)) \<Rightarrow> map_of fs fieldName
      | RvStruct fs \<Rightarrow> map_of fs fieldName
      | _ \<Rightarrow> None)"

definition readStringField :: "rval \<Rightarrow> string \<Rightarrow> string" where
  "readStringField v f = (case readField v f of Some (RvString s) \<Rightarrow> s | _ \<Rightarrow> [])"

definition readIntField :: "rval \<Rightarrow> string \<Rightarrow> int" where
  "readIntField v f = (case readField v f of Some (RvInt i) \<Rightarrow> i | _ \<Rightarrow> 0)"

definition readFloatField :: "rval \<Rightarrow> string \<Rightarrow> f64" where
  "readFloatField v f = (case readField v f of Some (RvFloat x) \<Rightarrow> x | _ \<Rightarrow> Fin 0)"

definition readBoolField :: "rval \<Rightarrow> string \<Rightarrow> bool" where
  "readBoolField v f = (case readField v f of Some (RvBool b) \<Rightarrow> b | _ \<Rightarrow> False)"

definition readSliceLenField :: "rval \<Rightarrow> string \<Rightarrow> nat" where
  "readSliceLenField v f = (case readField v f of Some (RvSlice xs) \<Rightarrow> length xs | _ \<Rightarrow> 0)"

definition readDurationField :: "fmt_env \<Rightarrow> rval \<Rightarrow> string \<Rightarrow> string" where
  "readDurationField fe v f = (case readField v f of None \<Rightarrow> ''0s'' | Some (RvInt i) \<Rightarrow> duration_String i | Some x \<Rightarrow> fe_value fe x)"

definition readDurationValue :: "rval \<Rightarrow> string \<Rightarrow> int" where
  "readDurationValue v f = (case readField v f of Some (RvInt i) \<Rightarrow> i | _ \<Rightarrow> 0)"

definition readDurationPointerField :: "fmt_env \<Rightarrow> rval \<Rightarrow> string \<Rightarrow> string" where
  "readDurationPointerField fe v f = (case readField v f of
     Some (RvPtr (Some (RvInt i))) \<Rightarrow> duration_String i
   | Some (RvPtr (Some x)) \<Rightarrow> fe_value fe x
   | _ \<Rightarrow> ''-'')"

definition readDurationPointerValue :: "rval \<Rightarrow> string \<Rightarrow> int option" where
  "readDurationPointerValue v f = (case readField v f of Some (RvPtr (Some (RvInt i))) \<Rightarrow> Some i | _ \<Rightarrow> None)"

definition stale_entry :: "rval \<times> rval \<Rightarrow> (string \<times> int) list" where
  "stale_entry = (\<lambda>(k, dv). case (k, dv) of (RvString node, RvInt d) \<Rightarrow> [(node, d)] | _ \<Rightarrow> [])"

text \<open>The map is nil, hence empty, when there is none.\<close>

definition readStaleDurationMap :: "rval \<Rightarrow> (string, int) gomap" where
  "readStaleDurationMap v = (case readField v ''StaleDurationPerNode'' of
     Some (RvMap kvs) \<Rightarrow> fold (\<lambda>kv out. fold (\<lambda>(node, d). gm_put node d) (stale_entry kv) out) kvs []
   | _ \<Rightarrow> [])"

text \<open>The loop that looks for the largest duration, the smaller name among equals.\<close>

definition max_step :: "string \<times> int \<Rightarrow> string \<times> int \<Rightarrow> string \<times> int" where
  "max_step = (\<lambda>(node, d) (maxNode, maxDur). if d > maxDur \<or> (d = maxDur \<and> node < maxNode) then (node, d) else (maxNode, maxDur))"

definition readTopStaleNode :: "rval \<Rightarrow> string" where
  "readTopStaleNode v = (case readField v ''StaleDurationPerNode'' of
     Some (RvMap kvs) \<Rightarrow>
       (case fold max_step (concat (map stale_entry kvs)) ([], -1) of
          (maxNode, maxDur) \<Rightarrow> if maxNode = [] then ''-'' else maxNode @ ''='' @ duration_String maxDur)
   | _ \<Rightarrow> ''-'')"

section \<open>Tables\<close>

definition node_header :: string where
  "node_header = row [''ID'', ''ADDRESS'', ''PORT'', ''STATUS'', ''CRASHED'', ''DROP'', ''DELAY_MS'', ''PARTITIONS'']"

definition formatNodesTable :: "fmt_env \<Rightarrow> cluster_node list \<Rightarrow> string" where
  "formatNodesTable fe nodes =
     (if nodes = [] then ''no nodes found'' @ [NL]
      else tabwrite (node_header @ concat (map (\<lambda>n. row [cn_ID n, cn_Address n, show_int (cn_Port n), cn_Status n,
        show_bool (fs_Crashed (cn_Fault n)), fe_rate fe (fs_DropRate (cn_Fault n)), show_int (fs_DelayMs (cn_Fault n)),
        show_nat (length (fs_Partition (cn_Fault n)))]) nodes)))"

text \<open>The structs of a slice, behind at most one pointer.\<close>

definition struct_items :: "rval list \<Rightarrow> rval list" where
  "struct_items vs = concat (map (\<lambda>v. case v of
     RvPtr (Some (RvStruct fs)) \<Rightarrow> [RvStruct fs] | RvStruct fs \<Rightarrow> [RvStruct fs] | _ \<Rightarrow> []) vs)"

text \<open>\<open>sort.Slice\<close> is not stable; the identifiers of the clusters and of a cluster's nodes are distinct.\<close>

definition sort_by_id :: "rval list \<Rightarrow> rval list" where
  "sort_by_id items = sort_key (\<lambda>v. readStringField v ''ID'') items"

definition cluster_node_row :: "fmt_env \<Rightarrow> rval \<Rightarrow> string" where
  "cluster_node_row fe n = (let fault = (case readField n ''Fault'' of None \<Rightarrow> RvInvalid | Some f \<Rightarrow> f) in
     row [readStringField n ''ID'', readStringField n ''Address'', show_int (readIntField n ''Port''), readStringField n ''Status'',
       show_bool (readBoolField fault ''Crashed''), fe_rate fe (readFloatField fault ''DropRate''), show_int (readIntField fault ''DelayMs''),
       show_nat (readSliceLenField fault ''Partition'')])"

definition cluster_section :: "fmt_env \<Rightarrow> rval \<Rightarrow> string" where
  "cluster_section fe c =
     [NL] @ ''['' @ readStringField c ''ID'' @ ''] protocol='' @ readStringField c ''Protocol'' @ [NL]
     @ (case readField c ''Nodes'' of
          Some (RvSlice (n # ns)) \<Rightarrow> tabwrite (node_header @ concat (map (cluster_node_row fe) (sort_by_id (struct_items (n # ns)))))
        | _ \<Rightarrow> ''  no nodes'' @ [NL])"

definition formatClustersTable :: "fmt_env \<Rightarrow> rval \<Rightarrow> string option" where
  "formatClustersTable fe res =
     (case (case res of RvPtr (Some v) \<Rightarrow> v | RvPtr None \<Rightarrow> RvInvalid | v \<Rightarrow> v) of
        RvSlice vs \<Rightarrow>
          if vs = [] then Some (''no clusters found'' @ [NL])
          else if struct_items vs = [] then None
          else
            let items = sort_by_id (struct_items vs) in
            Some (tabwrite (row [''CLUSTER_ID'', ''PROTOCOL'', ''NODES'']
                    @ concat (map (\<lambda>c. row [readStringField c ''ID'', readStringField c ''Protocol'', show_nat (readSliceLenField c ''Nodes'')]) items))
                  @ concat (map (cluster_section fe) items))
      | _ \<Rightarrow> None)"

section \<open>Metrics\<close>

record metrics_insight_row =
  ir_key :: string
  ir_final :: bool
  ir_convergence :: "int option"
  ir_peak :: int
  ir_auc :: int
  ir_topStale :: string
  ir_staleByNode :: "(string, int) gomap"

record insights =
  in_divergent :: "string list"
  in_worstKey :: string
  in_worstAUC :: int
  in_maxPeak :: int
  in_aggStale :: "(string, int) gomap"

definition insight_step :: "metrics_insight_row \<Rightarrow> insights \<Rightarrow> insights" where
  "insight_step r s = s\<lparr>
     in_divergent := (if ir_final r then in_divergent s else in_divergent s @ [ir_key r]),
     in_worstKey := (if ir_auc r > in_worstAUC s then ir_key r else in_worstKey s),
     in_worstAUC := (if ir_auc r > in_worstAUC s then ir_auc r else in_worstAUC s),
     in_maxPeak := (if ir_peak r > in_maxPeak s then ir_peak r else in_maxPeak s),
     in_aggStale := fold (\<lambda>(node, d) agg. gm_put node (wrap64 (gm_getd 0 agg node + d)) agg) (ir_staleByNode r) (in_aggStale s)\<rparr>"

definition collect_insights :: "metrics_insight_row list \<Rightarrow> insights" where
  "collect_insights rows = fold insight_step rows \<lparr>in_divergent = [], in_worstKey = [], in_worstAUC = -1, in_maxPeak = 0, in_aggStale = []\<rparr>"

definition worst_node :: "(string, int) gomap \<Rightarrow> string" where
  "worst_node agg = (case fold max_step agg ([], -1) of
     (maxNode, maxDur) \<Rightarrow> if agg = [] \<or> maxNode = [] then ''-'' else maxNode @ ''='' @ duration_String maxDur)"

definition appendMetricsInsights :: "metrics_insight_row list \<Rightarrow> string" where
  "appendMetricsInsights rows =
     (if rows = [] then []
      else
        let s = collect_insights rows; divergent = in_divergent s in
        [NL] @ ''INSIGHTS'' @ [NL]
        @ (if divergent = [] then ''- all tracked keys are currently converged'' @ [NL]
           else ''- keys still divergent: '' @ join_with '', '' (sort divergent) @ [NL])
        @ (if in_worstKey s \<noteq> [] then ''- highest inconsistency area: '' @ in_worstKey s @ '' ('' @ duration_String (in_worstAUC s) @ '')'' @ [NL] else [])
        @ ''- highest observed peak divergence: '' @ show_int (in_maxPeak s) @ [NL]
        @ ''- most stale node overall: '' @ worst_node (in_aggStale s) @ [NL]
        @ (if divergent \<noteq> [] then ''- hint: if this is a finished run, add a longer settle window or inspect partition/heal timing'' @ [NL] else []))"

definition normalizeStringSlice :: "string list \<Rightarrow> string list" where
  "normalizeStringSlice v = sort v"

text \<open>The row of one key: what is read of its result, and the cells that are printed.\<close>

definition insight_row :: "string \<Rightarrow> rval \<Rightarrow> metrics_insight_row" where
  "insight_row key v = \<lparr>ir_key = key, ir_final = readBoolField v ''FinalConsistent'', ir_convergence = readDurationPointerValue v ''ConvergenceTime'',
     ir_peak = readIntField v ''PeakDivergence'', ir_auc = readDurationValue v ''AreaUnderDivergence'', ir_topStale = readTopStaleNode v,
     ir_staleByNode = readStaleDurationMap v\<rparr>"

definition metrics_cells :: "fmt_env \<Rightarrow> string \<Rightarrow> rval \<Rightarrow> string" where
  "metrics_cells fe key v = row [key, show_bool (readBoolField v ''FinalConsistent''), readDurationPointerField fe v ''ConvergenceTime'',
     show_int (readIntField v ''PeakDivergence''), readDurationField fe v ''AreaUnderDivergence'', readTopStaleNode v]"

text \<open>How the results look to reflection: the fields that are read.\<close>

definition rv_result :: "metrics_result \<Rightarrow> rval" where
  "rv_result r = RvStruct [(''ConvergenceTime'', RvPtr (map_option RvInt (mr_ConvergenceTime r))),
     (''FirstAgreementTime'', RvPtr (map_option RvInt (mr_FirstAgreementTime r))), (''FinalConsistent'', RvBool (mr_FinalConsistent r)),
     (''PeakDivergence'', RvInt (mr_PeakDivergence r)), (''AreaUnderDivergence'', RvInt (mr_AreaUnderDivergence r)),
     (''StaleDurationPerNode'', RvMap (map (\<lambda>(n, d). (RvString n, RvInt d)) (mr_StaleDurationPerNode r)))]"

definition formatMetricsResult :: "fmt_env \<Rightarrow> metrics_snapshot \<Rightarrow> string" where
  "formatMetricsResult fe x =
     (let tracked = normalizeStringSlice (mx_trackedKeys x);
          keys = sort (gm_keys (mx_results x));
          results = concat (map (\<lambda>key. case map_of (mx_results x) key of None \<Rightarrow> [] | Some r \<Rightarrow> [(key, rv_result r)]) keys)
      in ''METRICS cluster='' @ mx_clusterId x @ '' started='' @ fe_time fe (mx_startedAt x) @ '' stopped=''
           @ (case mx_stoppedAt x of None \<Rightarrow> ''active'' | Some t \<Rightarrow> fe_time fe t) @ [NL]
         @ (if tracked = [] then ''tracked keys: (none)'' @ [NL] else ''tracked keys: '' @ join_with '', '' tracked @ [NL])
         @ (if mx_results x = [] then ''no per-key metrics yet'' @ [NL]
            else tabwrite (row [''KEY'', ''FINAL'', ''CONVERGENCE'', ''PEAK'', ''AUC'', ''TOP_STALE''] @ concat (map (\<lambda>(k, v). metrics_cells fe k v) results))
                 @ appendMetricsInsights (map (\<lambda>(k, v). insight_row k v) results)))"

section \<open>The endpoint\<close>

definition rv_fault :: "fault_state \<Rightarrow> rval" where
  "rv_fault f = RvStruct [(''Crashed'', RvBool (fs_Crashed f)), (''DropRate'', RvFloat (fs_DropRate f)), (''DelayMs'', RvInt (fs_DelayMs f)),
     (''Partition'', RvSlice (map RvString (fs_Partition f)))]"

definition rv_node :: "cluster_node \<Rightarrow> rval" where
  "rv_node n = RvStruct [(''ID'', RvString (cn_ID n)), (''Address'', RvString (cn_Address n)), (''Port'', RvInt (cn_Port n)),
     (''Status'', RvString (cn_Status n)), (''Fault'', rv_fault (cn_Fault n)), (''ActiveProtocolKey'', RvString (cn_ActiveProtocolKey n)),
     (''ActiveProtocolEpoch'', RvUint (cn_ActiveProtocolEpoch n)), (''CapabilitiesAt'', RvInt (cn_CapabilitiesAt n))]"

definition rv_clusters :: "(string \<times> string \<times> cluster_node list) list \<Rightarrow> rval" where
  "rv_clusters cs = RvSlice (map (\<lambda>(i, p, ns). RvStruct [(''ID'', RvString i), (''Protocol'', RvString p), (''Nodes'', RvSlice (map rv_node ns))]) cs)"

definition commandName :: "string \<Rightarrow> string" where
  "commandName raw = (case str_fields (trim_space raw) of
     [] \<Rightarrow> []
   | p # ps \<Rightarrow> if p = ''cp'' then (case ps of [] \<Rightarrow> [] | q # _ \<Rightarrow> q) else p)"

definition formatCommandResult :: "fmt_env \<Rightarrow> string \<Rightarrow> reply \<Rightarrow> string" where
  "formatCommandResult fe rawCmd res =
     (let cmdName = commandName rawCmd; default_text = fe_reply fe res @ [NL] in
      case res of
        RNodes nodes \<Rightarrow> if cmdName = ''list-nodes'' then formatNodesTable fe nodes else default_text
      | RClusters cs \<Rightarrow>
          if cmdName = ''list-clusters'' then (case formatClustersTable fe (rv_clusters cs) of Some out \<Rightarrow> out | None \<Rightarrow> default_text) else default_text
      | RSnapshot x \<Rightarrow> if cmdName = ''metrics-show'' \<or> cmdName = ''metrics-stop'' then formatMetricsResult fe x else default_text
      | _ \<Rightarrow> default_text)"

record listener_request =
  lq_Method :: string
  lq_Headers :: "(string, string) gomap"
  lq_Body :: "string option"

definition authorizeCommandListener :: "listener_request \<Rightarrow> string \<Rightarrow> bool" where
  "authorizeCommandListener r token =
     (if trim_space token = [] then True
      else if gm_getd [] (lq_Headers r) ''X-Command-Token'' = token then True
      else let auth = gm_getd [] (lq_Headers r) ''Authorization'' in
        if has_prefix auth ''Bearer '' then trim_prefix auth ''Bearer '' = token else False)"

text \<open>
  The response is a status and a text; \<open>http.Error\<close> ends the text with a newline.  A body that cannot be read is
  \<open>None\<close>; the text of that error is left out of the response.
\<close>

definition command_handler ::
  "'w node_operator \<Rightarrow> kv_wire \<Rightarrow> float_parser \<Rightarrow> actor_input \<Rightarrow> fmt_env \<Rightarrow> string \<Rightarrow> listener_request \<Rightarrow> actor \<times> 'w
     \<Rightarrow> ((actor \<times> 'w) \<times> nat \<times> string) option" where
  "command_handler nc wire pf inp fe token r aw =
     (if lq_Method r \<noteq> ''POST'' then Some (aw, 405, ''method not allowed'' @ [NL])
      else if \<not> authorizeCommandListener r token then Some (aw, 401, ''unauthorized'' @ [NL])
      else case lq_Body r of
        None \<Rightarrow> Some (aw, 400, ''failed to read command'' @ [NL])
      | Some body \<Rightarrow>
          let cmd = trim_space body in
          if cmd = [] then Some (aw, 400, ''empty command'' @ [NL])
          else case ExecuteRuntimeCommand nc wire pf inp cmd aw of
            None \<Rightarrow> None
          | Some (aw', Inl e) \<Rightarrow> Some (aw', 400, fe_error fe e @ [NL])
          | Some (aw', Inr None) \<Rightarrow> Some (aw', 200, ''ok'' @ [NL])
          | Some (aw', Inr (Some RNil)) \<Rightarrow> Some (aw', 200, ''ok'' @ [NL])
          | Some (aw', Inr (Some res)) \<Rightarrow> Some (aw', 200, formatCommandResult fe cmd res))"

definition StartCommandListener :: "int \<Rightarrow> bool" where
  "StartCommandListener port \<longleftrightarrow> 0 < port"

end
