(* ===== verification/CommandListenerSpec.thy ===== *)
theory CommandListenerSpec
  imports CommandListener
begin

text \<open>
  What the command listener promises: a command runs only for an authorised \<open>POST\<close> with a text in it, the tables
  show every cluster and node once and in order, and the summary of a metrics session does not depend on the
  order in which the maps are walked.
\<close>

section \<open>The endpoint\<close>

definition presents_token :: "listener_request \<Rightarrow> string \<Rightarrow> bool" where
  "presents_token r token \<longleftrightarrow> gm_getd [] (lq_Headers r) ''X-Command-Token'' = token
     \<or> gm_getd [] (lq_Headers r) ''Authorization'' = ''Bearer '' @ token"

lemma has_prefixE: "has_prefix s p \<Longrightarrow> \<exists>t. s = p @ t"
  unfolding has_prefix_def by (metis append_take_drop_id)

lemma authorize_iff: "authorizeCommandListener r token \<longleftrightarrow> trim_space token = [] \<or> presents_token r token"
proof -
  define auth where "auth = gm_getd [] (lq_Headers r) ''Authorization''"
  have "(has_prefix auth ''Bearer '' \<and> trim_prefix auth ''Bearer '' = token) \<longleftrightarrow> auth = ''Bearer '' @ token"
    using has_prefixE [of auth "''Bearer ''"] trim_prefix_append [of "''Bearer ''"] has_prefix_append [of "''Bearer ''"] by metis
  then show ?thesis unfolding authorizeCommandListener_def presents_token_def Let_def auth_def [symmetric] by auto
qed

definition accepted :: "listener_request \<Rightarrow> string \<Rightarrow> string option" where
  "accepted r token = (case lq_Body r of
     Some body \<Rightarrow> if lq_Method r = ''POST'' \<and> (trim_space token = [] \<or> presents_token r token) \<and> trim_space body \<noteq> []
       then Some (trim_space body) else None
   | None \<Rightarrow> None)"

lemma handler_refuses:
  "accepted r token = None \<Longrightarrow>
     \<exists>status text. command_handler nc wire pf inp fe token r aw = Some (aw, status, text) \<and> status \<in> {400, 401, 405}"
  by (auto simp: accepted_def command_handler_def authorize_iff Let_def split: option.splits if_splits)

lemma handler_accepts:
  assumes "accepted r token = Some cmd"
  shows "case ExecuteRuntimeCommand nc wire pf inp cmd aw of
      None \<Rightarrow> command_handler nc wire pf inp fe token r aw = None
    | Some (aw', res) \<Rightarrow> \<exists>status text. command_handler nc wire pf inp fe token r aw = Some (aw', status, text)
        \<and> status = (if isl res then 400 else 200)"
proof -
  from assms obtain body where b: "lq_Body r = Some body" "lq_Method r = ''POST''" "authorizeCommandListener r token" "trim_space body = cmd" "cmd \<noteq> []"
    by (auto simp: accepted_def authorize_iff split: option.splits if_splits)
  have h: "command_handler nc wire pf inp fe token r aw = (case ExecuteRuntimeCommand nc wire pf inp cmd aw of
            None \<Rightarrow> None
          | Some (aw', Inl e) \<Rightarrow> Some (aw', 400, fe_error fe e @ [NL])
          | Some (aw', Inr None) \<Rightarrow> Some (aw', 200, ''ok'' @ [NL])
          | Some (aw', Inr (Some RNil)) \<Rightarrow> Some (aw', 200, ''ok'' @ [NL])
          | Some (aw', Inr (Some res)) \<Rightarrow> Some (aw', 200, formatCommandResult fe cmd res))"
    using b by (simp add: command_handler_def Let_def)
  show ?thesis unfolding h by (auto split: sum.splits option.splits reply.splits)
qed

text \<open>
  C34: the endpoint is guarded.  A request that is not a \<open>POST\<close>, does not present the configured token, or has
  no command in it is answered with an error status and changes nothing; any other request has exactly the effect of
  running its command, crashes included, and is answered 200 when and only when the command succeeded.
\<close>
theorem listener_guards:
  "case accepted r token of
     None \<Rightarrow> \<exists>status text. command_handler nc wire pf inp fe token r aw = Some (aw, status, text) \<and> status \<in> {400, 401, 405}
   | Some cmd \<Rightarrow>
       (case ExecuteRuntimeCommand nc wire pf inp cmd aw of
          None \<Rightarrow> command_handler nc wire pf inp fe token r aw = None
        | Some (aw', res) \<Rightarrow> \<exists>status text. command_handler nc wire pf inp fe token r aw = Some (aw', status, text)
            \<and> status = (if isl res then 400 else 200))"
proof (cases "accepted r token")
  case None
  from handler_refuses [OF this] show ?thesis by (simp only: None option.case)
next
  case (Some cmd)
  from handler_accepts [OF this] show ?thesis by (simp only: Some option.case)
qed

section \<open>The largest duration\<close>

text \<open>\<open>max_step\<close> keeps the larger duration and the smaller name among equals, whatever the order.\<close>

definition worse :: "string \<times> int \<Rightarrow> string \<times> int \<Rightarrow> bool" where
  "worse p q \<longleftrightarrow> snd p > snd q \<or> (snd p = snd q \<and> fst p \<le> fst q)"

lemma worse_trans: "worse p q \<Longrightarrow> worse q r \<Longrightarrow> worse p r"
  by (auto simp: worse_def)

lemma worse_antisym: "worse p q \<Longrightarrow> worse q p \<Longrightarrow> p = q"
  by (auto simp: worse_def prod_eq_iff)

lemma worse_refl [simp]: "worse p p"
  by (simp add: worse_def)

lemma max_step_worse: "max_step p q = (if worse p q then p else q)"
  by (cases p; cases q) (auto simp: max_step_def worse_def)

lemma max_step_not: "\<not> worse p q \<Longrightarrow> worse q p"
  by (auto simp: worse_def)

lemma fold_max_worse: "\<forall>p \<in> insert q (set ps). worse (fold max_step ps q) p"
proof (induction ps arbitrary: q)
  case (Cons p ps)
  let ?m = "max_step p q"
  have "worse ?m p" "worse ?m q" by (auto simp: max_step_worse max_step_not)
  moreover have "worse (fold max_step ps ?m) ?m" "\<forall>x \<in> set ps. worse (fold max_step ps ?m) x" using Cons by auto
  ultimately show ?case by (auto intro: worse_trans)
qed simp

lemma fold_max_in: "fold max_step ps q \<in> insert q (set ps)"
  by (induction ps arbitrary: q) (fastforce simp: max_step_worse)+

lemma fold_max_first:
  assumes "ps \<noteq> []" "\<forall>p \<in> set ps. snd p \<ge> 0"
  shows "fold max_step ps ([], -1) \<in> set ps"
proof -
  have "fold max_step ps ([], -1) \<noteq> ([], -1)"
  proof
    assume e: "fold max_step ps ([], -1) = ([], -1)"
    obtain p where "p \<in> set ps" using assms(1) by (cases ps) auto
    then have "worse ([], -1) p" "snd p \<ge> 0" using fold_max_worse [of "([], -1)" ps] assms(2) e by auto
    then show False by (simp add: worse_def)
  qed
  then show ?thesis using fold_max_in [of ps "([], -1)"] by auto
qed

lemma fold_max_unique:
  assumes "ps \<noteq> []" "\<forall>p \<in> set ps. snd p \<ge> 0" "p \<in> set ps" "\<forall>q \<in> set ps. worse p q"
  shows "fold max_step ps ([], -1) = p"
  using fold_max_first [OF assms(1,2)] fold_max_worse [of "([], -1)" ps] assms(3,4) by (auto intro: worse_antisym)

section \<open>The insights of a session\<close>

text \<open>The loops over the rows, one accumulator at a time.\<close>

lemma collect_divergent: "in_divergent (fold insight_step rows s) = in_divergent s @ map ir_key (filter (\<lambda>r. \<not> ir_final r) rows)"
  by (induction rows arbitrary: s) (auto simp: insight_step_def)

lemma collect_peak: "in_maxPeak (fold insight_step rows s) = fold max (map ir_peak rows) (in_maxPeak s)"
  by (induction rows arbitrary: s) (auto simp: insight_step_def max_def)

text \<open>On rows in the order of their keys the first row of the largest area is the least one.\<close>

lemma collect_worst:
  "sorted_wrt (<) (in_worstKey s # map ir_key rows) \<Longrightarrow>
     (in_worstKey (fold insight_step rows s), in_worstAUC (fold insight_step rows s))
       = fold max_step (map (\<lambda>r. (ir_key r, ir_auc r)) rows) (in_worstKey s, in_worstAUC s)"
proof (induction rows arbitrary: s)
  case (Cons r rows)
  have "max_step (ir_key r, ir_auc r) (in_worstKey s, in_worstAUC s) = (in_worstKey (insight_step r s), in_worstAUC (insight_step r s))"
    using Cons.prems by (auto simp: insight_step_def max_step_def)
  moreover have "sorted_wrt (<) (in_worstKey (insight_step r s) # map ir_key rows)" using Cons.prems by (auto simp: insight_step_def)
  ultimately show ?case using Cons.IH by simp
qed simp

definition add_stale :: "(string, int) gomap \<Rightarrow> (string, int) gomap \<Rightarrow> (string, int) gomap" where
  "add_stale m agg = fold (\<lambda>(node, d) agg. gm_put node (wrap64 (gm_getd 0 agg node + d)) agg) m agg"

lemma add_stale_get:
  "gm_wf m \<Longrightarrow> gm_getd 0 (add_stale m agg) n = (case map_of m n of None \<Rightarrow> gm_getd 0 agg n | Some d \<Rightarrow> wrap64 (gm_getd 0 agg n + d))"
proof (induction m arbitrary: agg)
  case (Cons p m)
  obtain k d where p: "p = (k, d)" by (cases p)
  have "map_of m k = None" using Cons.prems p by (simp add: map_of_eq_None_iff)
  then show ?case using Cons p by (auto simp: add_stale_def split: option.splits)
qed (simp add: add_stale_def)

lemma add_stale_wf: "gm_wf agg \<Longrightarrow> gm_wf (add_stale m agg)"
  unfolding add_stale_def by (rule fold_invariant) auto

lemma add_stale_keys: "dom (map_of (add_stale m agg)) = dom (map_of m) \<union> dom (map_of agg)"
  by (induction m arbitrary: agg) (auto simp: add_stale_def dom_put split: prod.splits)

lemma collect_stale: "in_aggStale (fold insight_step rows s) = fold add_stale (map ir_staleByNode rows) (in_aggStale s)"
  by (induction rows arbitrary: s) (auto simp: insight_step_def add_stale_def)

lemma fold_add_stale_get:
  assumes "\<forall>m \<in> set ms. gm_wf m" "wrap64 (gm_getd 0 agg n) = gm_getd 0 agg n"
  shows "gm_getd 0 (fold add_stale ms agg) n = wrap64 (gm_getd 0 agg n + (\<Sum>m\<leftarrow>ms. gm_getd 0 m n))"
  using assms
proof (induction ms arbitrary: agg)
  case (Cons m ms)
  have a: "gm_getd 0 (add_stale m agg) n = wrap64 (gm_getd 0 agg n + gm_getd 0 m n)"
    using Cons.prems add_stale_get [of m agg n] by (auto simp: gm_getd_def split: option.splits)
  show ?case using Cons.IH [of "add_stale m agg"] Cons.prems by (simp add: a wrap64_add add.assoc)
qed simp

lemma fold_add_stale_wf: "gm_wf agg \<Longrightarrow> gm_wf (fold add_stale ms agg)"
  by (rule fold_invariant) (auto intro: add_stale_wf)

lemma fold_add_stale_keys: "dom (map_of (fold add_stale ms agg)) = (\<Union>m \<in> set ms. dom (map_of m)) \<union> dom (map_of agg)"
  by (induction ms arbitrary: agg) (auto simp: add_stale_keys)

text \<open>What the readers find in a result.\<close>

lemma read_stale: "gm_wf (mr_StaleDurationPerNode r) \<Longrightarrow> readStaleDurationMap (rv_result r) = mr_StaleDurationPerNode r"
proof -
  assume wf: "gm_wf (mr_StaleDurationPerNode r)"
  have "fold (\<lambda>kv out. fold (\<lambda>(node, d). gm_put node d) (stale_entry kv) out) (map (\<lambda>(n, d). (RvString n, RvInt d)) m) acc
      = fold (\<lambda>(k, v) acc. gm_put k v acc) m acc" for m acc
    by (induction m arbitrary: acc) (auto simp: stale_entry_def)
  then show ?thesis using gm_copy_id [OF wf] by (simp add: readStaleDurationMap_def readField_def rv_result_def gm_copy_def)
qed

lemma insight_row_result:
  "gm_wf (mr_StaleDurationPerNode r) \<Longrightarrow> ir_key (insight_row k (rv_result r)) = k
     \<and> ir_final (insight_row k (rv_result r)) = mr_FinalConsistent r \<and> ir_peak (insight_row k (rv_result r)) = mr_PeakDivergence r
     \<and> ir_auc (insight_row k (rv_result r)) = mr_AreaUnderDivergence r \<and> ir_staleByNode (insight_row k (rv_result r)) = mr_StaleDurationPerNode r"
  by (simp add: insight_row_def read_stale) (simp add: readBoolField_def readIntField_def readDurationValue_def readField_def rv_result_def)

definition session_rows :: "metrics_snapshot \<Rightarrow> metrics_insight_row list" where
  "session_rows x = map (\<lambda>(k, v). insight_row k v) (concat (map (\<lambda>key. case map_of (mx_results x) key of None \<Rightarrow> [] | Some r \<Rightarrow> [(key, rv_result r)])
     (sort (gm_keys (mx_results x)))))"

definition stale_total :: "metrics_snapshot \<Rightarrow> string \<Rightarrow> int" where
  "stale_total x n = (\<Sum>(k, r)\<leftarrow>mx_results x. gm_getd 0 (mr_StaleDurationPerNode r) n)"

definition stale_nodes :: "metrics_snapshot \<Rightarrow> string set" where
  "stale_nodes x = (\<Union>(k, r) \<in> set (mx_results x). dom (map_of (mr_StaleDurationPerNode r)))"

definition result_ok :: "metrics_result \<Rightarrow> bool" where
  "result_ok r \<longleftrightarrow> gm_wf (mr_StaleDurationPerNode r) \<and> 0 \<le> mr_AreaUnderDivergence r
     \<and> list_all (\<lambda>(n, d). n \<noteq> [] \<and> 0 \<le> d) (mr_StaleDurationPerNode r)"

definition snapshot_ok :: "metrics_snapshot \<Rightarrow> bool" where
  "snapshot_ok x \<longleftrightarrow> gm_wf (mx_results x) \<and> mx_results x \<noteq> [] \<and> list_all (\<lambda>(k, r). k \<noteq> [] \<and> result_ok r) (mx_results x)"

text \<open>The results in the order of their keys.\<close>

definition ordered :: "metrics_snapshot \<Rightarrow> (string \<times> metrics_result) list" where
  "ordered x = map (\<lambda>k. (k, the (map_of (mx_results x) k))) (sort (gm_keys (mx_results x)))"

lemma ordered_mset: "gm_wf (mx_results x) \<Longrightarrow> mset (ordered x) = mset (mx_results x)"
proof -
  assume wf: "gm_wf (mx_results x)"
  have "map (\<lambda>k. (k, the (map_of m k))) (map fst m) = m" if "distinct (map fst m)" for m :: "('a \<times> 'b) list"
    using that by (auto simp: map_of_is_SomeI intro!: map_idI)
  from this [of "mx_results x"] have "map (\<lambda>k. (k, the (map_of (mx_results x) k))) (gm_keys (mx_results x)) = mx_results x"
    using wf by (simp add: gm_keys_def gm_wf_def)
  from arg_cong [OF this, of mset] show ?thesis by (simp add: ordered_def)
qed

lemma ordered_set: "gm_wf (mx_results x) \<Longrightarrow> set (ordered x) = set (mx_results x)"
  using ordered_mset mset_eq_setD by blast

lemma ordered_keys: "map fst (ordered x) = sort (gm_keys (mx_results x))"
  by (simp add: ordered_def comp_def)

lemma session_rows_ordered:
  assumes "snapshot_ok x"
  shows "session_rows x = map (\<lambda>(k, r). insight_row k (rv_result r)) (ordered x)"
proof -
  have "map_of (mx_results x) k = Some (the (map_of (mx_results x) k))" if "k \<in> set (gm_keys (mx_results x))" for k
    using that by (auto simp: set_gm_keys)
  then have "map (\<lambda>key. case map_of (mx_results x) key of None \<Rightarrow> [] | Some r \<Rightarrow> [(key, rv_result r)]) (sort (gm_keys (mx_results x)))
      = map (\<lambda>key. [(key, rv_result (the (map_of (mx_results x) key)))]) (sort (gm_keys (mx_results x)))"
    by (intro map_cong) (auto split: option.splits)
  then have "session_rows x = map (\<lambda>(k, v). insight_row k v) (concat (map (\<lambda>key. [(key, rv_result (the (map_of (mx_results x) key)))]) (sort (gm_keys (mx_results x)))))"
    unfolding session_rows_def by (rule arg_cong)
  then show ?thesis unfolding ordered_def by (simp only: concat_map_singleton map_map comp_def prod.case)
qed

lemma ordered_ok: "snapshot_ok x \<Longrightarrow> (k, r) \<in> set (ordered x) \<Longrightarrow> k \<noteq> [] \<and> result_ok r"
  by (auto simp: snapshot_ok_def ordered_set list_all_iff)

lemma rows_read:
  assumes "snapshot_ok x"
  shows "map ir_key (session_rows x) = map fst (ordered x)"
    and "map ir_peak (session_rows x) = map (mr_PeakDivergence \<circ> snd) (ordered x)"
    and "map (\<lambda>r. (ir_key r, ir_auc r)) (session_rows x) = map (\<lambda>(k, r). (k, mr_AreaUnderDivergence r)) (ordered x)"
    and "map ir_staleByNode (session_rows x) = map (mr_StaleDurationPerNode \<circ> snd) (ordered x)"
    and "map ir_key (filter (\<lambda>r. \<not> ir_final r) (session_rows x)) = map fst (filter (\<lambda>(k, r). \<not> mr_FinalConsistent r) (ordered x))"
proof -
  have r: "gm_wf (mr_StaleDurationPerNode (snd p))" if "p \<in> set (ordered x)" for p
    using that ordered_ok [OF assms, of "fst p" "snd p"] by (simp add: result_ok_def)
  note f = insight_row_result [OF r]
  show "map ir_key (session_rows x) = map fst (ordered x)" "map ir_peak (session_rows x) = map (mr_PeakDivergence \<circ> snd) (ordered x)"
    "map (\<lambda>r. (ir_key r, ir_auc r)) (session_rows x) = map (\<lambda>(k, r). (k, mr_AreaUnderDivergence r)) (ordered x)"
    "map ir_staleByNode (session_rows x) = map (mr_StaleDurationPerNode \<circ> snd) (ordered x)"
    using f by (auto simp: session_rows_ordered [OF assms] case_prod_unfold)
  have "map ir_key (filter (\<lambda>r. \<not> ir_final r) (map (\<lambda>(k, r). insight_row k (rv_result r)) ps)) = map fst (filter (\<lambda>(k, r). \<not> mr_FinalConsistent r) ps)"
    if "\<forall>p \<in> set ps. gm_wf (mr_StaleDurationPerNode (snd p))" for ps
    using that by (induction ps) (auto simp: insight_row_result)
  then show "map ir_key (filter (\<lambda>r. \<not> ir_final r) (session_rows x)) = map fst (filter (\<lambda>(k, r). \<not> mr_FinalConsistent r) (ordered x))"
    using r by (simp add: session_rows_ordered [OF assms])
qed

lemma session_worst:
  assumes "snapshot_ok x"
  defines "s \<equiv> collect_insights (session_rows x)"
  shows "\<exists>r. map_of (mx_results x) (in_worstKey s) = Some r \<and> mr_AreaUnderDivergence r = in_worstAUC s"
    and "map_of (mx_results x) k = Some r \<Longrightarrow> worse (in_worstKey s, in_worstAUC s) (k, mr_AreaUnderDivergence r)"
proof -
  let ?ps = "map (\<lambda>(k, r). (k, mr_AreaUnderDivergence r)) (ordered x)"
  have wf: "gm_wf (mx_results x)" using assms by (simp add: snapshot_ok_def)
  have so: "sorted_wrt (<) ([] # map ir_key (session_rows x))"
  proof -
    have "sorted_wrt (<) (sort (gm_keys (mx_results x)))" using wf by (simp add: strict_sorted_iff gm_keys_def gm_wf_def)
    moreover have "k \<noteq> []" if "k \<in> set (map fst (ordered x))" for k using that ordered_ok [OF assms(1)] by auto
    then have "[] < k" if "k \<in> set (map fst (ordered x))" for k using that by (metis Nil_less_Cons neq_Nil_conv)
    ultimately show ?thesis by (simp add: rows_read [OF assms(1)] ordered_keys del: set_map)
  qed
  have w: "(in_worstKey s, in_worstAUC s) = fold max_step ?ps ([], -1)"
    using collect_worst [of "\<lparr>in_divergent = [], in_worstKey = [], in_worstAUC = -1, in_maxPeak = 0, in_aggStale = []\<rparr>"] so rows_read(3) [OF assms(1)]
    by (simp add: s_def collect_insights_def)
  have "ordered x \<noteq> []" using assms(1) ordered_set [OF wf] by (auto simp: snapshot_ok_def)
  moreover have "\<forall>p \<in> set ?ps. snd p \<ge> 0" using ordered_ok [OF assms(1)] by (auto simp: result_ok_def)
  ultimately have "(in_worstKey s, in_worstAUC s) \<in> set ?ps" unfolding w by (intro fold_max_first) auto
  then show "\<exists>r. map_of (mx_results x) (in_worstKey s) = Some r \<and> mr_AreaUnderDivergence r = in_worstAUC s"
    using ordered_set [OF wf] map_of_in_set [OF wf] by auto
  show "worse (in_worstKey s, in_worstAUC s) (k, mr_AreaUnderDivergence r)" if "map_of (mx_results x) k = Some r"
  proof -
    have "(k, r) \<in> set (ordered x)" using that ordered_set [OF wf] map_of_in_set [OF wf] by simp
    then have "(k, mr_AreaUnderDivergence r) \<in> set ?ps" by force
    then show ?thesis using fold_max_worse [of "([], -1)" ?ps] unfolding w by blast
  qed
qed

lemma fold_max_Max: "fold max xs (a :: int) = Max (insert a (set xs))"
  using Max.set_eq_fold [of a xs] by simp

lemma session_peak: "snapshot_ok x \<Longrightarrow> in_maxPeak (collect_insights (session_rows x)) = Max (insert 0 ((mr_PeakDivergence \<circ> snd) ` set (mx_results x)))"
  by (simp add: collect_insights_def collect_peak rows_read fold_max_Max ordered_set snapshot_ok_def)

lemma stale_total_nonneg:
  assumes "snapshot_ok x"
  shows "0 \<le> stale_total x n"
proof -
  have "0 \<le> gm_getd 0 (mr_StaleDurationPerNode (snd p)) n" if "p \<in> set (mx_results x)" for p
    using assms that by (cases p) (auto simp: snapshot_ok_def list_all_iff result_ok_def gm_getd_def split: option.splits dest!: map_of_SomeD bspec)
  then show ?thesis by (auto simp: stale_total_def case_prod_unfold intro!: sum_list_nonneg)
qed

lemma session_stale:
  assumes "snapshot_ok x" "stale_total x n \<le> i64_max"
  shows "gm_getd 0 (in_aggStale (collect_insights (session_rows x))) n = stale_total x n"
proof -
  let ?t = "\<lambda>p. gm_getd 0 (mr_StaleDurationPerNode (snd p)) n"
  have "(\<Sum>p\<leftarrow>ordered x. ?t p) = (\<Sum>p\<leftarrow>mx_results x. ?t p)"
  proof -
    have "mset (map ?t (ordered x)) = mset (map ?t (mx_results x))" using ordered_mset [of x] assms(1) by (simp add: snapshot_ok_def)
    then show ?thesis by (metis sum_mset_sum_list)
  qed
  then have t: "(\<Sum>p\<leftarrow>ordered x. ?t p) = stale_total x n" by (simp add: stale_total_def case_prod_unfold)
  have "gm_getd 0 (in_aggStale (collect_insights (session_rows x))) n = wrap64 (\<Sum>p\<leftarrow>ordered x. ?t p)"
  proof -
    have "\<forall>m \<in> set (map (mr_StaleDurationPerNode \<circ> snd) (ordered x)). gm_wf m" using ordered_ok [OF assms(1)] by (auto simp: result_ok_def)
    from fold_add_stale_get [OF this, of "[]" n] show ?thesis
      by (simp add: collect_insights_def collect_stale rows_read [OF assms(1)] comp_def wrap64_id i64_min_def i64_max_def)
  qed
  then show ?thesis using assms(2) stale_total_nonneg [OF assms(1), of n] by (simp add: t wrap64_id i64_min_def)
qed

lemma session_stale_nodes:
  "snapshot_ok x \<Longrightarrow> dom (map_of (in_aggStale (collect_insights (session_rows x)))) = stale_nodes x"
  by (auto simp: collect_insights_def collect_stale rows_read fold_add_stale_keys ordered_set snapshot_ok_def stale_nodes_def)

lemma session_stale_wf: "gm_wf (in_aggStale (collect_insights (session_rows x)))"
  by (simp add: collect_insights_def collect_stale fold_add_stale_wf)

text \<open>
  C38: the summary of a session says what its results say, whatever the order in which Go walks the maps.  The divergent
  keys are exactly those whose last state is not consistent, in order; the key of the highest inconsistency area has
  the largest area, the least key among equals; the peak is the largest peak; and the node named as the most stale one has
  the largest sum of stale durations over all keys, the least name among equals.
\<close>
theorem insights_exact:
  assumes "snapshot_ok x" "\<forall>n. stale_total x n \<le> i64_max" "stale_nodes x \<noteq> {}"
  shows "\<exists>s n. s = collect_insights (session_rows x)
    \<and> in_divergent s = map fst (filter (\<lambda>(k, r). \<not> mr_FinalConsistent r) (ordered x))
    \<and> (\<exists>r. map_of (mx_results x) (in_worstKey s) = Some r \<and> mr_AreaUnderDivergence r = in_worstAUC s)
    \<and> (\<forall>k r. map_of (mx_results x) k = Some r \<longrightarrow> mr_AreaUnderDivergence r < in_worstAUC s \<or> (mr_AreaUnderDivergence r = in_worstAUC s \<and> in_worstKey s \<le> k))
    \<and> in_maxPeak s = Max (insert 0 ((mr_PeakDivergence \<circ> snd) ` set (mx_results x)))
    \<and> n \<in> stale_nodes x \<and> worst_node (in_aggStale s) = n @ ''='' @ duration_String (stale_total x n)
    \<and> (\<forall>n' \<in> stale_nodes x. stale_total x n' < stale_total x n \<or> (stale_total x n' = stale_total x n \<and> n \<le> n'))"
proof -
  define s where "s = collect_insights (session_rows x)"
  let ?agg = "in_aggStale s"
  have wf: "gm_wf ?agg" unfolding s_def by (rule session_stale_wf)
  have dom: "dom (map_of ?agg) = stale_nodes x" unfolding s_def using assms(1) by (rule session_stale_nodes)
  have get: "gm_getd 0 ?agg n = stale_total x n" for n unfolding s_def using assms(1,2) by (intro session_stale) auto
  have mem: "p \<in> set ?agg \<longleftrightarrow> fst p \<in> stale_nodes x \<and> snd p = stale_total x (fst p)" for p
    using map_of_in_set [OF wf, of "fst p" "snd p"] get [of "fst p"] by (auto simp: dom [symmetric] gm_getd_def dom_def split: option.splits)
  have nonempty: "n \<noteq> []" if "n \<in> stale_nodes x" for n
    using assms(1) that by (auto simp: stale_nodes_def snapshot_ok_def list_all_iff result_ok_def dest!: map_of_SomeD)
  obtain n d where m: "fold max_step ?agg ([], -1) = (n, d)" by (cases "fold max_step ?agg ([], -1)")
  have ne: "?agg \<noteq> []" using dom assms(3) by auto
  have "(n, d) \<in> set ?agg" using fold_max_first [OF ne] mem stale_total_nonneg [OF assms(1)] unfolding m by auto
  then have n: "n \<in> stale_nodes x" "d = stale_total x n" using mem by auto
  have "worse (n, d) (n', stale_total x n')" if "n' \<in> stale_nodes x" for n'
    using fold_max_worse [of "([], -1)" ?agg] mem [of "(n', stale_total x n')"] that unfolding m by auto
  then have largest: "\<forall>n' \<in> stale_nodes x. stale_total x n' < stale_total x n \<or> (stale_total x n' = stale_total x n \<and> n \<le> n')"
    unfolding n(2) worse_def fst_conv snd_conv by fastforce
  have node: "worst_node ?agg = n @ ''='' @ duration_String (stale_total x n)"
    using ne nonempty [OF n(1)] by (simp add: worst_node_def m n(2))
  have div: "in_divergent s = map fst (filter (\<lambda>(k, r). \<not> mr_FinalConsistent r) (ordered x))"
    by (simp add: s_def collect_insights_def collect_divergent rows_read [OF assms(1)])
  have area: "\<forall>k r. map_of (mx_results x) k = Some r \<longrightarrow> mr_AreaUnderDivergence r < in_worstAUC s \<or> (mr_AreaUnderDivergence r = in_worstAUC s \<and> in_worstKey s \<le> k)"
    using session_worst(2) [OF assms(1), folded s_def] by (fastforce simp: worse_def)
  show ?thesis
    using div session_worst(1) [OF assms(1), folded s_def] area session_peak [OF assms(1), folded s_def] n(1) node largest s_def by blast
qed

definition demo_result :: "bool \<Rightarrow> int \<Rightarrow> int \<Rightarrow> (string, int) gomap \<Rightarrow> metrics_result" where
  "demo_result final peak area stale = empty_result\<lparr>mr_FinalConsistent := final, mr_PeakDivergence := peak, mr_AreaUnderDivergence := area,
     mr_StaleDurationPerNode := stale\<rparr>"

definition demo_snapshot :: metrics_snapshot where
  "demo_snapshot = \<lparr>mx_isActive = True, mx_clusterId = ''c1'', mx_startedAt = 0, mx_stoppedAt = None, mx_trackedKeys = [''y'', ''x''],
     mx_results = [(''y'', demo_result False 2 7 [(''n2'', 5), (''n1'', 2)]), (''x'', demo_result True 1 3 [(''n1'', 3)])],
     mx_clusterStats = \<lparr>ss_TotalRPCs = 0, ss_TotalWrites = 0, ss_RecentKeys = []\<rparr>\<rparr>"

lemma demo_snapshot_ok: "snapshot_ok demo_snapshot" "stale_nodes demo_snapshot = {''n1'', ''n2''}"
  "stale_total demo_snapshot n = (if n = ''n1'' \<or> n = ''n2'' then 5 else 0)"
  by (auto simp: snapshot_ok_def demo_snapshot_def demo_result_def result_ok_def stale_nodes_def stale_total_def gm_getd_def)

theorem insights_exact_witness:
  "worst_node (in_aggStale (collect_insights (session_rows demo_snapshot))) = ''n1='' @ duration_String 5"
proof -
  have bound: "\<forall>n. stale_total demo_snapshot n \<le> i64_max" by (simp add: demo_snapshot_ok(3) i64_max_def)
  have "stale_nodes demo_snapshot \<noteq> {}" by (simp add: demo_snapshot_ok(2))
  from insights_exact [OF demo_snapshot_ok(1) bound this] obtain n where
    n: "n \<in> stale_nodes demo_snapshot"
       "worst_node (in_aggStale (collect_insights (session_rows demo_snapshot))) = n @ ''='' @ duration_String (stale_total demo_snapshot n)"
       "\<forall>n' \<in> stale_nodes demo_snapshot. stale_total demo_snapshot n' < stale_total demo_snapshot n
          \<or> (stale_total demo_snapshot n' = stale_total demo_snapshot n \<and> n \<le> n')" by blast
  have "n \<noteq> ''n2''" using n(3) by (auto simp: demo_snapshot_ok(2,3))
  then have "n = ''n1''" using n(1) by (simp add: demo_snapshot_ok(2))
  then show ?thesis using n(2) by (simp add: demo_snapshot_ok(3))
qed

section \<open>The table of clusters\<close>

text \<open>The tables without reflection: the clusters by identifier, each with the node table of its nodes by identifier.\<close>

definition typed_section :: "fmt_env \<Rightarrow> string \<times> string \<times> cluster_node list \<Rightarrow> string" where
  "typed_section fe = (\<lambda>(i, p, ns). [NL] @ ''['' @ i @ ''] protocol='' @ p @ [NL]
     @ (if ns = [] then ''  no nodes'' @ [NL] else formatNodesTable fe (sort_key cn_ID ns)))"

definition typed_table :: "fmt_env \<Rightarrow> (string \<times> string \<times> cluster_node list) list \<Rightarrow> string" where
  "typed_table fe cs = tabwrite (row [''CLUSTER_ID'', ''PROTOCOL'', ''NODES'']
       @ concat (map (\<lambda>(i, p, ns). row [i, p, show_nat (length ns)]) (sort_key fst cs)))
     @ concat (map (typed_section fe) (sort_key fst cs))"

lemma sort_key_map: "sort_key f (map g xs) = map g (sort_key (f \<circ> g) xs)"
proof -
  have "insort_key f (g x) (map g ys) = map g (insort_key (f \<circ> g) x ys)" for x ys by (induction ys) auto
  then show ?thesis by (induction xs) (auto simp: sort_key_def)
qed

definition rv_cluster :: "string \<times> string \<times> cluster_node list \<Rightarrow> rval" where
  "rv_cluster = (\<lambda>(i, p, ns). RvStruct [(''ID'', RvString i), (''Protocol'', RvString p), (''Nodes'', RvSlice (map rv_node ns))])"

lemma rv_cluster_reads:
  "readStringField (rv_cluster c) ''ID'' = fst c" "readStringField (rv_cluster c) ''Protocol'' = fst (snd c)"
  "readSliceLenField (rv_cluster c) ''Nodes'' = length (snd (snd c))" "readField (rv_cluster c) ''Nodes'' = Some (RvSlice (map rv_node (snd (snd c))))"
  by (simp_all add: rv_cluster_def readStringField_def readSliceLenField_def readField_def case_prod_unfold)

lemma rv_node_reads:
  "readStringField (rv_node n) ''ID'' = cn_ID n"
  "cluster_node_row fe (rv_node n) = row [cn_ID n, cn_Address n, show_int (cn_Port n), cn_Status n,
     show_bool (fs_Crashed (cn_Fault n)), fe_rate fe (fs_DropRate (cn_Fault n)), show_int (fs_DelayMs (cn_Fault n)),
     show_nat (length (fs_Partition (cn_Fault n)))]"
  by (simp_all add: cluster_node_row_def rv_node_def rv_fault_def readStringField_def readIntField_def readBoolField_def readFloatField_def
      readSliceLenField_def readField_def Let_def)

lemma struct_items_map:
  "struct_items (map rv_node ns) = map rv_node ns" "struct_items (map rv_cluster cs) = map rv_cluster cs"
proof -
  show "struct_items (map rv_node ns) = map rv_node ns" by (induction ns) (auto simp: struct_items_def rv_node_def)
  show "struct_items (map rv_cluster cs) = map rv_cluster cs" by (induction cs) (auto simp: struct_items_def rv_cluster_def)
qed

lemma sorted_nodes: "sort_by_id (map rv_node ns) = map rv_node (sort_key cn_ID ns)"
  by (simp add: sort_by_id_def sort_key_map comp_def rv_node_reads)

lemma sorted_clusters: "sort_by_id (map rv_cluster cs) = map rv_cluster (sort_key fst cs)"
  by (simp add: sort_by_id_def sort_key_map comp_def rv_cluster_reads)

lemma section_typed: "cluster_section fe (rv_cluster c) = typed_section fe c"
proof -
  obtain i p ns where c: "c = (i, p, ns)" by (cases c)
  have ne: "sort_key cn_ID ns = [] \<longleftrightarrow> ns = []" by (metis length_0_conv length_sort)
  have "cluster_section fe (rv_cluster c) = [NL] @ ''['' @ i @ ''] protocol='' @ p @ [NL] @ (if ns = [] then ''  no nodes'' @ [NL]
      else tabwrite (node_header @ concat (map (cluster_node_row fe) (sort_by_id (struct_items (map rv_node ns))))))"
    unfolding cluster_section_def rv_cluster_reads c fst_conv snd_conv by (cases ns) simp_all
  then show ?thesis by (simp add: typed_section_def c formatNodesTable_def ne struct_items_map sorted_nodes comp_def rv_node_reads)
qed

text \<open>
  C39: the table of \<open>list-clusters\<close>, which is printed by reflection, is the table of the clusters themselves: every cluster
  in the order of its identifier with its protocol and its number of nodes, and for each of them the very table \<open>list-nodes\<close>
  prints, with its nodes in the order of their identifiers.
\<close>
theorem clusters_table_typed:
  "formatClustersTable fe (rv_clusters cs) = Some (if cs = [] then ''no clusters found'' @ [NL] else typed_table fe cs)"
proof -
  have "rv_clusters cs = RvSlice (map rv_cluster cs)" by (simp add: rv_clusters_def rv_cluster_def)
  then show ?thesis
    by (simp add: formatClustersTable_def typed_table_def struct_items_map sorted_clusters Let_def comp_def rv_cluster_reads section_typed case_prod_unfold)
qed

end
