(* ===== verification/GoFlags.thy ===== *)
theory GoFlags
  imports GoStrings
begin

text \<open>
  The part of Go's \<open>flag\<close> package the three programs use: \<open>flag.Parse\<close> over the arguments of the process with
  string, integer, boolean and duration flags, integers in any of the bases \<open>strconv.ParseInt\<close> reads with base 0.
  \<open>time.ParseDuration\<close> is an argument.  Shown: an argument list of \<open>-name value\<close> pairs sets exactly those flags, to
  those values, whatever the text of a value is.
\<close>

section \<open>Integers in base 0\<close>

definition letter_val :: "char \<Rightarrow> nat option" where
  "letter_val c = (let n = of_char (to_lower_char c) :: nat in if 97 \<le> n \<and> n \<le> 122 then Some (n - 87) else digit_val c)"

definition base_of :: "string \<Rightarrow> nat \<times> string" where
  "base_of s = (case s of
     d # c # e # r \<Rightarrow>
       if d \<noteq> CHR ''0'' then (10, s)
       else if to_lower_char c = CHR ''b'' then (2, e # r)
       else if to_lower_char c = CHR ''o'' then (8, e # r)
       else if to_lower_char c = CHR ''x'' then (16, e # r)
       else (8, c # e # r)
   | d # r \<Rightarrow> if d = CHR ''0'' then (8, r) else (10, s)
   | [] \<Rightarrow> (10, []))"

fun base_loop :: "nat \<Rightarrow> nat \<Rightarrow> string \<Rightarrow> nat option" where
  "base_loop b n [] = Some n"
| "base_loop b n (c # cs) =
     (if c = CHR ''_'' then base_loop b n cs
      else case letter_val c of None \<Rightarrow> None | Some d \<Rightarrow> if d < b then base_loop b (n * b + d) cs else None)"

text \<open>An underscore stands between digits; a base prefix counts as a digit.\<close>

fun underscores :: "bool \<Rightarrow> bool \<Rightarrow> string \<Rightarrow> bool" where
  "underscores digit open_sep [] = (\<not> open_sep)"
| "underscores digit open_sep (c # cs) = (if c = CHR ''_'' then digit \<and> underscores False True cs else underscores True False cs)"

definition underscoreOK :: "string \<Rightarrow> bool" where
  "underscoreOK s = (case s of
     d # c # r \<Rightarrow>
       if d = CHR ''0'' \<and> to_lower_char c \<in> {CHR ''b'', CHR ''o'', CHR ''x''} then underscores True False r else underscores False False s
   | _ \<Rightarrow> underscores False False s)"

definition parse_int0 :: "string \<Rightarrow> int option" where
  "parse_int0 s = (case split_sign s of (neg, ds) \<Rightarrow>
     if ds = [] then None
     else case base_of ds of (b, r) \<Rightarrow>
       if CHR ''_'' \<in> set ds \<and> \<not> underscoreOK ds then None
       else case base_loop b 0 r of
         None \<Rightarrow> None
       | Some n \<Rightarrow>
           if \<not> neg \<and> 2 ^ 63 \<le> n then None else if neg \<and> 2 ^ 63 < n then None
           else Some (if neg then - int n else int n))"

lemma letter_val_digit: "d < 10 \<Longrightarrow> letter_val (digit_char d) = Some d \<and> digit_char d \<noteq> CHR ''_''"
  by (drule lt10_cases) (auto simp: letter_val_def digit_val_def digit_char_def to_lower_char_def)

lemma base_loop_append: "base_loop b n (s @ t) = (case base_loop b n s of None \<Rightarrow> None | Some m \<Rightarrow> base_loop b m t)"
  by (induction b n s rule: base_loop.induct) (auto split: option.splits)

lemma base_loop_show: "base_loop 10 0 (show_nat n) = Some n"
proof (induction n rule: show_nat.induct)
  case (1 n)
  show ?case
  proof (cases "n < 10")
    case True
    then show ?thesis by (simp add: show_nat.simps [of n] letter_val_digit)
  next
    case False
    then show ?thesis using 1 by (simp add: show_nat.simps [of n] base_loop_append letter_val_digit)
  qed
qed

lemma show_nat_no_zero: "0 < n \<Longrightarrow> \<exists>c cs. show_nat n = c # cs \<and> c \<noteq> CHR ''0''"
proof (induction n rule: show_nat.induct)
  case (1 n)
  show ?case
  proof (cases "n < 10")
    case True
    then show ?thesis using 1(2) lt10_cases [of n] by (auto simp: show_nat.simps [of n] digit_char_def)
  next
    case False
    then have "0 < n div 10" by simp
    then show ?thesis using 1(1) False by (auto simp: show_nat.simps [of n])
  qed
qed

lemma base_of_show: "0 < n \<Longrightarrow> base_of (show_nat n) = (10, show_nat n)"
  using show_nat_no_zero [of n] by (auto simp: base_of_def split: list.splits)

lemma show_nat_no_underscore: "CHR ''_'' \<notin> set (show_nat n)"
  using show_nat_digits letter_val_digit by fastforce

lemma parse_int0_show:
  assumes "i64_min \<le> i" "i \<le> i64_max"
  shows "parse_int0 (show_int i) = Some i"
proof (cases "i = 0")
  case True
  then show ?thesis by (simp add: parse_int0_def show_int_def show_nat.simps digit_char_def split_sign_def base_of_def)
next
  case False
  have "split_sign (show_int i) = (i < 0, show_nat (nat \<bar>i\<bar>))"
    using split_sign_show by (cases "i < 0") (auto simp: show_int_def split_sign_def)
  moreover have "i < 0 \<Longrightarrow> nat \<bar>i\<bar> \<le> 2 ^ 63" "\<not> i < 0 \<Longrightarrow> nat \<bar>i\<bar> < 2 ^ 63" using assms by (auto simp: i64_min_def i64_max_def)
  ultimately show ?thesis
    by (cases "i < 0") (use False in \<open>simp_all add: parse_int0_def base_of_show base_loop_show show_nat_no_underscore\<close>)
qed

section \<open>\<open>flag.Parse\<close>\<close>

datatype flag_kind = StringFlag | IntFlag | BoolFlag | DurationFlag
datatype flag_value = FString string | FInt int | FBool bool | FDuration int

text \<open>A failed parse ends the process: with status 0 after a request for help, otherwise with status 2.\<close>

datatype flag_exit = FlagHelp | FlagError

definition set_flag :: "(string \<Rightarrow> int option) \<Rightarrow> flag_kind \<Rightarrow> string \<Rightarrow> flag_value option" where
  "set_flag pd k v = (case k of
     StringFlag \<Rightarrow> Some (FString v)
   | IntFlag \<Rightarrow> map_option FInt (parse_int0 v)
   | BoolFlag \<Rightarrow> map_option FBool (parse_bool v)
   | DurationFlag \<Rightarrow> map_option FDuration (pd v))"

text \<open>The name of a flag and the value after an equals sign that is not its first character.\<close>

definition flag_name :: "string \<Rightarrow> string \<times> string option" where
  "flag_name s = (case cut_at CHR ''='' (tl s) of None \<Rightarrow> (s, None) | Some (a, v) \<Rightarrow> (hd s # a, Some v))"

fun parse_flags ::
  "(string \<Rightarrow> int option) \<Rightarrow> (string, flag_kind) gomap \<Rightarrow> string list \<Rightarrow> (string, flag_value) gomap \<Rightarrow> flag_exit + (string, flag_value) gomap \<times> string list" where
  "parse_flags pd formal [] vals = Inr (vals, [])"
| "parse_flags pd formal (s # args) vals =
     (if length s < 2 \<or> hd s \<noteq> CHR ''-'' then Inr (vals, s # args)
      else if s = ''--'' then Inr (vals, args)
      else
        let name0 = (if s ! 1 = CHR ''-'' then drop 2 s else drop 1 s) in
        if name0 = [] \<or> hd name0 = CHR ''-'' \<or> hd name0 = CHR ''='' then Inl FlagError
        else case flag_name name0 of (name, value) \<Rightarrow>
          (case map_of formal name of
             None \<Rightarrow> Inl (if name = ''help'' \<or> name = ''h'' then FlagHelp else FlagError)
           | Some k \<Rightarrow>
               if k = BoolFlag \<or> value \<noteq> None then
                 (case set_flag pd k (case value of None \<Rightarrow> ''true'' | Some v \<Rightarrow> v) of
                    None \<Rightarrow> Inl FlagError
                  | Some x \<Rightarrow> parse_flags pd formal args (gm_put name x vals))
               else (case args of
                   [] \<Rightarrow> Inl FlagError
                 | v # args' \<Rightarrow> (case set_flag pd k v of
                     None \<Rightarrow> Inl FlagError
                   | Some x \<Rightarrow> parse_flags pd formal args' (gm_put name x vals)))))"

declare parse_flags.simps(2) [simp del]

text \<open>The variables after the parse: the value set last, or the default.\<close>

definition string_flag :: "string \<Rightarrow> string \<Rightarrow> (string, flag_value) gomap \<Rightarrow> string" where
  "string_flag name d vals = (case map_of vals name of Some (FString s) \<Rightarrow> s | _ \<Rightarrow> d)"

definition int_flag :: "string \<Rightarrow> int \<Rightarrow> (string, flag_value) gomap \<Rightarrow> int" where
  "int_flag name d vals = (case map_of vals name of Some (FInt s) \<Rightarrow> s | _ \<Rightarrow> d)"

definition bool_flag :: "string \<Rightarrow> bool \<Rightarrow> (string, flag_value) gomap \<Rightarrow> bool" where
  "bool_flag name d vals = (case map_of vals name of Some (FBool s) \<Rightarrow> s | _ \<Rightarrow> d)"

definition duration_flag :: "string \<Rightarrow> int \<Rightarrow> (string, flag_value) gomap \<Rightarrow> int" where
  "duration_flag name d vals = (case map_of vals name of Some (FDuration s) \<Rightarrow> s | _ \<Rightarrow> d)"

definition plain_name :: "string \<Rightarrow> bool" where
  "plain_name n \<longleftrightarrow> n \<noteq> [] \<and> hd n \<noteq> CHR ''-'' \<and> CHR ''='' \<notin> set n"

lemma parse_flag_pair:
  assumes "plain_name name" "map_of formal name = Some k" "k \<noteq> BoolFlag" "set_flag pd k v = Some x"
  shows "parse_flags pd formal ((CHR ''-'' # name) # v # args) vals = parse_flags pd formal args (gm_put name x vals)"
proof -
  have n: "name \<noteq> []" "hd name \<noteq> CHR ''-''" "hd name \<noteq> CHR ''=''" using assms(1) by (cases name; auto simp: plain_name_def)+
  have "CHR ''='' \<notin> set (tl name)" using assms(1) list.set_sel(2) [of name] by (auto simp: plain_name_def)
  then have "flag_name name = (name, None)" by (simp add: flag_name_def)
  then show ?thesis using n assms(2-4) by (cases name) (auto simp: parse_flags.simps(2) Let_def)
qed

end
