(* ===== verification/Client.thy ===== *)
theory Client
  imports CommandListenerSpec GoFlags
begin

text \<open>
  The command line client (\<open>cmd/cpcli/main.go\<close>): one command from its arguments, or a session that reads commands from
  its input until \<open>exit\<close>, \<open>quit\<close> or the end.  What the network does with a request is an argument; the header values of a
  request are checked and trimmed as Go's \<open>net/http\<close> does it on the way.  Printed colours and the fixed text of the help are left out.

  Shown: a session runs exactly the commands typed before its end, in their order, and a client with the
  listener's token is let in.
\<close>

section \<open>The client\<close>

datatype send_error = RequestFailed | CommandError string

datatype printed = PrintInfo string | PrintSuccess string | PrintError send_error | PrintHelp

text \<open>
  Header values: control characters other than a tab make the request fail, blanks around the value are lost.
\<close>

definition header_wire :: "string \<Rightarrow> string option" where
  "header_wire v =
     (if \<exists>c \<in> set v. ((of_char c :: nat) < 32 \<and> c \<noteq> CHR 0x09) \<or> (of_char c :: nat) = 127 then None
      else Some (rev (dropWhile is_space (rev (dropWhile is_space v)))))"

text \<open>
  The network: what becomes of a request to an address, with the state on the other side; no response is a
  failed request.  \<open>status\<close> is the status line Go prints for a status code.
\<close>

type_synonym 's network = "string \<Rightarrow> listener_request \<Rightarrow> 's \<Rightarrow> 's \<times> (nat \<times> string) option"

record client =
  cl_host :: string
  cl_port :: int
  cl_token :: string

definition command_url :: "client \<Rightarrow> string" where
  "command_url c = ''http://'' @ cl_host c @ '':'' @ show_int (cl_port c) @ ''/command''"

definition sendCommand :: "'s network \<Rightarrow> (nat \<Rightarrow> string) \<Rightarrow> client \<Rightarrow> string \<Rightarrow> 's \<Rightarrow> 's \<times> (send_error + string option)" where
  "sendCommand net status c command s =
     (case (if trim_space (cl_token c) \<noteq> [] then map_option (\<lambda>t. [(''X-Command-Token'', t)]) (header_wire (cl_token c)) else Some []) of
        None \<Rightarrow> (s, Inl RequestFailed)
      | Some token_header \<Rightarrow>
          (case net (command_url c) \<lparr>lq_Method = ''POST'', lq_Headers = (''Content-Type'', ''text/plain; charset=utf-8'') # token_header, lq_Body = Some command\<rparr> s of
             (s', None) \<Rightarrow> (s', Inl RequestFailed)
           | (s', Some (code, body)) \<Rightarrow>
               let txt = trim_space body in
               if 400 \<le> code then (s', Inl (CommandError (if txt = [] then status code else txt)))
               else (s', Inr (if txt \<noteq> [] then Some txt else None))))"

definition isLocalHelpCommand :: "string \<Rightarrow> bool" where
  "isLocalHelpCommand command = (let trimmed = trim_space (to_lower command) in
     trimmed = ''help'' \<or> trimmed = ''--help'' \<or> trimmed = ''-h'' \<or> trimmed = ''?'')"

definition sent_output :: "send_error + string option \<Rightarrow> printed list" where
  "sent_output r = (case r of Inl e \<Rightarrow> [PrintError e] | Inr None \<Rightarrow> [] | Inr (Some t) \<Rightarrow> [PrintSuccess t])"

text \<open>The loop over the lines of the input.\<close>

fun runInteractive :: "'s network \<Rightarrow> (nat \<Rightarrow> string) \<Rightarrow> client \<Rightarrow> string list \<Rightarrow> 's \<Rightarrow> 's \<times> printed list" where
  "runInteractive net status c [] s = (s, [])"
| "runInteractive net status c (line # lines) s =
     (let command = trim_space line in
      if command = [] then runInteractive net status c lines s
      else if command = ''exit'' \<or> command = ''quit'' then (s, [])
      else if isLocalHelpCommand command then (case runInteractive net status c lines s of (s', out) \<Rightarrow> (s', PrintHelp # out))
      else case sendCommand net status c command s of (s', r) \<Rightarrow>
        (case runInteractive net status c lines s' of (s'', out) \<Rightarrow> (s'', sent_output r @ out)))"

definition cpcli_formal :: "(string, flag_kind) gomap" where
  "cpcli_formal = [(''host'', StringFlag), (''port'', IntFlag), (''token'', StringFlag), (''timeout'', DurationFlag), (''interactive'', BoolFlag)]"

text \<open>The program: its exit status, what it prints, and the state on the other side.\<close>

definition cpcli_main :: "(string \<Rightarrow> int option) \<Rightarrow> 's network \<Rightarrow> (nat \<Rightarrow> string) \<Rightarrow> string list \<Rightarrow> string list \<Rightarrow> 's \<Rightarrow> 's \<times> nat \<times> printed list" where
  "cpcli_main pd net status args stdin s = (case parse_flags pd cpcli_formal args [] of
     Inl FlagHelp \<Rightarrow> (s, 0, [])
   | Inl FlagError \<Rightarrow> (s, 2, [])
   | Inr (vals, rest) \<Rightarrow>
       let c = \<lparr>cl_host = string_flag ''host'' ''localhost'' vals, cl_port = int_flag ''port'' 9091 vals, cl_token = string_flag ''token'' [] vals\<rparr>;
           command = trim_space (join_with '' '' rest) in
       if bool_flag ''interactive'' False vals \<or> command = [] then
         (case runInteractive net status c stdin s of (s', out) \<Rightarrow>
            (s', 0, PrintInfo (''cpcli connected to '' @ cl_host c @ '':'' @ show_int (cl_port c)) # out))
       else if isLocalHelpCommand command then (s, 0, [PrintHelp])
       else case sendCommand net status c command s of
         (s', Inl e) \<Rightarrow> (s', 1, [PrintError e])
       | (s', Inr t) \<Rightarrow> (s', 0, sent_output (Inr t)))"

section \<open>Client and listener\<close>

text \<open>
  The listener at the other end of the network; a state of \<open>None\<close> is a control plane that has crashed, which answers
  nothing.  The input of the actor, \<open>inps\<close>, belongs to the command that is run.
\<close>

definition listener_net ::
  "'w node_operator \<Rightarrow> kv_wire \<Rightarrow> float_parser \<Rightarrow> (string \<Rightarrow> actor_input) \<Rightarrow> fmt_env \<Rightarrow> string \<Rightarrow> (actor \<times> 'w) option network" where
  "listener_net nc wire pf inps fe token url r s = (case s of
     None \<Rightarrow> (None, None)
   | Some aw \<Rightarrow> (case command_handler nc wire pf (inps (case lq_Body r of None \<Rightarrow> [] | Some b \<Rightarrow> b)) fe token r aw of
       None \<Rightarrow> (None, None)
     | Some (aw', code, txt) \<Rightarrow> (Some aw', Some (code, txt))))"

definition run_text :: "'w node_operator \<Rightarrow> kv_wire \<Rightarrow> float_parser \<Rightarrow> (string \<Rightarrow> actor_input) \<Rightarrow> string \<Rightarrow> (actor \<times> 'w) option \<Rightarrow> (actor \<times> 'w) option" where
  "run_text nc wire pf inps txt s = (case s of None \<Rightarrow> None | Some aw \<Rightarrow> map_option fst (ExecuteRuntimeCommand nc wire pf (inps txt) txt aw))"

text \<open>The commands of a session: the lines before its end that are not blank and not a request for help.\<close>

definition ends_session :: "string \<Rightarrow> bool" where
  "ends_session line \<longleftrightarrow> trim_space line = ''exit'' \<or> trim_space line = ''quit''"

definition typed_commands :: "string list \<Rightarrow> string list" where
  "typed_commands lines = filter (\<lambda>t. t \<noteq> [] \<and> \<not> isLocalHelpCommand t) (map trim_space (takeWhile (\<lambda>l. \<not> ends_session l) lines))"

definition usable_token :: "string \<Rightarrow> bool" where
  "usable_token t \<longleftrightarrow> trim_space t = [] \<or> (header_wire t = Some t)"

definition sent_request :: "client \<Rightarrow> string \<Rightarrow> listener_request" where
  "sent_request c cmd = \<lparr>lq_Method = ''POST'', lq_Headers = (''Content-Type'', ''text/plain; charset=utf-8'') #
     (if trim_space (cl_token c) \<noteq> [] then [(''X-Command-Token'', cl_token c)] else []), lq_Body = Some cmd\<rparr>"

lemma sent_state: "usable_token (cl_token c) \<Longrightarrow> fst (sendCommand net status c cmd s) = fst (net (command_url c) (sent_request c cmd) s)"
  by (auto simp: sendCommand_def usable_token_def sent_request_def Let_def split: prod.split option.split)

lemma sent_accepted: "trim_space cmd = cmd \<Longrightarrow> cmd \<noteq> [] \<Longrightarrow> accepted (sent_request c cmd) (cl_token c) = Some cmd"
  by (simp add: accepted_def sent_request_def presents_token_def gm_getd_def)

lemma client_sends:
  assumes "usable_token (cl_token c)" "trim_space cmd = cmd" "cmd \<noteq> []"
  shows "fst (sendCommand (listener_net nc wire pf inps fe (cl_token c)) status c cmd s) = run_text nc wire pf inps cmd s"
proof (cases s)
  case (Some aw)
  have "lq_Body (sent_request c cmd) = Some cmd" by (simp add: sent_request_def)
  then show ?thesis using handler_accepts [OF sent_accepted [OF assms(2,3), of c], of nc wire pf "inps cmd" fe aw] Some
    by (auto simp: sent_state [OF assms(1)] listener_net_def run_text_def split: option.splits prod.splits)
qed (simp add: sent_state [OF assms(1)] listener_net_def run_text_def)

text \<open>
  C35: an interactive session with the listener's token has exactly the effect of the commands typed before \<open>exit\<close>, \<open>quit\<close>
  or the end of the input, one after the other; blank lines and requests for help have none, and a command that
  brings the control plane down is the last to have any.
\<close>
theorem session_runs_commands:
  assumes "usable_token (cl_token c)"
  shows "fst (runInteractive (listener_net nc wire pf inps fe (cl_token c)) status c lines s) = fold (run_text nc wire pf inps) (typed_commands lines) s"
proof (induction lines arbitrary: s)
  case (Cons line lines)
  let ?net = "listener_net nc wire pf inps fe (cl_token c)"
  show ?case
  proof (cases "trim_space line = [] \<or> ends_session line \<or> isLocalHelpCommand (trim_space line)")
    case True
    then show ?thesis using Cons by (auto simp: typed_commands_def ends_session_def Let_def case_prod_unfold isLocalHelpCommand_def)
  next
    case False
    obtain s' r where r: "sendCommand ?net status c (trim_space line) s = (s', r)" by force
    have "s' = run_text nc wire pf inps (trim_space line) s"
      using client_sends [OF assms trim_space_idem, of line nc wire pf inps fe status s] False r by simp
    moreover have "typed_commands (line # lines) = trim_space line # typed_commands lines" using False by (simp add: typed_commands_def)
    ultimately show ?thesis using Cons [of s'] False r by (auto simp: ends_session_def Let_def case_prod_unfold)
  qed
qed (simp add: typed_commands_def)

definition demo_client :: client where
  "demo_client = \<lparr>cl_host = ''localhost'', cl_port = 9091, cl_token = ''s3cret''\<rparr>"

lemma demo_token: "usable_token (cl_token demo_client)"
  by (simp add: usable_token_def header_wire_def demo_client_def is_space_def)

lemma demo_typed: "typed_commands [''list-clusters'', [], ''help'', ''stop-node n1'', '' exit'', ''kill-cluster c1''] = [''list-clusters'', ''stop-node n1'']"
proof -
  have t: "trim_space '' exit'' = ''exit''" "trim_space ''list-clusters'' = ''list-clusters''" "trim_space ''help'' = ''help''"
    "trim_space ''stop-node n1'' = ''stop-node n1''" by (simp_all add: trim_space_def trim_left_def trim_right_def is_space_def)
  have "to_lower ''list-clusters'' = ''list-clusters''" "to_lower ''help'' = ''help''" "to_lower ''stop-node n1'' = ''stop-node n1''"
    by (simp_all add: to_lower_def to_lower_char_def)
  then show ?thesis by (simp add: typed_commands_def ends_session_def isLocalHelpCommand_def t)
qed

definition demo_fmt :: fmt_env where
  "demo_fmt = \<lparr>fe_rate = \<lambda>_. [], fe_time = \<lambda>_. [], fe_value = \<lambda>_. [], fe_reply = \<lambda>_. [], fe_error = \<lambda>_. []\<rparr>"

definition demo_actor :: actor where
  "demo_actor = NewActor demo_service \<lparr>ao_ProjectRoot = [], ao_DefaultCPHost = [], ao_DefaultCPPort = 0, ao_NodeBinaryPath = []\<rparr>"

theorem session_runs_commands_witness:
  "fst (runInteractive (listener_net demo_operator demo_wire (\<lambda>_. None) (\<lambda>_. idle_input) demo_fmt (cl_token demo_client)) (\<lambda>_. []) demo_client
      [''list-clusters'', [], ''help'', ''stop-node n1'', '' exit'', ''kill-cluster c1''] (Some (demo_actor, ())))
    = run_text demo_operator demo_wire (\<lambda>_. None) (\<lambda>_. idle_input) ''stop-node n1''
        (run_text demo_operator demo_wire (\<lambda>_. None) (\<lambda>_. idle_input) ''list-clusters'' (Some (demo_actor, ())))"
  by (simp only: session_runs_commands [OF demo_token] demo_typed fold_simps)

lemma client_learns:
  assumes "usable_token (cl_token c)" "trim_space cmd = cmd" "cmd \<noteq> []"
  shows "isl (snd (sendCommand (listener_net nc wire pf inps fe (cl_token c)) status c cmd (Some aw)))
    \<longleftrightarrow> (case ExecuteRuntimeCommand nc wire pf (inps cmd) cmd aw of None \<Rightarrow> True | Some (_, res) \<Rightarrow> isl res)"
proof -
  let ?net = "listener_net nc wire pf inps fe (cl_token c)"
  have "isl (snd (sendCommand net status c cmd s)) \<longleftrightarrow> (case snd (net (command_url c) (sent_request c cmd) s) of None \<Rightarrow> True | Some (code, _) \<Rightarrow> 400 \<le> code)"
    for net :: "(actor \<times> 'a) option network" and s
    using assms(1) by (auto simp: sendCommand_def usable_token_def sent_request_def Let_def split: prod.split option.split)
  moreover have "lq_Body (sent_request c cmd) = Some cmd" by (simp add: sent_request_def)
  ultimately show ?thesis using handler_accepts [OF sent_accepted [OF assms(2,3), of c], of nc wire pf "inps cmd" fe aw]
    by (auto simp: listener_net_def split: option.splits prod.splits if_splits)
qed

text \<open>
  A token with blanks around it locks the client out: the listener compares with the token as it was configured, and the
  blanks are lost on the way.
\<close>

lemma padded_token_refused:
  assumes "trim_space (cl_token c) \<noteq> []" "header_wire (cl_token c) = Some t" "t \<noteq> cl_token c"
  shows "fst (sendCommand (listener_net nc wire pf inps fe (cl_token c)) status c cmd (Some aw)) = Some aw"
proof -
  define r where "r = \<lparr>lq_Method = ''POST'', lq_Headers = [(''Content-Type'', ''text/plain; charset=utf-8''), (''X-Command-Token'', t)], lq_Body = Some cmd\<rparr>"
  have "accepted r (cl_token c) = None" using assms by (simp add: accepted_def presents_token_def r_def gm_getd_def)
  from handler_refuses [OF this] obtain st body where
    h: "command_handler nc wire pf (inps cmd) fe (cl_token c) r aw = Some (aw, st, body)" by metis
  then have "listener_net nc wire pf inps fe (cl_token c) (command_url c) r (Some aw) = (Some aw, Some (st, body))"
    by (simp add: listener_net_def r_def)
  then show ?thesis using assms(1,2) by (simp add: sendCommand_def r_def Let_def)
qed

text \<open>
  a command given to \<open>cpcli\<close> as arguments is run once, exactly as the control plane would run its text, and the exit
  status of the program tells what became of it: 0 when the command succeeded, 1 when it was rejected, failed, or
  brought the control plane down.
\<close>
theorem one_shot_outcome:
  assumes "parse_flags pd cpcli_formal args [] = Inr (vals, rest)" "\<not> bool_flag ''interactive'' False vals"
    and "cmd = trim_space (join_with '' '' rest)" "cmd \<noteq> []" "\<not> isLocalHelpCommand cmd"
    and "token = string_flag ''token'' [] vals" "usable_token token"
  shows "\<exists>code out. cpcli_main pd (listener_net nc wire pf inps fe token) status args stdin (Some aw) = (run_text nc wire pf inps cmd (Some aw), code, out)
    \<and> (\<exists>aw' v. ExecuteRuntimeCommand nc wire pf (inps cmd) cmd aw = Some (aw', Inr v)) = (code = 0) \<and> code \<le> 1"
proof -
  define c where "c = \<lparr>cl_host = string_flag ''host'' ''localhost'' vals, cl_port = int_flag ''port'' 9091 vals, cl_token = string_flag ''token'' [] vals\<rparr>"
  have c: "cl_token c = token" by (simp add: c_def assms(6))
  have u: "usable_token (cl_token c)" "trim_space cmd = cmd" using assms(3,7) c trim_space_idem by simp_all
  obtain s' r where r: "sendCommand (listener_net nc wire pf inps fe token) status c cmd (Some aw) = (s', r)" by force
  have s': "s' = run_text nc wire pf inps cmd (Some aw)" using client_sends [OF u assms(4), of nc wire pf inps fe status "Some aw"] r c by simp
  have l: "isl r \<longleftrightarrow> (case ExecuteRuntimeCommand nc wire pf (inps cmd) cmd aw of None \<Rightarrow> True | Some (_, res) \<Rightarrow> isl res)"
    using client_learns [OF u assms(4), of nc wire pf inps fe status aw] r c by simp
  have m: "cpcli_main pd (listener_net nc wire pf inps fe token) status args stdin (Some aw) =
      (case r of Inl e \<Rightarrow> (s', 1, [PrintError e]) | Inr t \<Rightarrow> (s', 0, sent_output (Inr t)))"
    using assms(1,2,4,5) r by (simp add: cpcli_main_def Let_def assms(3) [symmetric] c_def [symmetric] split: sum.split)
  have "(\<exists>aw' v. ExecuteRuntimeCommand nc wire pf (inps cmd) cmd aw = Some (aw', Inr v)) \<longleftrightarrow> \<not> isl r"
    unfolding l by (auto split: option.splits prod.splits sum.splits) (metis sum.collapse(2))
  then show ?thesis unfolding m s' [symmetric] by (cases r) auto
qed

theorem one_shot_outcome_witness:
  "\<exists>out. cpcli_main Map.empty (listener_net demo_operator demo_wire (\<lambda>_. None) (\<lambda>_. idle_input) demo_fmt ''s3cret'') (\<lambda>_. [])
      [''-token'', ''s3cret'', ''list-clusters''] [] (Some (demo_actor, ())) = (Some (demo_actor, ()), 0, out)"
proof -
  let ?vals = "[(''token'', FString ''s3cret'')]"
  have p: "parse_flags Map.empty cpcli_formal [''-token'', ''s3cret'', ''list-clusters''] [] = Inr (?vals, [''list-clusters''])"
    using parse_flag_pair [of "''token''" cpcli_formal StringFlag]
    by (simp add: plain_name_def cpcli_formal_def set_flag_def gm_put_def) (simp add: parse_flags.simps(2))
  have w: "is_word ''list-clusters''" by (simp add: word_simps)
  have c: "''list-clusters'' = trim_space (join_with '' '' [''list-clusters''])" using w by simp
  have h: "\<not> isLocalHelpCommand ''list-clusters''" using w by (simp add: isLocalHelpCommand_def to_lower_def to_lower_char_def)
  have f: "\<not> bool_flag ''interactive'' False ?vals" "''s3cret'' = string_flag ''token'' [] ?vals" by (simp_all add: bool_flag_def string_flag_def)
  have t: "usable_token ''s3cret''" using demo_token by (simp add: demo_client_def)
  have e: "ExecuteRuntimeCommand demo_operator demo_wire (\<lambda>_. None) idle_input ''list-clusters'' (demo_actor, ())
      = Some ((demo_actor, ()), Inr (Some (RClusters (list_clusters demo_actor))))"
  proof -
    have "runtime_command (\<lambda>_. None) ''list-clusters'' = Some (Inr (NewCommand CmdListClusters))"
      using w fields_word [OF w] by (simp add: runtime_command_def Parse_def parse_parts_name)
    then show ?thesis by (simp add: ExecuteRuntimeCommand_def actor_step_def NewCommand_def)
  qed
  from one_shot_outcome [OF p f(1) c _ h f(2) t, of demo_operator demo_wire "\<lambda>_. None" "\<lambda>_. idle_input" demo_fmt "\<lambda>_. []" "[]" "(demo_actor, ())"]
  show ?thesis by (auto simp: e run_text_def)
qed

end
