(* ===== verification/NodeMainSpec.thy ===== *)
theory NodeMainSpec
  imports NodeMain
begin

text \<open>The round trip of the configuration file, and the node that a \<open>start-node\<close> command becomes.\<close>

section \<open>Words\<close>

lemma no_space_digits: "list_all (\<lambda>c. \<not> is_space c) (show_nat n)"
  using show_nat_digits [of _ n] digit_char_props by (fastforce simp: list_all_iff)

lemma no_space_frac: "list_all (\<lambda>c. \<not> is_space c) (frac_text p u)"
proof -
  have "list_all Q (rev (dropWhile P (rev xs)))" if "list_all Q xs" for P Q and xs :: string
    using that by (auto simp: list_all_iff dest!: set_dropWhileD)
  moreover have "list_all (\<lambda>c. \<not> is_space c) (replicate k CHR ''0'' @ show_nat m)" for k m
    using no_space_digits [of m] by (simp add: list_all_append) (simp add: list_all_iff is_space_def)
  moreover have "\<not> is_space (CHR ''.'')" by (simp add: is_space_def)
  ultimately show ?thesis by (cases "u mod 10 ^ p = 0") (simp_all only: frac_text_def Let_def if_True if_False list.pred_inject simp_thms)
qed

lemma is_word_duration: "is_word (duration_String d)"
proof -
  have "is_word (dur_text u)" for u
    using no_space_digits no_space_frac by (auto simp: is_word_def dur_text_def Let_def is_space_def)
  moreover have "is_word (CHR ''-'' # dur_text u)" for u using calculation [of u] by (simp add: is_word_def is_space_def)
  ultimately show ?thesis by (simp add: duration_String_def)
qed

lemma trimmed_last: "trim_space s = s \<Longrightarrow> s \<noteq> [] \<Longrightarrow> \<not> is_space (last s)"
  unfolding trim_space_def trim_right_def by (metis hd_dropWhile hd_rev last_rev rev_is_Nil_conv rev_rev_ident)

section \<open>The file\<close>

definition config_key :: "string \<Rightarrow> bool" where
  "config_key k \<longleftrightarrow> is_word k \<and> to_lower k = k \<and> CHR ''='' \<notin> set k \<and> hd k \<notin> {CHR ''#'', CHR '';'', CHR ''[''}"

lemma config_line_pair:
  assumes k: "config_key k" and v: "trim_space v = v"
  shows "config_line pd (k @ '' = '' @ v) (''controlplane'', cfg) = (''controlplane'', set_key pd k v cfg)"
proof -
  have w: "is_word k" "k \<noteq> []" "CHR ''='' \<notin> set k" "to_lower k = k" using k by (auto simp: config_key_def)
  define line where "line = trim_space (k @ '' = '' @ v)"
  have l: "line = k @ '' ='' @ (if v = [] then [] else CHR '' '' # v)"
  proof (cases "v = []")
    case True
    have "trim_left (k @ '' = '') = k @ '' = ''" using w(1) by (rule trim_left_word)
    moreover have "trim_right (k @ '' = '') = k @ '' =''" by (simp add: trim_right_def is_space_def)
    ultimately show ?thesis using True by (simp add: line_def trim_space_def)
  next
    case False
    have "trim_left (k @ '' = '' @ v) = k @ '' = '' @ v" using w(1) by (rule trim_left_word)
    moreover have "trim_right (k @ '' = '' @ v) = k @ '' = '' @ v" using trimmed_last [OF v False] False by (intro trim_right_nospace_last) auto
    ultimately show ?thesis using False by (simp add: line_def trim_space_def)
  qed
  have "line \<noteq> []" "\<not> has_prefix line ''#''" "\<not> has_prefix line '';''" "\<not> has_prefix line ''[''"
    using k w(2) unfolding l by (cases k; auto simp: has_prefix_def config_key_def)+
  moreover have "cut_at CHR ''='' line = Some (k @ '' '', if v = [] then [] else CHR '' '' # v)"
    using cut_at_append [of "CHR ''=''" "k @ '' ''"] w(3) unfolding l by auto
  moreover have "trim_space (to_lower (k @ '' '')) = k"
  proof -
    have "to_lower (k @ '' '') = k @ '' ''" using w(4) by (simp add: to_lower_def to_lower_char_def)
    moreover have "trim_left (k @ '' '') = k @ '' ''" using w(1) by (rule trim_left_word)
    moreover have "trim_right (k @ '' '') = trim_right k" by (simp add: trim_right_def is_space_def)
    moreover have "trim_right k = k" using trim_space_word [OF w(1)] trim_left_word [OF w(1), of "[]"] by (simp add: trim_space_def)
    ultimately show ?thesis by (simp add: trim_space_def)
  qed
  moreover have "trim_space (if v = [] then [] else CHR '' '' # v) = v" using v by (simp add: trim_space_front is_space_def)
  ultimately show ?thesis unfolding config_line_def Let_def line_def [symmetric] by simp
qed

lemma config_keys:
  "config_key ''host''" "config_key ''port''" "config_key ''get_peers_after_delay''" "config_key ''get_peers_delay''"
  "config_key ''heartbeat_interval''" "config_key ''register_on_start''" "config_key ''registration_timeout''"
  by (simp_all add: config_key_def is_word_def is_space_def to_lower_def to_lower_char_def)

definition saved_lines :: "control_plane_config \<Rightarrow> string list" where
  "saved_lines cfg = [''# Node Runtime Configuration'', [], ''[controlplane]'', ''host = '' @ cpc_Host cfg, ''port = '' @ show_int (cpc_Port cfg),
     ''get_peers_after_delay = '' @ show_bool (cpc_GetPeersAfterDelay cfg), ''get_peers_delay = '' @ duration_String (cpc_GetPeersDelay cfg),
     ''heartbeat_interval = '' @ duration_String (cpc_HeartbeatInterval cfg), ''register_on_start = '' @ show_bool (cpc_RegisterOnStart cfg),
     ''registration_timeout = '' @ duration_String (cpc_RegistrationTimeout cfg), []]"

lemma word_no_newline: "is_word w \<Longrightarrow> NL \<notin> set w"
  using is_wordD [of w NL] by (auto simp: is_space_def)

lemma saved_text_lines: "NL \<notin> set (cpc_Host cfg) \<Longrightarrow> split_on NL (saved_text cfg) = saved_lines cfg"
proof -
  assume h: "NL \<notin> set (cpc_Host cfg)"
  have "saved_text cfg = join_with [NL] (saved_lines cfg)" by (simp add: saved_text_def saved_lines_def)
  moreover have "\<forall>x \<in> set (saved_lines cfg). NL \<notin> set x"
    using h word_no_newline [OF is_word_duration] word_no_newline [OF is_word_show_int] word_no_newline [OF is_word_show_bool]
    by (simp add: saved_lines_def)
  moreover have "saved_lines cfg \<noteq> []" by (simp add: saved_lines_def)
  ultimately show ?thesis using split_join [of "saved_lines cfg" NL] by metis
qed

lemma config_line_heading:
  "config_line pd ''# Node Runtime Configuration'' x = x" "config_line pd [] x = x"
  "config_line pd ''[controlplane]'' x = (''controlplane'', snd x)"
proof -
  have "trim_space ''# Node Runtime Configuration'' = ''# Node Runtime Configuration''"
    by (simp add: trim_space_def trim_left_def trim_right_def is_space_def)
  then show "config_line pd ''# Node Runtime Configuration'' x = x" by (cases x) (simp add: config_line_def has_prefix_def)
  show "config_line pd [] x = x" by (cases x) (simp add: config_line_def)
  have "trim_space ''[controlplane]'' = ''[controlplane]''" by (simp add: is_word_def is_space_def)
  then show "config_line pd ''[controlplane]'' x = (''controlplane'', snd x)"
    by (cases x) (simp add: config_line_def has_prefix_def has_suffix_def trim_prefix_def trim_suffix_def to_lower_def to_lower_char_def)
qed

text \<open>
  C37: a saved node configuration is the configuration that is loaded from the file: host, port, both switches and the
  three durations.  The host has no line break and no blanks around it, the port is an \<open>int\<close>, and
  \<open>time.ParseDuration\<close> reads back what \<open>Duration.String\<close> printed for these durations.
\<close>
theorem config_file_roundtrip:
  assumes "trim_space (cpc_Host cfg) = cpc_Host cfg" "NL \<notin> set (cpc_Host cfg)" "i64_min \<le> cpc_Port cfg" "cpc_Port cfg \<le> i64_max"
    and "\<forall>d \<in> {cpc_GetPeersDelay cfg, cpc_HeartbeatInterval cfg, cpc_RegistrationTimeout cfg}. pd (duration_String d) = Some d"
  shows "LoadNodeRuntimeConfig pd (SaveNodeRuntimeConfig path cfg files) path = (cfg, True)"
proof -
  note pairs = config_keys [THEN config_line_pair]
  have t: "trim_space (duration_String d) = duration_String d" "trim_space (show_int i) = show_int i" "trim_space (show_bool b) = show_bool b" for d i b
    by (simp_all add: is_word_duration)
  have "fold (config_line pd) (saved_lines cfg) ([], DefaultNodeRuntimeConfig) = (''controlplane'', cfg)"
    using pairs [simplified, OF assms(1)] pairs [simplified, OF t(1)] pairs [simplified, OF t(2)] pairs [simplified, OF t(3)] assms(5)
    by (simp add: saved_lines_def config_line_heading [simplified] set_key_def atoi_show [OF assms(3,4)])
  then show ?thesis by (simp add: LoadNodeRuntimeConfig_def SaveNodeRuntimeConfig_def saved_text_lines [OF assms(2)])
qed

theorem config_file_roundtrip_witness:
  "LoadNodeRuntimeConfig (\<lambda>t. if t = ''3s'' then Some 3000000000 else if t = ''5s'' then Some 5000000000 else None)
     (SaveNodeRuntimeConfig ''node.ini'' (DefaultNodeRuntimeConfig\<lparr>cpc_Host := ''cp.local'', cpc_Port := 9100\<rparr>) Map.empty) ''node.ini''
   = (DefaultNodeRuntimeConfig\<lparr>cpc_Host := ''cp.local'', cpc_Port := 9100\<rparr>, True)"
proof (rule config_file_roundtrip)
  have "duration_String 3000000000 = ''3s''" "duration_String 5000000000 = ''5s''"
    by (simp_all add: duration_String_def dur_text_def frac_text_def Let_def show_nat.simps digit_char_def)
  then show "\<forall>d \<in> {cpc_GetPeersDelay (DefaultNodeRuntimeConfig\<lparr>cpc_Host := ''cp.local'', cpc_Port := 9100\<rparr>),
      cpc_HeartbeatInterval (DefaultNodeRuntimeConfig\<lparr>cpc_Host := ''cp.local'', cpc_Port := 9100\<rparr>),
      cpc_RegistrationTimeout (DefaultNodeRuntimeConfig\<lparr>cpc_Host := ''cp.local'', cpc_Port := 9100\<rparr>)}.
      (if duration_String d = ''3s'' then Some 3000000000 else if duration_String d = ''5s'' then Some 5000000000 else None) = Some d"
    by (simp add: DefaultNodeRuntimeConfig_def)
qed (simp_all add: DefaultNodeRuntimeConfig_def is_word_def is_space_def i64_min_def i64_max_def)

section \<open>The spawned node\<close>

lemma node_flag_names:
  "plain_name ''id''" "plain_name ''port''" "plain_name ''cluster-id''" "plain_name ''host''" "plain_name ''cp-host''" "plain_name ''cp-port''" "plain_name ''peers''"
  by (simp_all add: plain_name_def)

lemma node_flags:
  "parse_flags pd node_formal (''-id'' # v # args) vals = parse_flags pd node_formal args (gm_put ''id'' (FString v) vals)"
  "parse_flags pd node_formal (''-cluster-id'' # v # args) vals = parse_flags pd node_formal args (gm_put ''cluster-id'' (FString v) vals)"
  "parse_flags pd node_formal (''-host'' # v # args) vals = parse_flags pd node_formal args (gm_put ''host'' (FString v) vals)"
  "parse_flags pd node_formal (''-cp-host'' # v # args) vals = parse_flags pd node_formal args (gm_put ''cp-host'' (FString v) vals)"
  "parse_flags pd node_formal (''-peers'' # v # args) vals = parse_flags pd node_formal args (gm_put ''peers'' (FString v) vals)"
  using node_flag_names by (simp_all add: parse_flag_pair node_formal_def set_flag_def)

lemma node_int_flags:
  assumes "i64_min \<le> i" "i \<le> i64_max"
  shows "parse_flags pd node_formal (''-port'' # show_int i # args) vals = parse_flags pd node_formal args (gm_put ''port'' (FInt i) vals)"
    and "parse_flags pd node_formal (''-cp-port'' # show_int i # args) vals = parse_flags pd node_formal args (gm_put ''cp-port'' (FInt i) vals)"
  using node_flag_names by (simp_all add: parse_flag_pair node_formal_def set_flag_def parse_int0_show [OF assms])

text \<open>The control plane a node is told about: the command's, else the actor's default, else \<open>localhost:9000\<close>.\<close>

definition told_cp_host :: "actor_options \<Rightarrow> command \<Rightarrow> string" where
  "told_cp_host opts cmd = first_of [cmd_CPHost cmd, ao_DefaultCPHost opts, ''localhost'']"

definition told_cp_port :: "actor_options \<Rightarrow> command \<Rightarrow> int" where
  "told_cp_port opts cmd = (let p = (if cmd_CPPort cmd = 0 then ao_DefaultCPPort opts else cmd_CPPort cmd) in if p = 0 then 9000 else p)"

lemma told_cp_host_ne: "told_cp_host opts cmd \<noteq> []"
  by (auto simp: told_cp_host_def first_of_def)

lemma told_cp_port_ne: "told_cp_port opts cmd \<noteq> 0"
  by (simp add: told_cp_port_def Let_def)

lemma node_main_start:
  assumes "i64_min \<le> cmd_Port cmd" "cmd_Port cmd \<le> i64_max" "i64_min \<le> told_cp_port opts cmd" "told_cp_port opts cmd \<le> i64_max"
  shows "node_main pd files (start_args c opts cmd) = (case parsePeers (cmd_PeersCSV cmd) of
     Inl e \<Rightarrow> Inl (BadNodeConfig e)
   | Inr peers \<Rightarrow> Inr (\<lparr>nc_ID = cmd_NodeID cmd, nc_Port = cmd_Port cmd, nc_Peers = peers, nc_ClusterID = c,
       nc_Host = (if cmd_Host cmd = [] then ''localhost'' else cmd_Host cmd), nc_ControlPlaneHost = told_cp_host opts cmd,
       nc_ControlPlanePort = told_cp_port opts cmd\<rparr>,
       DefaultNodeRuntimeConfig\<lparr>cpc_Host := told_cp_host opts cmd, cpc_Port := told_cp_port opts cmd\<rparr>))"
proof -
  define tail where "tail = (if cmd_PeersCSV cmd \<noteq> [] then [''-peers'', cmd_PeersCSV cmd] else [])"
  have args: "start_args c opts cmd = [''-id'', cmd_NodeID cmd, ''-port'', show_int (cmd_Port cmd), ''-cluster-id'', c,
      ''-host'', if cmd_Host cmd = [] then ''localhost'' else cmd_Host cmd, ''-cp-host'', told_cp_host opts cmd, ''-cp-port'', show_int (told_cp_port opts cmd)] @ tail"
    by (simp add: start_args_def told_cp_host_def told_cp_port_def tail_def Let_def)
  have "parse_flags pd node_formal tail vals = Inr (if cmd_PeersCSV cmd = [] then vals else gm_put ''peers'' (FString (cmd_PeersCSV cmd)) vals, [])" for vals
    by (simp add: tail_def node_flags)
  then show ?thesis
    unfolding args node_main_def
    by (simp add: node_flags node_int_flags [OF assms(1,2)] node_int_flags [OF assms(3,4)] string_flag_def int_flag_def Let_def
        told_cp_host_ne told_cp_port_ne NewConfig_def split: sum.split)
qed

text \<open>
  the process that is started for a \<open>start-node\<close> command is the node the command describes.  The arguments the actor
  passes are parsed by the node's \<open>main\<close> to the command's identifier, port, cluster, host and control plane, with the same
  defaults, whatever the texts are; the node runs with the peers of the command when they are well formed and ends with the
  error of the peer list otherwise.
\<close>
theorem spawned_node_configured:
  assumes "i64_min \<le> cmd_Port cmd" "cmd_Port cmd \<le> i64_max" "i64_min \<le> told_cp_port opts cmd" "told_cp_port opts cmd \<le> i64_max"
  shows "node_main pd files (start_args c opts cmd) = (case parsePeers (cmd_PeersCSV cmd) of
     Inl e \<Rightarrow> Inl (BadNodeConfig e)
   | Inr peers \<Rightarrow> Inr (\<lparr>nc_ID = cmd_NodeID cmd, nc_Port = cmd_Port cmd, nc_Peers = peers, nc_ClusterID = c,
       nc_Host = (if cmd_Host cmd = [] then ''localhost'' else cmd_Host cmd), nc_ControlPlaneHost = told_cp_host opts cmd,
       nc_ControlPlanePort = told_cp_port opts cmd\<rparr>,
       DefaultNodeRuntimeConfig\<lparr>cpc_Host := told_cp_host opts cmd, cpc_Port := told_cp_port opts cmd\<rparr>))"
  using assms by (rule node_main_start)

lemma demo_peers: "parsePeers ''n2:8002'' = Inr [\<lparr>p_ID = ''n2'', p_Host = ''localhost'', p_Port = 8002\<rparr>]"
proof -
  have "is_word ''n2:8002''" "is_word ''n2''" "is_word ''8002''" by (simp_all add: is_word_def is_space_def)
  moreover have "atoi ''8002'' = Inr 8002" by (simp add: atoi_def parse_int_def split_sign_def parse_uint_def digit_val_def)
  ultimately show ?thesis by (simp add: parsePeers_def parse_peer_def cut_at_def split_on_def Let_def)
qed

definition demo_start :: command where
  "demo_start = (NewCommand CmdStartNodeProcess)\<lparr>cmd_NodeID := ''-n1'', cmd_Port := 8001, cmd_ClusterID := ''c1'', cmd_Host := [], cmd_PeersCSV := ''n2:8002''\<rparr>"

theorem spawned_node_configured_witness:
  "node_main Map.empty Map.empty (start_args ''c1'' \<lparr>ao_ProjectRoot = [], ao_DefaultCPHost = [], ao_DefaultCPPort = 0, ao_NodeBinaryPath = []\<rparr> demo_start)
     = Inr (\<lparr>nc_ID = ''-n1'', nc_Port = 8001, nc_Peers = [\<lparr>p_ID = ''n2'', p_Host = ''localhost'', p_Port = 8002\<rparr>], nc_ClusterID = ''c1'',
         nc_Host = ''localhost'', nc_ControlPlaneHost = ''localhost'', nc_ControlPlanePort = 9000\<rparr>, DefaultNodeRuntimeConfig)"
proof -
  let ?o = "\<lparr>ao_ProjectRoot = [], ao_DefaultCPHost = [], ao_DefaultCPPort = 0, ao_NodeBinaryPath = []\<rparr>"
  have told: "told_cp_host ?o demo_start = ''localhost''" "told_cp_port ?o demo_start = 9000"
    by (simp_all add: told_cp_host_def told_cp_port_def first_of_def demo_start_def NewCommand_def)
  have peers: "parsePeers (cmd_PeersCSV demo_start) = Inr [\<lparr>p_ID = ''n2'', p_Host = ''localhost'', p_Port = 8002\<rparr>]"
    using demo_peers by (simp add: demo_start_def)
  have f: "cmd_Port demo_start = 8001" "cmd_NodeID demo_start = ''-n1''" "cmd_Host demo_start = []" by (simp_all add: demo_start_def)
  have "i64_min \<le> cmd_Port demo_start" "cmd_Port demo_start \<le> i64_max" "i64_min \<le> told_cp_port ?o demo_start" "told_cp_port ?o demo_start \<le> i64_max"
    by (simp_all add: f told i64_min_def i64_max_def)
  from spawned_node_configured [OF this, of Map.empty Map.empty "''c1''"] show ?thesis
    by (simp add: told peers f DefaultNodeRuntimeConfig_def)
qed

end
