(* ===== verification/Bootstrap.thy ===== *)
theory Bootstrap
  imports NodeMainSpec Hypothesis
begin

text \<open>
  The start of the control plane: the runtime configuration (\<open>internal/engine/runtime_config.go\<close>), how \<open>main\<close> resolves flags
  and file (\<open>cmd/controlplane/main.go\<close>), the commands it runs before it is ready, and the loop that feeds commands from a
  channel (\<open>internal/engine/controlplane.go\<close>).  The YAML library and \<open>time.ParseDuration\<close> are arguments; the file system is a
  function from paths to contents.

  Shown: which of flags and file wins; and what becomes of a node entry of the file: the node it describes when its peer
  list is one word, an error and nothing else when a process has its name, the spawn fails or the peer list is missing or has blanks.
\<close>

section \<open>Configuration\<close>

record node_entry =
  ne_ID :: string
  ne_Port :: int
  ne_ClusterID :: string
  ne_Host :: string
  ne_PeersCSV :: string
  ne_CPHost :: string
  ne_CPPort :: int

record runtime_config =
  rc_Enabled :: bool
  rc_Port :: int
  rc_NodeCleanupTimeout :: string
  rc_CommandPort :: int
  rc_CommandAuthToken :: string
  rc_ProjectRoot :: string
  rc_DefaultCPHost :: string
  rc_DefaultCPPort :: int
  rc_NodeBinaryPath :: string
  rc_Nodes :: "node_entry list"
  rc_Commands :: "string list"

definition DefaultRuntimeConfig :: runtime_config where
  "DefaultRuntimeConfig = \<lparr>rc_Enabled = True, rc_Port = 9000, rc_NodeCleanupTimeout = ''10s'', rc_CommandPort = 9091, rc_CommandAuthToken = [],
     rc_ProjectRoot = ''.'', rc_DefaultCPHost = ''localhost'', rc_DefaultCPPort = 9000, rc_NodeBinaryPath = ''bin/node'', rc_Nodes = [], rc_Commands = []\<rparr>"

text \<open>The YAML library fills in the fields the text names; \<open>None\<close> is its error.\<close>

type_synonym yaml = "string \<Rightarrow> runtime_config \<Rightarrow> runtime_config option"

definition LoadRuntimeConfig :: "yaml \<Rightarrow> (string \<Rightarrow> string option) \<Rightarrow> string \<Rightarrow> runtime_config option" where
  "LoadRuntimeConfig yml files path = (case files path of None \<Rightarrow> None | Some raw \<Rightarrow> yml raw DefaultRuntimeConfig)"

definition ControlPlaneTimeout :: "(string \<Rightarrow> int option) \<Rightarrow> runtime_config \<Rightarrow> int option" where
  "ControlPlaneTimeout pd c = (if rc_NodeCleanupTimeout c = [] then Some 10000000000 else pd (rc_NodeCleanupTimeout c))"

record control_plane =
  cp_NodeCleanupTimeout :: int
  cp_Port :: int
  cp_CommandPort :: int
  cp_CommandAuthToken :: string
  cp_ProjectRoot :: string
  cp_DefaultCPHost :: string
  cp_DefaultCPPort :: int
  cp_NodeBinaryPath :: string

definition cp_formal :: "(string, flag_kind) gomap" where
  "cp_formal = [(''config'', StringFlag), (''port'', IntFlag), (''http-port'', IntFlag), (''command-port'', IntFlag), (''command-auth-token'', StringFlag),
     (''heartbeat-timeout'', DurationFlag)]"

datatype cp_exit = CpBadFlags flag_exit | CpBadConfig | CpBadTimeout

definition controlplane_config ::
  "(string \<Rightarrow> int option) \<Rightarrow> yaml \<Rightarrow> (string \<Rightarrow> string option) \<Rightarrow> string list \<Rightarrow> cp_exit + control_plane \<times> int \<times> runtime_config" where
  "controlplane_config pd yml files args = (case parse_flags pd cp_formal args [] of
     Inl e \<Rightarrow> Inl (CpBadFlags e)
   | Inr (vals, _) \<Rightarrow>
       let configPath = string_flag ''config'' [] vals; commandAuthToken = string_flag ''command-auth-token'' [] vals in
       case (if configPath \<noteq> [] then LoadRuntimeConfig yml files configPath else Some DefaultRuntimeConfig) of
         None \<Rightarrow> Inl CpBadConfig
       | Some runtimeCfg \<Rightarrow> (case ControlPlaneTimeout pd runtimeCfg of
           None \<Rightarrow> Inl CpBadTimeout
         | Some cpTimeout \<Rightarrow>
             let cpCfg = \<lparr>cp_NodeCleanupTimeout = duration_flag ''heartbeat-timeout'' 5000000000 vals, cp_Port = int_flag ''port'' 9000 vals,
                   cp_CommandPort = int_flag ''command-port'' 9091 vals, cp_CommandAuthToken = commandAuthToken,
                   cp_ProjectRoot = rc_ProjectRoot runtimeCfg, cp_DefaultCPHost = rc_DefaultCPHost runtimeCfg,
                   cp_DefaultCPPort = rc_DefaultCPPort runtimeCfg, cp_NodeBinaryPath = rc_NodeBinaryPath runtimeCfg\<rparr>;
                 cpCfg = (if configPath \<noteq> [] then cpCfg\<lparr>cp_Port := rc_Port runtimeCfg, cp_CommandPort := rc_CommandPort runtimeCfg,
                   cp_CommandAuthToken := rc_CommandAuthToken runtimeCfg, cp_NodeCleanupTimeout := cpTimeout\<rparr> else cpCfg);
                 cpCfg = (if commandAuthToken \<noteq> [] then cpCfg\<lparr>cp_CommandAuthToken := commandAuthToken\<rparr> else cpCfg)
             in Inr (cpCfg, int_flag ''http-port'' 8080 vals, runtimeCfg)))"

definition actor_options_of :: "control_plane \<Rightarrow> actor_options" where
  "actor_options_of c = \<lparr>ao_ProjectRoot = cp_ProjectRoot c, ao_DefaultCPHost = cp_DefaultCPHost c, ao_DefaultCPPort = cp_DefaultCPPort c,
     ao_NodeBinaryPath = cp_NodeBinaryPath c\<rparr>"

section \<open>Commands at the start\<close>

definition normalizeDefault :: "string \<Rightarrow> string \<Rightarrow> string" where
  "normalizeDefault v fallback = (if trim_space v = [] then fallback else v)"

definition normalizeDefaultInt :: "int \<Rightarrow> int \<Rightarrow> int" where
  "normalizeDefaultInt v fallback = (if v = 0 then fallback else v)"

definition start_text :: "control_plane \<Rightarrow> node_entry \<Rightarrow> string" where
  "start_text c n = ''start-node '' @ ne_ID n @ '' '' @ show_int (ne_Port n) @ '' --cluster-id '' @ normalizeDefault (ne_ClusterID n) ''default''
     @ '' --host '' @ normalizeDefault (ne_Host n) ''localhost'' @ '' --peers '' @ ne_PeersCSV n
     @ '' --cp-host '' @ normalizeDefault (ne_CPHost n) (cp_DefaultCPHost c) @ '' --cp-port '' @ show_int (normalizeDefaultInt (ne_CPPort n) (cp_DefaultCPPort c))"

definition DispatchRuntimeCommand ::
  "'w node_operator \<Rightarrow> kv_wire \<Rightarrow> float_parser \<Rightarrow> actor_input \<Rightarrow> string \<Rightarrow> actor \<times> 'w \<Rightarrow> ((actor \<times> 'w) \<times> runtime_error option) option" where
  "DispatchRuntimeCommand nc wire pf inp raw aw = (case ExecuteRuntimeCommand nc wire pf inp raw aw of
     None \<Rightarrow> None
   | Some (aw', Inl e) \<Rightarrow> Some (aw', Some e)
   | Some (aw', Inr _) \<Rightarrow> Some (aw', None))"

text \<open>The texts that are run, in order; failures are logged.  \<open>inps k\<close> is the input of the \<open>k\<close>-th.\<close>

definition bootstrap_texts :: "control_plane \<Rightarrow> runtime_config \<Rightarrow> string list" where
  "bootstrap_texts c rc = map (start_text c) (filter (\<lambda>n. ne_ID n \<noteq> [] \<and> 0 < ne_Port n) (rc_Nodes rc)) @ rc_Commands rc"

fun dispatch_all ::
  "'w node_operator \<Rightarrow> kv_wire \<Rightarrow> float_parser \<Rightarrow> (nat \<Rightarrow> actor_input) \<Rightarrow> nat \<Rightarrow> string list \<Rightarrow> actor \<times> 'w
     \<Rightarrow> ((actor \<times> 'w) \<times> runtime_error option list) option" where
  "dispatch_all nc wire pf inps k [] aw = Some (aw, [])"
| "dispatch_all nc wire pf inps k (t # ts) aw = (case DispatchRuntimeCommand nc wire pf (inps k) t aw of
     None \<Rightarrow> None
   | Some (aw', e) \<Rightarrow> map_option (\<lambda>(aw'', es). (aw'', e # es)) (dispatch_all nc wire pf inps (k + 1) ts aw'))"

definition bootstrap ::
  "'w node_operator \<Rightarrow> kv_wire \<Rightarrow> float_parser \<Rightarrow> (nat \<Rightarrow> actor_input) \<Rightarrow> control_plane \<Rightarrow> runtime_config \<Rightarrow> actor \<times> 'w
     \<Rightarrow> ((actor \<times> 'w) \<times> runtime_error option list) option" where
  "bootstrap nc wire pf inps c rc aw = dispatch_all nc wire pf inps 0 (bootstrap_texts c rc) aw"

text \<open>The loop over a channel of raw commands: a text that does not parse, or a command that fails, is logged and skipped.\<close>

fun forwardCommandsToActor ::
  "'w node_operator \<Rightarrow> kv_wire \<Rightarrow> float_parser \<Rightarrow> (nat \<Rightarrow> actor_input) \<Rightarrow> nat \<Rightarrow> string list \<Rightarrow> actor \<times> 'w \<Rightarrow> (actor \<times> 'w) option" where
  "forwardCommandsToActor nc wire pf inps k [] aw = Some aw"
| "forwardCommandsToActor nc wire pf inps k (raw # rest) aw = (case Parse pf raw of
     Inl e \<Rightarrow> forwardCommandsToActor nc wire pf inps (k + 1) rest aw
   | Inr cmd \<Rightarrow> (case actor_step nc wire (inps k) cmd aw of
       None \<Rightarrow> None
     | Some (aw', r) \<Rightarrow> forwardCommandsToActor nc wire pf inps (k + 1) rest aw'))"

section \<open>Which setting wins\<close>

text \<open>
  precedence of the control plane's settings.  With a configuration file the ports, the cleanup timeout and the actor's
  settings are the file's, whatever the flags say; without one they are the flags' and the built-in actor settings.  A
  token given as a flag wins over the file's in both cases, and the HTTP port is always the flag's.
\<close>
theorem settings_precedence:
  assumes "parse_flags pd cp_formal args [] = Inr (vals, rest)" "controlplane_config pd yml files args = Inr (c, http, rc)"
  defines "path \<equiv> string_flag ''config'' [] vals" and "token \<equiv> string_flag ''command-auth-token'' [] vals"
  shows "http = int_flag ''http-port'' 8080 vals
    \<and> cp_CommandAuthToken c = (if token \<noteq> [] then token else if path \<noteq> [] then rc_CommandAuthToken rc else [])
    \<and> actor_options_of c = \<lparr>ao_ProjectRoot = rc_ProjectRoot rc, ao_DefaultCPHost = rc_DefaultCPHost rc, ao_DefaultCPPort = rc_DefaultCPPort rc,
        ao_NodeBinaryPath = rc_NodeBinaryPath rc\<rparr>
    \<and> (if path = [] then rc = DefaultRuntimeConfig \<and> cp_Port c = int_flag ''port'' 9000 vals \<and> cp_CommandPort c = int_flag ''command-port'' 9091 vals
          \<and> cp_NodeCleanupTimeout c = duration_flag ''heartbeat-timeout'' 5000000000 vals
        else LoadRuntimeConfig yml files path = Some rc \<and> cp_Port c = rc_Port rc \<and> cp_CommandPort c = rc_CommandPort rc
          \<and> Some (cp_NodeCleanupTimeout c) = ControlPlaneTimeout pd rc)"
  using assms(2) unfolding controlplane_config_def assms(1)
  by (auto simp: Let_def path_def token_def actor_options_of_def split: option.splits if_splits)

section \<open>The nodes of the file\<close>

lemma fields_acc_space: "is_space c \<Longrightarrow> fields_acc acc (s @ c # t) = fields_acc acc s @ fields_acc [] t"
  by (induction acc s rule: fields_acc.induct) auto

lemma fields_join_all: "str_fields (join_with '' '' xs) = concat (map str_fields xs)"
proof (induction xs rule: induct_list012)
  case (3 x y zs)
  have "str_fields (x @ CHR '' '' # join_with '' '' (y # zs)) = str_fields x @ str_fields (join_with '' '' (y # zs))"
    unfolding str_fields_def by (rule fields_acc_space) (simp add: is_space_def)
  then show ?case using 3 by simp
qed (simp_all add: str_fields_def)

lemma fields_blank: "trim_space s = [] \<Longrightarrow> str_fields s = []"
  unfolding str_fields_def trim_space_eq_Nil by (induction s) auto

definition start_words :: "control_plane \<Rightarrow> node_entry \<Rightarrow> string list" where
  "start_words c n = [ne_ID n, show_int (ne_Port n), ''--cluster-id'', normalizeDefault (ne_ClusterID n) ''default'',
     ''--host'', normalizeDefault (ne_Host n) ''localhost'', ''--peers'', ne_PeersCSV n, ''--cp-host'', normalizeDefault (ne_CPHost n) (cp_DefaultCPHost c),
     ''--cp-port'', show_int (normalizeDefaultInt (ne_CPPort n) (cp_DefaultCPPort c))]"

lemma start_text_runs: "runtime_command pf (start_text c n) = Some (parse_start_node (concat (map str_fields (start_words c n))))"
proof -
  have "start_text c n = ''start-node'' @ '' '' @ join_with '' '' (start_words c n)" by (simp add: start_text_def start_words_def)
  moreover have "is_word ''start-node''" by (simp add: word_simps)
  ultimately show ?thesis using runtime_named [of "''start-node''" pf "join_with '' '' (start_words c n)"]
    by (simp add: fields_join_all parse_parts_name)
qed

definition entry_ok :: "control_plane \<Rightarrow> node_entry \<Rightarrow> bool" where
  "entry_ok c n \<longleftrightarrow> is_word (ne_ID n) \<and> 0 < ne_Port n \<and> ne_Port n \<le> i64_max \<and> is_word (normalizeDefault (ne_ClusterID n) ''default'')
     \<and> is_word (normalizeDefault (ne_Host n) ''localhost'') \<and> is_word (normalizeDefault (ne_CPHost n) (cp_DefaultCPHost c))
     \<and> 0 < normalizeDefaultInt (ne_CPPort n) (cp_DefaultCPPort c) \<and> normalizeDefaultInt (ne_CPPort n) (cp_DefaultCPPort c) \<le> i64_max"

lemma option_words: "is_word ''--cluster-id''" "is_word ''--host''" "is_word ''--peers''" "is_word ''--cp-host''" "is_word ''--cp-port''"
  by (simp_all add: word_simps)

lemma entry_atoi:
  "entry_ok c n \<Longrightarrow> atoi (show_int (ne_Port n)) = Inr (ne_Port n)"
  "entry_ok c n \<Longrightarrow> atoi (show_int (normalizeDefaultInt (ne_CPPort n) (cp_DefaultCPPort c))) = Inr (normalizeDefaultInt (ne_CPPort n) (cp_DefaultCPPort c))"
  by (rule atoi_show; simp add: entry_ok_def i64_min_def)+

text \<open>The words of the text, and the word the parser stumbles over: the peer list of an entry is meant to be one word.\<close>

lemma entry_fields:
  assumes "entry_ok c n"
  shows "concat (map str_fields (start_words c n)) = [ne_ID n, show_int (ne_Port n), ''--cluster-id'', normalizeDefault (ne_ClusterID n) ''default'',
     ''--host'', normalizeDefault (ne_Host n) ''localhost'', ''--peers''] @ str_fields (ne_PeersCSV n)
     @ [''--cp-host'', normalizeDefault (ne_CPHost n) (cp_DefaultCPHost c), ''--cp-port'', show_int (normalizeDefaultInt (ne_CPPort n) (cp_DefaultCPPort c))]"
  using assms by (simp add: start_words_def fields_word option_words entry_ok_def)

fun stray_word :: "control_plane \<Rightarrow> node_entry \<Rightarrow> string list \<Rightarrow> string option" where
  "stray_word c n [] = Some (normalizeDefault (ne_CPHost n) (cp_DefaultCPHost c))"
| "stray_word c n [p] = None"
| "stray_word c n (p # q # ws) = Some q"

lemma entry_rejected:
  assumes "entry_ok c n" "stray_word c n (str_fields (ne_PeersCSV n)) = Some q" "start_option q = None"
  shows "runtime_command pf (start_text c n) = Some (Inl (UnknownOption ''start-node'' q))"
  using assms(2,3) entry_atoi [OF assms(1)]
  by (cases "str_fields (ne_PeersCSV n)" rule: remdups_adj.cases)
    (simp_all add: start_text_runs entry_fields [OF assms(1)] parse_start_node_def, simp_all add: start_option_def)

definition entry_command :: "control_plane \<Rightarrow> node_entry \<Rightarrow> string \<Rightarrow> command" where
  "entry_command c n peers = (NewCommand CmdStartNodeProcess)\<lparr>cmd_NodeID := ne_ID n, cmd_Port := ne_Port n,
     cmd_ClusterID := normalizeDefault (ne_ClusterID n) ''default'', cmd_Host := normalizeDefault (ne_Host n) ''localhost'', cmd_PeersCSV := peers,
     cmd_CPHost := normalizeDefault (ne_CPHost n) (cp_DefaultCPHost c), cmd_CPPort := normalizeDefaultInt (ne_CPPort n) (cp_DefaultCPPort c)\<rparr>"

lemma entry_parses:
  assumes "entry_ok c n" "str_fields (ne_PeersCSV n) = [peers]"
  shows "runtime_command pf (start_text c n) = Some (Inr (entry_command c n peers))"
  using entry_atoi [OF assms(1)]
  by (simp add: start_text_runs entry_fields [OF assms(1)] assms(2) parse_start_node_def) (simp add: start_option_def entry_command_def)

text \<open>The program the started process runs configures itself from its arguments, or refuses a peer list it cannot read.\<close>

lemma entry_main:
  assumes "entry_ok c n"
  shows "node_main pd files (start_args (normalizeDefault (ne_ClusterID n) ''default'') opts (entry_command c n peers)) = (case parsePeers peers of
       Inl e \<Rightarrow> Inl (BadNodeConfig e)
     | Inr ps \<Rightarrow> Inr (\<lparr>nc_ID = ne_ID n, nc_Port = ne_Port n, nc_Peers = ps, nc_ClusterID = normalizeDefault (ne_ClusterID n) ''default'',
         nc_Host = normalizeDefault (ne_Host n) ''localhost'', nc_ControlPlaneHost = normalizeDefault (ne_CPHost n) (cp_DefaultCPHost c),
         nc_ControlPlanePort = normalizeDefaultInt (ne_CPPort n) (cp_DefaultCPPort c)\<rparr>,
         DefaultNodeRuntimeConfig\<lparr>cpc_Host := normalizeDefault (ne_CPHost n) (cp_DefaultCPHost c),
           cpc_Port := normalizeDefaultInt (ne_CPPort n) (cp_DefaultCPPort c)\<rparr>))"
proof -
  let ?cmd = "entry_command c n peers"
  have f: "cmd_NodeID ?cmd = ne_ID n" "cmd_Port ?cmd = ne_Port n" "cmd_Host ?cmd = normalizeDefault (ne_Host n) ''localhost''" "cmd_PeersCSV ?cmd = peers"
    by (simp_all add: entry_command_def NewCommand_def)
  have ne: "normalizeDefault (ne_Host n) ''localhost'' \<noteq> []" "normalizeDefault (ne_CPHost n) (cp_DefaultCPHost c) \<noteq> []"
    using assms by (auto simp: entry_ok_def)
  have told: "told_cp_host opts ?cmd = normalizeDefault (ne_CPHost n) (cp_DefaultCPHost c)"
    "told_cp_port opts ?cmd = normalizeDefaultInt (ne_CPPort n) (cp_DefaultCPPort c)"
    using assms ne(2) by (auto simp: told_cp_host_def told_cp_port_def first_of_def entry_command_def entry_ok_def)
  have "i64_min \<le> cmd_Port ?cmd" "cmd_Port ?cmd \<le> i64_max" "i64_min \<le> told_cp_port opts ?cmd" "told_cp_port opts ?cmd \<le> i64_max"
    using assms by (auto simp: f told entry_ok_def i64_min_def)
  from node_main_start [OF this] show ?thesis by (cases "parsePeers peers") (simp_all add: f told ne)
qed

text \<open>What the text of an entry does at the actor, with the words of its peer list told apart.\<close>

lemma entry_dispatch:
  assumes "entry_ok c n" "\<forall>q. stray_word c n (str_fields (ne_PeersCSV n)) = Some q \<longrightarrow> start_option q = None"
  defines "cl \<equiv> normalizeDefault (ne_ClusterID n) ''default''" and "cmd \<equiv> entry_command c n (hd (str_fields (ne_PeersCSV n)))"
  shows "DispatchRuntimeCommand nc wire pf inp (start_text c n) (a, w) = (case stray_word c n (str_fields (ne_PeersCSV n)) of
      Some q \<Rightarrow> Some ((a, w), Some (ParseFailed (UnknownOption ''start-node'' q)))
    | None \<Rightarrow>
        if map_of (a_nodeProcs a) (managedProcessKey cl (ne_ID n)) \<noteq> None then Some ((a, w), Some (CommandFailed (ProcessRunning (ne_ID n) cl)))
        else let dir = first_of [ao_ProjectRoot (a_options a), ''.'']; cmdline = [''go'', ''run'', ''./cmd/node''] @ start_args cl (a_options a) cmd in
          case ai_spawn inp dir cmdline of
            Inl e \<Rightarrow> Some ((a, w), Some (CommandFailed (SpawnFailed (ne_ID n))))
          | Inr pid \<Rightarrow> Some ((a\<lparr>
              a_nodeProcs := gm_put (managedProcessKey cl (ne_ID n)) \<lparr>pr_Pid = pid, pr_Dir = dir, pr_Args = cmdline\<rparr> (a_nodeProcs a),
              a_nodeMeta := gm_put (managedProcessKey cl (ne_ID n)) cl (a_nodeMeta a)\<rparr>, w), None))"
proof (cases "stray_word c n (str_fields (ne_PeersCSV n))")
  case (Some q)
  then show ?thesis using entry_rejected [OF assms(1) Some] assms(2) by (simp add: DispatchRuntimeCommand_def ExecuteRuntimeCommand_def)
next
  case None
  then have "str_fields (ne_PeersCSV n) = [hd (str_fields (ne_PeersCSV n))]"
    by (cases "str_fields (ne_PeersCSV n)" rule: remdups_adj.cases) auto
  note parses = entry_parses [OF assms(1) this, folded cmd_def]
  have f: "cmd_Type cmd = CmdStartNodeProcess" "cmd_NodeID cmd = ne_ID n" "cmd_ClusterID cmd = cl" "cmd_ProjectRoot cmd = []" "cl \<noteq> []"
    using assms(1) by (auto simp: cmd_def entry_command_def NewCommand_def cl_def entry_ok_def)
  note run = parses DispatchRuntimeCommand_def ExecuteRuntimeCommand_def actor_step_def startNodeProcess_def
    newNodeProcess_def with_error_def Let_def f None
  have dir: "first_of [[], x, y] = first_of [x, y]" for x y by (simp add: first_of_def)
  show ?thesis
  proof (cases "map_of (a_nodeProcs a) (managedProcessKey cl (ne_ID n))")
    case None
    then show ?thesis
      by (cases "ai_spawn inp (first_of [ao_ProjectRoot (a_options a), ''.'']) ([''go'', ''run'', ''./cmd/node''] @ start_args cl (a_options a) cmd)")
        (simp_all add: run dir)
  qed (simp add: run)
qed

text \<open>
  C36: what becomes of a node entry of the file whose name, cluster, hosts and ports are well formed.  The text that is
  built for it is one command line, so everything depends on the words of the peer list.  With exactly one word the command is
  accepted: a process recorded under the same cluster and name is kept and the entry refused, a failing spawn leaves the control plane as
  it was, and otherwise exactly one process is recorded under the entry's cluster and name; the program it runs
  configures itself with the entry's identifier, port, cluster, host, peers and control plane, blank fields replaced by the defaults,
  or stops when that word is no peer list.  Without a peer list the control plane's host is taken for an option, with a blank inside
  the list its second word is: such an entry is rejected and nothing is started, provided the word is not itself the name of
  an option.
\<close>
theorem bootstrapped_node:
  assumes "entry_ok c n" "\<forall>q. stray_word c n (str_fields (ne_PeersCSV n)) = Some q \<longrightarrow> start_option q = None"
  defines "cl \<equiv> normalizeDefault (ne_ClusterID n) ''default''"
  shows "\<exists>args.
      DispatchRuntimeCommand nc wire pf inp (start_text c n) (a, w) = (case stray_word c n (str_fields (ne_PeersCSV n)) of
          Some q \<Rightarrow> Some ((a, w), Some (ParseFailed (UnknownOption ''start-node'' q)))
        | None \<Rightarrow>
            if map_of (a_nodeProcs a) (managedProcessKey cl (ne_ID n)) \<noteq> None then Some ((a, w), Some (CommandFailed (ProcessRunning (ne_ID n) cl)))
            else let dir = first_of [ao_ProjectRoot (a_options a), ''.'']; cmdline = [''go'', ''run'', ''./cmd/node''] @ args in
              case ai_spawn inp dir cmdline of
                Inl e \<Rightarrow> Some ((a, w), Some (CommandFailed (SpawnFailed (ne_ID n))))
              | Inr pid \<Rightarrow> Some ((a\<lparr>
                  a_nodeProcs := gm_put (managedProcessKey cl (ne_ID n)) \<lparr>pr_Pid = pid, pr_Dir = dir, pr_Args = cmdline\<rparr> (a_nodeProcs a),
                  a_nodeMeta := gm_put (managedProcessKey cl (ne_ID n)) cl (a_nodeMeta a)\<rparr>, w), None))
    \<and> node_main pd files args = (case parsePeers (hd (str_fields (ne_PeersCSV n))) of
          Inl e \<Rightarrow> Inl (BadNodeConfig e)
        | Inr peers \<Rightarrow> Inr (\<lparr>nc_ID = ne_ID n, nc_Port = ne_Port n, nc_Peers = peers, nc_ClusterID = cl,
            nc_Host = normalizeDefault (ne_Host n) ''localhost'', nc_ControlPlaneHost = normalizeDefault (ne_CPHost n) (cp_DefaultCPHost c),
            nc_ControlPlanePort = normalizeDefaultInt (ne_CPPort n) (cp_DefaultCPPort c)\<rparr>,
            DefaultNodeRuntimeConfig\<lparr>cpc_Host := normalizeDefault (ne_CPHost n) (cp_DefaultCPHost c),
              cpc_Port := normalizeDefaultInt (ne_CPPort n) (cp_DefaultCPPort c)\<rparr>))"
  unfolding cl_def using entry_dispatch [OF assms(1,2), of nc wire pf inp a w] entry_main [OF assms(1)] by blast

section \<open>Witnesses\<close>

definition demo_cp :: control_plane where
  "demo_cp = \<lparr>cp_NodeCleanupTimeout = 10, cp_Port = 9000, cp_CommandPort = 9091, cp_CommandAuthToken = [], cp_ProjectRoot = ''.'', cp_DefaultCPHost = ''localhost'',
     cp_DefaultCPPort = 9000, cp_NodeBinaryPath = []\<rparr>"

definition demo_entry :: "string \<Rightarrow> node_entry" where
  "demo_entry peers = \<lparr>ne_ID = ''n1'', ne_Port = 8001, ne_ClusterID = [], ne_Host = [], ne_PeersCSV = peers, ne_CPHost = [], ne_CPPort = 0\<rparr>"

lemma demo_entry_ok: "entry_ok demo_cp (demo_entry peers)"
  by (simp add: entry_ok_def demo_cp_def demo_entry_def normalizeDefault_def normalizeDefaultInt_def word_simps i64_max_def)

text \<open>An entry with one peer becomes that node; the same entry without peers is refused.\<close>

theorem bootstrapped_node_witness:
  "(\<exists>a' p args rc. DispatchRuntimeCommand demo_operator demo_wire (\<lambda>_. None) (idle_input\<lparr>ai_spawn := \<lambda>_ _. Inr 7\<rparr>) (start_text demo_cp (demo_entry ''n2:8002''))
       (NewActor demo_service (actor_options_of demo_cp), ()) = Some ((a', ()), None)
     \<and> map_of (a_nodeProcs a') ''default::n1'' = Some p \<and> pr_Pid p = 7 \<and> pr_Args p = [''go'', ''run'', ''./cmd/node''] @ args
     \<and> node_main Map.empty Map.empty args = Inr (\<lparr>nc_ID = ''n1'', nc_Port = 8001, nc_Peers = [\<lparr>p_ID = ''n2'', p_Host = ''localhost'', p_Port = 8002\<rparr>],
         nc_ClusterID = ''default'', nc_Host = ''localhost'', nc_ControlPlaneHost = ''localhost'', nc_ControlPlanePort = 9000\<rparr>, rc))
   \<and> DispatchRuntimeCommand demo_operator demo_wire (\<lambda>_. None) idle_input (start_text demo_cp (demo_entry []))
       (NewActor demo_service (actor_options_of demo_cp), ())
     = Some ((NewActor demo_service (actor_options_of demo_cp), ()), Some (ParseFailed (UnknownOption ''start-node'' ''localhost'')))"
proof
  let ?n = "demo_entry ''n2:8002''" and ?e = "demo_entry []" and ?a = "NewActor demo_service (actor_options_of demo_cp)"
  have w: "str_fields (ne_PeersCSV ?n) = [''n2:8002'']" by (simp add: demo_entry_def word_simps fields_word)
  have none: "str_fields (ne_PeersCSV ?e) = []" by (simp add: demo_entry_def str_fields_def)
  have e: "normalizeDefault (ne_ClusterID (demo_entry ps)) ''default'' = ''default''" "ne_ID (demo_entry ps) = ''n1''" "ne_Port (demo_entry ps) = 8001"
    "normalizeDefault (ne_Host (demo_entry ps)) ''localhost'' = ''localhost''"
    "normalizeDefault (ne_CPHost (demo_entry ps)) (cp_DefaultCPHost demo_cp) = ''localhost''"
    "normalizeDefaultInt (ne_CPPort (demo_entry ps)) (cp_DefaultCPPort demo_cp) = 9000" for ps
    by (simp_all add: demo_entry_def demo_cp_def normalizeDefault_def normalizeDefaultInt_def)
  have k: "managedProcessKey ''default'' ''n1'' = ''default::n1''" by (simp add: managedProcessKey_def)
  have fresh: "a_nodeProcs ?a = []" by (simp add: NewActor_def)
  have stray: "\<forall>q. stray_word demo_cp ?n (str_fields (ne_PeersCSV ?n)) = Some q \<longrightarrow> start_option q = None" by (simp add: w)
  have stray': "\<forall>q. stray_word demo_cp ?e (str_fields (ne_PeersCSV ?e)) = Some q \<longrightarrow> start_option q = None" by (simp add: none e start_option_def)
  from bootstrapped_node [OF demo_entry_ok stray, of demo_operator demo_wire "\<lambda>_. None" "idle_input\<lparr>ai_spawn := \<lambda>_ _. Inr 7\<rparr>" ?a "()" Map.empty Map.empty]
  show "\<exists>a' p args rc. DispatchRuntimeCommand demo_operator demo_wire (\<lambda>_. None) (idle_input\<lparr>ai_spawn := \<lambda>_ _. Inr 7\<rparr>) (start_text demo_cp ?n)
       (?a, ()) = Some ((a', ()), None)
     \<and> map_of (a_nodeProcs a') ''default::n1'' = Some p \<and> pr_Pid p = 7 \<and> pr_Args p = [''go'', ''run'', ''./cmd/node''] @ args
     \<and> node_main Map.empty Map.empty args = Inr (\<lparr>nc_ID = ''n1'', nc_Port = 8001, nc_Peers = [\<lparr>p_ID = ''n2'', p_Host = ''localhost'', p_Port = 8002\<rparr>],
         nc_ClusterID = ''default'', nc_Host = ''localhost'', nc_ControlPlaneHost = ''localhost'', nc_ControlPlanePort = 9000\<rparr>, rc)"
    by (auto simp: w e k fresh demo_peers Let_def gm_put_def)
  from bootstrapped_node [OF demo_entry_ok stray', of demo_operator demo_wire "\<lambda>_. None" idle_input ?a "()"]
  show "DispatchRuntimeCommand demo_operator demo_wire (\<lambda>_. None) idle_input (start_text demo_cp ?e) (?a, ())
     = Some ((?a, ()), Some (ParseFailed (UnknownOption ''start-node'' ''localhost'')))"
    by (simp add: none e)
qed

theorem settings_precedence_witness:
  "\<exists>c http. controlplane_config (\<lambda>_. Some 10) (\<lambda>_ c. Some (c\<lparr>rc_Port := 9500, rc_CommandAuthToken := ''filetoken''\<rparr>)) (\<lambda>_. Some [])
       [''-config'', ''cp.yaml'', ''-port'', show_int 9001, ''-command-auth-token'', ''secret''] = Inr (c, http, DefaultRuntimeConfig\<lparr>rc_Port := 9500, rc_CommandAuthToken := ''filetoken''\<rparr>)
     \<and> cp_Port c = 9500 \<and> cp_CommandAuthToken c = ''secret'' \<and> http = 8080"
proof -
  let ?args = "[''-config'', ''cp.yaml'', ''-port'', show_int 9001, ''-command-auth-token'', ''secret'']"
  let ?vals = "[(''config'', FString ''cp.yaml''), (''port'', FInt 9001), (''command-auth-token'', FString ''secret'')]"
  let ?rc = "DefaultRuntimeConfig\<lparr>rc_Port := 9500, rc_CommandAuthToken := ''filetoken''\<rparr>"
  have n: "plain_name ''config''" "plain_name ''port''" "plain_name ''command-auth-token''" by (simp_all add: plain_name_def)
  have i: "parse_int0 (show_int 9001) = Some 9001" by (rule parse_int0_show) (simp_all add: i64_min_def i64_max_def)
  have v: "parse_flags (\<lambda>_. Some 10) cp_formal ?args [] = Inr (?vals, [])"
    using n by (simp add: parse_flag_pair cp_formal_def set_flag_def i gm_put_def)
  obtain c http where c: "controlplane_config (\<lambda>_. Some 10) (\<lambda>_ c. Some (c\<lparr>rc_Port := 9500, rc_CommandAuthToken := ''filetoken''\<rparr>)) (\<lambda>_. Some []) ?args = Inr (c, http, ?rc)"
    by (simp add: controlplane_config_def v LoadRuntimeConfig_def ControlPlaneTimeout_def string_flag_def DefaultRuntimeConfig_def Let_def)
  from settings_precedence [OF v c] c show ?thesis by (auto simp: string_flag_def int_flag_def)
qed

end
