(* ===== verification/NodeBoot.thy ===== *)
theory NodeBoot
  imports NodeMainSpec ControlRPC
begin

text \<open>
  A node coming up against the control plane: registration, the fetch of the peers and the swap to the assigned protocol
  (\<open>Runtime.Start\<close>), with the answers of the control plane's own handlers.  Shown: the node ends up running the
  cluster's protocol under its own name, knowing exactly the other nodes of the cluster.
\<close>

lemma service_register_cluster:
  "svc_cluster (fst (service_RegisterNode nc t1 t2 c i h p (s, w))) = fst (RegisterNode t1 c i h p (svc_cluster s))"
  using records_only_cluster [OF records_lifecycle] by (simp add: service_RegisterNode_def Let_def)

lemma registered_protocol:
  "map_of (m_clusters (fst (RegisterNode now c n a p m))) c = Some cl' \<Longrightarrow>
     cl_Protocol cl' = (case map_of (m_clusters m) c of None \<Rightarrow> ''gossip'' | Some cl \<Rightarrow> cl_Protocol cl)"
  by (auto simp: RegisterNode_def set_cluster_def Let_def split: option.splits)

definition gossip_cluster :: "string \<Rightarrow> service \<Rightarrow> bool" where
  "gossip_cluster c s \<longleftrightarrow> (case map_of (m_clusters (svc_cluster s)) c of None \<Rightarrow> True | Some cl \<Rightarrow> cl_Protocol cl = [] \<or> cl_Protocol cl = ''gossip'')"

lemma register_assigns_gossip:
  assumes "gossip_cluster c s" "rpc_RegisterNode nc t1 t2 c i h p (s, w) = ((s', w'), reply)"
  shows "reply = \<lparr>rr_success = True, rr_message = ''node registered'', rr_assigned = Some ''gossip''\<rparr>"
    and "svc_cluster s' = fst (RegisterNode t1 c i h p (svc_cluster s))"
proof -
  let ?sw = "service_RegisterNode nc t1 t2 c i h p (s, w)"
  obtain cl' where cl': "map_of (m_clusters (svc_cluster (fst ?sw))) c = Some cl'"
    unfolding service_register_cluster by (simp add: RegisterNode_def set_cluster_def Let_def)
  have "cl_Protocol cl' = [] \<or> cl_Protocol cl' = ''gossip''"
    using registered_protocol [OF cl' [unfolded service_register_cluster]] assms(1) by (auto simp: gossip_cluster_def split: option.splits)
  then have p: "GetClusterProtocol c (fst ?sw) = Inr ''gossip''" using cl' by (auto simp: GetClusterProtocol_def GetCluster_def)
  have "(s', w') = ?sw" "reply = \<lparr>rr_success = True, rr_message = ''node registered'', rr_assigned = Some ''gossip''\<rparr>"
    using assms(2) p by (simp_all add: rpc_RegisterNode_def Let_def)
  then show "reply = \<lparr>rr_success = True, rr_message = ''node registered'', rr_assigned = Some ''gossip''\<rparr>"
    "svc_cluster s' = fst (RegisterNode t1 c i h p (svc_cluster s))" using service_register_cluster by (metis fst_conv)+
qed

lemma swap_to_gossip:
  "applyProtocolSwap ''gossip'' r = (r', err) \<Longrightarrow> err = None \<and> r_config r' = r_config r
     \<and> (\<exists>g. r_proto r' = Some (PGossip g) \<and> g_nodeID g = nc_ID (r_config r) \<and> g_tick g = 0 \<and> g_store g = []
          \<and> g_peers g = filter (\<lambda>p. p \<noteq> []) (map p_ID (nc_Peers (r_config r))))"
  by (auto simp: applyProtocolSwap_def Load_factories proto_SetPeers_def proto_install_def proto_Start_def gossip_Start_def gossip_SetLogger_def
      gossip_SetPeerDiscoveryCallback_def gossip_SetPeers_def NewGossipProtocol_def Let_def)

text \<open>The session a node's main function opens to the control plane.\<close>

definition session_for :: "node_config \<Rightarrow> cp_session" where
  "session_for cfg = NewControlplaneSession (nc_ID cfg) (nc_ClusterID cfg) (nc_ControlPlaneHost cfg) (nc_ControlPlanePort cfg)
     (nc_Host cfg) (nc_Port cfg)"

lemma establish_registers:
  assumes "gossip_cluster (nc_ClusterID cfg) s"
    and "Establish True (register_call nc t1 t2) (session_for cfg) (s, w) = (cs, (s', w'), est)"
  shows "est = Inr ''gossip'' \<and> cs = (session_for cfg)\<lparr>cs_conn := True\<rparr>
    \<and> svc_cluster s' = fst (RegisterNode t1 (nc_ClusterID cfg) (nc_ID cfg) (nc_Host cfg) (to_int32 (nc_Port cfg)) (svc_cluster s))"
proof -
  obtain s1 w1 reply where r: "rpc_RegisterNode nc t1 t2 (nc_ClusterID cfg) (nc_ID cfg) (nc_Host cfg) (to_int32 (nc_Port cfg)) (s, w)
      = ((s1, w1), reply)" by (metis prod.collapse)
  have "(cs, (s', w'), est) = ((session_for cfg)\<lparr>cs_conn := True\<rparr>, (s1, w1), Inr ''gossip'')"
    unfolding assms(2) [symmetric] using register_assigns_gossip(1) [OF assms(1) r] r
    by (simp add: Establish_def cp_connect_def session_for_def NewControlplaneSession_def register_call_def register_request_of_def)
  then show ?thesis using register_assigns_gossip(2) [OF assms(1) r] by simp
qed

lemma fetch_after_register:
  assumes "svc_cluster s' = fst (RegisterNode t1 (nc_ClusterID cfg) i h p m)"
    and "FetchPeers True (peers_call s') ((session_for cfg)\<lparr>cs_conn := True\<rparr>) = (cs, fetched)"
  obtains peers where "rpc_GetPeers (nc_ClusterID cfg) s' = Inr peers" "fetched = Inr peers"
proof -
  obtain peers where "rpc_GetPeers (nc_ClusterID cfg) s' = Inr peers"
    by (simp add: assms(1) rpc_GetPeers_def service_GetPeers_def GetNodes_def RegisterNode_def set_cluster_def Let_def)
  then show ?thesis
    using that assms(2) by (simp add: FetchPeers_def cp_connect_def peers_call_def session_for_def NewControlplaneSession_def)
qed

text \<open>
  C9: a node that comes up in a gossip cluster joins it.  The session made from the node's configuration sends
  the control plane its registration, with its cluster, name, host and the port as an \<open>int32\<close>, then asks for the peers of
  its cluster; with the answers of the control plane's own handlers to these requests, connections that succeed and nothing
  else happening at the control plane in between, the node runs the gossip protocol under its own name with an empty store;
  its configured peers are exactly the other nodes the cluster had, under their addresses; the protocol knows each of them
  that has a name; and the control plane has the node registered under the host it gave and the \<open>int32\<close> of its port.
  A cluster that does not exist yet is one without nodes.
\<close>
theorem node_joins:
  assumes "service_ok s" "gossip_cluster (nc_ClusterID cfg) s"
    and "Establish True (register_call nc t1 t2)
       (NewControlplaneSession (nc_ID cfg) (nc_ClusterID cfg) (nc_ControlPlaneHost cfg) (nc_ControlPlanePort cfg) (nc_Host cfg) (nc_Port cfg))
       (s, w) = (cs, (s', w'), est)"
    and "FetchPeers True (peers_call s') cs = (cs', fetched)" "\<forall>k r. r_config (other k r) = r_config r"
  shows "\<exists>r g. runtime_Start other fe est fetched (runtime_New cfg ns) = Inr r
    \<and> r_proto r = Some (PGossip g) \<and> g_nodeID g = nc_ID cfg \<and> g_store g = []
    \<and> set (nc_Peers (r_config r)) = {node_peer n | n i. GetNode (nc_ClusterID cfg) i (svc_cluster s) = Inr n \<and> i \<noteq> nc_ID cfg}
    \<and> g_peers g = filter (\<lambda>p. p \<noteq> []) (map p_ID (nc_Peers (r_config r)))
    \<and> GetNode (nc_ClusterID cfg) (nc_ID cfg) (svc_cluster s') =
        Inr (fresh_node (nc_ID cfg) (nc_Host cfg) (to_int32 (nc_Port cfg)) t1)"
proof -
  let ?c = "nc_ClusterID cfg" and ?i = "nc_ID cfg" and ?p = "to_int32 (nc_Port cfg)"
  have m: "manager_ok (svc_cluster s)" using assms(1) by (simp add: service_ok_def)
  from establish_registers [OF assms(2) assms(3) [folded session_for_def]]
  have est: "est = Inr ''gossip''" and cs: "cs = (session_for cfg)\<lparr>cs_conn := True\<rparr>"
    and reg: "svc_cluster s' = fst (RegisterNode t1 ?c ?i (nc_Host cfg) ?p (svc_cluster s))" by simp_all
  obtain peers where peers: "rpc_GetPeers ?c s' = Inr peers" "fetched = Inr peers"
    using fetch_after_register [OF reg assms(4) [unfolded cs]] by blast
  have m': "manager_ok (svc_cluster s')" unfolding reg by (rule RegisterNode_ok [OF m])
  have nodes: "nodes_of ?c (svc_cluster s') = gm_put ?i (fresh_node ?i (nc_Host cfg) ?p t1) (nodes_of ?c (svc_cluster s))"
    by (simp add: reg RegisterNode_nodes)
  define r0 where "r0 = other 0 ((runtime_New cfg ns)\<lparr>r_fault := Some fe, r_started := True, r_events := []\<rparr>)"
  have r0: "r_config r0 = cfg" by (simp add: r0_def assms(5) runtime_New_def)
  obtain r1 err where r1: "getPeersFromControlplane (Inr peers) r0 = (r1, err)" by force
  note f = fetched_peers [OF m' peers(1) r1]
  have id1: "nc_ID (r_config r1) = ?i" using r1 r0 by (auto simp: getPeersFromControlplane_def applyPeersTopology_def Let_def)
  obtain r2 err2 where r2: "applyProtocolSwap ''gossip'' (other 1 r1) = (r2, err2)" by force
  note sw = swap_to_gossip [OF r2, unfolded assms(5) [rule_format]]
  then obtain g where g: "r_proto r2 = Some (PGossip g)" "g_nodeID g = ?i" "g_store g = []"
    "g_peers g = filter (\<lambda>p. p \<noteq> []) (map p_ID (nc_Peers (r_config r2)))" using id1 by auto
  have start: "runtime_Start other fe est fetched (runtime_New cfg ns) = Inr r2"
    using sw by (simp add: runtime_Start_def est peers(2) r0_def [symmetric] r1 r2 [simplified] Let_def)
  have "set (nc_Peers (r_config r2)) = {node_peer n | n i. GetNode ?c i (svc_cluster s') = Inr n \<and> i \<noteq> ?i}"
    using f sw r0 by simp
  also have "\<dots> = {node_peer n | n i. GetNode ?c i (svc_cluster s) = Inr n \<and> i \<noteq> ?i}"
    by (auto simp: GetNode_nodes_of nodes split: if_splits)
  finally have pset: "set (nc_Peers (r_config r2)) = {node_peer n | n i. GetNode ?c i (svc_cluster s) = Inr n \<and> i \<noteq> ?i}" .
  have "GetNode ?c ?i (svc_cluster s') = Inr (fresh_node ?i (nc_Host cfg) ?p t1)" by (simp add: GetNode_nodes_of nodes)
  then show ?thesis using start g pset by blast
qed

definition joining :: node_config where
  "joining = \<lparr>nc_ID = ''n2'', nc_Port = 8002, nc_Peers = [], nc_ClusterID = ''c'', nc_Host = ''h2'', nc_ControlPlaneHost = ''localhost'', nc_ControlPlanePort = 9000\<rparr>"

lemma plain_cluster: "nodes_of ''c'' (svc_cluster plain_service) = [(''n1'', fresh_node ''n1'' ''h1'' 8001 0)]" "gossip_cluster ''c'' plain_service"
  by (simp_all add: plain_service_def RegisterNode_def set_cluster_def nodes_of_def demo_service_def StartMetricsSession_def Let_def plain_trim GetCluster_def
      NewClusterService_def NewManager_def CreateCluster_def cluster_protocol_name_def to_lower_def session_Start_def NewSessionManager_def gm_put_def gossip_cluster_def)

theorem node_joins_witness:
  "\<exists>cs sw est cs' fetched r g. Establish True (register_call demo_operator 5 6)
       (NewControlplaneSession ''n2'' ''c'' ''localhost'' 9000 ''h2'' 8002) (plain_service, ()) = (cs, sw, est)
     \<and> FetchPeers True (peers_call (fst sw)) cs = (cs', fetched)
     \<and> runtime_Start (\<lambda>_ r. r) NewEngine est fetched (runtime_New joining (r_ns demo_runtime)) = Inr r
     \<and> r_proto r = Some (PGossip g) \<and> set (nc_Peers (r_config r)) = {\<lparr>p_ID = ''n1'', p_Host = ''h1'', p_Port = 8001\<rparr>}
     \<and> GetNode ''c'' ''n2'' (svc_cluster (fst sw)) = Inr (fresh_node ''n2'' ''h2'' 8002 5)"
proof -
  obtain cs s' w' est where reg: "Establish True (register_call demo_operator 5 6)
      (NewControlplaneSession ''n2'' ''c'' ''localhost'' 9000 ''h2'' 8002) (plain_service, ()) = (cs, (s', w'), est)" by (metis prod.collapse)
  obtain cs' fetched where peers: "FetchPeers True (peers_call s') cs = (cs', fetched)" by force
  have trim: "trim_space ''h1'' = ''h1''" by (rule trim_space_word) (simp add: is_word_def is_space_def)
  have nodes: "{node_peer n | n i. GetNode ''c'' i (svc_cluster plain_service) = Inr n \<and> i \<noteq> ''n2''} = {\<lparr>p_ID = ''n1'', p_Host = ''h1'', p_Port = 8001\<rparr>}"
  proof -
    have "GetNode ''c'' i (svc_cluster plain_service) = Inr n \<longleftrightarrow> i = ''n1'' \<and> n = fresh_node ''n1'' ''h1'' 8001 0" for i n
      by (auto simp: GetNode_nodes_of plain_cluster)
    then have "{node_peer n | n i. GetNode ''c'' i (svc_cluster plain_service) = Inr n \<and> i \<noteq> ''n2''} = {node_peer (fresh_node ''n1'' ''h1'' 8001 0)}" by auto
    then show ?thesis using trim by (simp add: node_peer_def fresh_node_def)
  qed
  have j: "nc_ClusterID joining = ''c''" "nc_ID joining = ''n2''" "nc_Host joining = ''h2''" "nc_Port joining = 8002"
    "nc_ControlPlaneHost joining = ''localhost''" "nc_ControlPlanePort joining = 9000" by (simp_all add: joining_def)
  have port: "to_int32 8002 = 8002" by (simp add: to_int32_def)
  have "\<forall>k r. r_config ((\<lambda>_ r. r) k r) = r_config r" by simp
  from node_joins [where cfg = joining, unfolded j port, OF plain_service_ok plain_cluster(2) reg peers this] reg peers
  show ?thesis unfolding nodes by (metis fst_conv)
qed

end
