(* ===== verification/Spec2Isabelle.thy ===== *)
theory Spec2Isabelle
  imports Convergence GossipNet NodeServer ClusterManager MetricsSessions Experiment ServiceNodes ControlRPC Hypothesis
    RestSpec Client Bootstrap NodeBoot
begin

text \<open>
  FaultLab: a control plane starts clusters of nodes, lets them run a replication or membership protocol,
  injects faults into them, and measures how their state diverges and converges.

  \<^bold>\<open>The parts and how they interact.\<close>  A \<^emph>\<open>node\<close> (\<open>cmd/node\<close>, \<open>internal/node\<close>) is a runtime around one protocol, gossip or
  baseline.  All changes of protocol state happen in one reactor loop that takes ticks, messages, key-value
  actions and protocol swaps from a queue; messages leave through a session that asks the fault engine
  (\<open>internal/fault\<close>) first, and calls arrive at a gRPC server that asks it too, but for the calls that stop the node and set its
  faults.  The \<^emph>\<open>control plane\<close> (\<open>cmd/controlplane\<close>,
  \<open>internal/controlplane\<close>) keeps the clusters (\<open>internal/cluster\<close>) and the metrics sessions (\<open>internal/metrics\<close>) behind a service; an
  actor runs one command at a time against it and manages the processes of the nodes.  Commands come as text, from the
  command listener and its client \<open>cmd/cpcli\<close>, from the configuration file, and from compiled experiments
  (\<open>internal/experiment\<close>), or as HTTP requests.  Nodes register with the control plane, fetch their peers from it,
  report logs to it, and are called by it for key-value operations, swaps and faults.

  \<^bold>\<open>Foundations.\<close>
  \<^item> \<open>Prelude\<close>: Go maps as association lists whose order is the iteration order of a \<open>range\<close> loop, \<open>int64\<close> arithmetic with its
    wrap-around, saturating time differences, the locales \<open>keyed_store\<close> and \<open>locked_component\<close>.
  \<^item> \<open>GoStrings\<close>, \<open>GoFlags\<close>: the parts of \<open>strings\<close>, \<open>strconv\<close> and \<open>flag\<close> the programs use, with the round trips of printing and parsing.

  \<^bold>\<open>The node.\<close>
  \<^item> \<open>Fault\<close> (\<open>internal/fault\<close>): the engine and its four decisions; after any history of commands they depend only on the last
    command of each kind.
  \<^item> \<open>Messages\<close>, \<open>Registry\<close>, \<open>ClusterProtocol\<close> (\<open>internal/node/protocol\<close>): envelopes and payloads, the table of protocols, and
    the interface of a protocol as a locale, interpreted for gossip and baseline.
  \<^item> \<open>Conflict\<close>, \<open>Gossip\<close>, \<open>GossipSync\<close>, \<open>GossipNet\<close>, \<open>Convergence\<close> (\<open>internal/node/protocol/gossip\<close>): the order on vector clocks and the
    acceptance decision; local reads and writes, ticks and message handling; the merge loop against a per-key
    specification and the digest exchange; a network of nodes that may lose, repeat and reorder messages, with
    reachability and the invariant that no value is made up or rolled back; and agreement of replicas that received the
    same values, with the runs that show why it needs timestamps that follow causality: otherwise an overwritten value returns.
  \<^item> \<open>Baseline\<close> (\<open>internal/node/protocol/baseline\<close>): the failure detector and the exact life of a silent peer.
  \<^item> \<open>NodeConfig\<close>, \<open>Session\<close>, \<open>Runtime\<close>, \<open>NodeServer\<close> (\<open>config.go\<close>, \<open>session\<close>, \<open>runtime\<close>, \<open>server.go\<close>): peer lists, the sessions to peers and control
    plane with the requests they build, the reactor with its events, and the gRPC handlers; a crash isolates a node up to its log
    lines and the two calls that are not gated, a partition cuts a link in both directions, and fault parameters are applied
    wholly or not at all.  The handshakes a send or a probe makes are functions of their own (\<open>send_handshakes\<close>, \<open>probe_handshakes\<close>) beside the
    ones that return envelopes and pings.
  \<^item> \<open>Logger\<close> (\<open>runtime/logger.go\<close>): a line is a format; what \<open>fmt\<close> makes of a text with percent signs and no arguments is written out.
  \<^item> \<open>NodeMain\<close>, \<open>NodeMainSpec\<close>, \<open>NodeBoot\<close> (\<open>cmd/node\<close>, \<open>internal/node/config\<close>, \<open>Runtime.Start\<close>): the configuration file and its round
    trip, what the arguments of the process become, and the node's way into its cluster.

  \<^bold>\<open>The control plane.\<close>
  \<^item> \<open>ClusterManager\<close> (\<open>internal/cluster\<close>): clusters, nodes, heartbeats and the clean-up pass, with the manager's invariant.
  \<^item> \<open>Metrics\<close>, \<open>MetricsSessions\<close> (\<open>internal/metrics\<close>): the computed measures against declarative definitions; bounded session histories.
  \<^item> \<open>Service\<close>, \<open>ServiceSteps\<close>, \<open>ServiceSpec\<close>, \<open>ServiceNodes\<close>, \<open>ControlRPC\<close> (\<open>service\<close>, \<open>rpc\<close>, \<open>session\<close>): every method of the service; its
    invariant for calls that come one after the other; waiting for convergence; calls to nodes through a locale of node operators,
    interpreted by the client that reaches the node model itself, so that put, get and the convergence check are proved
    end to end; the server the nodes call.
  \<^item> \<open>CommandParser\<close>, \<open>Experiment\<close>, \<open>Actor\<close>, \<open>ActorSpec\<close>, \<open>Hypothesis\<close> (\<open>parser.go\<close>, \<open>internal/experiment\<close>, \<open>actor.go\<close>): text commands and their round trip; the
    compilation of experiments to such texts; one turn of the actor per command, its invariant between turns, and the end of a
    hypothesis run.
  \<^item> \<open>Sections\<close>: the goroutines of the control plane interleaved.  The atomic steps are the regions under a lock in \<open>service.go\<close>, \<open>actor.go\<close>, the
    manager and the session manager; the invariant that holds after any sequence of them, and that every turn and every
    call is such a sequence.  That exactly the active sessions have a sampler is not part of it: a stop can overtake a start.
  \<^item> \<open>Rest\<close>, \<open>RestSpec\<close> (\<open>rest/server.go\<close>), \<open>CommandListener\<close>, \<open>CommandListenerSpec\<close> (\<open>command_listener.go\<close>), \<open>Client\<close> (\<open>cmd/cpcli\<close>), \<open>Bootstrap\<close>
    (\<open>cmd/controlplane\<close>, \<open>internal/engine\<close>): the ways in.  A locale \<open>front_end\<close> states what an interface to the actor is; the REST
    server, behind the path cleaning and routing of \<open>http.ServeMux\<close>, and the text commands are both interpreted and agree.  The listener is guarded, its tables and summaries say
    what the state says, a client session runs what was typed, and the entries of the configuration
    file become the nodes they describe, or are refused when their peer list is not one word.

  \<^bold>\<open>How code becomes definitions.\<close>  A struct is a record, a method or handler is one function from
  the old to the new state and the result, as it runs undisturbed (its separately locked regions are the steps of \<open>Sections\<close>); a Go error is the left side of a sum or an option, a panic is \<open>None\<close>.  Randomness,
  the clock, the network's answers, the process table, the file system and what other goroutines do in between are
  arguments.  Libraries that are not in the repository are arguments too: protobuf and YAML encodings,
  \<open>strconv.ParseFloat\<close>, \<open>time.ParseDuration\<close>; theorems name the round trips they rely on and have witnesses with concrete
  functions.

  \<^bold>\<open>Loops and fuel.\<close>  Every loop is a total function on the list it walks or on the list of inputs it is fed, but for one: waiting
  for convergence polls for as long as it is told to and is a \<open>partial_function\<close> whose result is proved to exist when each sleep
  lasts its second.  No definition has a fuel argument.  Where the code promises something after some rounds, as for the
  gossip peers that are marked for a sync or a silent baseline peer, the number of rounds is part of the theorem.

  \<^bold>\<open>Not modelled.\<close>  Opening and closing sockets, signals and graceful shutdown (\<open>main\<close> functions, \<open>internal/engine/controlplane.go\<close>): wiring of
  parts that are modelled.  Human-readable log lines, the gossip log file, colours and the help text of \<open>cpcli\<close>.  \<open>internal/transport\<close>, which nothing
  uses, the interfaces of \<open>protocol.go\<close>, generated protobuf code, and the web front end.  Texts with Unicode white space are
  outside the string model, and cells with vertical tabs or escapes outside that of the tables.
\<close>

end
